(* ===== verification/Prelude.thy ===== *)
theory Prelude
  imports Main "HOL-Library.Multiset"
begin

text \<open>
  The vocabulary every component of the development shares: results and the question-mark
  operator, Rust's byte-string operations on HOL strings, unsigned 64-bit arithmetic with its
  wrap-around written out, and the generic list lemmas the component proofs use.

  A Rust \<^verbatim>\<open>str\<close> is its UTF-8 byte sequence, one \<open>char\<close> per byte, so
  lengths and indices below count bytes as the source does.
\<close>

named_theorems str_simps \<open>equations of the string operations\<close>
named_theorems u64_simps \<open>64-bit arithmetic that does not wrap\<close>

section \<open>Results\<close>

type_synonym ('e, 'a) result = "'e + 'a"

abbreviation Err :: "'e \<Rightarrow> ('e, 'a) result" where
  "Err \<equiv> Inl"

abbreviation Ok :: "'a \<Rightarrow> ('e, 'a) result" where
  "Ok \<equiv> Inr"

text \<open>The question-mark operator: stop at the first error, continue with the value.\<close>

definition and_then :: "('e, 'a) result \<Rightarrow> ('a \<Rightarrow> ('e, 'b) result) \<Rightarrow> ('e, 'b) result" where
  "and_then r f = (case r of Inl e \<Rightarrow> Inl e | Inr x \<Rightarrow> f x)"

definition is_ok :: "('e, 'a) result \<Rightarrow> bool" where
  "is_ok r = (case r of Inl _ \<Rightarrow> False | Inr _ \<Rightarrow> True)"

lemma and_then_simps [simp]:
  "and_then (Inl e) f = Inl e"
  "and_then (Inr x) f = f x"
  by (simp_all add: and_then_def)

lemma is_ok_simps [simp]: "is_ok (Inl e) = False" "is_ok (Inr x) = True"
  by (simp_all add: is_ok_def)

lemma and_then_eq_Inr:
  "and_then r f = Inr y \<longleftrightarrow> (\<exists>x. r = Inr x \<and> f x = Inr y)"
  by (cases r) auto

lemma and_then_eq_Inl:
  "and_then r f = Inl e \<longleftrightarrow> r = Inl e \<or> (\<exists>x. r = Inr x \<and> f x = Inl e)"
  by (cases r) auto

text \<open>\<^verbatim>\<open>iter().collect::<Result<Vec<_>>>()\<close>: the first error in list order, or all values.\<close>

fun collect_results :: "('e, 'a) result list \<Rightarrow> ('e, 'a list) result" where
  "collect_results [] = Inr []"
| "collect_results (r # rs) =
     and_then r (\<lambda>x. and_then (collect_results rs) (\<lambda>xs. Inr (x # xs)))"

lemma collect_results_Inr:
  "collect_results rs = Inr xs \<longleftrightarrow> rs = map Inr xs"
proof (induction rs arbitrary: xs)
  case Nil
  then show ?case by auto
next
  case (Cons r rs)
  then show ?case by (cases r; cases xs) (auto simp: and_then_eq_Inr)
qed

lemma collect_results_map_Inr [simp]: "collect_results (map (\<lambda>x. Inr (f x)) xs) = Inr (map f xs)"
  by (simp add: collect_results_Inr)

definition unwrap_or :: "'a \<Rightarrow> 'a option \<Rightarrow> 'a" where
  "unwrap_or d x = (case x of None \<Rightarrow> d | Some v \<Rightarrow> v)"

lemma unwrap_or_simps [simp]: "unwrap_or d None = d" "unwrap_or d (Some v) = v"
  by (simp_all add: unwrap_or_def)

section \<open>Byte strings\<close>

text \<open>\<^verbatim>\<open>str::starts_with\<close>, \<^verbatim>\<open>ends_with\<close>, \<^verbatim>\<open>strip_prefix\<close>, \<^verbatim>\<open>strip_suffix\<close>.\<close>

fun starts_with :: "string \<Rightarrow> string \<Rightarrow> bool" where
  "starts_with s [] = True"
| "starts_with [] (p # ps) = False"
| "starts_with (c # s) (p # ps) = (c = p \<and> starts_with s ps)"

definition ends_with :: "string \<Rightarrow> string \<Rightarrow> bool" where
  "ends_with s p = starts_with (rev s) (rev p)"

definition strip_prefix :: "string \<Rightarrow> string \<Rightarrow> string option" where
  "strip_prefix s p = (if starts_with s p then Some (drop (length p) s) else None)"

definition strip_suffix :: "string \<Rightarrow> string \<Rightarrow> string option" where
  "strip_suffix s p = (if ends_with s p then Some (take (length s - length p) s) else None)"

lemma starts_with_iff: "starts_with s p \<longleftrightarrow> (\<exists>t. s = p @ t)"
  by (induction s p rule: starts_with.induct) auto

lemma ends_with_iff: "ends_with s p \<longleftrightarrow> (\<exists>t. s = t @ p)"
proof -
  have "ends_with s p \<longleftrightarrow> (\<exists>t. rev s = rev p @ t)"
    by (simp add: ends_with_def starts_with_iff)
  also have "\<dots> \<longleftrightarrow> (\<exists>t. s = t @ p)"
    by (metis rev_append rev_rev_ident)
  finally show ?thesis .
qed

lemma starts_with_append [simp]: "starts_with (p @ t) p"
  by (auto simp: starts_with_iff)

lemma starts_with_self [simp]: "starts_with p p"
  by (auto simp: starts_with_iff)

lemma ends_with_append [simp]: "ends_with (t @ p) p"
  by (auto simp: ends_with_iff)

lemma strip_prefix_Some: "strip_prefix s p = Some t \<longleftrightarrow> s = p @ t"
  by (auto simp: strip_prefix_def starts_with_iff)

lemma strip_prefix_append [simp]: "strip_prefix (p @ t) p = Some t"
  by (simp add: strip_prefix_Some)

lemma strip_suffix_Some: "strip_suffix s p = Some t \<longleftrightarrow> s = t @ p"
  by (auto simp: strip_suffix_def ends_with_iff)

lemma strip_suffix_append [simp]: "strip_suffix (t @ p) p = Some t"
  by (simp add: strip_suffix_Some)

text \<open>
  \<^verbatim>\<open>str::find\<close> and \<^verbatim>\<open>str::rfind\<close> with a character predicate: the byte index of the first,
  of the last match. Every predicate of the source tests ASCII characters, for which bytes
  and characters agree.
\<close>

fun find_char :: "(char \<Rightarrow> bool) \<Rightarrow> string \<Rightarrow> nat option" where
  "find_char P [] = None"
| "find_char P (c # s) = (if P c then Some 0 else map_option Suc (find_char P s))"

fun rfind_char :: "(char \<Rightarrow> bool) \<Rightarrow> string \<Rightarrow> nat option" where
  "rfind_char P [] = None"
| "rfind_char P (c # s) =
     (case rfind_char P s of
        Some i \<Rightarrow> Some (Suc i)
      | None \<Rightarrow> if P c then Some 0 else None)"

lemma find_char_None: "find_char P s = None \<longleftrightarrow> (\<forall>c \<in> set s. \<not> P c)"
  by (induction s) auto

lemma find_char_Some:
  "find_char P s = Some i \<Longrightarrow>
     i < length s \<and> P (s ! i) \<and> (\<forall>c \<in> set (take i s). \<not> P c)"
proof (induction s arbitrary: i)
  case Nil
  then show ?case by simp
next
  case (Cons c s)
  then show ?case by (cases "P c") auto
qed

lemma find_char_append:
  "(\<forall>c \<in> set a. \<not> P c) \<Longrightarrow> P c \<Longrightarrow> find_char P (a @ c # b) = Some (length a)"
  by (induction a) auto

lemma rfind_char_None: "rfind_char P s = None \<longleftrightarrow> (\<forall>c \<in> set s. \<not> P c)"
  by (induction s) (auto split: option.splits)

lemma rfind_char_Some:
  "rfind_char P s = Some i \<Longrightarrow>
     i < length s \<and> P (s ! i) \<and> (\<forall>c \<in> set (drop (Suc i) s). \<not> P c)"
proof (induction s arbitrary: i)
  case Nil
  then show ?case by simp
next
  case (Cons c s)
  then show ?case
    by (auto split: option.splits if_splits simp: rfind_char_None)
qed

lemma rfind_char_append:
  "(\<forall>d \<in> set b. \<not> P d) \<Longrightarrow> P c \<Longrightarrow> rfind_char P (a @ c # b) = Some (length a)"
proof (induction a)
  case Nil
  then have "rfind_char P b = None" by (simp add: rfind_char_None)
  with Nil show ?case by simp
next
  case (Cons x a)
  then show ?case by simp
qed

text \<open>\<^verbatim>\<open>str::find\<close> with a string, \<^verbatim>\<open>contains\<close> and \<^verbatim>\<open>split_once\<close>.\<close>

fun find_sub :: "string \<Rightarrow> string \<Rightarrow> nat option" where
  "find_sub pat [] = (if pat = [] then Some 0 else None)"
| "find_sub pat (c # s) =
     (if starts_with (c # s) pat then Some 0 else map_option Suc (find_sub pat s))"

definition contains_str :: "string \<Rightarrow> string \<Rightarrow> bool" where
  "contains_str s pat = (find_sub pat s \<noteq> None)"

definition split_once :: "string \<Rightarrow> string \<Rightarrow> (string \<times> string) option" where
  "split_once s pat =
     map_option (\<lambda>i. (take i s, drop (i + length pat) s)) (find_sub pat s)"

lemma find_sub_Some:
  "find_sub pat s = Some i \<Longrightarrow> s = take i s @ pat @ drop (i + length pat) s"
proof (induction pat s arbitrary: i rule: find_sub.induct)
  case (1 pat)
  then show ?case by (auto split: if_splits)
next
  case (2 pat c s)
  show ?case
  proof (cases "starts_with (c # s) pat")
    case True
    then obtain t where t: "c # s = pat @ t" by (auto simp: starts_with_iff)
    from 2 True have "i = 0" by simp
    with t show ?thesis by simp
  next
    case False
    with 2 obtain j where j: "find_sub pat s = Some j" "i = Suc j"
      by auto
    with "2.IH" [OF False j(1)] show ?thesis by simp
  qed
qed

lemma find_sub_None_iff: "find_sub pat s = None \<longleftrightarrow> (\<nexists>a b. s = a @ pat @ b)"
proof (induction pat s rule: find_sub.induct)
  case (1 pat)
  then show ?case by auto
next
  case (2 pat c s)
  show ?case
  proof (cases "starts_with (c # s) pat")
    case True
    then have "\<exists>a b. c # s = a @ pat @ b"
      by (metis append_Nil starts_with_iff)
    with True show ?thesis by simp
  next
    case False
    have "(\<exists>a b. c # s = a @ pat @ b) \<longleftrightarrow> (\<exists>a b. s = a @ pat @ b)"
      using False by (metis append_Cons append_Nil list.sel(3) starts_with_iff neq_Nil_conv)
    with False "2.IH" show ?thesis by simp
  qed
qed

lemma contains_str_iff: "contains_str s pat \<longleftrightarrow> (\<exists>a b. s = a @ pat @ b)"
  using find_sub_None_iff by (simp add: contains_str_def)

lemma split_once_Some:
  "split_once s pat = Some (a, b) \<Longrightarrow> s = a @ pat @ b"
  using find_sub_Some by (fastforce simp: split_once_def)

lemma split_once_None: "split_once s pat = None \<longleftrightarrow> \<not> contains_str s pat"
  by (simp add: split_once_def contains_str_def)

text \<open>A one-character separator: the split is at its first occurrence.\<close>

lemma find_sub_single: "find_sub [c] s = find_char (\<lambda>d. d = c) s"
  by (induction s) auto

lemma split_once_single:
  assumes "c \<notin> set a"
  shows "split_once (a @ c # b) [c] = Some (a, b)"
proof -
  have "find_char (\<lambda>d. d = c) (a @ c # b) = Some (length a)"
    by (rule find_char_append) (use assms in auto)
  then show ?thesis by (simp add: split_once_def find_sub_single)
qed

lemma contains_str_single [simp]: "contains_str s [c] \<longleftrightarrow> c \<in> set s"
  by (auto simp: contains_str_def find_sub_single find_char_None)


text \<open>\<^verbatim>\<open>str::split\<close> with a one-character separator, and \<^verbatim>\<open>join\<close>.\<close>

fun split_on :: "char \<Rightarrow> string \<Rightarrow> string list" where
  "split_on d [] = [[]]"
| "split_on d (c # s) =
     (if c = d then [] # split_on d s
      else case split_on d s of x # xs \<Rightarrow> (c # x) # xs | [] \<Rightarrow> [[c]])"

fun join_with :: "string \<Rightarrow> string list \<Rightarrow> string" where
  "join_with sep [] = []"
| "join_with sep [x] = x"
| "join_with sep (x # y # xs) = x @ sep @ join_with sep (y # xs)"

lemma split_on_not_Nil [simp]: "split_on d s \<noteq> []"
  by (induction s) (auto split: list.splits)

lemma join_with_Cons:
  "xs \<noteq> [] \<Longrightarrow> join_with sep (x # xs) = x @ sep @ join_with sep xs"
  by (cases xs) auto

lemma join_split_on [simp]: "join_with [d] (split_on d s) = s"
proof (induction s)
  case Nil
  then show ?case by simp
next
  case (Cons c s)
  obtain x xs where x: "split_on d s = x # xs"
    by (cases "split_on d s") auto
  show ?case
  proof (cases "c = d")
    case True
    then show ?thesis using Cons by (simp add: join_with_Cons)
  next
    case False
    then show ?thesis using Cons x by (cases xs) auto
  qed
qed

lemma split_on_no_sep: "x \<in> set (split_on d s) \<Longrightarrow> d \<notin> set x"
proof (induction s arbitrary: x)
  case Nil
  then show ?case by simp
next
  case (Cons c s)
  then show ?case by (cases "split_on d s") (auto split: if_splits)
qed

lemma split_on_single: "d \<notin> set s \<Longrightarrow> split_on d s = [s]"
  by (induction s) auto

lemma split_on_append: "d \<notin> set x \<Longrightarrow> split_on d (x @ d # s) = x # split_on d s"
  by (induction x) auto

lemma split_on_join: "split_on c (a @ c # b) = split_on c a @ split_on c b"
proof (induction a)
  case Nil
  then show ?case by simp
next
  case (Cons x a)
  then show ?case by (cases "split_on c a") auto
qed

lemma last_split_on: "d \<notin> set b \<Longrightarrow> last (split_on d (a @ d # b)) = b"
  by (simp add: split_on_join split_on_single)

lemma split_join:
  "xs \<noteq> [] \<Longrightarrow> (\<forall>x \<in> set xs. d \<notin> set x) \<Longrightarrow> split_on d (join_with [d] xs) = xs"
proof (induction "[d]" xs rule: join_with.induct)
  case 1
  then show ?case by simp
next
  case (2 x)
  then show ?case by (simp add: split_on_single)
next
  case (3 x y xs)
  then show ?case by (simp add: split_on_append)
qed

text \<open>\<^verbatim>\<open>trim_start_matches\<close>, \<^verbatim>\<open>trim_end_matches\<close> and \<^verbatim>\<open>trim_matches\<close> of one ASCII character.\<close>

definition trim_start_matches :: "char \<Rightarrow> string \<Rightarrow> string" where
  "trim_start_matches c s = dropWhile (\<lambda>d. d = c) s"

definition trim_end_matches :: "char \<Rightarrow> string \<Rightarrow> string" where
  "trim_end_matches c s = rev (dropWhile (\<lambda>d. d = c) (rev s))"

definition trim_matches :: "char \<Rightarrow> string \<Rightarrow> string" where
  "trim_matches c s = trim_end_matches c (trim_start_matches c s)"

lemma trim_end_matches_append:
  "\<exists>n. s = trim_end_matches c s @ replicate n c"
proof (induction s rule: rev_induct)
  case Nil
  then show ?case by (simp add: trim_end_matches_def)
next
  case (snoc x xs)
  then obtain n where n: "xs = trim_end_matches c xs @ replicate n c" by blast
  show ?case
  proof (cases "x = c")
    case True
    have "xs @ [c] = trim_end_matches c xs @ replicate n c @ [c]"
      using n by (metis append.assoc)
    also have "\<dots> = trim_end_matches c (xs @ [x]) @ replicate (Suc n) c"
      using True by (simp add: trim_end_matches_def replicate_append_same)
    finally show ?thesis using True by blast
  next
    case False
    then show ?thesis by (simp add: trim_end_matches_def)
  qed
qed

lemma trim_end_matches_id: "\<not> ends_with s [c] \<Longrightarrow> trim_end_matches c s = s"
proof (cases s rule: rev_cases)
  case Nil
  then show ?thesis by (simp add: trim_end_matches_def)
next
  case (snoc ys y)
  moreover assume "\<not> ends_with s [c]"
  ultimately have "y \<noteq> c" by auto
  with snoc show ?thesis by (simp add: trim_end_matches_def)
qed

text \<open>\<^verbatim>\<open>str::replace\<close> of a non-empty pattern: left to right, without overlaps.\<close>

fun replace_str :: "string \<Rightarrow> string \<Rightarrow> string \<Rightarrow> string" where
  "replace_str pat rep [] = []"
| "replace_str pat rep (c # s) =
     (if pat \<noteq> [] \<and> starts_with (c # s) pat
      then rep @ replace_str pat rep (drop (length pat - 1) s)
      else c # replace_str pat rep s)"

section \<open>Unsigned 64-bit arithmetic\<close>

text \<open>
  A \<^verbatim>\<open>u64\<close> is a natural number below \<open>2 ^ 64\<close>; the wrap-around of the release build's
  \<open>+\<close>, \<open>-\<close> and \<open>*\<close> is written out.
\<close>

abbreviation u64_lim :: nat where
  "u64_lim \<equiv> 18446744073709551616"

abbreviation u64_max :: nat where
  "u64_max \<equiv> 18446744073709551615"

definition u64_add :: "nat \<Rightarrow> nat \<Rightarrow> nat" where
  "u64_add a b = (a + b) mod u64_lim"

definition u64_mul :: "nat \<Rightarrow> nat \<Rightarrow> nat" where
  "u64_mul a b = (a * b) mod u64_lim"

definition u64_sub :: "nat \<Rightarrow> nat \<Rightarrow> nat" where
  "u64_sub a b = (a + u64_lim - b) mod u64_lim"

definition u64_sat_add :: "nat \<Rightarrow> nat \<Rightarrow> nat" where
  "u64_sat_add a b = min (a + b) u64_max"

definition u64_sat_mul :: "nat \<Rightarrow> nat \<Rightarrow> nat" where
  "u64_sat_mul a b = min (a * b) u64_max"

definition div_ceil :: "nat \<Rightarrow> nat \<Rightarrow> nat" where
  "div_ceil a b = (a div b) + (if a mod b = 0 then 0 else 1)"

lemma u64_add_eq [u64_simps]: "a + b < u64_lim \<Longrightarrow> u64_add a b = a + b"
  by (simp add: u64_add_def)

lemma u64_mul_eq [u64_simps]: "a * b < u64_lim \<Longrightarrow> u64_mul a b = a * b"
  by (simp add: u64_mul_def)

lemma u64_sub_eq [u64_simps]: "b \<le> a \<Longrightarrow> a < u64_lim \<Longrightarrow> u64_sub a b = a - b"
proof -
  assume "b \<le> a" "a < u64_lim"
  then have "a + u64_lim - b = (a - b) + u64_lim" by simp
  then have "u64_sub a b = (a - b) mod u64_lim"
    unfolding u64_sub_def by (simp only: mod_add_self2)
  with \<open>a < u64_lim\<close> show ?thesis by simp
qed

lemma div_ceil_ge: "0 < b \<Longrightarrow> a \<le> div_ceil a b * b"
proof -
  assume b: "0 < b"
  have a: "a = a div b * b + a mod b" by simp
  have m: "a mod b < b" using b by simp
  show ?thesis
  proof (cases "a mod b = 0")
    case True
    then have "div_ceil a b * b = a div b * b" by (simp add: div_ceil_def)
    with a True show ?thesis by linarith
  next
    case False
    then have "div_ceil a b * b = a div b * b + b" by (simp add: div_ceil_def)
    with a m show ?thesis by linarith
  qed
qed

lemma div_ceil_less: "0 < b \<Longrightarrow> i < div_ceil a b \<longleftrightarrow> i * b < a"
proof -
  assume b: "0 < b"
  have a: "a = a div b * b + a mod b" by simp
  have m: "a mod b < b" using b by simp
  show ?thesis
  proof
    assume "i < div_ceil a b"
    then have "i \<le> a div b" "a mod b = 0 \<Longrightarrow> i < a div b"
      by (auto simp: div_ceil_def split: if_splits)
    show "i * b < a"
    proof (cases "a mod b = 0")
      case True
      with \<open>a mod b = 0 \<Longrightarrow> i < a div b\<close> have "Suc i * b \<le> a div b * b"
        by (intro mult_right_mono) auto
      with b a True show ?thesis by simp
    next
      case False
      have "i * b \<le> a div b * b" using \<open>i \<le> a div b\<close> by simp
      with a False show ?thesis by linarith
    qed
  next
    assume i: "i * b < a"
    also have "a \<le> div_ceil a b * b" using b by (rule div_ceil_ge)
    finally show "i < div_ceil a b" by simp
  qed
qed

section \<open>Order-independent folds\<close>

text \<open>
  Concurrent tasks that complete in any order are modelled as the list of their completions.
  When completions of different tasks commute, the final state depends on their set only.
\<close>

locale commuting_steps =
  fixes apply_step :: "'i \<Rightarrow> 's \<Rightarrow> 's"
    and indep :: "'i \<Rightarrow> 'i \<Rightarrow> bool"
  assumes steps_commute: "indep x y \<Longrightarrow> apply_step x (apply_step y s) = apply_step y (apply_step x s)"
begin

lemma step_past_fold:
  "(\<forall>y \<in> set ys. indep x y) \<Longrightarrow> fold apply_step ys (apply_step x s) = apply_step x (fold apply_step ys s)"
proof (induction ys arbitrary: s)
  case Nil
  then show ?case by simp
next
  case (Cons y ys)
  from Cons.prems have "apply_step y (apply_step x s) = apply_step x (apply_step y s)"
    using steps_commute by (metis list.set_intros(1))
  with Cons show ?case by simp
qed

text \<open>Any two completion orders of the same pairwise independent tasks agree.\<close>

lemma any_completion_order:
  "mset xs = mset ys \<Longrightarrow> (\<forall>x \<in> set xs. \<forall>y \<in> set xs. x \<noteq> y \<longrightarrow> indep x y) \<Longrightarrow> distinct xs
     \<Longrightarrow> fold apply_step xs s = fold apply_step ys s"
proof (induction xs arbitrary: ys s)
  case Nil
  then show ?case by simp
next
  case (Cons x xs)
  from Cons.prems(1) have "x \<in> set ys" by (metis list.set_intros(1) set_mset_mset)
  then obtain as bs where ys: "ys = as @ x # bs" by (auto simp: in_set_conv_decomp)
  with Cons.prems(1) have ms: "mset xs = mset (as @ bs)" by simp
  then have set_eq: "set xs = set (as @ bs)" by (metis set_mset_mset)
  have "\<forall>y \<in> set as. indep x y"
    using Cons.prems set_eq by (metis UnCI distinct.simps(2) list.set_intros set_append)
  then have "fold apply_step ys s = fold apply_step (as @ bs) (apply_step x s)"
    by (simp add: ys step_past_fold [symmetric])
  moreover have "fold apply_step xs (apply_step x s) = fold apply_step (as @ bs) (apply_step x s)"
    using Cons.IH [OF ms] Cons.prems by simp
  ultimately show ?case by simp
qed

end

end
