(* ===== verification/Text.thy ===== *)
theory Text
  imports Prelude
begin

text \<open>
  Rust text on top of byte strings: the characters of a UTF-8 string, white space and lines,
  ASCII case, decimal numbers.
\<close>

section \<open>Characters of a byte string\<close>

text \<open>
  A \<^verbatim>\<open>str\<close> is a sequence of Unicode scalar values, each a lead byte with its continuation
  bytes. \<open>rust_str\<close> says that every lead byte has the continuation bytes it announces, which
  holds of every \<^verbatim>\<open>str\<close>.
\<close>

definition byte_of :: "char \<Rightarrow> nat" where
  "byte_of c = of_char c"

definition is_cont :: "char \<Rightarrow> bool" where
  "is_cont c \<longleftrightarrow> 128 \<le> byte_of c \<and> byte_of c < 192"

definition utf8_width :: "char \<Rightarrow> nat" where
  "utf8_width c =
     (let b = byte_of c in
      if b < 128 then 1
      else if 194 \<le> b \<and> b < 224 then 2
      else if 224 \<le> b \<and> b < 240 then 3
      else if 240 \<le> b \<and> b < 245 then 4
      else 0)"

lemma length_dropWhile_less [termination_simp]: "length (dropWhile P xs) < Suc (length xs)"
  by (simp add: length_dropWhile_le less_Suc_eq_le)

fun chars :: "string \<Rightarrow> string list" where
  "chars [] = []"
| "chars (c # s) = (c # takeWhile is_cont s) # chars (dropWhile is_cont s)"

definition rust_str :: "string \<Rightarrow> bool" where
  "rust_str s = list_all (\<lambda>u. length u = utf8_width (hd u)) (chars s)"

definition starts_cont :: "string \<Rightarrow> bool" where
  "starts_cont s = (case s of [] \<Rightarrow> False | c # _ \<Rightarrow> is_cont c)"

lemma concat_chars [simp]: "concat (chars s) = s"
  by (induction s rule: chars.induct) simp_all

lemma chars_Nil_iff [simp]: "chars s = [] \<longleftrightarrow> s = []"
  by (cases s) simp_all

lemma chars_inj: "chars s = chars t \<Longrightarrow> s = t"
  by (metis concat_chars)

lemma cont_width [simp]: "is_cont c \<Longrightarrow> utf8_width c = 0"
  by (simp add: is_cont_def utf8_width_def Let_def)

lemma rust_str_not_cont: "rust_str s \<Longrightarrow> \<not> starts_cont s"
  by (cases s) (auto simp: rust_str_def starts_cont_def)

lemma takeWhile_append_stop: "\<not> starts_cont t \<Longrightarrow> takeWhile is_cont (s @ t) = takeWhile is_cont s"
  by (induction s) (auto simp: starts_cont_def split: list.splits)

lemma dropWhile_append_stop: "\<not> starts_cont t \<Longrightarrow> dropWhile is_cont (s @ t) = dropWhile is_cont s @ t"
  by (induction s) (auto simp: starts_cont_def split: list.splits)

lemma chars_append: "\<not> starts_cont t \<Longrightarrow> chars (s @ t) = chars s @ chars t"
  by (induction s rule: chars.induct) (simp_all add: takeWhile_append_stop dropWhile_append_stop)

text \<open>A well-formed string can be cut only between characters into well-formed parts.\<close>

lemma chars_head_cut:
  assumes "rust_str (c # s)" "rust_str (c # s @ t)"
  shows "takeWhile is_cont (s @ t) = takeWhile is_cont s"
proof -
  have "length (takeWhile is_cont (s @ t)) = length (takeWhile is_cont s)"
    using assms by (simp add: rust_str_def)
  note len = this
  show ?thesis
  proof (cases "\<forall>x \<in> set s. is_cont x")
    case True
    then have "takeWhile is_cont s = s" by (simp add: takeWhile_eq_all_conv)
    with len True show ?thesis by (metis append_Nil2 append_eq_append_conv takeWhile_append2)
  next
    case False
    then show ?thesis by (metis takeWhile_append1)
  qed
qed

lemma rust_str_cut: "rust_str s \<Longrightarrow> rust_str (s @ t) \<Longrightarrow> \<not> starts_cont t"
proof (induction s rule: chars.induct)
  case 1
  then show ?case by (simp add: rust_str_not_cont)
next
  case (2 c s)
  have take: "takeWhile is_cont (s @ t) = takeWhile is_cont s"
    using 2 by (intro chars_head_cut) simp_all
  have drop: "dropWhile is_cont (s @ t) = dropWhile is_cont s @ t"
    using take by (metis append.assoc append_same_eq same_append_eq takeWhile_dropWhile_id)
  have "rust_str (dropWhile is_cont s)" using 2 by (simp add: rust_str_def)
  moreover have "rust_str (dropWhile is_cont s @ t)"
    using 2 drop by (simp add: rust_str_def)
  ultimately show ?case using 2 by blast
qed

lemma chars_prefix:
  assumes "rust_str p" "rust_str k"
  shows "(\<exists>ts. chars k = chars p @ ts) \<longleftrightarrow> starts_with k p"
proof
  assume "\<exists>ts. chars k = chars p @ ts"
  then show "starts_with k p" by (metis concat_append concat_chars starts_with_append)
next
  assume "starts_with k p"
  then obtain t where "k = p @ t" by (auto simp: starts_with_iff)
  with assms show "\<exists>ts. chars k = chars p @ ts"
    using rust_str_cut chars_append by blast
qed

text \<open>An ASCII byte of a well-formed string is a character of its own.\<close>

lemma rust_str_ascii:
  assumes "rust_str s" "u \<in> set (chars s)" "c \<in> set u" "byte_of c < 128"
  shows "u = [c]"
  using assms
proof (induction s rule: chars.induct)
  case 1
  then show ?case by simp
next
  case (2 d s)
  have nc: "\<not> is_cont c" using 2 by (simp add: is_cont_def)
  have rest: "rust_str (dropWhile is_cont s)" using 2 by (simp add: rust_str_def)
  show ?case
  proof (cases "u = d # takeWhile is_cont s")
    case True
    with 2 nc have "c = d" by (auto dest: set_takeWhileD)
    with 2 True show ?thesis by (simp add: rust_str_def utf8_width_def)
  next
    case False
    with 2 rest show ?thesis by simp
  qed
qed

section \<open>White space and lines\<close>

text \<open>
  The Unicode \<^verbatim>\<open>White_Space\<close> characters, by their UTF-8 bytes: the ASCII ones, U+0085, U+00A0,
  U+1680, U+2000 to U+200A, U+2028, U+2029, U+202F, U+205F and U+3000.
\<close>

definition is_white :: "string \<Rightarrow> bool" where
  "is_white u \<longleftrightarrow>
     (let b = map byte_of u in
      (length b = 1 \<and> (9 \<le> b ! 0 \<and> b ! 0 \<le> 13 \<or> b ! 0 = 32))
      \<or> b = [0xC2, 0x85] \<or> b = [0xC2, 0xA0] \<or> b = [0xE1, 0x9A, 0x80]
      \<or> (length b = 3 \<and> b ! 0 = 0xE2 \<and> b ! 1 = 0x80 \<and>
            (0x80 \<le> b ! 2 \<and> b ! 2 \<le> 0x8A \<or> b ! 2 = 0xA8 \<or> b ! 2 = 0xA9 \<or> b ! 2 = 0xAF))
      \<or> b = [0xE2, 0x81, 0x9F] \<or> b = [0xE3, 0x80, 0x80])"

definition str_trim :: "string \<Rightarrow> string" where
  "str_trim s = concat (rev (dropWhile is_white (rev (dropWhile is_white (chars s)))))"

text \<open>
  \<^verbatim>\<open>str::lines\<close>: a line ends at a line feed, with a carriage return before it removed; a final
  line without line feed counts when it is not empty.
\<close>

definition chop_cr :: "string \<Rightarrow> string" where
  "chop_cr s = unwrap_or s (strip_suffix s [CHR 0x0D])"

definition str_lines :: "string \<Rightarrow> string list" where
  "str_lines s =
     (let parts = split_on (CHR 0x0A) s in
      map chop_cr (butlast parts) @ (if last parts = [] then [] else [last parts]))"

section \<open>ASCII case\<close>

definition ascii_lower :: "char \<Rightarrow> char" where
  "ascii_lower c = (if 65 \<le> byte_of c \<and> byte_of c \<le> 90 then char_of (byte_of c + 32) else c)"

definition to_ascii_lowercase :: "string \<Rightarrow> string" where
  "to_ascii_lowercase s = map ascii_lower s"

definition eq_ignore_ascii_case :: "string \<Rightarrow> string \<Rightarrow> bool" where
  "eq_ignore_ascii_case s t \<longleftrightarrow> to_ascii_lowercase s = to_ascii_lowercase t"

section \<open>Decimal numbers\<close>

definition is_digit :: "char \<Rightarrow> bool" where
  "is_digit c \<longleftrightarrow> 48 \<le> byte_of c \<and> byte_of c \<le> 57"

definition digit_val :: "char \<Rightarrow> nat" where
  "digit_val c = byte_of c - 48"

definition digits_val :: "string \<Rightarrow> nat" where
  "digits_val s = foldl (\<lambda>n c. 10 * n + digit_val c) 0 s"

text \<open>\<^verbatim>\<open>from_str\<close> of an unsigned number of the given maximum: an optional plus sign, then digits.\<close>

definition parse_unsigned :: "nat \<Rightarrow> string \<Rightarrow> nat option" where
  "parse_unsigned mx s =
     (let d = unwrap_or s (strip_prefix s ''+'') in
      if d \<noteq> [] \<and> list_all is_digit d \<and> digits_val d \<le> mx then Some (digits_val d) else None)"

fun show_nat :: "nat \<Rightarrow> string" where
  "show_nat n = (if n < 10 then [char_of (48 + n)] else show_nat (n div 10) @ [char_of (48 + n mod 10)])"

declare show_nat.simps [simp del]

lemma byte_of_char_of [simp]: "n < 256 \<Longrightarrow> byte_of (char_of n) = n"
  by (simp add: byte_of_def)

lemma digits_val_snoc: "digits_val (s @ [c]) = 10 * digits_val s + digit_val c"
  by (simp add: digits_val_def)

lemma show_nat_digits: "show_nat n \<noteq> [] \<and> list_all is_digit (show_nat n) \<and> digits_val (show_nat n) = n"
proof (induction n rule: show_nat.induct)
  case (1 n)
  show ?case
  proof (cases "n < 10")
    case True
    then show ?thesis
      by (subst (1 2 3) show_nat.simps) (simp add: is_digit_def digits_val_def digit_val_def)
  next
    case False
    have "byte_of (char_of (48 + n mod 10)) = 48 + n mod 10"
      by (rule byte_of_char_of) (use mod_less_divisor [of 10 n] in linarith)
    moreover have "n mod 10 < 10" by simp
    ultimately have "is_digit (char_of (48 + n mod 10))" "digit_val (char_of (48 + n mod 10)) = n mod 10"
      by (simp_all only: is_digit_def digit_val_def) auto
    then show ?thesis using 1 False
      by (subst (1 2 3) show_nat.simps) (simp add: digits_val_snoc)
  qed
qed

lemma digit_not_plus: "is_digit c \<Longrightarrow> c \<noteq> CHR ''+''"
  by (auto simp: is_digit_def byte_of_def)

lemma parse_show_unsigned: "n \<le> mx \<Longrightarrow> parse_unsigned mx (show_nat n) = Some n"
proof -
  assume "n \<le> mx"
  moreover obtain c cs where c: "show_nat n = c # cs" "is_digit c"
    using show_nat_digits [of n] by (cases "show_nat n") auto
  then have "strip_prefix (show_nat n) ''+'' = None"
    using digit_not_plus by (simp add: strip_prefix_def)
  ultimately show ?thesis using show_nat_digits [of n] by (simp add: parse_unsigned_def)
qed

text \<open>\<^verbatim>\<open>i64::from_str\<close>: an optional sign, then digits, within the range.\<close>

definition parse_i64 :: "string \<Rightarrow> int option" where
  "parse_i64 s =
     (let (neg, d) = (if starts_with s ''-'' then (True, drop 1 s)
                      else (False, unwrap_or s (strip_prefix s ''+''))) in
      if d \<noteq> [] \<and> list_all is_digit d \<and> digits_val d \<le> (if neg then 2 ^ 63 else 2 ^ 63 - 1)
      then Some (if neg then - int (digits_val d) else int (digits_val d)) else None)"

section \<open>UTF-8 decoding with replacement\<close>

text \<open>
  \<^verbatim>\<open>String::from_utf8_lossy\<close>: the first character of a non-empty byte string, as whether it is
  well formed and how many bytes it takes; an ill-formed one is the maximal prefix of a
  well-formed one and is replaced by U+FFFD.
\<close>

definition byte_at :: "string \<Rightarrow> nat \<Rightarrow> nat" where
  "byte_at s i = (if i < length s then byte_of (s ! i) else 0)"

definition in_range :: "nat \<Rightarrow> nat \<Rightarrow> nat \<Rightarrow> bool" where
  "in_range lo hi b \<longleftrightarrow> lo \<le> b \<and> b \<le> hi"

definition second_ok :: "nat \<Rightarrow> nat \<Rightarrow> bool" where
  "second_ok b0 b1 =
     (if b0 = 0xE0 then in_range 0xA0 0xBF b1
      else if b0 = 0xED then in_range 0x80 0x9F b1
      else if b0 = 0xF0 then in_range 0x90 0xBF b1
      else if b0 = 0xF4 then in_range 0x80 0x8F b1
      else in_range 0x80 0xBF b1)"

definition utf8_step :: "string \<Rightarrow> bool \<times> nat" where
  "utf8_step s =
     (let b0 = byte_at s 0; b1 = byte_at s 1; b2 = byte_at s 2; b3 = byte_at s 3;
          w = (if s = [] then 0 else utf8_width (hd s))
      in if w = 1 then (True, 1)
         else if w = 2 then (if second_ok b0 b1 then (True, 2) else (False, 1))
         else if w = 3 then
           (if \<not> second_ok b0 b1 then (False, 1)
            else if \<not> in_range 0x80 0xBF b2 then (False, 2) else (True, 3))
         else if w = 4 then
           (if \<not> second_ok b0 b1 then (False, 1)
            else if \<not> in_range 0x80 0xBF b2 then (False, 2)
            else if \<not> in_range 0x80 0xBF b3 then (False, 3) else (True, 4))
         else (False, 1))"

definition REPLACEMENT :: string where
  "REPLACEMENT = [char_of (0xEF :: nat), char_of (0xBF :: nat), char_of (0xBD :: nat)]"

lemma utf8_step_pos: "snd (utf8_step s) = Suc (snd (utf8_step s) - 1)"
  by (auto simp: utf8_step_def Let_def)

lemma utf8_step_shrinks: "(ok, n) = utf8_step s \<Longrightarrow> 0 < n"
  using utf8_step_pos [of s] by (metis snd_conv zero_less_Suc)

function utf8_lossy :: "string \<Rightarrow> string" where
  "utf8_lossy s =
     (if s = [] then []
      else case utf8_step s of
             (ok, n) \<Rightarrow> (if ok then take n s else REPLACEMENT) @ utf8_lossy (drop n s))"
  by pat_completeness auto
termination
  by (relation "measure length") (auto dest: utf8_step_shrinks)

declare utf8_lossy.simps [simp del]

text \<open>A well-formed string: every character of it is.\<close>

function utf8_valid :: "string \<Rightarrow> bool" where
  "utf8_valid s =
     (if s = [] then True
      else case utf8_step s of (ok, n) \<Rightarrow> ok \<and> utf8_valid (drop n s))"
  by pat_completeness auto
termination
  by (relation "measure length") (auto dest: utf8_step_shrinks)

declare utf8_valid.simps [simp del]

lemma utf8_lossy_valid: "utf8_valid s \<Longrightarrow> utf8_lossy s = s"
proof (induction s rule: utf8_valid.induct)
  case (1 s)
  show ?case
  proof (cases "s = []")
    case True
    then show ?thesis by (simp add: utf8_lossy.simps)
  next
    case False
    obtain ok n where st: "utf8_step s = (ok, n)" by (cases "utf8_step s")
    from "1.prems" False st have "ok" "utf8_valid (drop n s)" by (simp_all add: utf8_valid.simps [of s])
    with "1.IH" [OF False st [symmetric]] False st show ?thesis by (simp add: utf8_lossy.simps [of s])
  qed
qed

lemma utf8_valid_ascii: "(\<forall>c \<in> set s. byte_of c < 128) \<Longrightarrow> utf8_valid s"
proof (induction s)
  case (Cons c s)
  then have "utf8_step (c # s) = (True, 1)" by (simp add: utf8_step_def utf8_width_def)
  with Cons show ?case by (simp add: utf8_valid.simps [of "c # s"])
qed (simp add: utf8_valid.simps)

end
