(* ===== verification/Glob.thy ===== *)
theory Glob
  imports Text
begin

text \<open>
  Wildcard patterns (\<^verbatim>\<open>src/strutil.rs\<close>) over the \<^verbatim>\<open>regex\<close> crate. The crate is a parameter, the
  record \<open>regex_lib\<close>; the locale \<open>regex_engine\<close> states what its documentation promises on the
  fragment the program generates, and \<open>reference_engine\<close> is an instance of it.

  The theory shows that the text produced by \<open>wildcard_to_regexp\<close>, by escaping and two textual
  replacements, is the regular expression of the glob, so that matching is globbing over the
  characters of the key.
\<close>

section \<open>The regular expression library\<close>

text \<open>
  \<^verbatim>\<open>regex::escape\<close>, the error of \<^verbatim>\<open>Regex::new\<close> if any, and \<^verbatim>\<open>Regex::is_match\<close>. A compiled
  expression is represented by its text.
\<close>

record regex_lib =
  re_escape :: "string \<Rightarrow> string"
  re_error :: "string \<Rightarrow> string option"
  re_is_match :: "string \<Rightarrow> string \<Rightarrow> bool"

definition regex_new :: "regex_lib \<Rightarrow> string \<Rightarrow> (string, string) result" where
  "regex_new L p = (case re_error L p of None \<Rightarrow> Ok p | Some e \<Rightarrow> Err e)"

lemma regex_new_Ok: "regex_new L p = Inr r \<longleftrightarrow> re_error L p = None \<and> r = p"
  by (auto simp: regex_new_def split: option.splits)

text \<open>The documented meta characters, and escaping: each of them gets a backslash.\<close>

definition is_meta :: "char \<Rightarrow> bool" where
  "is_meta c \<longleftrightarrow> c \<in> set (CHR 0x5C # ''.+*?()|[]{}^$#&-~'')"

definition esc_char :: "char \<Rightarrow> string" where
  "esc_char c = (if is_meta c then [CHR 0x5C, c] else [c])"

definition escape_meta :: "string \<Rightarrow> string" where
  "escape_meta s = concat (map esc_char s)"

lemma escape_meta_simps [simp]:
  "escape_meta [] = []"
  "escape_meta (c # s) = esc_char c @ escape_meta s"
  "escape_meta (s @ t) = escape_meta s @ escape_meta t"
  by (simp_all add: escape_meta_def)

lemma escape_meta_concat: "escape_meta (concat us) = concat (map escape_meta us)"
  by (induction us) simp_all

text \<open>
  The expressions the program builds: literal characters, the dot and dot-star, between
  anchors and with the flag that lets the dot match newlines.
\<close>

datatype pat_item = Lit string | AnyChar | AnySeq

fun render_item :: "pat_item \<Rightarrow> string" where
  "render_item (Lit u) = escape_meta u"
| "render_item AnyChar = ''.''"
| "render_item AnySeq = ''.*''"

definition render :: "pat_item list \<Rightarrow> string" where
  "render its = concat (map render_item its)"

definition anchored :: "pat_item list \<Rightarrow> string" where
  "anchored its = ''(?s)^'' @ render its @ ''$''"

fun items_match :: "pat_item list \<Rightarrow> string list \<Rightarrow> bool" where
  "items_match [] ks = (ks = [])"
| "items_match (Lit u # its) ks = (ks \<noteq> [] \<and> hd ks = u \<and> items_match its (tl ks))"
| "items_match (AnyChar # its) ks = (ks \<noteq> [] \<and> items_match its (tl ks))"
| "items_match (AnySeq # its) [] = items_match its []"
| "items_match (AnySeq # its) (k # ks) = (items_match its (k # ks) \<or> items_match (AnySeq # its) ks)"

text \<open>A literal item is one character.\<close>

definition one_char :: "string \<Rightarrow> bool" where
  "one_char u \<longleftrightarrow> chars u = [u] \<and> rust_str u"

fun wf_item :: "pat_item \<Rightarrow> bool" where
  "wf_item (Lit u) = one_char u"
| "wf_item _ = True"

lemma wf_chars: "rust_str s \<Longrightarrow> u \<in> set (chars s) \<Longrightarrow> one_char u"
proof (induction s rule: chars.induct)
  case (2 c s)
  have "takeWhile is_cont (takeWhile is_cont s) = takeWhile is_cont s"
    "dropWhile is_cont (takeWhile is_cont s) = []"
    by (auto simp: takeWhile_eq_all_conv dest: set_takeWhileD)
  then have "chars (c # takeWhile is_cont s) = [c # takeWhile is_cont s]"
    by simp
  then have "one_char (c # takeWhile is_cont s)"
    using 2 unfolding one_char_def rust_str_def by (simp only: list.pred_inject chars.simps list.sel simp_thms)
  moreover have "rust_str (dropWhile is_cont s)" using 2 by (simp add: rust_str_def)
  ultimately show ?case using 2 by auto
qed simp

locale regex_engine =
  fixes L :: regex_lib
  assumes escape_doc: "re_escape L s = escape_meta s"
    and match_doc: "list_all wf_item its \<Longrightarrow> re_error L (anchored its) = None \<Longrightarrow>
          re_is_match L (anchored its) k = items_match its (chars k)"

section \<open>Globs\<close>

text \<open>
  The meaning of a wildcard pattern: \<^verbatim>\<open>?\<close> is any one character, \<^verbatim>\<open>*\<close> any sequence of them, every
  other character itself.
\<close>

fun glob :: "string list \<Rightarrow> string list \<Rightarrow> bool" where
  "glob [] ks = (ks = [])"
| "glob (p # ps) ks =
     (if p = ''*'' then list_ex (\<lambda>i. glob ps (drop i ks)) [0..<Suc (length ks)]
      else if p = ''?'' then ks \<noteq> [] \<and> glob ps (tl ks)
      else ks \<noteq> [] \<and> hd ks = p \<and> glob ps (tl ks))"

definition glob_item :: "string \<Rightarrow> pat_item" where
  "glob_item u = (if u = ''*'' then AnySeq else if u = ''?'' then AnyChar else Lit u)"

lemma items_match_AnySeq:
  "items_match (AnySeq # its) ks \<longleftrightarrow> (\<exists>i \<le> length ks. items_match its (drop i ks))"
proof (induction ks)
  case Nil
  then show ?case by simp
next
  case (Cons k ks)
  have "(\<exists>i \<le> length (k # ks). items_match its (drop i (k # ks))) \<longleftrightarrow>
      items_match its (k # ks) \<or> (\<exists>i \<le> length ks. items_match its (drop i ks))"
    (is "?l \<longleftrightarrow> ?r")
  proof
    assume ?l
    then obtain i where i: "i \<le> length (k # ks)" "items_match its (drop i (k # ks))" by blast
    then show ?r by (cases i) auto
  next
    assume ?r
    then show ?l by (metis Suc_le_mono drop0 drop_Suc_Cons le0 length_Cons)
  qed
  with Cons show ?case by simp
qed

lemma glob_star: "glob (''*'' # ps) ks \<longleftrightarrow> (\<exists>i \<le> length ks. glob ps (drop i ks))"
  by (simp add: list_ex_iff del: upt_Suc) (meson atLeastLessThan_iff le0 less_Suc_eq_le)

lemma items_match_glob: "items_match (map glob_item ps) ks \<longleftrightarrow> glob ps ks"
proof (induction ps arbitrary: ks)
  case Nil
  then show ?case by simp
next
  case (Cons p ps)
  show ?case
  proof (cases "p = ''*''")
    case True
    then have "items_match (map glob_item (p # ps)) ks \<longleftrightarrow> (\<exists>i \<le> length ks. glob ps (drop i ks))"
      by (simp add: glob_item_def [of "''*''"] items_match_AnySeq Cons)
    with True show ?thesis by (simp only: glob_star)
  next
    case False
    with Cons show ?thesis by (simp add: glob_item_def [of p])
  qed
qed

lemma wf_glob_items: "rust_str p \<Longrightarrow> list_all wf_item (map glob_item (chars p))"
  using wf_chars by (auto simp: list_all_iff glob_item_def)

lemma wf_lit_items: "rust_str p \<Longrightarrow> list_all wf_item (map Lit (chars p))"
  using wf_chars by (auto simp: list_all_iff)

lemma items_match_Lits:
  "items_match (map Lit us @ its) ks \<longleftrightarrow> (\<exists>ts. ks = us @ ts \<and> items_match its ts)"
proof (induction us arbitrary: ks)
  case Nil
  then show ?case by simp
next
  case (Cons u us)
  then show ?case by (cases ks) auto
qed

lemma items_match_prefix: "items_match (map Lit us @ [AnySeq]) ks \<longleftrightarrow> (\<exists>ts. ks = us @ ts)"
  by (auto simp: items_match_Lits items_match_AnySeq)

section \<open>From wildcards to regular expressions\<close>

definition wildcard_to_regexp :: "regex_lib \<Rightarrow> string \<Rightarrow> string" where
  "wildcard_to_regexp L pattern =
     (let quoted = re_escape L pattern
      in replace_str [CHR 0x5C, CHR ''*''] ''.*'' (replace_str [CHR 0x5C, CHR ''?''] ''.'' quoted))"

definition match_from_start_to_end :: "string \<Rightarrow> string" where
  "match_from_start_to_end pattern = ''^'' @ pattern @ ''$''"

definition add_newline_flag :: "string \<Rightarrow> string" where
  "add_newline_flag pattern = ''(?s)'' @ pattern"

text \<open>
  The two replacements act character by character: a backslash that escapes a backslash is
  never taken for the start of an escaped wildcard.
\<close>

definition esc_q :: "char \<Rightarrow> string" where
  "esc_q c = (if c = CHR ''?'' then ''.'' else esc_char c)"

definition esc_glob :: "char \<Rightarrow> string" where
  "esc_glob c = (if c = CHR ''*'' then ''.*'' else esc_q c)"

lemmas esc_defs = esc_glob_def esc_q_def esc_char_def is_meta_def

lemma esc_simps [simp]:
  "esc_char (CHR 0x5C) = [CHR 0x5C, CHR 0x5C]" "esc_char (CHR ''?'') = [CHR 0x5C, CHR ''?'']"
  "esc_q (CHR 0x5C) = [CHR 0x5C, CHR 0x5C]" "esc_q (CHR ''?'') = ''.''"
  "esc_q (CHR ''*'') = [CHR 0x5C, CHR ''*'']"
  "esc_glob (CHR 0x5C) = [CHR 0x5C, CHR 0x5C]" "esc_glob (CHR ''?'') = ''.''"
  "esc_glob (CHR ''*'') = ''.*''"
  by (simp_all add: esc_defs)

lemma no_head:
  assumes "\<forall>c. f c \<noteq> [] \<and> hd (f c) \<noteq> x"
  shows "\<not> starts_with (concat (map f s)) [x]"
proof (cases s)
  case Nil
  then show ?thesis by simp
next
  case (Cons c s)
  obtain d ds where d: "f c = d # ds" using assms by (meson neq_Nil_conv)
  then have "d \<noteq> x" using assms by (metis list.sel(1))
  with d Cons show ?thesis by simp
qed

lemma replace_question:
  "replace_str [CHR 0x5C, CHR ''?''] ''.'' (escape_meta s) = concat (map esc_q s)"
proof (induction s)
  case Nil
  then show ?case by simp
next
  case (Cons c s)
  have nh: "\<not> starts_with (escape_meta s) ''?''"
    unfolding escape_meta_def by (rule no_head) (simp add: esc_char_def is_meta_def)
  consider "c = CHR ''?''" | "c = CHR 0x5C" | "c \<noteq> CHR ''?''" "c \<noteq> CHR 0x5C" by blast
  then show ?case
  proof cases
    case 3
    then show ?thesis using Cons by (auto simp: esc_q_def esc_char_def)
  qed (use Cons nh in simp_all)
qed

lemma replace_star:
  "replace_str [CHR 0x5C, CHR ''*''] ''.*'' (concat (map esc_q s)) = concat (map esc_glob s)"
proof (induction s)
  case Nil
  then show ?case by simp
next
  case (Cons c s)
  have nh: "\<not> starts_with (concat (map esc_q s)) ''*''"
    by (rule no_head) (simp add: esc_defs)
  consider "c = CHR ''*''" | "c = CHR 0x5C" | "c = CHR ''?''"
    | "c \<noteq> CHR ''*''" "c \<noteq> CHR 0x5C" "c \<noteq> CHR ''?''" by blast
  then show ?case
  proof cases
    case 4
    then show ?thesis using Cons by (auto simp: esc_glob_def esc_q_def esc_char_def)
  qed (use Cons nh in simp_all)
qed

lemma concat_map_concat: "concat (map f (concat xss)) = concat (map (\<lambda>u. concat (map f u)) xss)"
  by (induction xss) simp_all

text \<open>On a well-formed pattern the text is that of the pattern's characters.\<close>

lemma esc_glob_chars:
  assumes "rust_str p"
  shows "concat (map esc_glob p) = render (map glob_item (chars p))"
proof -
  have "concat (map esc_glob u) = render_item (glob_item u)" if u: "u \<in> set (chars p)" for u
  proof (cases "CHR ''?'' \<in> set u \<or> CHR ''*'' \<in> set u")
    case True
    then obtain c where c: "c \<in> set u" "c = CHR ''?'' \<or> c = CHR ''*''" by blast
    then have "u = [c]"
      using rust_str_ascii [OF assms u c(1)] by (auto simp: byte_of_def)
    with c show ?thesis by (auto simp: glob_item_def esc_defs)
  next
    case False
    then have "esc_glob c = esc_char c" if "c \<in> set u" for c
      using that by (auto simp: esc_glob_def esc_q_def)
    then have "concat (map esc_glob u) = escape_meta u"
      unfolding escape_meta_def by (intro arg_cong [of _ _ concat] map_cong) auto
    with False show ?thesis by (auto simp: glob_item_def)
  qed
  then have eq: "map (\<lambda>u. concat (map esc_glob u)) (chars p) = map (\<lambda>u. render_item (glob_item u)) (chars p)"
    by simp
  have "concat (map esc_glob p) = concat (map esc_glob (concat (chars p)))" by simp
  also have "\<dots> = concat (map (\<lambda>u. concat (map esc_glob u)) (chars p))"
    by (rule concat_map_concat)
  also have "\<dots> = render (map glob_item (chars p))"
    unfolding eq by (simp add: render_def comp_def)
  finally show ?thesis .
qed

context regex_engine
begin

lemma wildcard_text: "wildcard_to_regexp L p = concat (map esc_glob p)"
  by (simp add: wildcard_to_regexp_def escape_doc replace_question replace_star Let_def)

lemma wildcard_render: "rust_str p \<Longrightarrow> wildcard_to_regexp L p = render (map glob_item (chars p))"
  by (simp add: wildcard_text esc_glob_chars)

lemma glob_regex_match:
  assumes "rust_str p"
    and "regex_new L (add_newline_flag (match_from_start_to_end (wildcard_to_regexp L p))) = Inr re"
  shows "re_is_match L re k \<longleftrightarrow> glob (chars p) (chars k)"
proof -
  have "re = anchored (map glob_item (chars p))" "re_error L re = None"
    using assms by (simp_all add: regex_new_Ok anchored_def wildcard_render add_newline_flag_def
        match_from_start_to_end_def)
  then show ?thesis
    using match_doc [OF wf_glob_items [OF assms(1)], of k] by (simp add: items_match_glob)
qed

end

section \<open>An engine for the fragment\<close>

fun parse_items :: "string \<Rightarrow> pat_item list" where
  "parse_items [] = []"
| "parse_items (c # s) =
     (if c = CHR 0x5C then
        (case s of [] \<Rightarrow> [Lit [c]] | d # s' \<Rightarrow> Lit [d] # parse_items s')
      else if c = CHR ''.'' then
        (case s of
           d # s' \<Rightarrow> if d = CHR ''*'' then AnySeq # parse_items s' else AnyChar # parse_items s
         | [] \<Rightarrow> [AnyChar])
      else Lit (c # takeWhile is_cont s) # parse_items (dropWhile is_cont s))"


definition unanchor :: "string \<Rightarrow> string" where
  "unanchor p = (case strip_prefix p ''(?s)^'' of
       None \<Rightarrow> p
     | Some q \<Rightarrow> (case strip_suffix q ''$'' of None \<Rightarrow> q | Some r \<Rightarrow> r))"

definition reference_engine :: regex_lib where
  "reference_engine =
     \<lparr>re_escape = escape_meta, re_error = (\<lambda>p. None),
      re_is_match = (\<lambda>p k. items_match (parse_items (unanchor p)) (chars k))\<rparr>"

lemma meta_ascii: "is_meta c \<Longrightarrow> byte_of c < 128"
  by (auto simp: is_meta_def byte_of_def)

lemma wf_lit_cases:
  assumes "wf_item (Lit u)"
  obtains c where "u = [c]" "is_meta c" "escape_meta u = [CHR 0x5C, c]"
  | c cs where "u = c # cs" "\<not> is_meta c" "\<not> is_cont c" "\<forall>x \<in> set cs. is_cont x" "escape_meta u = u"
proof (cases u)
  case Nil
  with assms show ?thesis by (simp add: one_char_def)
next
  case (Cons c cs)
  note assms = assms [unfolded wf_item.simps one_char_def]
  from assms Cons have cs: "takeWhile is_cont cs = cs" by simp
  then have all: "\<forall>x \<in> set cs. is_cont x" by (simp add: takeWhile_eq_all_conv)
  have nc: "\<not> is_cont c" using assms Cons rust_str_not_cont by (fastforce simp: starts_cont_def)
  show ?thesis
  proof (cases "is_meta c")
    case True
    then have "cs = []" using assms Cons meta_ascii [OF True] cs
      by (simp add: rust_str_def utf8_width_def)
    with True Cons that(1) show ?thesis by (simp add: esc_char_def)
  next
    case False
    have "x \<in> set cs \<Longrightarrow> \<not> is_meta x" for x
      using all meta_ascii by (fastforce simp: is_cont_def)
    then have "escape_meta cs = cs"
      by (induction cs) (simp_all add: esc_char_def)
    then have "escape_meta u = u" using Cons False by (simp add: esc_char_def)
    with Cons False nc all that(2) show ?thesis by blast
  qed
qed

lemma render_head:
  assumes "list_all wf_item its"
  shows "\<not> starts_cont (render its) \<and> \<not> starts_with (render its) ''*''"
proof (cases its)
  case Nil
  then show ?thesis by (simp add: render_def starts_cont_def)
next
  case (Cons i js)
  show ?thesis
  proof (cases i)
    case (Lit u)
    with assms Cons have "wf_item (Lit u)" by simp
    then show ?thesis
      by (cases rule: wf_lit_cases)
        (auto simp: Cons Lit render_def starts_cont_def is_cont_def byte_of_def is_meta_def)
  qed (auto simp: Cons render_def starts_cont_def is_cont_def byte_of_def)
qed

lemma parse_dot: "\<not> starts_with s ''*'' \<Longrightarrow> parse_items (CHR ''.'' # s) = AnyChar # parse_items s"
  by (cases s) simp_all

lemma parse_render: "list_all wf_item its \<Longrightarrow> parse_items (render its) = its"
proof (induction its)
  case Nil
  then show ?case by (simp add: render_def)
next
  case (Cons i its)
  have R: "render (i # its) = render_item i @ render its" by (simp add: render_def)
  have IH: "parse_items (render its) = its"
    and h: "\<not> starts_cont (render its)" "\<not> starts_with (render its) ''*''"
    using Cons render_head by auto
  show ?case
  proof (cases i)
    case (Lit u)
    with Cons have "wf_item (Lit u)" by simp
    then show ?thesis
    proof (cases rule: wf_lit_cases)
      case (1 c)
      then show ?thesis unfolding R using IH Lit by simp
    next
      case (2 c cs)
      then have "takeWhile is_cont (cs @ render its) = cs" "dropWhile is_cont (cs @ render its) = render its"
        using h(1) by (cases "render its"; simp add: starts_cont_def)+
      moreover have "c \<noteq> CHR 0x5C" "c \<noteq> CHR ''.''" using 2 by (auto simp: is_meta_def)
      ultimately show ?thesis unfolding R using IH 2 Lit by simp
    qed
  next
    case AnyChar
    then show ?thesis unfolding R using IH parse_dot [OF h(2)] by simp
  next
    case AnySeq
    then show ?thesis unfolding R using IH by simp
  qed
qed

lemma unanchor_anchored: "unanchor (anchored its) = render its"
proof -
  have "strip_prefix (anchored its) ''(?s)^'' = Some (render its @ ''$'')"
    by (simp only: anchored_def strip_prefix_append)
  then show ?thesis by (simp add: unanchor_def)
qed

interpretation ref: regex_engine reference_engine
  by unfold_locales (simp_all add: reference_engine_def unanchor_anchored parse_render)

lemma reference_engine_ok: "regex_engine reference_engine"
  by (rule ref.regex_engine_axioms)

lemma reference_engine_compiles [simp]: "regex_new reference_engine p = Inr p"
  by (simp add: regex_new_def reference_engine_def)

end
