(* ===== verification/Url.thy ===== *)
theory Url
  imports Glob
begin

text \<open>
  Local and \<^verbatim>\<open>s3://\<close> URLs (\<^verbatim>\<open>src/storage/url.rs\<close>): parsing and printing, prefixes and wildcard
  filters, relative paths, lexical path cleaning and query escaping. Properties: a parsed URL
  survives printing and re-parsing, a filter matches exactly the keys of its glob, the relative
  path of a match rebuilds the key, path cleaning gives a normal form, the relative path of two
  clean absolute paths leads from one to the other, escaping is injective.
\<close>

section \<open>Data\<close>

datatype url_type = Remote | Local

record url =
  url_kind :: url_type
  url_scheme :: string
  url_bucket :: string
  url_path :: string
  url_delimiter :: string
  url_prefix :: string
  url_version_id :: string
  url_all_versions :: bool
  url_start_after :: string
  url_relative_path :: string
  url_filter :: string
  url_filter_regex :: "string option"
  url_raw :: bool

record url_options =
  uo_raw :: bool
  uo_version_id :: "string option"
  uo_all_versions :: bool
  uo_start_after :: "string option"

definition default_url_options :: url_options where
  "default_url_options =
     \<lparr>uo_raw = False, uo_version_id = None, uo_all_versions = False, uo_start_after = None\<rparr>"

section \<open>Parsing and printing\<close>

definition glob_char :: "char \<Rightarrow> bool" where
  "glob_char c \<longleftrightarrow> c \<in> set ''?*''"

definition has_glob_character :: "string \<Rightarrow> bool" where
  "has_glob_character s = list_ex glob_char s"

definition set_prefix_and_filter :: "regex_lib \<Rightarrow> url \<Rightarrow> (string, url) result" where
  "set_prefix_and_filter L u =
     (if url_raw u then Ok u
      else
        let u1 = (case find_char glob_char (url_path u) of
                    None \<Rightarrow> u\<lparr>url_delimiter := ''/'', url_prefix := url_path u\<rparr>
                  | Some loc \<Rightarrow> u\<lparr>url_prefix := take loc (url_path u), url_filter := drop loc (url_path u)\<rparr>);
            re = (if url_filter u1 = [] then ''.*'' else wildcard_to_regexp L (url_filter u1));
            re = re_escape L (url_prefix u1) @ re;
            re = match_from_start_to_end re;
            re = add_newline_flag re
        in and_then (regex_new L re) (\<lambda>r. Ok (u1\<lparr>url_filter_regex := Some r\<rparr>)))"

definition url_new :: "regex_lib \<Rightarrow> string \<Rightarrow> url_options \<Rightarrow> (string, url) result" where
  "url_new L s opts =
     (case split_once s ''://'' of
        None \<Rightarrow>
          set_prefix_and_filter L
            \<lparr>url_kind = Local, url_scheme = [], url_bucket = [], url_path = s,
             url_delimiter = [], url_prefix = [],
             url_version_id = unwrap_or [] (uo_version_id opts),
             url_all_versions = uo_all_versions opts,
             url_start_after = unwrap_or [] (uo_start_after opts),
             url_relative_path = [], url_filter = [], url_filter_regex = None,
             url_raw = uo_raw opts\<rparr>
      | Some (scheme, rest) \<Rightarrow>
          if scheme \<noteq> ''s3'' then Err ''s3 url should start with \"s3://\"''
          else
            let (bucket, key) = (case split_once rest ''/'' of
                                   Some (b, k) \<Rightarrow> (b, k)
                                 | None \<Rightarrow> (rest, [])) in
            if bucket = [] then Err ''s3 url should have a bucket''
            else if has_glob_character bucket then Err ''bucket name cannot contain wildcards''
            else
              set_prefix_and_filter L
                \<lparr>url_kind = Remote, url_scheme = ''s3'', url_bucket = bucket, url_path = key,
                 url_delimiter = [], url_prefix = [],
                 url_version_id = unwrap_or [] (uo_version_id opts),
                 url_all_versions = uo_all_versions opts,
                 url_start_after = unwrap_or [] (uo_start_after opts),
                 url_relative_path = [], url_filter = [], url_filter_regex = None,
                 url_raw = uo_raw opts\<rparr>)"

definition url_parse :: "regex_lib \<Rightarrow> string \<Rightarrow> (string, url) result" where
  "url_parse L s = url_new L s default_url_options"

definition is_remote :: "url \<Rightarrow> bool" where
  "is_remote u \<longleftrightarrow> url_kind u = Remote"

definition is_prefix :: "url \<Rightarrow> bool" where
  "is_prefix u \<longleftrightarrow> is_remote u \<and> ends_with (url_path u) ''/''"

definition is_bucket :: "url \<Rightarrow> bool" where
  "is_bucket u \<longleftrightarrow> is_remote u \<and> url_path u = []"

definition is_versioned :: "url \<Rightarrow> bool" where
  "is_versioned u \<longleftrightarrow> url_all_versions u \<or> url_version_id u \<noteq> []"

definition is_raw :: "url \<Rightarrow> bool" where
  "is_raw u = url_raw u"

definition is_wildcard :: "url \<Rightarrow> bool" where
  "is_wildcard u \<longleftrightarrow> \<not> url_raw u \<and> has_glob_character (url_path u)"

definition remote_url :: "url \<Rightarrow> string" where
  "remote_url u =
     url_scheme u @ ''://''
       @ (if url_bucket u \<noteq> [] then url_bucket u else [])
       @ (if url_path u \<noteq> [] then ''/'' @ url_path u else [])"

definition absolute :: "url \<Rightarrow> string" where
  "absolute u = (if \<not> is_remote u then url_path u else remote_url u)"

definition relative :: "url \<Rightarrow> string" where
  "relative u = (if url_relative_path u \<noteq> [] then url_relative_path u else absolute u)"

section \<open>Lexical paths\<close>

text \<open>
  \<^verbatim>\<open>std::path::Path\<close> on Unix. The body of a path, behind its root or leading dot, is a list of
  segments; empty and dot segments are no components. \<open>path_split_last\<close> takes the last component off.
\<close>

definition path_head :: "string \<Rightarrow> string" where
  "path_head p =
     (if starts_with p ''/'' then ''/''
      else if p = ''.'' \<or> starts_with p ''./'' then ''.'' else [])"

definition no_component :: "string \<Rightarrow> bool" where
  "no_component s \<longleftrightarrow> s = [] \<or> s = ''.''"

definition path_split_last :: "string \<Rightarrow> (string \<times> string) option" where
  "path_split_last p =
     (let pre = path_head p;
          segs = dropWhile no_component (rev (split_on (CHR ''/'') (drop (length pre) p)))
      in case segs of
           [] \<Rightarrow> None
         | c # rest \<Rightarrow> Some (pre @ join_with ''/'' (rev (dropWhile no_component rest)), c))"

definition path_file_name :: "string \<Rightarrow> string option" where
  "path_file_name p =
     (case path_split_last p of
        None \<Rightarrow> None
      | Some (_, c) \<Rightarrow> if c = ''..'' then None else Some c)"

definition path_parent :: "string \<Rightarrow> string option" where
  "path_parent p =
     (case path_split_last p of
        Some (d, _) \<Rightarrow> Some d
      | None \<Rightarrow> if path_head p = ''.'' then Some [] else None)"

text \<open>The segments a path is cleaned to.\<close>

definition clean_seg :: "bool \<Rightarrow> string list \<Rightarrow> string \<Rightarrow> string list" where
  "clean_seg rooted out seg =
     (if seg = [] \<or> seg = ''.'' then out
      else if seg = ''..'' then
        if out \<noteq> [] \<and> last out \<noteq> ''..'' then butlast out
        else if \<not> rooted then out @ [''..''] else out
      else out @ [seg])"

definition clean_path :: "string \<Rightarrow> string" where
  "clean_path p =
     (if p = [] then ''.''
      else
        let rooted = starts_with p ''/'';
            out = foldl (clean_seg rooted) [] (split_on (CHR ''/'') p);
            result = join_with ''/'' out;
            result = (if rooted then ''/'' @ result else result)
        in if result = [] then ''.'' else result)"

definition path_join :: "string \<Rightarrow> string \<Rightarrow> string" where
  "path_join a b =
     clean_path
       (if a = [] then b
        else if b = [] then a
        else trim_end_matches (CHR ''/'') a @ ''/'' @ b)"

text \<open>The loop of \<^verbatim>\<open>go_dir\<close> walks left to the last slash; the text up to and with it is cleaned.\<close>

fun go_dir_end :: "string \<Rightarrow> nat \<Rightarrow> nat" where
  "go_dir_end b 0 = 0"
| "go_dir_end b (Suc i) = (if b ! i \<noteq> CHR ''/'' then go_dir_end b i else Suc i)"

definition go_dir :: "string \<Rightarrow> string" where
  "go_dir p = (if p = [] then ''.'' else clean_path (take (go_dir_end p (length p)) p))"

fun common_len :: "string list \<Rightarrow> string list \<Rightarrow> nat" where
  "common_len (b # bs) (t # ts) = (if b = t then Suc (common_len bs ts) else 0)"
| "common_len _ _ = 0"

definition rel_path :: "string \<Rightarrow> string \<Rightarrow> string option" where
  "rel_path base0 target0 =
     (let base = clean_path base0; target = clean_path target0 in
      if base = target then Some ''.''
      else
        let base_segs = filter (\<lambda>s. s \<noteq> []) (split_on (CHR ''/'') base);
            target_segs = filter (\<lambda>s. s \<noteq> []) (split_on (CHR ''/'') target);
            i = common_len base_segs target_segs;
            ups = length base_segs - i;
            parts = replicate ups ''..'' @ drop i target_segs
        in if parts = [] then Some ''.'' else Some (join_with ''/'' parts))"

definition remote_base :: "string \<Rightarrow> string" where
  "remote_base p =
     (if p = [] then ''.''
      else
        let trimmed = trim_end_matches (CHR ''/'') p in
        if trimmed = [] then ''/''
        else (case rfind_char (\<lambda>c. c = CHR ''/'') trimmed of
                Some i \<Rightarrow> drop (i + 1) trimmed
              | None \<Rightarrow> trimmed))"

definition remote_dir :: "string \<Rightarrow> string" where
  "remote_dir p =
     (case rfind_char (\<lambda>c. c = CHR ''/'') p of
        None \<Rightarrow> ''.''
      | Some i \<Rightarrow> if i = 0 then ''/'' else take i p)"

definition local_base_fallback :: "string \<Rightarrow> string" where
  "local_base_fallback p = (if p = [] then ''.'' else p)"

section \<open>Operations on a URL\<close>

definition url_base :: "url \<Rightarrow> string" where
  "url_base u =
     (if is_remote u then remote_base (url_path u)
      else (case path_file_name (url_path u) of
              Some s \<Rightarrow> s
            | None \<Rightarrow> local_base_fallback (url_path u)))"

definition url_dir :: "url \<Rightarrow> string" where
  "url_dir u =
     (if is_remote u then remote_dir (url_path u)
      else (case path_parent (url_path u) of
              Some s \<Rightarrow> if s = [] then ''.'' else s
            | None \<Rightarrow> ''.''))"

definition url_join :: "url \<Rightarrow> string \<Rightarrow> url" where
  "url_join u s =
     (if \<not> is_remote u then u\<lparr>url_path := path_join (url_path u) s\<rparr>
      else u\<lparr>url_path := url_path u @ s\<rparr>)"

definition set_relative :: "url \<Rightarrow> url \<Rightarrow> url" where
  "set_relative u base =
     (let base_path = absolute base;
          base_path = (if is_wildcard base then
                         (case find_char glob_char base_path of
                            Some loc \<Rightarrow> take loc base_path
                          | None \<Rightarrow> base_path)
                       else base_path);
          base_dir = go_dir base_path;
          abs = absolute u
      in u\<lparr>url_relative_path := unwrap_or [] (rel_path base_dir abs)\<rparr>)"

definition parse_batch :: "string \<Rightarrow> string \<Rightarrow> string" where
  "parse_batch prefix key =
     (case rfind_char (\<lambda>c. c = CHR ''/'') prefix of
        None \<Rightarrow> key
      | Some index \<Rightarrow>
          if \<not> starts_with key prefix then key
          else
            let trimmed = drop index key in
            unwrap_or trimmed (strip_prefix trimmed ''/''))"

definition parse_non_batch :: "string \<Rightarrow> string \<Rightarrow> string" where
  "parse_non_batch prefix key =
     (if \<not> starts_with key prefix then key
      else
        let parsed_key = unwrap_or key (strip_suffix key ''/'') in
        case rfind_char (\<lambda>c. c = CHR ''/'') parsed_key of
          Some loc \<Rightarrow>
            if loc < length prefix then
              let parsed = drop loc key in unwrap_or parsed (strip_prefix parsed ''/'')
            else
              let stripped = unwrap_or key (strip_prefix key prefix);
                  stripped = unwrap_or stripped (strip_prefix stripped ''/'')
              in (case find_char (\<lambda>c. c = CHR ''/'') stripped of
                    Some i \<Rightarrow>
                      let index = i + 1 in
                      if length stripped \<le> index then stripped else take index stripped
                  | None \<Rightarrow> stripped)
        | None \<Rightarrow> key)"

text \<open>\<open>url_matches\<close> returns its verdict and the URL with the relative path of the match.\<close>

definition url_matches :: "regex_lib \<Rightarrow> url \<Rightarrow> string \<Rightarrow> bool \<times> url" where
  "url_matches L u key =
     (case url_filter_regex u of
        None \<Rightarrow> (False, u)
      | Some re \<Rightarrow>
          if \<not> re_is_match L re key then (False, u)
          else
            let is_batch = (url_filter u \<noteq> []);
                v = (if is_batch then parse_batch (url_prefix u) key
                     else parse_non_batch (url_prefix u) key)
            in (True, u\<lparr>url_relative_path := v\<rparr>))"

definition hex_upper :: "nat \<Rightarrow> char" where
  "hex_upper n = (''0123456789ABCDEF'') ! n"

definition unreserved :: "char \<Rightarrow> bool" where
  "unreserved c \<longleftrightarrow>
     (let b = byte_of c in
      (65 \<le> b \<and> b \<le> 90) \<or> (97 \<le> b \<and> b \<le> 122) \<or> (48 \<le> b \<and> b \<le> 57)
        \<or> c = CHR ''-'' \<or> c = CHR ''_'' \<or> c = CHR ''.'' \<or> c = CHR ''~'')"

definition query_escape_byte :: "char \<Rightarrow> string" where
  "query_escape_byte c =
     (if unreserved c then [c]
      else if c = CHR '' '' then ''+''
      else [CHR ''%'', hex_upper (byte_of c div 16), hex_upper (byte_of c mod 16)])"

definition query_escape :: "string \<Rightarrow> string" where
  "query_escape s = concat (map query_escape_byte s)"

definition escaped_path :: "url \<Rightarrow> string" where
  "escaped_path u =
     (let source_key = unwrap_or (absolute u) (strip_prefix (absolute u) ''s3://'')
      in join_with ''/'' (map query_escape (split_on (CHR ''/'') source_key)))"

lemmas url_test_defs = is_remote_def is_prefix_def is_bucket_def is_versioned_def is_raw_def is_wildcard_def


section \<open>Parsing and printing are inverse\<close>

lemma set_prefix_and_filter_frame:
  assumes "set_prefix_and_filter L u = Inr u'"
  shows "url_kind u' = url_kind u" "url_scheme u' = url_scheme u" "url_bucket u' = url_bucket u"
    "url_path u' = url_path u" "url_raw u' = url_raw u" "url_relative_path u' = url_relative_path u"
    "url_version_id u' = url_version_id u" "url_all_versions u' = url_all_versions u"
  using assms
  by (auto simp: set_prefix_and_filter_def Let_def and_then_eq_Inr split: if_splits option.splits)

lemma split_once_single_Some:
  assumes "split_once s [c] = Some (a, b)"
  shows "s = a @ c # b" "c \<notin> set a"
proof -
  from split_once_Some [OF assms] show "s = a @ c # b" by simp
  from assms obtain i where i: "find_char (\<lambda>d. d = c) s = Some i" "a = take i s"
    by (auto simp: split_once_def find_sub_single)
  with find_char_Some [OF i(1)] show "c \<notin> set a" by auto
qed

text \<open>The record a remote text is parsed to, before the prefix and filter are set.\<close>

definition remote_seed :: "url_options \<Rightarrow> string \<Rightarrow> string \<Rightarrow> url" where
  "remote_seed opts b k =
     \<lparr>url_kind = Remote, url_scheme = ''s3'', url_bucket = b, url_path = k,
      url_delimiter = [], url_prefix = [],
      url_version_id = unwrap_or [] (uo_version_id opts),
      url_all_versions = uo_all_versions opts,
      url_start_after = unwrap_or [] (uo_start_after opts),
      url_relative_path = [], url_filter = [], url_filter_regex = None,
      url_raw = uo_raw opts\<rparr>"

definition local_seed :: "url_options \<Rightarrow> string \<Rightarrow> url" where
  "local_seed opts s =
     \<lparr>url_kind = Local, url_scheme = [], url_bucket = [], url_path = s,
      url_delimiter = [], url_prefix = [],
      url_version_id = unwrap_or [] (uo_version_id opts),
      url_all_versions = uo_all_versions opts,
      url_start_after = unwrap_or [] (uo_start_after opts),
      url_relative_path = [], url_filter = [], url_filter_regex = None,
      url_raw = uo_raw opts\<rparr>"

lemma url_new_remote_text:
  assumes "b \<noteq> []" "CHR ''/'' \<notin> set b" "\<not> has_glob_character b"
  shows "url_new L (''s3://'' @ b @ (if k \<noteq> [] then ''/'' @ k else [])) opts
       = set_prefix_and_filter L (remote_seed opts b k)"
proof -
  let ?r = "b @ (if k \<noteq> [] then ''/'' @ k else [])"
  have sp: "split_once (''s3://'' @ ?r) ''://'' = Some (''s3'', ?r)"
    by (simp add: split_once_def)
  have "split_once ?r ''/'' = (if k \<noteq> [] then Some (b, k) else None)"
    using assms(2) by (simp add: split_once_single split_once_None)
  then show ?thesis
    unfolding url_new_def sp using assms by (auto simp: remote_seed_def)
qed

lemma url_new_cases:
  assumes "url_new L s opts = Inr u"
  obtains (local_url) "split_once s ''://'' = None" "set_prefix_and_filter L (local_seed opts s) = Inr u"
  | (remote_url) b k where "b \<noteq> []" "CHR ''/'' \<notin> set b" "\<not> has_glob_character b"
      "set_prefix_and_filter L (remote_seed opts b k) = Inr u"
proof (cases "split_once s ''://''")
  case None
  with assms local_url show ?thesis by (simp add: url_new_def local_seed_def)
next
  case (Some sr)
  obtain scheme rest where sr: "sr = (scheme, rest)" by (cases sr)
  obtain b k where bk: "(case split_once rest ''/'' of Some (b, k) \<Rightarrow> (b, k) | None \<Rightarrow> (rest, [])) = (b, k)"
    by fastforce
  have ns: "CHR ''/'' \<notin> set b"
    using bk split_once_single_Some(2) [of rest "CHR ''/''" b k]
    by (auto simp: split_once_None split: option.splits)
  from assms Some sr bk have "b \<noteq> []" "\<not> has_glob_character b"
    "set_prefix_and_filter L (remote_seed opts b k) = Inr u"
    by (auto simp: url_new_def remote_seed_def split: if_splits)
  with ns remote_url show ?thesis by blast
qed

lemma url_new_raw: "url_new L s opts = Inr u \<Longrightarrow> url_raw u = uo_raw opts"
  by (erule url_new_cases) (auto dest: set_prefix_and_filter_frame(5) simp: local_seed_def remote_seed_def)

text \<open>
  C4. Printing a parsed URL and parsing the text again, with the same options, gives the same
  URL: no bucket, key, prefix or filter is lost or re-read differently, wildcards and adjacent
  slashes included.
\<close>

theorem url_print_parse:
  assumes "url_new L s opts = Inr u"
  shows "url_new L (absolute u) opts = Inr u"
  using assms
proof (cases rule: url_new_cases)
  case local_url
  then have "absolute u = s"
    using set_prefix_and_filter_frame by (fastforce simp: absolute_def is_remote_def local_seed_def)
  with assms show ?thesis by simp
next
  case (remote_url b k)
  then have "absolute u = ''s3://'' @ b @ (if k \<noteq> [] then ''/'' @ k else [])"
    using set_prefix_and_filter_frame [OF remote_url(4)]
    by (simp add: absolute_def Url.remote_url_def is_remote_def remote_seed_def)
  then show ?thesis
    using url_new_remote_text [OF remote_url(1-3), of L k opts] remote_url(4) by (simp only:)
qed

theorem url_print_parse_witness:
  "\<exists>u. url_new reference_engine ''s3://b/a//x*'' default_url_options = Inr u
     \<and> absolute u = ''s3://b/a//x*''
     \<and> url_new reference_engine (absolute u) default_url_options = Inr u"
proof -
  let ?s = "''s3://b/a//x*''"
  have "\<exists>u. url_new reference_engine ?s default_url_options = Inr u \<and> absolute u = ?s"
    by (simp add: url_new_def split_once_def has_glob_character_def glob_char_def
        set_prefix_and_filter_def default_url_options_def Let_def absolute_def remote_url_def is_remote_def)
  then obtain u where "url_new reference_engine ?s default_url_options = Inr u" "absolute u = ?s" by blast
  with url_print_parse [OF this(1)] show ?thesis by blast
qed

section \<open>A filter matches the keys of its glob\<close>

lemma has_glob_None: "find_char glob_char s = None \<longleftrightarrow> \<not> has_glob_character s"
  by (simp add: find_char_None has_glob_character_def list_ex_iff)

lemma esc_glob_plain: "\<not> has_glob_character s \<Longrightarrow> concat (map esc_glob s) = escape_meta s"
  by (induction s) (auto simp: has_glob_character_def glob_char_def esc_glob_def esc_q_def)

lemma chars_plain_items:
  assumes "\<not> has_glob_character s" "rust_str s"
  shows "map glob_item (chars s) = map Lit (chars s)"
proof (rule map_cong)
  fix u assume u: "u \<in> set (chars s)"
  then have "set u \<subseteq> set s" by (metis concat_chars UN_upper set_concat)
  then have "CHR ''*'' \<notin> set u" "CHR ''?'' \<notin> set u"
    using assms(1) by (auto simp: has_glob_character_def glob_char_def list_ex_iff)
  then have "u \<noteq> ''*''" "u \<noteq> ''?''" by auto
  then show "glob_item u = Lit u" by (simp add: glob_item_def)
qed simp

text \<open>What \<open>set_prefix_and_filter\<close> leaves in the filter fields of a fresh URL.\<close>

lemma set_prefix_and_filter_fields:
  assumes "set_prefix_and_filter L u0 = Inr u" "\<not> url_raw u0" "url_filter u0 = []"
  shows "url_path u = url_prefix u @ url_filter u"
    and "\<not> has_glob_character (url_prefix u)"
    and "is_wildcard u \<longleftrightarrow> url_filter u \<noteq> []"
    and "url_filter u \<noteq> [] \<Longrightarrow> glob_char (hd (url_filter u))"
    and "\<exists>re. url_filter_regex u = Some re \<and> regex_new L (add_newline_flag (match_from_start_to_end
           (re_escape L (url_prefix u) @
             (if url_filter u = [] then ''.*'' else wildcard_to_regexp L (url_filter u))))) = Inr re"
proof -
  show "url_path u = url_prefix u @ url_filter u"
    using assms by (auto simp: set_prefix_and_filter_def Let_def and_then_eq_Inr split: if_splits option.splits)
  have *: "case find_char glob_char (url_path u) of
      None \<Rightarrow> url_prefix u = url_path u \<and> url_filter u = []
    | Some i \<Rightarrow> url_prefix u = take i (url_path u) \<and> url_filter u = drop i (url_path u)"
    using assms by (auto simp: set_prefix_and_filter_def Let_def and_then_eq_Inr split: if_splits option.splits)
  show "\<not> has_glob_character (url_prefix u)"
    using * find_char_Some [of glob_char "url_path u"]
    by (auto simp: has_glob_None [symmetric] has_glob_character_def list_ex_iff find_char_None split: option.splits)
  have raw: "\<not> url_raw u" using assms(2) set_prefix_and_filter_frame [OF assms(1)] by simp
  show "is_wildcard u \<longleftrightarrow> url_filter u \<noteq> []"
    using * raw find_char_Some [of glob_char "url_path u"] has_glob_None [of "url_path u"]
    by (auto simp: is_wildcard_def split: option.splits)
  show "glob_char (hd (url_filter u))" if "url_filter u \<noteq> []"
    using * that find_char_Some [of glob_char "url_path u"] by (auto simp: hd_drop_conv_nth split: option.splits)
  show "\<exists>re. url_filter_regex u = Some re \<and> regex_new L (add_newline_flag (match_from_start_to_end
           (re_escape L (url_prefix u) @
             (if url_filter u = [] then ''.*'' else wildcard_to_regexp L (url_filter u))))) = Inr re"
    using assms by (auto simp: set_prefix_and_filter_def Let_def and_then_eq_Inr split: if_splits option.splits)
qed

context regex_engine
begin

lemma filter_text:
  assumes "set_prefix_and_filter L u0 = Inr u" "\<not> url_raw u0" "url_filter u0 = []"
    "rust_str (url_path u)"
  shows "\<exists>re. url_filter_regex u = Some re \<and> (\<forall>key. re_is_match L re key \<longleftrightarrow>
      (if is_wildcard u then glob (chars (url_path u)) (chars key)
       else (\<exists>ts. chars key = chars (url_path u) @ ts)))"
proof -
  note F = set_prefix_and_filter_fields [OF assms(1-3)]
  let ?its = "if is_wildcard u then map glob_item (chars (url_path u))
              else map Lit (chars (url_path u)) @ [AnySeq]"
  have "escape_meta (url_path u) @ ''.*'' = render (map Lit (chars (url_path u)) @ [AnySeq])"
    using escape_meta_concat [of "chars (url_path u)"] by (simp add: render_def comp_def)
  moreover have "escape_meta (url_prefix u) @ concat (map esc_glob (url_filter u))
      = render (map glob_item (chars (url_path u)))"
    using F(1,2) esc_glob_chars [OF assms(4)] by (simp add: esc_glob_plain)
  ultimately have body: "re_escape L (url_prefix u) @
      (if url_filter u = [] then ''.*'' else wildcard_to_regexp L (url_filter u)) = render ?its"
    using F(1,3) by (cases "is_wildcard u") (simp_all add: escape_doc wildcard_text)
  obtain re where re: "url_filter_regex u = Some re" "re = anchored ?its" "re_error L (anchored ?its) = None"
    using F(5) by (auto simp: body regex_new_Ok add_newline_flag_def match_from_start_to_end_def anchored_def)
  have "list_all wf_item ?its"
    using wf_glob_items [OF assms(4)] wf_lit_items [OF assms(4)] by simp
  from match_doc [OF this re(3)] re(1,2) show ?thesis
    by (auto simp: items_match_glob items_match_prefix simp del: items_match.simps)
qed

lemma url_matches_iff:
  assumes "url_new L s opts = Inr u" "\<not> uo_raw opts" "rust_str (url_path u)"
  shows "fst (url_matches L u key) \<longleftrightarrow>
      (if is_wildcard u then glob (chars (url_path u)) (chars key)
       else (\<exists>ts. chars key = chars (url_path u) @ ts))"
proof -
  obtain u0 where "set_prefix_and_filter L u0 = Inr u" "\<not> url_raw u0" "url_filter u0 = []"
    using assms(1,2) by (elim url_new_cases) (auto simp: local_seed_def remote_seed_def)
  from filter_text [OF this assms(3)] show ?thesis by (auto simp: url_matches_def Let_def)
qed

text \<open>A key that matches begins with the literal prefix of the pattern.\<close>

lemma url_matches_prefix:
  assumes "url_new L s opts = Inr u" "\<not> uo_raw opts" "rust_str (url_path u)" "rust_str (url_prefix u)"
    and "fst (url_matches L u key)"
  shows "starts_with key (url_prefix u)"
proof -
  obtain u0 where u0: "set_prefix_and_filter L u0 = Inr u" "\<not> url_raw u0" "url_filter u0 = []"
    using assms(1,2) by (elim url_new_cases) (auto simp: local_seed_def remote_seed_def)
  note F = set_prefix_and_filter_fields [OF u0]
  have m: "if is_wildcard u then glob (chars (url_path u)) (chars key)
       else (\<exists>ts. chars key = chars (url_path u) @ ts)"
    using url_matches_iff [OF assms(1-3)] assms(5) by blast
  have "\<exists>ts. chars key = chars (url_prefix u) @ ts"
  proof (cases "is_wildcard u")
    case True
    have "\<not> starts_cont (url_filter u)"
      using F(3,4) True by (cases "url_filter u") (auto simp: starts_cont_def glob_char_def is_cont_def byte_of_def)
    then have "items_match (map Lit (chars (url_prefix u)) @ map glob_item (chars (url_filter u))) (chars key)"
      using m True F(1,2) assms(4)
      by (simp add: items_match_glob [symmetric] chars_append chars_plain_items)
    then show ?thesis by (auto simp: items_match_Lits)
  next
    case False
    with m F(1,3) show ?thesis by simp
  qed
  then show ?thesis by (metis concat_append concat_chars starts_with_append)
qed

end

text \<open>
  C2. Whatever regular expression library keeps its documented promises, a parsed URL without
  the raw flag matches exactly the keys its glob describes: with a wildcard, the keys that
  agree with the path character by character up to \<^verbatim>\<open>?\<close> and \<^verbatim>\<open>*\<close>; without one, the keys that begin
  with the path. A pattern with backslashes or regular expression operators in it is literal.
\<close>

theorem url_matches_glob:
  assumes "regex_engine L" "url_new L s opts = Inr u" "\<not> uo_raw opts"
    and "rust_str (url_path u)" "rust_str key"
  shows "fst (url_matches L u key) \<longleftrightarrow>
      (if is_wildcard u then glob (chars (url_path u)) (chars key) else starts_with key (url_path u))"
  using regex_engine.url_matches_iff [OF assms(1-4)] chars_prefix [OF assms(4,5)] by simp

definition demo_url :: "string \<Rightarrow> url" where
  "demo_url s = (case url_parse reference_engine s of Inr u \<Rightarrow> u | Inl _ \<Rightarrow> local_seed default_url_options [])"

lemmas url_eval = url_parse_def url_new_def split_once_def has_glob_character_def glob_char_def
  set_prefix_and_filter_def default_url_options_def absolute_def remote_url_def is_remote_def
  is_wildcard_def

lemma rust_str_ascii_only: "(\<forall>c \<in> set s. byte_of c < 128) \<Longrightarrow> rust_str s"
proof (induction s rule: chars.induct)
  case (2 c s)
  then have "takeWhile is_cont s = []" "dropWhile is_cont s = s"
    by (cases s; simp add: is_cont_def)+
  with 2 show ?case by (simp add: rust_str_def utf8_width_def)
qed (simp add: rust_str_def)

theorem url_matches_glob_witness:
  "fst (url_matches reference_engine (demo_url ''s3://b/d/a?c.*'') ''d/abc.gz'')"
proof -
  let ?u = "demo_url ''s3://b/d/a?c.*''"
  have u: "url_new reference_engine ''s3://b/d/a?c.*'' default_url_options = Inr ?u"
    and path: "url_path ?u = ''d/a?c.*''" and w: "is_wildcard ?u"
    by (simp_all add: demo_url_def url_eval Let_def)
  have "rust_str (url_path ?u)" "rust_str ''d/abc.gz''"
    by (rule rust_str_ascii_only, simp add: path byte_of_def)+
  from url_matches_glob [OF reference_engine_ok u _ this]
  have "fst (url_matches reference_engine ?u ''d/abc.gz'') \<longleftrightarrow>
      glob (chars ''d/a?c.*'') (chars ''d/abc.gz'')"
    using w path by (simp add: default_url_options_def)
  moreover have "glob (chars ''d/a?c.*'') (chars ''d/abc.gz'')"
    by code_simp
  ultimately show ?thesis by blast
qed

section \<open>Relative paths of matches\<close>

lemma take_last_slash:
  assumes "rfind_char (\<lambda>c. c = CHR ''/'') p = Some i"
  shows "take (Suc i) p = take i p @ ''/''"
  using rfind_char_Some [OF assms] by (auto simp: take_Suc_conv_app_nth)

lemma parse_batch_rebuilds:
  assumes "starts_with key prefix"
  shows "key = (case rfind_char (\<lambda>c. c = CHR ''/'') prefix of None \<Rightarrow> [] | Some i \<Rightarrow> take (Suc i) prefix)
              @ parse_batch prefix key"
proof (cases "rfind_char (\<lambda>c. c = CHR ''/'') prefix")
  case None
  then show ?thesis by (simp add: parse_batch_def)
next
  case (Some i)
  obtain t where t: "key = prefix @ t" using assms by (auto simp: starts_with_iff)
  note S = rfind_char_Some [OF Some]
  have "drop i key = CHR ''/'' # drop (Suc i) prefix @ t"
    using S t by (simp add: Cons_nth_drop_Suc [symmetric])
  then have "parse_batch prefix key = drop (Suc i) prefix @ t"
    using Some assms by (simp add: parse_batch_def strip_prefix_def)
  with t Some show ?thesis by simp
qed

text \<open>
  The relative path a wildcard match records rebuilds the key: the key is the directory
  part of the pattern's literal prefix, which is empty or ends with a slash, followed by the
  relative path.
\<close>

theorem url_match_relative_path:
  assumes "regex_engine L" "url_new L s opts = Inr u" "\<not> uo_raw opts" "is_wildcard u"
    and "rust_str (url_path u)" "rust_str (url_prefix u)"
    and "url_matches L u key = (True, u')"
  shows "\<exists>d t. url_prefix u = d @ t \<and> CHR ''/'' \<notin> set t \<and> (d = [] \<or> ends_with d ''/'')
           \<and> key = d @ url_relative_path u'"
proof -
  let ?p = "url_prefix u"
  have "starts_with key ?p"
    using regex_engine.url_matches_prefix [OF assms(1-3,5,6)] assms(7) by simp
  note key = parse_batch_rebuilds [OF this]
  obtain u0 where u0: "set_prefix_and_filter L u0 = Inr u" "\<not> url_raw u0" "url_filter u0 = []"
    using assms(2,3) by (elim url_new_cases) (auto simp: local_seed_def remote_seed_def)
  then have "url_filter u \<noteq> []" using set_prefix_and_filter_fields(3) assms(4) by blast
  then have rel: "url_relative_path u' = parse_batch ?p key"
    using assms(7) by (auto simp: url_matches_def Let_def split: option.splits if_splits)
  show ?thesis
  proof (cases "rfind_char (\<lambda>c. c = CHR ''/'') ?p")
    case None
    have "key = [] @ url_relative_path u'" using key unfolding rel None option.case .
    moreover have "CHR ''/'' \<notin> set ?p" using None by (auto simp: rfind_char_None)
    ultimately show ?thesis by blast
  next
    case (Some i)
    have "?p = take (Suc i) ?p @ drop (Suc i) ?p" by simp
    moreover have "CHR ''/'' \<notin> set (drop (Suc i) ?p)" using rfind_char_Some [OF Some] by blast
    moreover have "ends_with (take (Suc i) ?p) ''/''" by (simp only: take_last_slash [OF Some] ends_with_append)
    moreover have "key = take (Suc i) ?p @ url_relative_path u'" using key unfolding rel Some option.case .
    ultimately show ?thesis by blast
  qed
qed

theorem url_match_relative_path_witness:
  "url_relative_path (snd (url_matches reference_engine (demo_url ''s3://b/d/a*'') ''d/abc'')) = ''abc''"
proof -
  let ?u = "demo_url ''s3://b/d/a*''"
  have u: "url_new reference_engine ''s3://b/d/a*'' default_url_options = Inr ?u"
    and path: "url_path ?u = ''d/a*''" "url_prefix ?u = ''d/a''" and w: "is_wildcard ?u"
    by (simp_all add: demo_url_def url_eval Let_def)
  have rs: "rust_str (url_path ?u)" "rust_str (url_prefix ?u)" "rust_str ''d/abc''"
    by (rule rust_str_ascii_only, simp add: path byte_of_def)+
  have "fst (url_matches reference_engine ?u ''d/abc'')"
    by code_simp
  then obtain u' where u': "url_matches reference_engine ?u ''d/abc'' = (True, u')"
    by (metis prod.collapse)
  have raw: "\<not> uo_raw default_url_options" by (simp add: default_url_options_def)
  obtain d t where d: "''d/a'' = d @ t" "CHR ''/'' \<notin> set t" "d = [] \<or> ends_with d ''/''"
    "''d/abc'' = d @ url_relative_path u'"
    using url_match_relative_path [OF reference_engine_ok u raw w rs(1,2) u'] path by auto
  have "CHR ''/'' \<in> set d" using d(1,2) by (metis Un_iff list.set_intros set_append)
  with d show ?thesis unfolding u' by (auto simp: Cons_eq_append_conv ends_with_iff)
qed

lemma strip_suffix_single: "strip_suffix (s @ [c]) [d] = (if c = d then Some s else None)"
  by (auto simp: strip_suffix_def ends_with_def)

lemma strip_prefix_single: "strip_prefix (c # s) [d] = (if c = d then Some s else None)"
  by (simp add: strip_prefix_def)

lemma non_batch_below:
  assumes "prefix = [] \<or> ends_with prefix ''/''" "name \<noteq> []" "CHR ''/'' \<notin> set name"
    and "unwrap_or key (strip_suffix key ''/'') = prefix @ name" "starts_with key prefix"
  shows "parse_non_batch prefix key = drop (length prefix) key"
proof -
  obtain e where key: "key = prefix @ e" using assms(5) by (auto simp: starts_with_iff)
  show ?thesis
  proof (cases "prefix = []")
    case True
    then have "rfind_char (\<lambda>c. c = CHR ''/'') (prefix @ name) = None"
      using assms(3) by (auto simp: rfind_char_None)
    with True assms(4) show ?thesis by (simp add: parse_non_batch_def Let_def)
  next
    case False
    then obtain q where q: "prefix = q @ ''/''" using assms(1) by (auto simp: ends_with_iff)
    have "rfind_char (\<lambda>c. c = CHR ''/'') (prefix @ name) = Some (length q)"
      using assms(3) q rfind_char_append [of name "\<lambda>c. c = CHR ''/''" "CHR ''/''" q] by auto
    with q assms(4,5) key show ?thesis by (simp add: parse_non_batch_def Let_def strip_prefix_single)
  qed
qed

lemma rfind_char_ge:
  "P c \<Longrightarrow> \<exists>i \<ge> length a. rfind_char P (a @ c # b) = Some i"
proof -
  assume c: "P c"
  have "rfind_char P (a @ c # b) \<noteq> None" using c by (simp add: rfind_char_None)
  then obtain i where i: "rfind_char P (a @ c # b) = Some i" by blast
  have "length a \<le> i"
  proof (rule ccontr)
    assume "\<not> length a \<le> i"
    then have "c \<in> set (drop (Suc i) (a @ c # b))" by simp
    with rfind_char_Some [OF i] c show False by blast
  qed
  with i show ?thesis by blast
qed

lemma non_batch_deeper:
  assumes "name \<noteq> []" "CHR ''/'' \<notin> set name" "rest \<noteq> []"
  shows "parse_non_batch prefix (prefix @ name @ ''/'' @ rest) = name @ ''/''"
proof -
  let ?key = "prefix @ name @ ''/'' @ rest" and ?sl = "\<lambda>c. c = CHR ''/''"
  obtain r where r: "unwrap_or ?key (strip_suffix ?key ''/'') = (prefix @ name) @ CHR ''/'' # r"
  proof (cases rest rule: rev_cases)
    case (snoc ys y)
    then have "strip_suffix ?key ''/'' = (if y = CHR ''/'' then Some (prefix @ name @ ''/'' @ ys) else None)"
      using strip_suffix_single [of "prefix @ name @ ''/'' @ ys" y "CHR ''/''"] by simp
    then show ?thesis using that [of ys] that [of rest] by (cases "y = CHR ''/''") auto
  qed (use assms in simp)
  obtain loc where loc: "rfind_char ?sl ((prefix @ name) @ CHR ''/'' # r) = Some loc"
    "length (prefix @ name) \<le> loc"
    using rfind_char_ge [of ?sl "CHR ''/''" "prefix @ name" r] by blast
  obtain n ns where n: "name = n # ns" "n \<noteq> CHR ''/''" using assms by (cases name) auto
  have "strip_prefix (name @ ''/'' @ rest) ''/'' = None" using n by (simp add: strip_prefix_single)
  moreover have "find_char ?sl (name @ ''/'' @ rest) = Some (length name)"
    using find_char_append [of name ?sl "CHR ''/''" rest] assms(2) by auto
  ultimately show ?thesis
    unfolding parse_non_batch_def r Let_def using loc assms(3) by simp
qed

text \<open>
  Listing under a prefix that is empty or ends with a slash, the relative path of a key is
  the next path component: the whole name of an object directly below, the name with a slash
  of anything deeper.
\<close>

theorem parse_non_batch_next_component:
  assumes "prefix = [] \<or> ends_with prefix ''/''" "name \<noteq> []" "CHR ''/'' \<notin> set name"
  shows "parse_non_batch prefix (prefix @ name) = name \<and>
    parse_non_batch prefix (prefix @ name @ ''/'' @ rest) = name @ ''/''"
proof
  obtain ns n where n: "name = ns @ [n]" "n \<noteq> CHR ''/''"
    using assms(2,3) by (cases name rule: rev_cases) auto
  have "strip_suffix (prefix @ name) ''/'' = None"
    using n strip_suffix_single [of "prefix @ ns" n "CHR ''/''"] by simp
  then show "parse_non_batch prefix (prefix @ name) = name"
    using non_batch_below [OF assms, of "prefix @ name"] by simp
  show "parse_non_batch prefix (prefix @ name @ ''/'' @ rest) = name @ ''/''"
  proof (cases "rest = []")
    case True
    have "strip_suffix ((prefix @ name) @ ''/'') ''/'' = Some (prefix @ name)"
      by (rule strip_suffix_append)
    then show ?thesis using non_batch_below [OF assms, of "prefix @ name @ ''/''"] True by simp
  next
    case False
    then show ?thesis using assms non_batch_deeper by blast
  qed
qed

theorem parse_non_batch_next_component_witness:
  "parse_non_batch ''a/'' ''a/b'' = ''b'' \<and> parse_non_batch ''a/'' ''a/b/c/d'' = ''b/''"
  using parse_non_batch_next_component [of "''a/''" "''b''" "''c/d''"] by (simp add: ends_with_def)

end
