(* ===== verification/Url_Paths.thy ===== *)
theory Url_Paths
  imports Url
begin

text \<open>
  What the lexical path functions of \<^verbatim>\<open>src/storage/url.rs\<close> compute: \<open>clean_path\<close> brings every path
  to a normal form, \<open>rel_path\<close> leads from one absolute path to another, joining a path without
  parent segments stays below the directory joined to. The last section shows the one case in
  which \<open>rel_path\<close> departs from the function it mirrors.
\<close>

section \<open>Segments in normal form\<close>

definition proper_seg :: "string \<Rightarrow> bool" where
  "proper_seg s \<longleftrightarrow> s \<noteq> [] \<and> s \<noteq> ''.'' \<and> s \<noteq> ''..'' \<and> CHR ''/'' \<notin> set s"

definition clean_segs :: "bool \<Rightarrow> string list \<Rightarrow> bool" where
  "clean_segs rooted out \<longleftrightarrow>
     (\<exists>n xs. out = replicate n ''..'' @ xs \<and> list_all proper_seg xs \<and> (rooted \<longrightarrow> n = 0))"

definition show_path :: "bool \<Rightarrow> string list \<Rightarrow> string" where
  "show_path rooted out =
     (let r = (if rooted then ''/'' else []) @ join_with ''/'' out in if r = [] then ''.'' else r)"

definition path_segs :: "string \<Rightarrow> string list" where
  "path_segs p = foldl (clean_seg (starts_with p ''/'')) [] (split_on (CHR ''/'') p)"

lemma proper_segE: "proper_seg s \<Longrightarrow> s \<noteq> [] \<and> s \<noteq> ''.'' \<and> s \<noteq> ''..'' \<and> CHR ''/'' \<notin> set s"
  by (simp add: proper_seg_def)

lemma clean_seg_skip [simp]: "clean_seg r out [] = out" "clean_seg r out ''.'' = out"
  by (simp_all add: clean_seg_def)

lemma clean_seg_proper [simp]: "proper_seg s \<Longrightarrow> clean_seg r out s = out @ [s]"
  by (simp add: clean_seg_def proper_seg_def)

lemma clean_path_show: "clean_path p = show_path (starts_with p ''/'') (path_segs p)"
  by (simp add: clean_path_def show_path_def path_segs_def Let_def)

lemma clean_seg_up:
  assumes "list_all proper_seg xs"
  shows "clean_seg r (replicate n ''..'' @ xs) ''..'' =
     (if xs \<noteq> [] then replicate n ''..'' @ butlast xs
      else if n = 0 \<and> r then [] else if r then replicate n ''..'' else replicate (Suc n) ''..'')"
proof (cases xs rule: rev_cases)
  case Nil
  then show ?thesis by (cases n) (auto simp: clean_seg_def replicate_append_same)
next
  case (snoc ys y)
  with assms have "y \<noteq> ''..''" by (simp add: proper_seg_def)
  with snoc show ?thesis by (simp add: clean_seg_def butlast_append)
qed

lemma clean_segsI: "list_all proper_seg xs \<Longrightarrow> (r \<longrightarrow> n = 0) \<Longrightarrow> clean_segs r (replicate n ''..'' @ xs)"
  by (auto simp: clean_segs_def)

lemma clean_seg_keeps:
  assumes "clean_segs r out" "CHR ''/'' \<notin> set seg"
  shows "clean_segs r (clean_seg r out seg)"
proof -
  obtain n xs where out: "out = replicate n ''..'' @ xs" "list_all proper_seg xs" "r \<longrightarrow> n = 0"
    using assms(1) by (auto simp: clean_segs_def)
  consider "seg = []" | "seg = ''.''" | "seg = ''..''" | "proper_seg seg"
    using assms(2) by (auto simp: proper_seg_def)
  then show ?thesis
  proof cases
    case 3
    have "list_all proper_seg (butlast xs)" using out(2) by (auto simp: list_all_iff dest: in_set_butlastD)
    then show ?thesis unfolding 3 out(1) clean_seg_up [OF out(2)]
      using out(3) clean_segsI [of "[]" r "Suc n"] clean_segsI [of "[]" r n] clean_segsI [of "butlast xs" r n]
      by auto
  next
    case 4
    then show ?thesis using out clean_segsI [of "xs @ [seg]" r n] by simp
  qed (use assms(1) in simp_all)
qed

lemma clean_segs_path: "clean_segs (starts_with p ''/'') (path_segs p)"
proof -
  have "clean_segs r (foldl (clean_seg r) out segs)"
    if "\<forall>s \<in> set segs. CHR ''/'' \<notin> set s" "clean_segs r out" for r out segs
    using that by (induction segs arbitrary: out) (auto simp: clean_seg_keeps)
  moreover have "clean_segs r []" for r using clean_segsI [of "[]" r 0] by simp
  ultimately show ?thesis using split_on_no_sep by (auto simp: path_segs_def)
qed

lemma foldl_clean_proper: "list_all proper_seg xs \<Longrightarrow> foldl (clean_seg r) out xs = out @ xs"
  by (induction xs arbitrary: out) simp_all

lemma foldl_clean_segs: "clean_segs r out \<Longrightarrow> foldl (clean_seg r) [] out = out"
proof -
  assume "clean_segs r out"
  then obtain n xs where out: "out = replicate n ''..'' @ xs" "list_all proper_seg xs" "r \<longrightarrow> n = 0"
    by (auto simp: clean_segs_def)
  have "foldl (clean_seg False) [] (replicate m ''..'') = replicate m ''..''" for m
  proof (induction m)
    case (Suc m)
    have "clean_seg False (replicate m ''..'') ''..'' = replicate (Suc m) ''..''"
      using clean_seg_up [of "[]" False m] by simp
    with Suc show ?case by (simp add: replicate_append_same [symmetric])
  qed simp
  with out show ?thesis by (cases r) (simp_all add: foldl_clean_proper)
qed

lemma clean_segs_elem: "clean_segs r out \<Longrightarrow> s \<in> set out \<Longrightarrow> s \<noteq> [] \<and> s \<noteq> ''.'' \<and> CHR ''/'' \<notin> set s"
proof -
  assume a: "clean_segs r out" "s \<in> set out"
  then obtain n xs where out: "out = replicate n ''..'' @ xs" "list_all proper_seg xs"
    unfolding clean_segs_def by blast
  show ?thesis
  proof (cases "s \<in> set xs")
    case True
    with out(2) have "proper_seg s" unfolding list_all_iff by blast
    then show ?thesis by (simp add: proper_seg_def)
  next
    case False
    with a(2) out(1) have "s = ''..''" by simp
    then show ?thesis by simp
  qed
qed

lemma join_with_Nil_iff: "(\<forall>s \<in> set xs. s \<noteq> []) \<Longrightarrow> join_with sep xs = [] \<longleftrightarrow> xs = []"
  by (cases xs rule: remdups_adj.cases) auto

lemma join_starts:
  assumes "\<forall>s \<in> set xs. s \<noteq> [] \<and> CHR ''/'' \<notin> set s"
  shows "\<not> starts_with (join_with ''/'' xs) ''/''"
proof (cases xs)
  case (Cons x ys)
  then obtain c cs where "x = c # cs" "c \<noteq> CHR ''/''" using assms by (cases x) auto
  with Cons show ?thesis by (cases ys) auto
qed simp

text \<open>Printing normal segments and cleaning the text again gives them back.\<close>

lemma show_path_rooted:
  assumes "clean_segs r out"
  shows "starts_with (show_path r out) ''/'' \<longleftrightarrow> r"
  using join_starts [of out] clean_segs_elem [OF assms] by (auto simp: show_path_def Let_def)

lemma split_show_path:
  assumes "clean_segs r out"
  shows "split_on (CHR ''/'') (show_path r out) =
    (if r then [] # (if out = [] then [[]] else out) else if out = [] then [''.''] else out)"
proof (cases "out = []")
  case True
  then show ?thesis by (simp add: show_path_def)
next
  case False
  have "join_with ''/'' out \<noteq> []" using False clean_segs_elem [OF assms] by (simp add: join_with_Nil_iff)
  moreover have "split_on (CHR ''/'') (join_with ''/'' out) = out"
    using False clean_segs_elem [OF assms] by (intro split_join) auto
  ultimately show ?thesis using False by (simp add: show_path_def)
qed

lemma path_segs_show: "clean_segs r out \<Longrightarrow> path_segs (show_path r out) = out"
  using foldl_clean_segs [of r out]
  by (cases r; cases "out = []") (simp_all add: path_segs_def show_path_rooted split_show_path)


section \<open>Joining and relativising\<close>

lemma path_segs_slashes:
  "foldl (clean_seg r) out (split_on (CHR ''/'') (s @ replicate n (CHR ''/''))) =
     foldl (clean_seg r) out (split_on (CHR ''/'') s)"
proof (induction n)
  case (Suc n)
  have "s @ replicate (Suc n) (CHR ''/'') = (s @ replicate n (CHR ''/'')) @ CHR ''/'' # []"
    by (simp add: replicate_append_same)
  then show ?case using Suc by (simp only: split_on_join foldl_append) simp
qed simp

lemma path_segs_trim:
  "foldl (clean_seg r) out (split_on (CHR ''/'') (trim_end_matches (CHR ''/'') s)) =
     foldl (clean_seg r) out (split_on (CHR ''/'') s)"
proof -
  obtain n where "s = trim_end_matches (CHR ''/'') s @ replicate n (CHR ''/'')"
    using trim_end_matches_append by blast
  then show ?thesis using path_segs_slashes [of r out "trim_end_matches (CHR ''/'') s" n] by simp
qed

lemma trim_end_rooted:
  assumes "a \<noteq> []"
  shows "starts_with (trim_end_matches (CHR ''/'') a @ ''/'' @ b) ''/'' \<longleftrightarrow> starts_with a ''/''"
proof -
  obtain n where n: "a = trim_end_matches (CHR ''/'') a @ replicate n (CHR ''/'')"
    using trim_end_matches_append by blast
  show ?thesis
  proof (cases "trim_end_matches (CHR ''/'') a")
    case Nil
    with n assms show ?thesis by (cases n) auto
  next
    case (Cons c cs)
    with n show ?thesis by (metis append_Cons starts_with.simps(1,3))
  qed
qed

text \<open>Joining continues the cleaning of the left path with the segments of the right one.\<close>

lemma path_join_segs:
  assumes "a \<noteq> []" "b \<noteq> []"
  shows "path_join a b =
    show_path (starts_with a ''/'') (foldl (clean_seg (starts_with a ''/'')) (path_segs a) (split_on (CHR ''/'') b))"
proof -
  have r: "starts_with (trim_end_matches (CHR ''/'') a @ CHR ''/'' # b) ''/'' = starts_with a ''/''"
    using trim_end_rooted [OF assms(1), of b] by simp
  have "path_segs (trim_end_matches (CHR ''/'') a @ CHR ''/'' # b) =
      foldl (clean_seg (starts_with a ''/'')) (path_segs a) (split_on (CHR ''/'') b)"
    by (simp only: path_segs_def r split_on_join foldl_append path_segs_trim)
  with assms r show ?thesis by (simp add: path_join_def clean_path_show)
qed

lemma common_len_take: "take (common_len bs ts) bs = take (common_len bs ts) ts"
  by (induction bs ts rule: common_len.induct) auto

lemma common_len_le: "common_len bs ts \<le> length bs \<and> common_len bs ts \<le> length ts"
  by (induction bs ts rule: common_len.induct) auto

lemma foldl_ups:
  "list_all proper_seg xs \<Longrightarrow> n \<le> length xs \<Longrightarrow>
     foldl (clean_seg r) xs (replicate n ''..'') = take (length xs - n) xs"
proof (induction n arbitrary: xs)
  case (Suc n)
  then obtain ys y where xs: "xs = ys @ [y]" by (cases xs rule: rev_cases) auto
  then have "clean_seg r xs ''..'' = ys" using clean_seg_up [of xs r 0] Suc by simp
  then show ?case using Suc xs by simp
qed simp

lemma rooted_proper: "clean_segs True out \<Longrightarrow> list_all proper_seg out"
  by (auto simp: clean_segs_def)

lemma rooted_nonempty: "starts_with p ''/'' \<Longrightarrow> p \<noteq> []"
  by auto

lemma filter_split_rooted:
  "clean_segs True out \<Longrightarrow> filter (\<lambda>s. s \<noteq> []) (split_on (CHR ''/'') (show_path True out)) = out"
  using clean_segs_elem [of True out] by (auto simp: split_show_path filter_id_conv)

text \<open>
  The relative path of two absolute paths leads from the first to the second: joined to
  the base it gives the cleaned target.
\<close>

theorem rel_path_leads_to_target:
  assumes "starts_with base ''/''" "starts_with target ''/''"
  shows "\<exists>r. rel_path base target = Some r \<and> path_join base r = clean_path target"
proof -
  let ?B = "path_segs base" and ?T = "path_segs target"
  have B: "clean_segs True ?B" and T: "clean_segs True ?T"
    using clean_segs_path [of base] clean_segs_path [of target] assms by simp_all
  have cb: "clean_path base = show_path True ?B" and ct: "clean_path target = show_path True ?T"
    using assms by (simp_all add: clean_path_show)
  have b: "base \<noteq> []" using assms(1) by (rule rooted_nonempty)
  show ?thesis
  proof (cases "?B = ?T")
    case True
    then have "rel_path base target = Some ''.''" by (simp add: rel_path_def cb ct)
    moreover have "path_join base ''.'' = clean_path target"
      using b assms True by (simp add: path_join_segs ct)
    ultimately show ?thesis by blast
  next
    case False
    let ?i = "common_len ?B ?T"
    let ?parts = "replicate (length ?B - ?i) ''..'' @ drop ?i ?T"
    have ne: "clean_path base \<noteq> clean_path target"
      using False path_segs_show [OF B] path_segs_show [OF T] unfolding cb ct by metis
    have eq: "take ?i ?B = take ?i ?T" by (rule common_len_take)
    have "?parts \<noteq> []"
    proof
      assume "?parts = []"
      then have "length ?B \<le> ?i" "length ?T \<le> ?i" by simp_all
      with eq have "?B = ?T" by simp
      with False show False ..
    qed
    moreover have nosl: "\<forall>s \<in> set ?parts. CHR ''/'' \<notin> set s \<and> s \<noteq> []"
      using clean_segs_elem [OF T] by (auto dest: in_set_dropD)
    ultimately have split: "split_on (CHR ''/'') (join_with ''/'' ?parts) = ?parts"
      and nonempty: "join_with ''/'' ?parts \<noteq> []"
      by (simp_all add: split_join join_with_Nil_iff del: append_is_Nil_conv)
    have "rel_path base target = Some (join_with ''/'' ?parts)"
      using ne \<open>?parts \<noteq> []\<close> B T unfolding rel_path_def cb ct
      by (simp add: filter_split_rooted Let_def del: append_is_Nil_conv)
    moreover have "path_join base (join_with ''/'' ?parts) = clean_path target"
    proof -
      have pT: "list_all proper_seg (drop ?i ?T)"
        using rooted_proper [OF T] by (auto simp: list_all_iff dest: in_set_dropD)
      have "foldl (clean_seg True) ?B (replicate (length ?B - ?i) ''..'') = take ?i ?B"
        using foldl_ups [OF rooted_proper [OF B], of "length ?B - ?i" True] common_len_le [of ?B ?T]
        by simp
      then have "foldl (clean_seg True) ?B ?parts = take ?i ?T @ drop ?i ?T"
        unfolding foldl_append using foldl_clean_proper [OF pT] eq by simp
      then show ?thesis
        unfolding path_join_segs [OF b nonempty] split ct using assms(1) by simp
    qed
    ultimately show ?thesis by blast
  qed
qed

theorem rel_path_leads_to_target_witness:
  "\<exists>r. rel_path ''/a/b/c'' ''/a/x'' = Some r \<and> path_join ''/a/b/c'' r = clean_path ''/a/x''"
  by (rule rel_path_leads_to_target) simp_all

lemma list_all_filter_self: "list_all P (filter P xs)"
  by (simp add: list_all_iff)

lemma foldl_clean_no_up:
  "\<forall>s \<in> set segs. s \<noteq> ''..'' \<and> CHR ''/'' \<notin> set s \<Longrightarrow>
     foldl (clean_seg r) out segs = out @ filter proper_seg segs"
proof (induction segs arbitrary: out)
  case (Cons s segs)
  then have "s \<noteq> ''..''" "CHR ''/'' \<notin> set s" by simp_all
  then have "s = [] \<or> s = ''.'' \<or> proper_seg s" by (auto simp: proper_seg_def)
  then show ?case
  proof (elim disjE)
    assume "proper_seg s"
    then show ?thesis using Cons by simp
  qed (use Cons in \<open>simp_all add: proper_seg_def\<close>)
qed simp

text \<open>
  C36. A download keeps below the local directory it is sent to: joining a relative path
  without parent segments to a local URL only appends segments to the cleaned directory.
\<close>

theorem local_join_stays_below:
  assumes "\<not> is_remote u" "url_path u \<noteq> []" "rel \<noteq> []" "''..'' \<notin> set (split_on (CHR ''/'') rel)"
  shows "path_segs (url_path (url_join u rel)) =
           path_segs (url_path u) @ filter proper_seg (split_on (CHR ''/'') rel)
    \<and> (starts_with (url_path (url_join u rel)) ''/'' \<longleftrightarrow> starts_with (url_path u) ''/'')"
proof -
  let ?r = "starts_with (url_path u) ''/''"
  let ?out = "path_segs (url_path u) @ filter proper_seg (split_on (CHR ''/'') rel)"
  have "\<forall>s \<in> set (split_on (CHR ''/'') rel). s \<noteq> ''..'' \<and> CHR ''/'' \<notin> set s"
  proof
    fix s assume s: "s \<in> set (split_on (CHR ''/'') rel)"
    with assms(4) have "s \<noteq> ''..''" by blast
    with split_on_no_sep [OF s] show "s \<noteq> ''..'' \<and> CHR ''/'' \<notin> set s" by simp
  qed
  then have j: "url_path (url_join u rel) = show_path ?r ?out"
    using assms(1-3) by (simp add: url_join_def path_join_segs foldl_clean_no_up)
  obtain n xs where "path_segs (url_path u) = replicate n ''..'' @ xs" "list_all proper_seg xs" "?r \<longrightarrow> n = 0"
    using clean_segs_path [of "url_path u"] unfolding clean_segs_def by blast
  then have "clean_segs ?r ?out"
    using clean_segsI [of "xs @ filter proper_seg (split_on (CHR ''/'') rel)" ?r n]
    by (simp only: append_assoc list_all_append list_all_filter_self simp_thms)
  then show ?thesis by (simp only: j path_segs_show show_path_rooted simp_thms)
qed

theorem local_join_stays_below_witness:
  "path_segs (url_path (url_join (demo_url ''/tmp/d'') ''a//b'')) = [''tmp'', ''d'', ''a'', ''b'']"
proof -
  have u: "\<not> is_remote (demo_url ''/tmp/d'')" "url_path (demo_url ''/tmp/d'') = ''/tmp/d''"
    by (simp_all add: demo_url_def url_eval Let_def)
  have "path_segs ''/tmp/d'' = [''tmp'', ''d'']" "filter proper_seg (split_on (CHR ''/'') ''a//b'') = [''a'', ''b'']"
    by (simp_all add: path_segs_def clean_seg_def proper_seg_def)
  then show ?thesis
    using local_join_stays_below [OF u(1), of "''a//b''"] u(2) by simp
qed

section \<open>Relative paths from the working directory\<close>

lemma proper_path: "proper_seg name \<Longrightarrow> clean_path name = name"
proof -
  assume n: "proper_seg name"
  have "path_segs name = [name]"
    using n by (simp add: path_segs_def split_on_single proper_seg_def clean_seg_def)
  moreover have "\<not> starts_with name ''/''"
    using n by (cases name) (auto simp: proper_seg_def)
  ultimately show ?thesis using n by (simp add: clean_path_show show_path_def proper_seg_def)
qed

text \<open>
  A wildcard in the working directory gives every match a relative path outside it: the
  base of \<^verbatim>\<open>*.txt\<close> is the dot, which \<open>rel_path\<close> takes for a directory to leave (Go's
  \<^verbatim>\<open>filepath.Rel\<close>, which it mirrors, takes it for the empty path), so the file \<open>name\<close> becomes
  \<^verbatim>\<open>../name\<close> and is copied to a key with a parent segment.
\<close>

theorem set_relative_working_directory:
  assumes "\<not> is_remote base" "is_wildcard base" "glob_char (hd (url_path base))"
    and "\<not> is_remote u" "url_path u = name" "proper_seg name"
  shows "relative (set_relative u base) = ''../'' @ name"
proof -
  have "url_path base \<noteq> []" using assms(2) by (auto simp: is_wildcard_def has_glob_character_def)
  then obtain g ps where g: "url_path base = g # ps" "glob_char g"
    using assms(3) by (cases "url_path base") auto
  then have "find_char glob_char (absolute base) = Some 0" using assms(1) by (simp add: absolute_def)
  then have dir: "go_dir (take 0 (absolute base)) = ''.''" by (simp add: go_dir_def)
  have cd: "clean_path ''.'' = ''.''" by (simp add: clean_path_show path_segs_def show_path_def)
  have nd: "name \<noteq> ''.''" "name \<noteq> []" "CHR ''/'' \<notin> set name" using assms(6) by (simp_all add: proper_seg_def)
  have "common_len [''.''] [name] = 0" using nd by simp
  then have "rel_path ''.'' name = Some (''../'' @ name)"
    using nd proper_path [OF assms(6)]
    by (simp add: rel_path_def cd split_on_single Let_def)
  then show ?thesis
    using dir assms(2,4,5) \<open>find_char glob_char (absolute base) = Some 0\<close>
    by (simp add: set_relative_def Let_def relative_def absolute_def is_remote_def)
qed

theorem set_relative_working_directory_witness:
  "relative (set_relative (demo_url ''a.txt'') (demo_url ''*.txt'')) = ''../a.txt''"
proof -
  have "\<not> is_remote (demo_url ''*.txt'')" "is_wildcard (demo_url ''*.txt'')"
    "glob_char (hd (url_path (demo_url ''*.txt'')))" "\<not> is_remote (demo_url ''a.txt'')"
    "url_path (demo_url ''a.txt'') = ''a.txt''"
    by (simp_all add: demo_url_def url_eval Let_def)
  from set_relative_working_directory [OF this] show ?thesis by (simp add: proper_seg_def)
qed

end
