(* ===== verification/Filters.thy ===== *)
theory Filters
  imports Url
begin

text \<open>
  Include and exclude globs (\<^verbatim>\<open>src/command/filters.rs\<close>), used by \<^verbatim>\<open>rm\<close>, \<^verbatim>\<open>sync\<close>, \<^verbatim>\<open>ls\<close>, \<^verbatim>\<open>cp\<close> and \<^verbatim>\<open>mv\<close>.
  Pattern files are read through a parameter that gives their content or an error text.
\<close>

record filters =
  f_includes :: "string list"
  f_excludes :: "string list"

fun compile_globs :: "regex_lib \<Rightarrow> string list \<Rightarrow> (string, string list) result" where
  "compile_globs L [] = Ok []"
| "compile_globs L (p # ps) =
     and_then (regex_new L (add_newline_flag (match_from_start_to_end (wildcard_to_regexp L p)))) (\<lambda>re.
     and_then (compile_globs L ps) (\<lambda>out. Ok (re # out)))"

definition filters_new :: "regex_lib \<Rightarrow> string list \<Rightarrow> string list \<Rightarrow> (string, filters) result" where
  "filters_new L includes excludes =
     and_then (compile_globs L includes) (\<lambda>inc.
     and_then (compile_globs L excludes) (\<lambda>exc.
     Ok \<lparr>f_includes = inc, f_excludes = exc\<rparr>))"

definition should_skip :: "regex_lib \<Rightarrow> filters \<Rightarrow> string \<Rightarrow> bool" where
  "should_skip L f key =
     (if list_ex (\<lambda>re. re_is_match L re key) (f_excludes f) then True
      else if f_includes f \<noteq> [] \<and> \<not> list_ex (\<lambda>re. re_is_match L re key) (f_includes f) then True
      else False)"

definition to_slash :: "string \<Rightarrow> string" where
  "to_slash s = s"

definition filter_key :: "url \<Rightarrow> string" where
  "filter_key u = to_slash (relative u)"

definition pattern_lines :: "string \<Rightarrow> string list" where
  "pattern_lines content =
     filter (\<lambda>line. \<not> (line = [] \<or> starts_with line ''#'')) (map str_trim (str_lines content))"

fun patterns_with_files ::
  "(string \<Rightarrow> (string, string) result) \<Rightarrow> string list \<Rightarrow> string list \<Rightarrow> (string, string list) result" where
  "patterns_with_files read_file out [] = Ok out"
| "patterns_with_files read_file out (f # fs) =
     (case read_file f of
        Inl e \<Rightarrow> Err (''reading pattern file '' @ f @ '': '' @ e)
      | Inr content \<Rightarrow> patterns_with_files read_file (out @ pattern_lines content) fs)"

section \<open>Filtering is globbing\<close>

context regex_engine
begin

lemma compile_globs_match:
  "compile_globs L ps = Inr res \<Longrightarrow> list_all rust_str ps \<Longrightarrow>
     length res = length ps \<and>
     (list_ex (\<lambda>re. re_is_match L re key) res \<longleftrightarrow> list_ex (\<lambda>p. glob (chars p) (chars key)) ps)"
proof (induction ps arbitrary: res)
  case Nil
  then show ?case by simp
next
  case (Cons p ps)
  then obtain re out where r: "regex_new L (add_newline_flag (match_from_start_to_end (wildcard_to_regexp L p))) = Inr re"
    "compile_globs L ps = Inr out" "res = re # out"
    by (auto simp: and_then_eq_Inr)
  have "re_is_match L re key \<longleftrightarrow> glob (chars p) (chars key)"
    using glob_regex_match [OF _ r(1)] Cons.prems by simp
  with r Cons show ?case by simp
qed

end

text \<open>
  A key is skipped exactly when an exclude glob matches it, or when there are include
  globs and none of them matches: excludes win over includes, and without patterns nothing is
  skipped.
\<close>

theorem filters_skip_iff:
  assumes "regex_engine L" "filters_new L includes excludes = Inr f"
    and "list_all rust_str includes" "list_all rust_str excludes"
  shows "should_skip L f key \<longleftrightarrow>
    list_ex (\<lambda>p. glob (chars p) (chars key)) excludes \<or>
    (includes \<noteq> [] \<and> \<not> list_ex (\<lambda>p. glob (chars p) (chars key)) includes)"
proof -
  obtain inc exc where c: "compile_globs L includes = Inr inc" "compile_globs L excludes = Inr exc"
    and f: "f = \<lparr>f_includes = inc, f_excludes = exc\<rparr>"
    using assms(2) by (auto simp: filters_new_def and_then_eq_Inr)
  note I = regex_engine.compile_globs_match [OF assms(1) c(1) assms(3), of key]
  note E = regex_engine.compile_globs_match [OF assms(1) c(2) assms(4), of key]
  have "inc = [] \<longleftrightarrow> includes = []" using I by auto
  with I E f show ?thesis by (auto simp: should_skip_def)
qed

theorem filters_skip_iff_witness:
  "\<exists>f. filters_new reference_engine [''data/*''] [''*.tmp''] = Inr f \<and>
     should_skip reference_engine f ''data/x.tmp'' \<and> \<not> should_skip reference_engine f ''data/x.log''
     \<and> should_skip reference_engine f ''other/x.log''"
proof -
  obtain f where f: "filters_new reference_engine [''data/*''] [''*.tmp''] = Inr f"
    by (simp add: filters_new_def)
  have "rust_str ''data/*''" "rust_str ''*.tmp''"
    by (rule rust_str_ascii_only, simp add: byte_of_def)+
  then have iff: "should_skip reference_engine f key \<longleftrightarrow>
    list_ex (\<lambda>p. glob (chars p) (chars key)) [''*.tmp''] \<or>
    ([''data/*''] \<noteq> [] \<and> \<not> list_ex (\<lambda>p. glob (chars p) (chars key)) [''data/*''])" for key
    using filters_skip_iff [OF reference_engine_ok f] by simp
  have "glob (chars ''*.tmp'') (chars ''data/x.tmp'')" "\<not> glob (chars ''*.tmp'') (chars ''data/x.log'')"
    "glob (chars ''data/*'') (chars ''data/x.log'')" "\<not> glob (chars ''data/*'') (chars ''other/x.log'')"
    by code_simp+
  then show ?thesis
    by (intro exI [of _ f] conjI f) (simp_all only: iff list_ex_Nil_iff list_ex_Cons_iff simp_thms list.simps)
qed

end
