(* ===== verification/Ratelimit.thy ===== *)
theory Ratelimit
  imports Prelude
begin

text \<open>
  The aggregate bandwidth limiter (\<^verbatim>\<open>src/ratelimit.rs\<close>). Instants are nanoseconds; the clock
  readings of a call are parameters. A run of the limiter is the list of its acquisitions in
  the order in which they take the lock, whichever tasks they come from.
\<close>

record rate_limiter =
  rl_rate :: nat
  rl_next_time :: nat
  rl_burst :: nat

definition limiter_new :: "nat \<Rightarrow> nat \<Rightarrow> rate_limiter" where
  "limiter_new rate now =
     (let burst = max rate (5 * 1024 * 1024)
      in \<lparr>rl_rate = rate, rl_next_time = now, rl_burst = burst\<rparr>)"

definition limiter_rate :: "rate_limiter \<Rightarrow> nat" where
  "limiter_rate rl = rl_rate rl"

definition div_rate_to_nanos :: "nat \<Rightarrow> nat \<Rightarrow> nat" where
  "div_rate_to_nanos bytes rate = min (bytes * 1000000000 div rate) u64_max"

text \<open>
  The instant from which the caller may transfer (nothing when the call returns at once), and
  the limiter afterwards; the caller sleeps until that instant if it lies ahead.
\<close>

definition acquire :: "rate_limiter \<Rightarrow> nat \<Rightarrow> nat \<Rightarrow> nat option \<times> rate_limiter" where
  "acquire rl n now =
     (if n = 0 \<or> rl_rate rl = 0 then (None, rl)
      else
        let cost = div_rate_to_nanos n (rl_rate rl);
            start = (if rl_next_time rl > now then rl_next_time rl else now);
            max_lag = div_rate_to_nanos (rl_burst rl) (rl_rate rl);
            start = (if now > start + max_lag then now - max_lag else start)
        in (Some start, rl\<lparr>rl_next_time := start + cost\<rparr>))"

text \<open>The start instants of a run of acquisitions (bytes, clock reading).\<close>

fun acquire_all :: "rate_limiter \<Rightarrow> (nat \<times> nat) list \<Rightarrow> nat option list" where
  "acquire_all rl [] = []"
| "acquire_all rl ((n, now) # reqs) =
     (case acquire rl n now of (start, rl') \<Rightarrow> start # acquire_all rl' reqs)"

section \<open>The burst allowance\<close>

lemma acquire_start:
  assumes "0 < n" "0 < rl_rate rl"
  shows "acquire rl n now =
    (Some (max (rl_next_time rl) now),
     rl\<lparr>rl_next_time := max (rl_next_time rl) now + div_rate_to_nanos n (rl_rate rl)\<rparr>)"
  using assms by (auto simp: acquire_def Let_def max_def)

text \<open>
  The burst size has no effect on any reservation: the start instant is never before the
  clock, so the branch that would grant an idle limiter a catch-up is never taken.
\<close>

theorem limiter_burst_unused:
  "fst (acquire (rl\<lparr>rl_burst := b\<rparr>) n now) = fst (acquire rl n now) \<and>
   rl_next_time (snd (acquire (rl\<lparr>rl_burst := b\<rparr>) n now)) = rl_next_time (snd (acquire rl n now))"
  by (cases "n = 0 \<or> rl_rate rl = 0") (auto simp: acquire_start, simp_all add: acquire_def)

section \<open>The cap\<close>

lemma cost_bound:
  assumes "0 < rate" "n * 1000000000 div rate \<le> u64_max"
  shows "n * 1000000000 \<le> (div_rate_to_nanos n rate + 1) * rate"
proof -
  have "n * 1000000000 = n * 1000000000 div rate * rate + n * 1000000000 mod rate" by simp
  moreover have "n * 1000000000 mod rate < rate" using assms(1) by simp
  ultimately have "n * 1000000000 \<le> n * 1000000000 div rate * rate + rate" by linarith
  then show ?thesis using assms(2) by (simp add: div_rate_to_nanos_def)
qed

lemma acquire_all_Cons:
  assumes "0 < n" "0 < rl_rate rl"
  shows "acquire_all rl ((n, now) # reqs) =
    Some (max (rl_next_time rl) now) # acquire_all (snd (acquire rl n now)) reqs"
  using assms by (simp add: acquire_start)

lemma acquire_all_Nil_iff: "acquire_all rl reqs = [] \<longleftrightarrow> reqs = []"
  by (cases reqs) (auto split: prod.splits)

lemma acquire_all_after:
  assumes "0 < rl_rate rl" "\<forall>(n, now) \<in> set reqs. 0 < n" "Some s \<in> set (acquire_all rl reqs)"
  shows "rl_next_time rl \<le> s"
  using assms
proof (induction reqs arbitrary: rl)
  case (Cons req reqs)
  obtain n now where req: "req = (n, now)" by (cases req)
  let ?rl' = "snd (acquire rl n now)"
  have a: "acquire_all rl (req # reqs) = Some (max (rl_next_time rl) now) # acquire_all ?rl' reqs"
    "rl_rate ?rl' = rl_rate rl" "rl_next_time rl \<le> rl_next_time ?rl'"
    using Cons.prems by (simp_all add: req acquire_start)
  from Cons.prems(3) consider "s = max (rl_next_time rl) now" | "Some s \<in> set (acquire_all ?rl' reqs)"
    unfolding a(1) by auto
  then show ?case
  proof cases
    case 2
    with Cons.IH [of ?rl'] Cons.prems a show ?thesis by (auto simp: req)
  qed simp
qed simp

text \<open>
  C21. The cap is aggregate: for any run of acquisitions, by any tasks and at any clock
  readings, the bytes granted before a later reservation fit into the time between the first
  start and that reservation's start at the configured rate, up to one nanosecond of rounding
  per reservation.
\<close>

theorem limiter_caps_throughput:
  assumes "0 < rl_rate rl" "\<forall>(n, now) \<in> set ((n0, now0) # reqs). 0 < n \<and> n * 1000000000 div rl_rate rl \<le> u64_max"
    and "acquire_all rl ((n0, now0) # reqs @ [(n1, now1)]) = Some s0 # starts @ [Some s1]" "0 < n1"
  shows "sum_list (map fst ((n0, now0) # reqs)) * 1000000000 \<le> (s1 - s0 + length reqs + 1) * rl_rate rl
    \<and> s0 \<le> s1"
  using assms
proof (induction reqs arbitrary: rl n0 now0 s0 starts)
  case Nil
  let ?rl' = "snd (acquire rl n0 now0)"
  have "s0 = max (rl_next_time rl) now0"
    and s1: "s1 = max (rl_next_time ?rl') now1"
    using Nil.prems by (auto simp: acquire_start)
  then have "s0 + div_rate_to_nanos n0 (rl_rate rl) \<le> s1"
    using Nil.prems by (simp add: acquire_start)
  then have "div_rate_to_nanos n0 (rl_rate rl) + 1 \<le> s1 - s0 + 1" "s0 \<le> s1" by simp_all
  then have "(div_rate_to_nanos n0 (rl_rate rl) + 1) * rl_rate rl \<le> (s1 - s0 + 1) * rl_rate rl"
    by (intro mult_right_mono) auto
  moreover have "n0 * 1000000000 \<le> (div_rate_to_nanos n0 (rl_rate rl) + 1) * rl_rate rl"
    using Nil.prems by (intro cost_bound) auto
  ultimately have "n0 * 1000000000 \<le> (s1 - s0 + 1) * rl_rate rl" by (rule order_trans [rotated])
  then show ?case using \<open>s0 \<le> s1\<close> by simp
next
  case (Cons req reqs)
  obtain n now where req: "req = (n, now)" by (cases req)
  let ?rl' = "snd (acquire rl n0 now0)"
  have rl': "rl_rate ?rl' = rl_rate rl" using Cons.prems by (simp add: acquire_start)
  have s0: "s0 = max (rl_next_time rl) now0"
    and eq: "acquire_all ?rl' ((n, now) # reqs @ [(n1, now1)]) = starts @ [Some s1]"
    using Cons.prems acquire_all_Cons [of n0 rl now0 "req # reqs @ [(n1, now1)]"] by (simp_all add: req)
  obtain s2 zs where z: "acquire_all ?rl' ((n, now) # reqs @ [(n1, now1)]) = Some s2 # zs" "zs \<noteq> []"
    using acquire_all_Cons [of n ?rl' now "reqs @ [(n1, now1)]"] Cons.prems rl'
    by (simp add: req) (metis acquire_all_Nil_iff snoc_eq_iff_butlast)
  then obtain rest where tail: "acquire_all ?rl' ((n, now) # reqs @ [(n1, now1)]) = Some s2 # rest @ [Some s1]"
    unfolding eq by (cases starts) simp_all
  have IH: "sum_list (map fst ((n, now) # reqs)) * 1000000000 \<le> (s1 - s2 + length reqs + 1) * rl_rate rl"
    "s2 \<le> s1"
    using Cons.IH [OF _ _ tail] Cons.prems rl' by (auto simp: req)
  have "s0 + div_rate_to_nanos n0 (rl_rate rl) \<le> s2"
    using acquire_all_after [of ?rl' "(n, now) # reqs @ [(n1, now1)]" s2] Cons.prems tail rl' s0
    by (auto simp: req acquire_start)
  then have step: "s0 \<le> s2" "div_rate_to_nanos n0 (rl_rate rl) + 1 \<le> s2 - s0 + 1" by simp_all
  have "n0 * 1000000000 \<le> (div_rate_to_nanos n0 (rl_rate rl) + 1) * rl_rate rl"
    using Cons.prems by (intro cost_bound) auto
  also have "\<dots> \<le> (s2 - s0 + 1) * rl_rate rl" using step(2) by (intro mult_right_mono) auto
  finally have "sum_list (map fst ((n0, now0) # req # reqs)) * 1000000000
      \<le> (s2 - s0 + 1) * rl_rate rl + (s1 - s2 + length reqs + 1) * rl_rate rl"
    using IH(1) by (simp add: req algebra_simps)
  also have "\<dots> = (s2 - s0 + 1 + (s1 - s2 + length reqs + 1)) * rl_rate rl"
    by (simp only: distrib_right)
  also have "s2 - s0 + 1 + (s1 - s2 + length reqs + 1) = s1 - s0 + length (req # reqs) + 1"
    using step(1) IH(2) by simp
  finally show ?case using step(1) IH(2) by simp
qed

theorem limiter_caps_throughput_witness:
  "sum_list (map fst [(500, 0), (500, 0)]) * 1000000000 \<le> (1000000000 - 0 + 1 + 1) * (1000::nat) \<and> (0::nat) \<le> 1000000000"
proof -
  let ?rl = "limiter_new 1000 0"
  have r: "rl_rate ?rl = 1000" by (simp add: limiter_new_def)
  have "acquire_all ?rl ((500, 0) # [(500, 0)] @ [(500, 0)]) = Some 0 # [Some 500000000] @ [Some 1000000000]"
    by (simp add: limiter_new_def acquire_def div_rate_to_nanos_def Let_def)
  from limiter_caps_throughput [OF _ _ this] r show ?thesis by simp
qed

end
