(* ===== verification/Storage.thy ===== *)
theory Storage
  imports Url Ratelimit
begin

text \<open>
  The types the storage back ends share (\<^verbatim>\<open>src/storage/mod.rs\<close>, \<^verbatim>\<open>src/error.rs\<close>): objects,
  metadata, options with their per-side resolution, errors. An \<^verbatim>\<open>anyhow::Error\<close> is a value of
  \<open>error\<close>, one constructor per typed error the code tells apart.
\<close>

section \<open>Errors\<close>

text \<open>
  An error of the AWS SDK, as far as the program looks at it: its Debug text, the Debug and the
  alternate Display text of the \<^verbatim>\<open>anyhow\<close> error made of it, and whether the service error is a
  not-found.
\<close>

record sdk_error =
  se_debug :: string
  se_anyhow_debug :: string
  se_chain :: string
  se_display :: string
  se_not_found :: bool

datatype error =
    SdkError sdk_error
  | ObjectNotFound string
  | NoObjectFound
  | PreconditionFailedError string
  | IoError string "int option"
  | DirNotEmpty
  | AlreadyExists
  | Message string

datatype warning =
    ObjectExists
  | ObjectIsNewer
  | ObjectSizesMatch
  | ObjectIsNewerAndSizesMatch
  | ObjectIsGlacier

definition warning_text :: "warning \<Rightarrow> string" where
  "warning_text w =
     (case w of
        ObjectExists \<Rightarrow> ''object already exists''
      | ObjectIsNewer \<Rightarrow> ''object is newer or same age''
      | ObjectSizesMatch \<Rightarrow> ''object size matches''
      | ObjectIsNewerAndSizesMatch \<Rightarrow> ''object is newer or same age and object size matches''
      | ObjectIsGlacier \<Rightarrow> ''object is in Glacier storage class'')"

text \<open>\<^verbatim>\<open>{e:#}\<close>: the error with its chain of causes.\<close>

definition error_chain :: "error \<Rightarrow> string" where
  "error_chain e =
     (case e of
        SdkError s \<Rightarrow> se_chain s
      | ObjectNotFound s \<Rightarrow> ''given object '' @ s @ '' not found''
      | NoObjectFound \<Rightarrow> ''no object found''
      | PreconditionFailedError u \<Rightarrow> ''object already exists, skipped: '' @ u
      | IoError s _ \<Rightarrow> s
      | DirNotEmpty \<Rightarrow> ''directory not empty''
      | AlreadyExists \<Rightarrow> ''already exists''
      | Message s \<Rightarrow> s)"

definition error_debug :: "error \<Rightarrow> string" where
  "error_debug e = (case e of SdkError s \<Rightarrow> se_anyhow_debug s | _ \<Rightarrow> error_chain e)"

definition is_emfile :: "error \<Rightarrow> bool" where
  "is_emfile e = (case e of IoError _ code \<Rightarrow> code = Some 24 | _ \<Rightarrow> False)"

definition format_error :: "string \<Rightarrow> error \<Rightarrow> string" where
  "format_error hint e =
     (let base = error_chain e in if is_emfile e then base @ '' ('' @ hint @ '')'' else base)"

record job_error =
  je_op :: string
  je_src :: "url option"
  je_dst :: "url option"
  je_err :: error

definition full_command :: "job_error \<Rightarrow> string" where
  "full_command j =
     (let src = (case je_src j of None \<Rightarrow> [] | Some u \<Rightarrow> absolute u);
          dst = (case je_dst j of None \<Rightarrow> [] | Some u \<Rightarrow> absolute u)
      in str_trim (je_op j @ '' '' @ src @ '' '' @ dst))"

section \<open>Objects and metadata\<close>

datatype object_type = FileType | DirType | SymlinkType | UnknownType

definition type_is_dir :: "object_type \<Rightarrow> bool" where
  "type_is_dir t = (case t of DirType \<Rightarrow> True | _ \<Rightarrow> False)"

definition type_is_symlink :: "object_type \<Rightarrow> bool" where
  "type_is_symlink t = (case t of SymlinkType \<Rightarrow> True | _ \<Rightarrow> False)"

definition type_is_regular :: "object_type \<Rightarrow> bool" where
  "type_is_regular t = (case t of FileType \<Rightarrow> True | _ \<Rightarrow> False)"

definition type_text :: "object_type \<Rightarrow> string" where
  "type_text t =
     (case t of FileType \<Rightarrow> ''file'' | DirType \<Rightarrow> ''directory'' | SymlinkType \<Rightarrow> ''symlink'' | UnknownType \<Rightarrow> [])"

definition is_glacier :: "string \<Rightarrow> bool" where
  "is_glacier storage_class \<longleftrightarrow> storage_class = ''GLACIER''"

text \<open>Times are nanoseconds since the Unix epoch.\<close>

record object =
  ob_url :: "url option"
  ob_etag :: string
  ob_mod_time :: "int option"
  ob_typ :: object_type
  ob_size :: int
  ob_storage_class :: string
  ob_is_delete_marker :: bool
  ob_err :: "error option"

definition default_object :: object where
  "default_object =
     \<lparr>ob_url = None, ob_etag = [], ob_mod_time = None, ob_typ = UnknownType, ob_size = 0,
      ob_storage_class = [], ob_is_delete_marker = False, ob_err = None\<rparr>"

definition object_with_error :: "error \<Rightarrow> object" where
  "object_with_error e = default_object\<lparr>ob_err := Some e\<rparr>"

record metadata =
  md_acl :: "string option"
  md_cache_control :: "string option"
  md_expires :: "string option"
  md_storage_class :: "string option"
  md_content_type :: "string option"
  md_content_encoding :: "string option"
  md_content_disposition :: "string option"
  md_encryption_method :: "string option"
  md_encryption_key_id :: "string option"
  md_user_defined :: "string \<Rightarrow> string option"
  md_directive :: "string option"
  md_if_none_match :: bool

definition default_metadata :: metadata where
  "default_metadata =
     \<lparr>md_acl = None, md_cache_control = None, md_expires = None, md_storage_class = None,
      md_content_type = None, md_content_encoding = None, md_content_disposition = None,
      md_encryption_method = None, md_encryption_key_id = None, md_user_defined = (\<lambda>_. None),
      md_directive = None, md_if_none_match = False\<rparr>"

section \<open>Options\<close>

record options =
  op_max_retries :: nat
  op_endpoint :: "string option"
  op_no_verify_ssl :: bool
  op_dry_run :: bool
  op_no_sign_request :: bool
  op_use_list_objects_v1 :: bool
  op_request_payer :: "string option"
  op_profile :: "string option"
  op_region :: "string option"
  op_source_region :: "string option"
  op_destination_region :: "string option"
  op_source_endpoint :: "string option"
  op_destination_endpoint :: "string option"
  op_proxy :: "string option"
  op_addressing_style :: "string option"
  op_ca_certs_file :: "string option"
  op_use_dualstack_endpoint :: bool
  op_use_fips_endpoint :: bool
  op_part_size :: nat
  op_concurrency :: nat
  op_preserve_timestamps :: bool
  op_client_copy :: bool
  op_remove_empty_dirs :: bool
  op_upload_limiter :: "rate_limiter option"
  op_download_limiter :: "rate_limiter option"

abbreviation DEFAULT_PART_SIZE :: nat where
  "DEFAULT_PART_SIZE \<equiv> 8 * 1024 * 1024"

abbreviation DEFAULT_CONCURRENCY :: nat where
  "DEFAULT_CONCURRENCY \<equiv> 8"

definition default_options :: options where
  "default_options =
     \<lparr>op_max_retries = 0, op_endpoint = None, op_no_verify_ssl = False, op_dry_run = False,
      op_no_sign_request = False, op_use_list_objects_v1 = False, op_request_payer = None,
      op_profile = None, op_region = None, op_source_region = None, op_destination_region = None,
      op_source_endpoint = None, op_destination_endpoint = None, op_proxy = None,
      op_addressing_style = None, op_ca_certs_file = None, op_use_dualstack_endpoint = False,
      op_use_fips_endpoint = False, op_part_size = DEFAULT_PART_SIZE,
      op_concurrency = DEFAULT_CONCURRENCY, op_preserve_timestamps = False, op_client_copy = False,
      op_remove_empty_dirs = False, op_upload_limiter = None, op_download_limiter = None\<rparr>"

datatype side = Source | Destination

text \<open>\<^verbatim>\<open>Option::filter(|s| !s.is_empty())\<close> followed by \<^verbatim>\<open>or_else\<close>.\<close>

definition non_empty :: "string option \<Rightarrow> string option" where
  "non_empty x = (case x of None \<Rightarrow> None | Some s \<Rightarrow> if s = [] then None else Some s)"

definition or_else :: "'a option \<Rightarrow> 'a option \<Rightarrow> 'a option" where
  "or_else x y = (case x of None \<Rightarrow> y | Some v \<Rightarrow> Some v)"

lemma or_else_simps [simp]: "or_else None y = y" "or_else (Some v) y = Some v"
  by (simp_all add: or_else_def)

lemma non_empty_simps [simp]: "non_empty None = None" "s \<noteq> [] \<Longrightarrow> non_empty (Some s) = Some s" "non_empty (Some []) = None"
  by (simp_all add: non_empty_def)

definition region_for :: "options \<Rightarrow> side \<Rightarrow> string option" where
  "region_for o1 sd =
     (let per_side = (case sd of Source \<Rightarrow> op_source_region o1 | Destination \<Rightarrow> op_destination_region o1)
      in or_else (non_empty per_side) (op_region o1))"

definition endpoint_for :: "options \<Rightarrow> side \<Rightarrow> string option" where
  "endpoint_for o1 sd =
     (let per_side = (case sd of Source \<Rightarrow> op_source_endpoint o1 | Destination \<Rightarrow> op_destination_endpoint o1)
      in or_else (non_empty per_side) (op_endpoint o1))"

definition for_side :: "options \<Rightarrow> side \<Rightarrow> options" where
  "for_side o1 sd = o1\<lparr>op_region := region_for o1 sd, op_endpoint := endpoint_for o1 sd\<rparr>"

definition sides_differ :: "options \<Rightarrow> bool" where
  "sides_differ o1 \<longleftrightarrow>
     region_for o1 Source \<noteq> region_for o1 Destination \<or> endpoint_for o1 Source \<noteq> endpoint_for o1 Destination"

definition MTIME_METADATA_KEY :: string where
  "MTIME_METADATA_KEY = ''file-mtime''"

section \<open>Per-side resolution\<close>

text \<open>
  When the two sides do not differ, the options each side is resolved to lead to the same
  region and endpoint, so the single shared client of a transfer stands for both; and resolving
  a side twice changes nothing.
\<close>

theorem sides_agree:
  "(\<not> sides_differ o1 \<longleftrightarrow>
      op_region (for_side o1 Source) = op_region (for_side o1 Destination) \<and>
      op_endpoint (for_side o1 Source) = op_endpoint (for_side o1 Destination))
   \<and> for_side (for_side o1 sd) sd = for_side o1 sd"
proof
  show "\<not> sides_differ o1 \<longleftrightarrow>
      op_region (for_side o1 Source) = op_region (for_side o1 Destination) \<and>
      op_endpoint (for_side o1 Source) = op_endpoint (for_side o1 Destination)"
    by (simp add: sides_differ_def for_side_def)
  have idem: "or_else (non_empty x) (or_else (non_empty x) y) = or_else (non_empty x) y" for x and y :: "string option"
    by (cases "non_empty x") simp_all
  show "for_side (for_side o1 sd) sd = for_side o1 sd"
    by (cases sd) (simp_all add: for_side_def region_for_def endpoint_for_def idem Let_def)
qed

end
