(* ===== verification/Files.thy ===== *)
theory Files
  imports Text
begin

text \<open>
  The content of an open file, a byte string, under the positioned operations of \<^verbatim>\<open>std::fs\<close> the
  program uses: \<^verbatim>\<open>set_len\<close>, \<^verbatim>\<open>write_all_at\<close>, \<^verbatim>\<open>read_at\<close>. A gap is filled with zero bytes. Writes to
  disjoint ranges inside the file commute, so concurrent part writers leave the same file in
  whatever order they finish.
\<close>

definition zeros :: "nat \<Rightarrow> string" where
  "zeros n = replicate n (CHR 0x00)"

definition file_set_len :: "nat \<Rightarrow> string \<Rightarrow> string" where
  "file_set_len n f = take n f @ zeros (n - length f)"

definition file_write_at :: "nat \<Rightarrow> string \<Rightarrow> string \<Rightarrow> string" where
  "file_write_at off data f =
     (if data = [] then f
      else take off f @ zeros (off - length f) @ data @ drop (off + length data) f)"

definition file_read_at :: "nat \<Rightarrow> nat \<Rightarrow> string \<Rightarrow> string" where
  "file_read_at off n f = take n (drop off f)"

lemma length_zeros [simp]: "length (zeros n) = n"
  by (simp add: zeros_def)

lemma zeros_0 [simp]: "zeros 0 = []"
  by (simp add: zeros_def)

lemma length_set_len [simp]: "length (file_set_len n f) = n"
  by (auto simp: file_set_len_def)

lemma length_write_at:
  "length (file_write_at off data f) = (if data = [] then length f else max (length f) (off + length data))"
  by (auto simp: file_write_at_def)

lemma write_at_nth:
  assumes "i < length (file_write_at off data f)"
  shows "file_write_at off data f ! i =
    (if off \<le> i \<and> i < off + length data then data ! (i - off)
     else if i < length f then f ! i else CHR 0x00)"
proof (cases "data = []")
  case True
  with assms show ?thesis by (auto simp: file_write_at_def)
next
  case False
  have len: "i < max (length f) (off + length data)" using assms False by (simp add: length_write_at)
  let ?pre = "take off f @ zeros (off - length f)"
  have pre: "length ?pre = off" by auto
  have w: "file_write_at off data f = ?pre @ data @ drop (off + length data) f"
    using False by (simp add: file_write_at_def)
  have tail: "file_write_at off data f ! i = (data @ drop (off + length data) f) ! (i - off)" if "off \<le> i"
    unfolding w nth_append [of ?pre] pre using that by (simp add: not_less)
  consider "i < off" | "off \<le> i" "i < off + length data" | "off + length data \<le> i" by linarith
  then show ?thesis
  proof cases
    case 1
    then have "file_write_at off data f ! i = ?pre ! i" unfolding w using pre by (metis nth_append)
    also have "\<dots> = (if i < length f then f ! i else CHR 0x00)"
      using 1 by (auto simp: nth_append zeros_def)
    finally show ?thesis using 1 by simp
  next
    case 2
    then have "file_write_at off data f ! i = (data @ drop (off + length data) f) ! (i - off)"
      using tail by simp
    moreover have "i - off < length data" using 2 by linarith
    ultimately show ?thesis using 2 by (simp add: nth_append)
  next
    case 3
    then have "file_write_at off data f ! i = (data @ drop (off + length data) f) ! (i - off)"
      using tail by simp
    also have "\<not> i - off < length data" using 3 by linarith
    then have "(data @ drop (off + length data) f) ! (i - off) = drop (off + length data) f ! (i - off - length data)"
      by (simp only: nth_append if_False)
    also have "\<dots> = f ! i" using 3 len by (subst nth_drop) auto
    finally show ?thesis using 3 len by auto
  qed
qed

lemma read_own_write:
  "file_read_at off (length data) (file_write_at off data f) = data"
proof (rule nth_equalityI)
  show "length (file_read_at off (length data) (file_write_at off data f)) = length data"
    by (auto simp: file_read_at_def length_write_at)
next
  fix i assume "i < length (file_read_at off (length data) (file_write_at off data f))"
  then have i: "i < length data" by (auto simp: file_read_at_def length_write_at)
  then have "off + i < length (file_write_at off data f)" by (auto simp: length_write_at)
  with i show "file_read_at off (length data) (file_write_at off data f) ! i = data ! i"
    using write_at_nth [of "off + i" off data f] by (simp add: file_read_at_def)
qed

section \<open>Writers of disjoint ranges\<close>

definition write_part :: "nat \<times> string \<Rightarrow> string \<Rightarrow> string" where
  "write_part p f = file_write_at (fst p) (snd p) f"

definition parts_disjoint :: "nat \<times> string \<Rightarrow> nat \<times> string \<Rightarrow> bool" where
  "parts_disjoint p q \<longleftrightarrow> fst p + length (snd p) \<le> fst q \<or> fst q + length (snd q) \<le> fst p"

lemma write_parts_commute:
  assumes "parts_disjoint p q"
  shows "write_part p (write_part q f) = write_part q (write_part p f)"
proof (cases "snd p = [] \<or> snd q = []")
  case True
  then show ?thesis by (auto simp: write_part_def file_write_at_def)
next
  case False
  show ?thesis
  proof (rule nth_equalityI)
    show "length (write_part p (write_part q f)) = length (write_part q (write_part p f))"
      using False by (simp add: write_part_def length_write_at)
  next
    fix i assume i: "i < length (write_part p (write_part q f))"
    then have i': "i < length (write_part q (write_part p f))"
      using False by (simp add: write_part_def length_write_at)
    show "write_part p (write_part q f) ! i = write_part q (write_part p f) ! i"
      using assms False i i' unfolding write_part_def
      by (auto simp: write_at_nth length_write_at parts_disjoint_def)
  qed
qed

interpretation part_writes: commuting_steps write_part parts_disjoint
  by unfold_locales (rule write_parts_commute)

text \<open>Writing every part of a division of the file makes the file that content.\<close>

lemma length_fold_write:
  "\<forall>p \<in> set ps. fst p + length (snd p) \<le> length f \<Longrightarrow> length (fold write_part ps f) = length f"
  by (induction ps arbitrary: f) (auto simp: write_part_def length_write_at)

lemma fold_write_parts_nth:
  assumes "\<forall>p \<in> set ps. snd p = take (length (snd p)) (drop (fst p) obj) \<and> fst p + length (snd p) \<le> length obj"
    and "length f = length obj" "i < length obj"
  shows "fold write_part ps f ! i =
    (if \<exists>p \<in> set ps. fst p \<le> i \<and> i < fst p + length (snd p) then obj ! i else f ! i)"
  using assms
proof (induction ps arbitrary: f)
  case (Cons p ps)
  have len: "length (write_part p f) = length obj"
    using Cons.prems by (auto simp: write_part_def length_write_at)
  have p: "write_part p f ! i = (if fst p \<le> i \<and> i < fst p + length (snd p) then obj ! i else f ! i)"
  proof (cases "fst p \<le> i \<and> i < fst p + length (snd p)")
    case True
    then have "snd p ! (i - fst p) = take (length (snd p)) (drop (fst p) obj) ! (i - fst p)"
      using Cons.prems(1) by (metis list.set_intros(1))
    also have "\<dots> = drop (fst p) obj ! (i - fst p)" using True by (intro nth_take) linarith
    also have "\<dots> = obj ! i" using True Cons.prems(1) by (subst nth_drop) auto
    finally show ?thesis using True len Cons.prems by (simp add: write_part_def write_at_nth)
  next
    case False
    then show ?thesis using len Cons.prems by (auto simp: write_part_def write_at_nth)
  qed
  show ?case using Cons.IH [of "write_part p f"] Cons.prems len p by auto
qed simp

lemma fold_write_parts_whole:
  assumes "\<forall>p \<in> set ps. snd p = take (length (snd p)) (drop (fst p) obj) \<and> fst p + length (snd p) \<le> length obj"
    and "length f = length obj"
    and "\<And>i. i < length obj \<Longrightarrow> (\<exists>p \<in> set ps. fst p \<le> i \<and> i < fst p + length (snd p)) \<or> f ! i = obj ! i"
  shows "fold write_part ps f = obj"
proof (rule nth_equalityI)
  have "length (fold write_part ps f) = length f"
    using assms(1,2) by (intro length_fold_write) auto
  then show "length (fold write_part ps f) = length obj" using assms(2) by simp
  fix i assume "i < length (fold write_part ps f)"
  then have "i < length obj" using \<open>length (fold write_part ps f) = length obj\<close> by simp
  then show "fold write_part ps f ! i = obj ! i"
    using fold_write_parts_nth [OF assms(1,2)] assms(3) by auto
qed

section \<open>Division of an object into parts\<close>

text \<open>Part \<open>i\<close> of an object cut into parts of \<open>ps\<close> bytes.\<close>

definition part_of :: "nat \<Rightarrow> string \<Rightarrow> nat \<Rightarrow> string" where
  "part_of ps obj i = take ps (drop (i * ps) obj)"

lemma concat_parts: "0 < ps \<Longrightarrow> length obj \<le> n * ps \<Longrightarrow> concat (map (part_of ps obj) [0..<n]) = obj"
proof -
  assume ps: "0 < ps"
  have "concat (map (part_of ps obj) [0..<n]) = take (n * ps) obj" for n
  proof (induction n)
    case (Suc n)
    then show ?case using take_add [of "n * ps" ps obj] by (simp add: part_of_def add.commute)
  qed simp
  then show "length obj \<le> n * ps \<Longrightarrow> ?thesis" by simp
qed

lemma part_length: "length (part_of ps obj i) = min ps (length obj - i * ps)"
  by (simp add: part_of_def)

end
