(* ===== verification/S3_Client.thy ===== *)
theory S3_Client
  imports Storage Files
begin

text \<open>
  The S3 back end (\<^verbatim>\<open>src/storage/s3.rs\<close>): its configuration, the single and multipart transfers,
  server-side and streaming copies, deletion and listing.

  The AWS SDK is a parameter, the record \<open>sdk\<close> of request functions over an abstract service
  state; a request answers with a response or an \<open>sdk_error\<close> and may change the service. Local
  files are a map from paths to contents; \<open>env\<close> says which operating system calls fail. Requests
  a method runs concurrently are performed in the order the parameter \<open>sched\<close> gives, that of
  their completion. The bandwidth limiters only delay and are not repeated here.
\<close>

section \<open>Texts of errors and headers\<close>

definition is_copy_source_too_large :: "error \<Rightarrow> bool" where
  "is_copy_source_too_large e =
     (let m = to_ascii_lowercase (error_chain e) in
      contains_str m ''larger than the maximum allowable size'' \<or> contains_str m ''entitytoolarge'')"

definition is_precondition_failed :: "string \<Rightarrow> bool" where
  "is_precondition_failed debug =
     (let m = to_ascii_lowercase debug in
      contains_str m ''preconditionfailed'' \<or> contains_str m ''precondition failed'')"

definition map_conditional_write_error :: "error \<Rightarrow> url \<Rightarrow> error" where
  "map_conditional_write_error e dst =
     (if is_precondition_failed (error_debug e) then PreconditionFailedError (absolute dst) else e)"

definition parse_content_range_total :: "string option \<Rightarrow> nat option" where
  "parse_content_range_total cr =
     (case cr of
        None \<Rightarrow> None
      | Some s \<Rightarrow> parse_unsigned u64_max (str_trim (last (split_on (CHR ''/'') s))))"

definition hex_val :: "char \<Rightarrow> nat option" where
  "hex_val c =
     (let b = byte_of c in
      if 48 \<le> b \<and> b \<le> 57 then Some (b - 48)
      else if 97 \<le> b \<and> b \<le> 102 then Some (b - 97 + 10)
      else if 65 \<le> b \<and> b \<le> 70 then Some (b - 65 + 10)
      else None)"

fun percent_bytes :: "string \<Rightarrow> string" where
  "percent_bytes [] = []"
| "percent_bytes (c # s) =
     (if c = CHR ''%'' then
        (case s of
           h # l # rest \<Rightarrow>
             (case (hex_val h, hex_val l) of
                (Some x, Some y) \<Rightarrow> char_of (16 * x + y) # percent_bytes rest
              | _ \<Rightarrow> c # percent_bytes s)
         | _ \<Rightarrow> c # percent_bytes s)
      else c # percent_bytes s)"

definition percent_decode :: "string \<Rightarrow> string" where
  "percent_decode s = utf8_lossy (percent_bytes s)"

definition is_range_not_satisfiable :: "string \<Rightarrow> bool" where
  "is_range_not_satisfiable debug =
     (let m = to_ascii_lowercase debug in
      contains_str m ''rangenotsatisfiable'' \<or> contains_str m ''invalidrange''
      \<or> contains_str m ''range not satisfiable'' \<or> contains_str m ''requested range not satisfiable'')"

text \<open>The value of a \<^verbatim>\<open>Range\<close> header for the bytes from \<open>a\<close> to \<open>b\<close>, both included.\<close>

definition byte_range :: "nat \<Rightarrow> nat \<Rightarrow> string" where
  "byte_range a b = ''bytes='' @ show_nat a @ ''-'' @ show_nat b"

section \<open>The SDK and the world\<close>

record object_ref =
  or_bucket :: string
  or_key :: string
  or_version :: "string option"
  or_payer :: "string option"

text \<open>A response body arrives in chunks, possibly broken off by an error.\<close>

record get_response =
  gr_content_range :: "string option"
  gr_content_length :: "int option"
  gr_metadata :: "(string \<Rightarrow> string option) option"
  gr_chunks :: "string list"
  gr_body_error :: "sdk_error option"

record head_response =
  hr_content_length :: "int option"
  hr_etag :: "string option"
  hr_last_modified :: "int option"
  hr_content_type :: "string option"
  hr_storage_class :: "string option"
  hr_sse :: "string option"
  hr_metadata :: "(string \<Rightarrow> string option) option"

record put_request =
  pr_ref :: object_ref
  pr_body :: string
  pr_content_type :: "string option"
  pr_storage_class :: "string option"
  pr_acl :: "string option"
  pr_cache_control :: "string option"
  pr_content_encoding :: "string option"
  pr_content_disposition :: "string option"
  pr_sse :: "string option"
  pr_kms_key_id :: "string option"
  pr_metadata :: "string \<Rightarrow> string option"
  pr_if_none_match :: bool

record create_request =
  cq_ref :: object_ref
  cq_content_type :: "string option"
  cq_storage_class :: "string option"
  cq_acl :: "string option"
  cq_cache_control :: "string option"
  cq_content_encoding :: "string option"
  cq_content_disposition :: "string option"
  cq_sse :: "string option"
  cq_kms_key_id :: "string option"
  cq_metadata :: "string \<Rightarrow> string option"

record completed_part =
  cp_number :: int
  cp_etag :: "string option"

record copy_request =
  cy_ref :: object_ref
  cy_source :: string
  cy_storage_class :: "string option"
  cy_acl :: "string option"
  cy_cache_control :: "string option"
  cy_content_type :: "string option"
  cy_directive :: "string option"
  cy_metadata :: "string \<Rightarrow> string option"

record list_request =
  lq_bucket :: string
  lq_prefix :: string
  lq_delimiter :: "string option"
  lq_start_after :: "string option"
  lq_marker :: "string option"
  lq_version_marker :: "string option"

record listed_object =
  lo_key :: "string option"
  lo_etag :: "string option"
  lo_last_modified :: "int option"
  lo_size :: "int option"
  lo_storage_class :: "string option"
  lo_version_id :: "string option"

record list_page =
  lp_common_prefixes :: "string option list"
  lp_contents :: "listed_object list"
  lp_delete_markers :: "listed_object list"
  lp_is_truncated :: "bool option"
  lp_next_marker :: "string option"
  lp_next_version_marker :: "string option"

record delete_response =
  dr_deleted :: "string option list"
  dr_errors :: "(string option \<times> string option) list"

record 's sdk =
  sdk_get :: "object_ref \<Rightarrow> string option \<Rightarrow> 's \<Rightarrow> (sdk_error, get_response) result \<times> 's"
  sdk_head :: "object_ref \<Rightarrow> 's \<Rightarrow> (sdk_error, head_response) result \<times> 's"
  sdk_put :: "put_request \<Rightarrow> 's \<Rightarrow> (sdk_error, unit) result \<times> 's"
  sdk_create_mpu :: "create_request \<Rightarrow> 's \<Rightarrow> (sdk_error, string option) result \<times> 's"
  sdk_upload_part :: "object_ref \<Rightarrow> string \<Rightarrow> int \<Rightarrow> string \<Rightarrow> 's \<Rightarrow> (sdk_error, string option) result \<times> 's"
  sdk_upload_part_copy ::
    "object_ref \<Rightarrow> string \<Rightarrow> int \<Rightarrow> string \<Rightarrow> string \<Rightarrow> 's \<Rightarrow> (sdk_error, string option) result \<times> 's"
  sdk_complete_mpu ::
    "object_ref \<Rightarrow> string \<Rightarrow> completed_part list \<Rightarrow> bool \<Rightarrow> 's \<Rightarrow> (sdk_error, unit) result \<times> 's"
  sdk_abort_mpu :: "object_ref \<Rightarrow> string \<Rightarrow> 's \<Rightarrow> (sdk_error, unit) result \<times> 's"
  sdk_copy :: "copy_request \<Rightarrow> 's \<Rightarrow> (sdk_error, unit) result \<times> 's"
  sdk_delete :: "object_ref \<Rightarrow> 's \<Rightarrow> (sdk_error, unit) result \<times> 's"
  sdk_delete_objects ::
    "string \<Rightarrow> string list \<Rightarrow> string option \<Rightarrow> 's \<Rightarrow> (sdk_error, delete_response) result \<times> 's"
  sdk_list_v2 :: "list_request \<Rightarrow> string option \<Rightarrow> 's \<Rightarrow> (sdk_error, list_page) result list \<times> 's"
  sdk_list_v1 :: "list_request \<Rightarrow> 's \<Rightarrow> (sdk_error, list_page) result \<times> 's"
  sdk_list_versions :: "list_request \<Rightarrow> 's \<Rightarrow> (sdk_error, list_page) result \<times> 's"
  sdk_list_buckets :: "'s \<Rightarrow> (sdk_error, (string option \<times> int option) list) result \<times> 's"
  sdk_create_bucket :: "string \<Rightarrow> 's \<Rightarrow> (sdk_error, unit) result \<times> 's"
  sdk_delete_bucket :: "string \<Rightarrow> 's \<Rightarrow> (sdk_error, unit) result \<times> 's"
  sdk_get_versioning :: "string \<Rightarrow> 's \<Rightarrow> (sdk_error, string option) result \<times> 's"
  sdk_put_versioning :: "string \<Rightarrow> string \<Rightarrow> 's \<Rightarrow> (sdk_error, unit) result \<times> 's"

record 's world =
  w_s3 :: 's
  w_files :: "string \<Rightarrow> string option"
  w_mtimes :: "string \<Rightarrow> int option"

text \<open>
  The operating system around a run: the error of a call on a path if it fails, the crate that
  sets modification times, and the values of environment variables.
\<close>

record env =
  env_io :: "string \<Rightarrow> string \<Rightarrow> error option"
  env_set_mtime :: "string \<Rightarrow> int \<Rightarrow> nat \<Rightarrow> (string \<Rightarrow> int option) \<Rightarrow> (error, unit) result \<times> (string \<Rightarrow> int option)"
  env_var :: "string \<Rightarrow> string option"

type_synonym ('s, 'a) io = "'s world \<Rightarrow> (error, 'a) result \<times> 's world"

definition io_return :: "'a \<Rightarrow> ('s, 'a) io" where
  "io_return x w = (Ok x, w)"

definition io_bind :: "('s, 'a) io \<Rightarrow> ('a \<Rightarrow> ('s, 'b) io) \<Rightarrow> ('s, 'b) io" where
  "io_bind m f w = (case m w of (Inl e, w') \<Rightarrow> (Err e, w') | (Inr x, w') \<Rightarrow> f x w')"

definition send :: "('s \<Rightarrow> (sdk_error, 'a) result \<times> 's) \<Rightarrow> 's world \<Rightarrow> (sdk_error, 'a) result \<times> 's world" where
  "send req w = (case req (w_s3 w) of (r, s') \<Rightarrow> (r, w\<lparr>w_s3 := s'\<rparr>))"

text \<open>\<^verbatim>\<open>send().await?\<close>\<close>

definition send_try :: "('s \<Rightarrow> (sdk_error, 'a) result \<times> 's) \<Rightarrow> ('s, 'a) io" where
  "send_try req w =
     (case send req w of (Inl e, w') \<Rightarrow> (Err (SdkError e), w') | (Inr x, w') \<Rightarrow> (Ok x, w'))"

definition collect_body :: "get_response \<Rightarrow> (sdk_error, string) result" where
  "collect_body r = (case gr_body_error r of Some e \<Rightarrow> Err e | None \<Rightarrow> Ok (concat (gr_chunks r)))"

text \<open>Tasks run in their order of completion; all of them run, then the first error wins.\<close>

fun run_tasks :: "('s, 'a) io list \<Rightarrow> 's world \<Rightarrow> (error, 'a) result list \<times> 's world" where
  "run_tasks [] w = ([], w)"
| "run_tasks (t # ts) w =
     (case t w of (r, w1) \<Rightarrow> case run_tasks ts w1 of (rs, w2) \<Rightarrow> (r # rs, w2))"

definition join_all :: "('s, 'a) io list \<Rightarrow> ('s, 'a list) io" where
  "join_all ts w = (case run_tasks ts w of (rs, w') \<Rightarrow> (collect_results rs, w'))"

section \<open>Local files\<close>

definition os_call :: "env \<Rightarrow> string \<Rightarrow> string \<Rightarrow> ('s, 'a) io \<Rightarrow> ('s, 'a) io" where
  "os_call E op path act w = (case env_io E op path of Some e \<Rightarrow> (Err e, w) | None \<Rightarrow> act w)"

definition no_such_file :: "string \<Rightarrow> error" where
  "no_such_file path = IoError ''No such file or directory (os error 2)'' (Some 2)"

definition os_open_truncate :: "env \<Rightarrow> string \<Rightarrow> ('s, unit) io" where
  "os_open_truncate E path =
     os_call E ''open'' path (\<lambda>w. (Ok (), w\<lparr>w_files := (w_files w)(path \<mapsto> [])\<rparr>))"

definition os_update :: "env \<Rightarrow> string \<Rightarrow> string \<Rightarrow> (string \<Rightarrow> string) \<Rightarrow> ('s, unit) io" where
  "os_update E op path f =
     os_call E op path (\<lambda>w. (Ok (), w\<lparr>w_files := (w_files w)(path := map_option f (w_files w path))\<rparr>))"

definition os_read :: "env \<Rightarrow> string \<Rightarrow> ('s, string) io" where
  "os_read E path =
     os_call E ''read'' path (\<lambda>w. case w_files w path of
        None \<Rightarrow> (Err (no_such_file path), w) | Some f \<Rightarrow> (Ok f, w))"

definition os_len :: "env \<Rightarrow> string \<Rightarrow> ('s, nat) io" where
  "os_len E path =
     os_call E ''metadata'' path (\<lambda>w. case w_files w path of
        None \<Rightarrow> (Err (no_such_file path), w) | Some f \<Rightarrow> (Ok (length f), w))"

definition os_remove :: "env \<Rightarrow> string \<Rightarrow> ('s, unit) io" where
  "os_remove E path =
     os_call E ''remove_file'' path (\<lambda>w. case w_files w path of
        None \<Rightarrow> (Err (no_such_file path), w)
      | Some _ \<Rightarrow> (Ok (), w\<lparr>w_files := (w_files w)(path := None)\<rparr>))"

definition os_write_file :: "env \<Rightarrow> string \<Rightarrow> string \<Rightarrow> ('s, unit) io" where
  "os_write_file E path data =
     os_call E ''write_file'' path (\<lambda>w. (Ok (), w\<lparr>w_files := (w_files w)(path \<mapsto> data)\<rparr>))"

definition path_push :: "string \<Rightarrow> string \<Rightarrow> string" where
  "path_push dir name = (if dir = [] \<or> ends_with dir ''/'' then dir @ name else dir @ ''/'' @ name)"

definition make_parent :: "env \<Rightarrow> string \<Rightarrow> ('s, unit) io" where
  "make_parent E dst =
     (case path_parent dst of
        None \<Rightarrow> io_return ()
      | Some p \<Rightarrow> if p = [] then io_return () else os_call E ''create_dir_all'' p (io_return ()))"

section \<open>The client\<close>

abbreviation DELETE_CHUNK_SIZE :: nat where
  "DELETE_CHUNK_SIZE \<equiv> 1000"

abbreviation DEFAULT_MULTIPART_COPY_THRESHOLD :: nat where
  "DEFAULT_MULTIPART_COPY_THRESHOLD \<equiv> 5 * 1024 * 1024 * 1024"

abbreviation MAX_MULTIPART_PARTS :: nat where
  "MAX_MULTIPART_PARTS \<equiv> 10000"

abbreviation INLINE_BODY_MAX :: nat where
  "INLINE_BODY_MAX \<equiv> 1024 * 1024"

record s3 =
  s3_dry_run :: bool
  s3_use_list_objects_v1 :: bool
  s3_request_payer_str :: "string option"
  s3_part_size :: nat
  s3_concurrency :: nat
  s3_multipart_copy_threshold :: nat
  s3_preserve_timestamps :: bool
  s3_upload_limiter :: "rate_limiter option"
  s3_download_limiter :: "rate_limiter option"

text \<open>What the configuration builder is told besides.\<close>

record sdk_config =
  sc_region :: "string option"
  sc_profile :: "string option"
  sc_endpoint_url :: "string option"
  sc_force_path_style :: "bool option"
  sc_use_dual_stack :: bool
  sc_use_fips :: bool
  sc_custom_http_client :: bool

text \<open>
  \<open>shared_region\<close> is the region the default provider chain finds, \<open>parse_proxy\<close> the outcome of
  parsing a proxy URL, \<open>ca_ok\<close> that of loading a certificate bundle.
\<close>

definition env_any :: "env \<Rightarrow> string list \<Rightarrow> string option" where
  "env_any E names =
     non_empty (case filter (\<lambda>n. env_var E n \<noteq> None) names of [] \<Rightarrow> None | n # _ \<Rightarrow> env_var E n)"

definition effective_proxy ::
  "env \<Rightarrow> (string \<Rightarrow> (error, 'p) result) \<Rightarrow> options \<Rightarrow> (error, 'p option) result" where
  "effective_proxy E parse_proxy opts =
     (let raw = or_else (non_empty (op_proxy opts))
                 (or_else (env_any E [''ALL_PROXY'', ''all_proxy''])
                 (or_else (env_any E [''HTTPS_PROXY'', ''https_proxy''])
                          (env_any E [''HTTP_PROXY'', ''http_proxy''])))
      in case raw of
           Some s \<Rightarrow> and_then (parse_proxy s) (\<lambda>p. Ok (Some p))
         | None \<Rightarrow> Ok None)"

definition s3_new ::
  "env \<Rightarrow> string option \<Rightarrow> (string \<Rightarrow> (error, 'p) result) \<Rightarrow> (string \<Rightarrow> (error, unit) result) \<Rightarrow> options
     \<Rightarrow> (error, s3 \<times> sdk_config) result" where
  "s3_new E shared_region parse_proxy ca_ok opts =
     (let endpoint = or_else (non_empty (op_endpoint opts))
                       (or_else (env_var E ''AWS_ENDPOINT_URL'') (env_var E ''S3_ENDPOINT_URL''));
          path_style = (case endpoint of
             Some _ \<Rightarrow> Some (op_addressing_style opts \<noteq> Some ''virtual'')
           | None \<Rightarrow> map_option (\<lambda>style. style = ''path'') (op_addressing_style opts));
          shared = or_else (op_region opts) shared_region;
          region = (if shared = None \<and> op_region opts = None then Some ''us-east-1'' else shared)
      in and_then (effective_proxy E parse_proxy opts) (\<lambda>proxy_cfg.
           let custom = op_no_verify_ssl opts \<or> proxy_cfg \<noteq> None \<or> op_ca_certs_file opts \<noteq> None
           in and_then
                (if custom \<and> \<not> op_no_verify_ssl opts then
                   (case op_ca_certs_file opts of Some p \<Rightarrow> ca_ok p | None \<Rightarrow> Ok ())
                 else Ok ()) (\<lambda>_.
              Ok (\<lparr>s3_dry_run = op_dry_run opts,
                   s3_use_list_objects_v1 = op_use_list_objects_v1 opts,
                   s3_request_payer_str = op_request_payer opts,
                   s3_part_size = max (op_part_size opts) (5 * 1024 * 1024),
                   s3_concurrency = max (op_concurrency opts) 1,
                   s3_multipart_copy_threshold =
                     unwrap_or DEFAULT_MULTIPART_COPY_THRESHOLD
                       (case env_var E ''RS5CMD_MULTIPART_COPY_THRESHOLD'' of
                          None \<Rightarrow> None | Some v \<Rightarrow> parse_unsigned u64_max v),
                   s3_preserve_timestamps = op_preserve_timestamps opts,
                   s3_upload_limiter = op_upload_limiter opts,
                   s3_download_limiter = op_download_limiter opts\<rparr>,
                  \<lparr>sc_region = region, sc_profile = op_profile opts, sc_endpoint_url = endpoint,
                   sc_force_path_style = path_style, sc_use_dual_stack = op_use_dualstack_endpoint opts,
                   sc_use_fips = op_use_fips_endpoint opts, sc_custom_http_client = custom\<rparr>))))"

definition request_payer :: "s3 \<Rightarrow> string option" where
  "request_payer s = s3_request_payer_str s"

text \<open>The object a source URL names, with its version; a destination has none.\<close>

definition src_ref :: "s3 \<Rightarrow> url \<Rightarrow> object_ref" where
  "src_ref s u =
     \<lparr>or_bucket = url_bucket u, or_key = url_path u,
      or_version = (if url_version_id u \<noteq> [] then Some (url_version_id u) else None),
      or_payer = request_payer s\<rparr>"

definition dst_ref :: "s3 \<Rightarrow> url \<Rightarrow> object_ref" where
  "dst_ref s u =
     \<lparr>or_bucket = url_bucket u, or_key = url_path u, or_version = None, or_payer = request_payer s\<rparr>"

end
