(* ===== verification/S3_Transfer.thy ===== *)
theory S3_Transfer
  imports S3_Client
begin

text \<open>
  The transfer operations of the S3 back end (\<^verbatim>\<open>src/storage/s3.rs\<close>): reads, downloads, uploads,
  copies, deletes. Each is the whole method: its dry-run guard, its requests in order, its error
  mapping and clean-up.
\<close>

section \<open>Reading\<close>

definition s3_read :: "'s sdk \<Rightarrow> s3 \<Rightarrow> url \<Rightarrow> ('s, get_response) io" where
  "s3_read C s src = send_try (sdk_get C (src_ref s src) None)"

definition read_range :: "'s sdk \<Rightarrow> s3 \<Rightarrow> url \<Rightarrow> nat \<Rightarrow> nat \<Rightarrow> ('s, string) io" where
  "read_range C s src offset len w =
     (if len = 0 then (Ok [], w)
      else
        let range = byte_range offset (u64_sub (u64_add offset len) 1) in
        case send (sdk_get C (src_ref s src) (Some range)) w of
          (Inl e, w1) \<Rightarrow>
            if is_range_not_satisfiable (se_debug e) then (Ok [], w1) else (Err (SdkError e), w1)
        | (Inr resp, w1) \<Rightarrow>
            (case collect_body resp of Inl e \<Rightarrow> (Err (SdkError e), w1) | Inr data \<Rightarrow> (Ok data, w1)))"

definition head_size :: "'s sdk \<Rightarrow> s3 \<Rightarrow> url \<Rightarrow> ('s, nat) io" where
  "head_size C s src =
     io_bind (send_try (sdk_head C (src_ref s src))) (\<lambda>out.
       io_return (nat (max (unwrap_or 0 (hr_content_length out)) 0)))"

definition head_content_type :: "'s sdk \<Rightarrow> s3 \<Rightarrow> url \<Rightarrow> ('s, string option) io" where
  "head_content_type C s src =
     io_bind (send_try (sdk_head C (src_ref s src))) (\<lambda>out. io_return (hr_content_type out))"

section \<open>Modification times\<close>

definition pad9 :: "string \<Rightarrow> string" where
  "pad9 s = replicate (9 - length s) (CHR ''0'') @ s"

definition file_mtime_value :: "'s world \<Rightarrow> string \<Rightarrow> string option" where
  "file_mtime_value w src =
     (case w_mtimes w src of
        None \<Rightarrow> None
      | Some t \<Rightarrow>
          if t < 0 then None
          else Some (show_nat (nat t div 1000000000) @ ''.'' @ pad9 (show_nat (nat t mod 1000000000))))"

definition parse_mtime :: "string \<Rightarrow> (error, int \<times> nat) result" where
  "parse_mtime v =
     (let i64 = (\<lambda>t. case parse_i64 t of None \<Rightarrow> Err (Message ''invalid digit found in string'') | Some n \<Rightarrow> Ok n)
      in case split_once v ''.'' of
           Some (a, b) \<Rightarrow> and_then (i64 a) (\<lambda>secs. Ok (secs, unwrap_or 0 (parse_unsigned (2 ^ 32 - 1) b)))
         | None \<Rightarrow> and_then (i64 v) (\<lambda>secs. Ok (secs, 0)))"

definition set_file_mtime_from_value :: "env \<Rightarrow> string \<Rightarrow> string \<Rightarrow> ('s, unit) io" where
  "set_file_mtime_from_value E path v w =
     (case parse_mtime v of
        Inl e \<Rightarrow> (Err e, w)
      | Inr (secs, nanos) \<Rightarrow>
          (case env_set_mtime E path secs nanos (w_mtimes w) of (r, m') \<Rightarrow> (r, w\<lparr>w_mtimes := m'\<rparr>)))"

section \<open>Download\<close>

text \<open>The fallback writes the body as it arrives; a broken body leaves what came before it.\<close>

definition download_single :: "'s sdk \<Rightarrow> env \<Rightarrow> s3 \<Rightarrow> url \<Rightarrow> string \<Rightarrow> ('s, unit) io" where
  "download_single C E s src dst =
     io_bind (s3_read C s src) (\<lambda>resp.
     io_bind (os_open_truncate E dst) (\<lambda>_.
     io_bind (os_update E ''write'' dst (\<lambda>f. f @ concat (gr_chunks resp))) (\<lambda>_.
       case gr_body_error resp of
         Some e \<Rightarrow> (\<lambda>w. (Err (SdkError e), w))
       | None \<Rightarrow> io_return ())))"

text \<open>One part: a ranged GET and a positioned write.\<close>

definition download_part ::
  "'s sdk \<Rightarrow> env \<Rightarrow> s3 \<Rightarrow> url \<Rightarrow> string \<Rightarrow> nat \<Rightarrow> nat \<Rightarrow> nat \<Rightarrow> ('s, unit) io" where
  "download_part C E s src dst tot part_size i =
     (let offset = u64_mul i part_size;
          len = min part_size (u64_sub tot offset);
          range = byte_range offset (u64_sub (u64_add offset len) 1)
      in io_bind (send_try (sdk_get C (src_ref s src) (Some range))) (\<lambda>resp.
           case collect_body resp of
             Inl e \<Rightarrow> (\<lambda>w. (Err (SdkError e), w))
           | Inr data \<Rightarrow> os_update E ''write'' dst (file_write_at offset data)))"

definition download_remaining_parts ::
  "'s sdk \<Rightarrow> env \<Rightarrow> (nat list \<Rightarrow> nat list) \<Rightarrow> s3 \<Rightarrow> url \<Rightarrow> string \<Rightarrow> nat \<Rightarrow> nat \<Rightarrow> ('s, unit) io" where
  "download_remaining_parts C E sched s src dst tot part_size =
     (let n_parts = div_ceil tot part_size
      in io_bind (join_all (map (download_part C E s src dst tot part_size) (sched [1..<n_parts]))) (\<lambda>_.
           io_return ()))"

text \<open>The file is sized first, then filled; restoring its time is best effort.\<close>

definition store_download ::
  "'s sdk \<Rightarrow> env \<Rightarrow> (nat list \<Rightarrow> nat list) \<Rightarrow> s3 \<Rightarrow> url \<Rightarrow> string \<Rightarrow> nat \<Rightarrow> string \<Rightarrow> string option \<Rightarrow> ('s, unit) io" where
  "store_download C E sched s src dst tot first mtime_value =
     io_bind (os_open_truncate E dst) (\<lambda>_.
     io_bind (os_update E ''set_len'' dst (file_set_len tot)) (\<lambda>_.
     io_bind (os_update E ''write'' dst (file_write_at 0 first)) (\<lambda>_.
     io_bind (if s3_part_size s < tot
              then download_remaining_parts C E sched s src dst tot (s3_part_size s)
              else io_return ()) (\<lambda>_ w.
       case mtime_value of
         None \<Rightarrow> (Ok (), w)
       | Some v \<Rightarrow> (Ok (), snd (set_file_mtime_from_value E dst v w))))))"

definition s3_download ::
  "'s sdk \<Rightarrow> env \<Rightarrow> (nat list \<Rightarrow> nat list) \<Rightarrow> s3 \<Rightarrow> url \<Rightarrow> string \<Rightarrow> ('s, unit) io" where
  "s3_download C E sched s src dst w =
     (if s3_dry_run s then (Ok (), w)
      else io_bind (make_parent E dst) (\<lambda>_ w.
        case send (sdk_get C (src_ref s src) (Some (byte_range 0 (s3_part_size s - 1)))) w of
          (Inl e, w1) \<Rightarrow>
            if is_range_not_satisfiable (se_debug e) then download_single C E s src dst w1
            else (Err (SdkError e), w1)
        | (Inr resp, w1) \<Rightarrow>
            let tot = unwrap_or 0 (or_else (parse_content_range_total (gr_content_range resp))
                          (map_option (\<lambda>l. nat (max l 0)) (gr_content_length resp)));
                mtime_value = (if s3_preserve_timestamps s then
                                 (case gr_metadata resp of None \<Rightarrow> None | Some m \<Rightarrow> m MTIME_METADATA_KEY)
                               else None)
            in (case collect_body resp of
                  Inl e \<Rightarrow> (Err (SdkError e), w1)
                | Inr first \<Rightarrow> store_download C E sched s src dst tot first mtime_value w1)) w)"

section \<open>Upload\<close>

definition apply_put_metadata :: "metadata \<Rightarrow> put_request \<Rightarrow> put_request" where
  "apply_put_metadata md req =
     req\<lparr>pr_storage_class := non_empty (md_storage_class md), pr_acl := non_empty (md_acl md),
         pr_cache_control := non_empty (md_cache_control md),
         pr_content_encoding := non_empty (md_content_encoding md),
         pr_content_disposition := non_empty (md_content_disposition md),
         pr_metadata := md_user_defined md\<rparr>"

definition plain_put :: "object_ref \<Rightarrow> string \<Rightarrow> put_request" where
  "plain_put r body =
     \<lparr>pr_ref = r, pr_body = body, pr_content_type = None, pr_storage_class = None, pr_acl = None,
      pr_cache_control = None, pr_content_encoding = None, pr_content_disposition = None,
      pr_sse = None, pr_kms_key_id = None, pr_metadata = (\<lambda>_. None), pr_if_none_match = False\<rparr>"

definition octet_stream :: string where
  "octet_stream = ''application/octet-stream''"

definition conditional_send :: "('s \<Rightarrow> (sdk_error, unit) result \<times> 's) \<Rightarrow> url \<Rightarrow> ('s, unit) io" where
  "conditional_send req dst w =
     (case send req w of
        (Inl e, w') \<Rightarrow> (Err (map_conditional_write_error (SdkError e) dst), w')
      | (Inr _, w') \<Rightarrow> (Ok (), w'))"

definition upload_single :: "'s sdk \<Rightarrow> env \<Rightarrow> s3 \<Rightarrow> string \<Rightarrow> url \<Rightarrow> metadata \<Rightarrow> ('s, unit) io" where
  "upload_single C E s src dst md =
     io_bind (os_read E src) (\<lambda>body.
       let req = (plain_put (dst_ref s dst) body)\<lparr>pr_content_type := Some (unwrap_or octet_stream (md_content_type md))\<rparr>;
           req = apply_put_metadata md req;
           req = req\<lparr>pr_if_none_match := md_if_none_match md\<rparr>
       in conditional_send (sdk_put C req) dst)"

text \<open>\<^verbatim>\<open>as i32\<close>: the low 32 bits, read as a signed number.\<close>

definition as_i32 :: "nat \<Rightarrow> int" where
  "as_i32 n = (int n + 2 ^ 31) mod 2 ^ 32 - 2 ^ 31"

definition part_indices :: "int \<Rightarrow> nat list" where
  "part_indices n = [0..<nat n]"

definition os_read_exact :: "env \<Rightarrow> string \<Rightarrow> nat \<Rightarrow> nat \<Rightarrow> ('s, string) io" where
  "os_read_exact E path offset len =
     io_bind (os_read E path) (\<lambda>f w.
       if offset + len \<le> length f then (Ok (file_read_at offset len f), w)
       else (Err (Message ''the file is shorter than the part''), w))"

definition upload_one_part ::
  "'s sdk \<Rightarrow> env \<Rightarrow> s3 \<Rightarrow> string \<Rightarrow> url \<Rightarrow> string \<Rightarrow> nat \<Rightarrow> nat \<Rightarrow> nat \<Rightarrow> ('s, completed_part) io" where
  "upload_one_part C E s src dst upload_id sz part_size i =
     (let part_number = int i + 1;
          offset = u64_mul i part_size;
          len = min part_size (u64_sub sz offset)
      in io_bind (os_read_exact E src offset len) (\<lambda>body.
         io_bind (send_try (sdk_upload_part C (dst_ref s dst) upload_id part_number body)) (\<lambda>etag.
           io_return \<lparr>cp_number = part_number, cp_etag = etag\<rparr>)))"

definition upload_parts ::
  "'s sdk \<Rightarrow> env \<Rightarrow> (nat list \<Rightarrow> nat list) \<Rightarrow> s3 \<Rightarrow> string \<Rightarrow> url \<Rightarrow> string \<Rightarrow> nat \<Rightarrow> ('s, completed_part list) io" where
  "upload_parts C E sched s src dst upload_id sz =
     (let part_size = s3_part_size s;
          n_parts = as_i32 (div_ceil sz part_size)
      in io_bind (join_all (map (upload_one_part C E s src dst upload_id sz part_size)
                    (sched (part_indices n_parts)))) (\<lambda>parts.
           io_return (sort_key cp_number parts)))"

text \<open>Creating, filling and completing a multipart upload; a failed part aborts it.\<close>

definition finish_multipart ::
  "'s sdk \<Rightarrow> s3 \<Rightarrow> url \<Rightarrow> string \<Rightarrow> ('s, completed_part list) io \<Rightarrow> (completed_part list \<Rightarrow> ('s, unit) io) \<Rightarrow> ('s, unit) io" where
  "finish_multipart C s dst upload_id fill complete w =
     (case fill w of
        (Inr parts, w1) \<Rightarrow> complete parts w1
      | (Inl e, w1) \<Rightarrow> (Err e, snd (send (sdk_abort_mpu C (dst_ref s dst) upload_id) w1)))"

definition need_upload_id :: "string option \<Rightarrow> ('s, string) io" where
  "need_upload_id x w =
     (case x of None \<Rightarrow> (Err (Message ''CreateMultipartUpload returned no upload id''), w) | Some u \<Rightarrow> (Ok u, w))"

definition upload_multipart ::
  "'s sdk \<Rightarrow> env \<Rightarrow> (nat list \<Rightarrow> nat list) \<Rightarrow> s3 \<Rightarrow> string \<Rightarrow> url \<Rightarrow> metadata \<Rightarrow> nat \<Rightarrow> ('s, unit) io" where
  "upload_multipart C E sched s src dst md sz =
     (let create = \<lparr>cq_ref = dst_ref s dst,
                    cq_content_type = Some (unwrap_or octet_stream (md_content_type md)),
                    cq_storage_class = non_empty (md_storage_class md), cq_acl = non_empty (md_acl md),
                    cq_cache_control = None, cq_content_encoding = None, cq_content_disposition = None, cq_sse = None, cq_kms_key_id = None,
                    cq_metadata = md_user_defined md\<rparr>
      in io_bind (send_try (sdk_create_mpu C create)) (\<lambda>created.
         io_bind (need_upload_id created) (\<lambda>upload_id.
           finish_multipart C s dst upload_id (upload_parts C E sched s src dst upload_id sz)
             (\<lambda>parts. conditional_send
                (sdk_complete_mpu C (dst_ref s dst) upload_id parts (md_if_none_match md)) dst))))"

definition s3_upload ::
  "'s sdk \<Rightarrow> env \<Rightarrow> (nat list \<Rightarrow> nat list) \<Rightarrow> s3 \<Rightarrow> string \<Rightarrow> url \<Rightarrow> metadata \<Rightarrow> ('s, unit) io" where
  "s3_upload C E sched s src dst md w =
     (if s3_dry_run s then (Ok (), w)
      else io_bind (os_len E src) (\<lambda>sz w.
        let md1 = (if s3_preserve_timestamps s then
                     (case file_mtime_value w src of
                        Some v \<Rightarrow> md\<lparr>md_user_defined := (md_user_defined md)(MTIME_METADATA_KEY \<mapsto> v)\<rparr>
                      | None \<Rightarrow> md)
                   else md)
        in (if sz \<le> s3_part_size s then upload_single C E s src dst md1
            else upload_multipart C E sched s src dst md1 sz) w) w)"

definition put_object_bytes :: "'s sdk \<Rightarrow> s3 \<Rightarrow> url \<Rightarrow> string \<Rightarrow> ('s, unit) io" where
  "put_object_bytes C s dst body w =
     (case send (sdk_put C (plain_put (dst_ref s dst) body)) w of
        (Inl e, w') \<Rightarrow>
          (Err (Message (''put object s3://'' @ url_bucket dst @ ''/'' @ url_path dst @ '': '' @ se_display e)), w')
      | (Inr _, w') \<Rightarrow> (Ok (), w'))"

definition get_object_bytes :: "'s sdk \<Rightarrow> s3 \<Rightarrow> url \<Rightarrow> ('s, string) io" where
  "get_object_bytes C s src w =
     (case send (sdk_get C (src_ref s src) None) w of
        (Inl e, w') \<Rightarrow>
          (Err (Message (''get object s3://'' @ url_bucket src @ ''/'' @ url_path src @ '': '' @ se_display e)), w')
      | (Inr resp, w') \<Rightarrow>
          (case collect_body resp of
             Inl e \<Rightarrow> (Err (Message (''reading object body s3://'' @ url_bucket src @ ''/'' @ url_path src
                               @ '': '' @ se_display e)), w')
           | Inr data \<Rightarrow> (Ok data, w')))"

section \<open>Stat and delete\<close>

definition trim_quotes :: "string \<Rightarrow> string" where
  "trim_quotes s = trim_matches (CHR 0x22) s"

definition epoch_time :: "int option \<Rightarrow> int option" where
  "epoch_time t = map_option (\<lambda>secs. max secs 0 * 1000000000) t"

definition s3_stat :: "'s sdk \<Rightarrow> s3 \<Rightarrow> url \<Rightarrow> ('s, object) io" where
  "s3_stat C s src w =
     (case send (sdk_head C (src_ref s src)) w of
        (Inr out, w') \<Rightarrow>
          (Ok (default_object\<lparr>ob_url := Some src, ob_etag := trim_quotes (unwrap_or [] (hr_etag out)),
                 ob_mod_time := epoch_time (hr_last_modified out),
                 ob_size := unwrap_or 0 (hr_content_length out), ob_typ := FileType\<rparr>), w')
      | (Inl e, w') \<Rightarrow>
          if se_not_found e then (Err (ObjectNotFound (absolute src)), w') else (Err (SdkError e), w'))"

definition s3_delete :: "'s sdk \<Rightarrow> s3 \<Rightarrow> url \<Rightarrow> ('s, unit) io" where
  "s3_delete C s src w =
     (if s3_dry_run s then (Ok (), w) else send_try (sdk_delete C (src_ref s src)) w)"

section \<open>Copy\<close>

definition copy_source_header :: "url \<Rightarrow> string" where
  "copy_source_header src =
     (let s = escaped_path src in
      if url_version_id src \<noteq> [] then s @ ''?versionId='' @ url_version_id src else s)"

definition copy_object_single :: "'s sdk \<Rightarrow> s3 \<Rightarrow> url \<Rightarrow> url \<Rightarrow> metadata \<Rightarrow> ('s, unit) io" where
  "copy_object_single C s src dst md w =
     (let (exists, w1) = (if md_if_none_match md then
                            (case head_size C s dst w of (r, w1) \<Rightarrow> (is_ok r, w1)) else (False, w))
      in if exists then (Err (PreconditionFailedError (absolute dst)), w1)
         else send_try (sdk_copy C
                \<lparr>cy_ref = dst_ref s dst, cy_source = copy_source_header src,
                 cy_storage_class = non_empty (md_storage_class md), cy_acl = non_empty (md_acl md),
                 cy_cache_control = non_empty (md_cache_control md),
                 cy_content_type = non_empty (md_content_type md),
                 cy_directive = non_empty (md_directive md), cy_metadata = md_user_defined md\<rparr>) w1)"

text \<open>The part size of a multipart copy grows so that the part count stays within the limit.\<close>

definition copy_part_size :: "nat \<Rightarrow> nat \<Rightarrow> nat" where
  "copy_part_size part_size sz =
     (let min_part = div_ceil sz MAX_MULTIPART_PARTS in
      if part_size < min_part then u64_mul (u64_mul (div_ceil min_part (1024 * 1024)) 1024) 1024 else part_size)"

definition copy_one_part ::
  "'s sdk \<Rightarrow> s3 \<Rightarrow> string \<Rightarrow> url \<Rightarrow> string \<Rightarrow> nat \<Rightarrow> nat \<Rightarrow> nat \<Rightarrow> ('s, completed_part) io" where
  "copy_one_part C s copy_source dst upload_id sz part_size i =
     (let part_number = int i + 1;
          offset = u64_mul i part_size;
          len = min part_size (u64_sub sz offset);
          range = byte_range offset (u64_sub (u64_add offset len) 1)
      in io_bind (send_try (sdk_upload_part_copy C (dst_ref s dst) upload_id part_number copy_source range)) (\<lambda>etag.
           io_return \<lparr>cp_number = part_number, cp_etag = etag\<rparr>))"

definition copy_parts ::
  "'s sdk \<Rightarrow> (nat list \<Rightarrow> nat list) \<Rightarrow> s3 \<Rightarrow> string \<Rightarrow> url \<Rightarrow> string \<Rightarrow> nat \<Rightarrow> ('s, completed_part list) io" where
  "copy_parts C sched s copy_source dst upload_id sz =
     (let part_size = copy_part_size (s3_part_size s) sz;
          n_parts = as_i32 (div_ceil sz part_size)
      in io_bind (join_all (map (copy_one_part C s copy_source dst upload_id sz part_size)
                    (sched (part_indices n_parts)))) (\<lambda>parts.
           io_return (sort_key cp_number parts)))"

definition copy_multipart ::
  "'s sdk \<Rightarrow> (nat list \<Rightarrow> nat list) \<Rightarrow> s3 \<Rightarrow> url \<Rightarrow> url \<Rightarrow> metadata \<Rightarrow> nat \<Rightarrow> ('s, unit) io" where
  "copy_multipart C sched s src dst md sz w =
     (let copy_source = copy_source_header src;
          (content_type, w1) =
            (case non_empty (md_content_type md) of
               Some ct \<Rightarrow> (Some ct, w)
             | None \<Rightarrow> (case head_content_type C s src w of
                          (Inr ct, w1) \<Rightarrow> (ct, w1) | (Inl _, w1) \<Rightarrow> (None, w1)));
          create = \<lparr>cq_ref = dst_ref s dst, cq_content_type = content_type,
                    cq_storage_class = non_empty (md_storage_class md), cq_acl = non_empty (md_acl md),
                    cq_cache_control = non_empty (md_cache_control md),
                    cq_content_encoding = None, cq_content_disposition = None, cq_sse = None, cq_kms_key_id = None,
                    cq_metadata = (\<lambda>_. None)\<rparr>
      in io_bind (send_try (sdk_create_mpu C create)) (\<lambda>created.
         io_bind (need_upload_id created) (\<lambda>upload_id.
           finish_multipart C s dst upload_id (copy_parts C sched s copy_source dst upload_id sz)
             (\<lambda>parts. send_try (sdk_complete_mpu C (dst_ref s dst) upload_id parts False)))) w1)"

text \<open>The common path: one request, and the parts only when the service finds the source too large.\<close>

definition copy_falling_back ::
  "'s sdk \<Rightarrow> (nat list \<Rightarrow> nat list) \<Rightarrow> s3 \<Rightarrow> url \<Rightarrow> url \<Rightarrow> metadata \<Rightarrow> ('s, unit) io" where
  "copy_falling_back C sched s src dst md w =
     (case copy_object_single C s src dst md w of
        (Inr _, w1) \<Rightarrow> (Ok (), w1)
      | (Inl e, w1) \<Rightarrow>
          if is_copy_source_too_large e then
            io_bind (head_size C s src) (\<lambda>sz. copy_multipart C sched s src dst md sz) w1
          else (Err e, w1))"

definition s3_copy ::
  "'s sdk \<Rightarrow> (nat list \<Rightarrow> nat list) \<Rightarrow> s3 \<Rightarrow> url \<Rightarrow> url \<Rightarrow> metadata \<Rightarrow> ('s, unit) io" where
  "s3_copy C sched s src dst md w =
     (if s3_dry_run s then (Ok (), w)
      else if s3_multipart_copy_threshold s < DEFAULT_MULTIPART_COPY_THRESHOLD then
        io_bind (head_size C s src) (\<lambda>sz.
          if s3_multipart_copy_threshold s < sz then copy_multipart C sched s src dst md sz
          else copy_falling_back C sched s src dst md) w
      else copy_falling_back C sched s src dst md w)"

text \<open>
  Streaming copy from one client to another through a temporary file \<open>tmp\<close>, named from the
  process id and a process-wide counter. \<open>C2\<close> are the requests of the destination's client, which
  may go to another endpoint.
\<close>

definition upload_meta_for :: "'s sdk \<Rightarrow> s3 \<Rightarrow> url \<Rightarrow> metadata \<Rightarrow> 's world \<Rightarrow> metadata \<times> 's world" where
  "upload_meta_for C s src md w =
     (if unwrap_or [] (md_content_type md) = [] then
        (case head_content_type C s src w of
           (Inr ct, w1) \<Rightarrow> (md\<lparr>md_content_type := ct\<rparr>, w1)
         | (Inl _, w1) \<Rightarrow> (md\<lparr>md_content_type := None\<rparr>, w1))
      else (md, w))"

definition client_copy_to ::
  "'s sdk \<Rightarrow> 's sdk \<Rightarrow> env \<Rightarrow> (nat list \<Rightarrow> nat list) \<Rightarrow> string \<Rightarrow> s3 \<Rightarrow> s3 \<Rightarrow> url \<Rightarrow> url \<Rightarrow> metadata \<Rightarrow> ('s, unit) io" where
  "client_copy_to C C2 E sched tmp s dst_client src dst md w =
     (if s3_dry_run s \<or> s3_dry_run dst_client then (Ok (), w)
      else io_bind (s3_download C E sched s src tmp) (\<lambda>_ w1.
        case upload_meta_for C s src md w1 of
          (upload_meta, w2) \<Rightarrow>
            (case s3_upload C2 E sched dst_client tmp dst upload_meta w2 of
               (r, w3) \<Rightarrow> (r, snd (os_remove E tmp w3)))) w)"

definition client_copy ::
  "'s sdk \<Rightarrow> env \<Rightarrow> (nat list \<Rightarrow> nat list) \<Rightarrow> string \<Rightarrow> s3 \<Rightarrow> url \<Rightarrow> url \<Rightarrow> metadata \<Rightarrow> ('s, unit) io" where
  "client_copy C E sched tmp s src dst md w =
     (if s3_dry_run s then (Ok (), w)
      else io_bind (s3_download C E sched s src tmp) (\<lambda>_ w1.
        case upload_meta_for C s src md w1 of
          (upload_meta, w2) \<Rightarrow>
            (case s3_upload C E sched s tmp dst upload_meta w2 of
               (r, w3) \<Rightarrow> (r, snd (os_remove E tmp w3)))) w)"

section \<open>Buckets\<close>

definition list_buckets :: "'s sdk \<Rightarrow> string \<Rightarrow> ('s, (string \<times> int option) list) io" where
  "list_buckets C prefix =
     io_bind (send_try (sdk_list_buckets C)) (\<lambda>bs.
       io_return (filter (\<lambda>b. prefix = [] \<or> starts_with (fst b) prefix)
         (map (\<lambda>(n, t). (unwrap_or [] n, epoch_time t)) bs)))"

definition make_bucket :: "'s sdk \<Rightarrow> s3 \<Rightarrow> string \<Rightarrow> ('s, unit) io" where
  "make_bucket C s name w = (if s3_dry_run s then (Ok (), w) else send_try (sdk_create_bucket C name) w)"

definition remove_bucket :: "'s sdk \<Rightarrow> s3 \<Rightarrow> string \<Rightarrow> ('s, unit) io" where
  "remove_bucket C s name w = (if s3_dry_run s then (Ok (), w) else send_try (sdk_delete_bucket C name) w)"

definition get_bucket_versioning :: "'s sdk \<Rightarrow> string \<Rightarrow> ('s, string) io" where
  "get_bucket_versioning C bucket =
     io_bind (send_try (sdk_get_versioning C bucket)) (\<lambda>st. io_return (unwrap_or ''Unset'' st))"

definition set_bucket_versioning :: "'s sdk \<Rightarrow> s3 \<Rightarrow> string \<Rightarrow> string \<Rightarrow> ('s, unit) io" where
  "set_bucket_versioning C s bucket status w =
     (if s3_dry_run s then (Ok (), w) else send_try (sdk_put_versioning C bucket status) w)"

end
