(* ===== verification/Reader.thy ===== *)
theory Reader
  imports Storage "HOL-Library.AList"
begin

text \<open>
  The chunked read-ahead reader of an open file (\<^verbatim>\<open>src/mount/reader.rs\<close>). A read fetches the
  chunks it needs that are not resident, prefetches ahead on sequential access, evicts the
  least recently used chunks beyond the budget and assembles the bytes.

  The ranged GET of the S3 client is a parameter \<open>fetch\<close> (offset, length); the concurrent
  requests of one read complete in an arbitrary order, the parameter \<open>sched\<close>. A hash map of
  chunks is an association list with distinct keys, so that its length is the map's size.
\<close>

section \<open>The reader\<close>

record chunk_reader =
  cr_url :: url
  cr_size :: nat
  cr_chunk_size :: nat
  cr_max_chunks :: nat
  cr_concurrency :: nat
  cr_chunks :: "(nat \<times> string) list"
  cr_order :: "nat list"
  cr_last_end :: nat

definition reader_new :: "url \<Rightarrow> nat \<Rightarrow> nat \<Rightarrow> nat \<Rightarrow> nat \<Rightarrow> chunk_reader" where
  "reader_new u sz chunk_size0 buffer_size concurrency =
     (let chunk_size = max chunk_size0 (64 * 1024);
          max_chunks = max (buffer_size div chunk_size) 2
      in \<lparr>cr_url = u, cr_size = sz, cr_chunk_size = chunk_size, cr_max_chunks = max_chunks,
          cr_concurrency = max concurrency 1, cr_chunks = [], cr_order = [], cr_last_end = 0\<rparr>)"

definition n_chunks :: "chunk_reader \<Rightarrow> nat" where
  "n_chunks r = div_ceil (cr_size r) (cr_chunk_size r)"

definition chunk_bounds :: "chunk_reader \<Rightarrow> nat \<Rightarrow> nat \<times> nat" where
  "chunk_bounds r idx =
     (u64_mul idx (cr_chunk_size r), min (u64_mul (u64_add idx 1) (cr_chunk_size r)) (cr_size r))"

text \<open>
  The requests run concurrently and are collected as they complete: with an error among them
  the first one in completion order is the result.
\<close>

definition fetch_chunks ::
  "chunk_reader \<Rightarrow> (nat \<Rightarrow> nat \<Rightarrow> ('e, string) result) \<Rightarrow> (nat list \<Rightarrow> nat list) \<Rightarrow> nat list
     \<Rightarrow> ('e, (nat \<times> string) list) result" where
  "fetch_chunks r fetch sched idxs =
     collect_results (map (\<lambda>idx.
       case chunk_bounds r idx of (start, fin) \<Rightarrow>
         and_then (fetch start (u64_sub fin start)) (\<lambda>data. Ok (idx, data))) (sched idxs))"

definition touch :: "nat \<Rightarrow> chunk_reader \<Rightarrow> chunk_reader" where
  "touch idx r = r\<lparr>cr_order := remove1 idx (cr_order r) @ [idx]\<rparr>"

fun evict_loop :: "nat \<Rightarrow> nat list \<Rightarrow> chunk_reader \<Rightarrow> chunk_reader" where
  "evict_loop 0 keep r = r"
| "evict_loop (Suc guard) keep r =
     (if cr_max_chunks r < length (cr_chunks r) then
        (case cr_order r of
           [] \<Rightarrow> r
         | idx # rest \<Rightarrow>
             if idx \<in> set keep then evict_loop guard keep (r\<lparr>cr_order := rest @ [idx]\<rparr>)
             else evict_loop guard keep
                    (r\<lparr>cr_order := rest, cr_chunks := AList.delete idx (cr_chunks r)\<rparr>))
      else r)"

definition evict :: "nat list \<Rightarrow> chunk_reader \<Rightarrow> chunk_reader" where
  "evict keep r = evict_loop (length (cr_order r)) keep r"

definition insert_chunk :: "nat \<times> string \<Rightarrow> chunk_reader \<Rightarrow> chunk_reader" where
  "insert_chunk c r = touch (fst c) (r\<lparr>cr_chunks := AList.update (fst c) (snd c) (cr_chunks r)\<rparr>)"

text \<open>
  The assembly loop; \<open>pos + take\<close> is at most \<open>fin\<close>, so it cannot wrap. A missing chunk is an error,
  a short one ends the loop.
\<close>

function assemble :: "chunk_reader \<Rightarrow> nat \<Rightarrow> nat \<Rightarrow> string \<Rightarrow> (error, string) result" where
  "assemble r pos fin out =
     (if pos < fin then
        (let idx = pos div cr_chunk_size r in
         case map_of (cr_chunks r) idx of
           None \<Rightarrow> Err (Message (''chunk '' @ show_nat idx @ '' missing after fetch''))
         | Some chunk \<Rightarrow>
             let within = u64_sub pos (fst (chunk_bounds r idx)) in
             if length chunk \<le> within then Ok out
             else
               let n = min (fin - pos) (length chunk - within)
               in assemble r (pos + n) fin (out @ take n (drop within chunk)))
      else Ok out)"
  by pat_completeness auto
termination
  by (relation "measure (\<lambda>(r, pos, fin, out). fin - pos)") auto

declare assemble.simps [simp del]

definition want_until :: "chunk_reader \<Rightarrow> nat \<Rightarrow> nat \<Rightarrow> nat \<Rightarrow> nat" where
  "want_until r offset first lst =
     (let sequential = (cr_last_end r = 0 \<or> offset = cr_last_end r);
          want = lst + 1;
          want = (if sequential then max want (u64_add first (cr_max_chunks r)) else want)
      in max (min (min want (u64_add first (cr_max_chunks r))) (n_chunks r)) (lst + 1))"

definition read_chunks ::
  "(nat \<Rightarrow> nat \<Rightarrow> (error, string) result) \<Rightarrow> (nat list \<Rightarrow> nat list) \<Rightarrow> chunk_reader \<Rightarrow> nat \<Rightarrow> nat
     \<Rightarrow> (error, string) result \<times> chunk_reader" where
  "read_chunks fetch sched r offset len0 =
     (if cr_size r \<le> offset \<or> len0 = 0 then (Ok [], r)
      else
        let len = min len0 (cr_size r - offset);
            first = offset div cr_chunk_size r;
            lst = (offset + len - 1) div cr_chunk_size r;
            want_end = want_until r offset first lst;
            missing = filter (\<lambda>i. map_of (cr_chunks r) i = None) [first..<want_end]
        in case (if missing \<noteq> [] then fetch_chunks r fetch sched missing else Ok []) of
             Inl e \<Rightarrow> (Err e, r)
           | Inr got \<Rightarrow>
               let r1 = fold insert_chunk got r;
                   keep = [first..<Suc lst];
                   r2 = fold touch keep r1;
                   r3 = evict keep r2;
                   fin = offset + len
               in (case assemble r3 offset fin [] of
                     Inl e \<Rightarrow> (Err e, r3)
                   | Inr out \<Rightarrow> (Ok out, r3\<lparr>cr_last_end := fin\<rparr>)))"

section \<open>Chunks of an object\<close>

text \<open>The part of an object that chunk \<open>idx\<close> holds.\<close>

definition chunk_of :: "nat \<Rightarrow> string \<Rightarrow> nat \<Rightarrow> string" where
  "chunk_of cs obj idx = take cs (drop (idx * cs) obj)"

text \<open>
  The reader of an object: every resident chunk holds its part, the recency list names the
  resident chunks once each, and no chunk bound wraps.
\<close>

definition reader_inv :: "string \<Rightarrow> chunk_reader \<Rightarrow> bool" where
  "reader_inv obj r \<longleftrightarrow>
     cr_size r = length obj \<and> 0 < cr_chunk_size r \<and> 0 < cr_max_chunks r
     \<and> length obj + cr_chunk_size r < u64_lim
     \<and> distinct (map fst (cr_chunks r)) \<and> distinct (cr_order r)
     \<and> set (cr_order r) = fst ` set (cr_chunks r)
     \<and> (\<forall>idx data. map_of (cr_chunks r) idx = Some data \<longrightarrow>
          idx < n_chunks r \<and> data = chunk_of (cr_chunk_size r) obj idx)"

lemma reader_inv_new:
  "length obj + max chunk_size (64 * 1024) < u64_lim \<Longrightarrow>
     reader_inv obj (reader_new u (length obj) chunk_size buffer_size concurrency)"
  by (simp add: reader_inv_def reader_new_def Let_def less_max_iff_disj)

lemma index_small:
  assumes "reader_inv obj r" "idx < n_chunks r"
  shows "idx * cr_chunk_size r < length obj" "(idx + 1) * cr_chunk_size r < u64_lim" "idx + 1 < u64_lim"
proof -
  have cs: "0 < cr_chunk_size r" using assms(1) by (simp add: reader_inv_def)
  show lt: "idx * cr_chunk_size r < length obj"
    using assms cs by (simp add: n_chunks_def div_ceil_less reader_inv_def)
  show w: "(idx + 1) * cr_chunk_size r < u64_lim"
    using lt assms(1) by (simp add: reader_inv_def)
  have "idx + 1 \<le> (idx + 1) * cr_chunk_size r" using cs by (metis One_nat_def Suc_leI mult.right_neutral mult_le_mono2)
  with w show "idx + 1 < u64_lim" by linarith
qed

lemma chunk_bounds_eq:
  assumes "reader_inv obj r" "idx < n_chunks r"
  shows "chunk_bounds r idx = (idx * cr_chunk_size r, min ((idx + 1) * cr_chunk_size r) (length obj))"
proof -
  note S = index_small [OF assms]
  have "idx * cr_chunk_size r < u64_lim" using S(2) by simp
  moreover have "cr_size r = length obj" using assms(1) by (simp add: reader_inv_def)
  ultimately show ?thesis using S by (simp add: chunk_bounds_def u64_mul_eq u64_add_eq)
qed

lemma chunk_nonempty:
  assumes "reader_inv obj r" "pos < length obj"
  shows "pos div cr_chunk_size r < n_chunks r"
  using assms by (simp add: n_chunks_def div_ceil_less reader_inv_def) (metis div_times_less_eq_dividend le_less_trans)

section \<open>Residency\<close>

text \<open>The indices of the resident chunks.\<close>

definition resident :: "chunk_reader \<Rightarrow> nat set" where
  "resident r = fst ` set (cr_chunks r)"

lemma resident_iff: "i \<in> resident r \<longleftrightarrow> map_of (cr_chunks r) i \<noteq> None"
  by (simp add: resident_def map_of_eq_None_iff)

lemma touch_frame [simp]:
  "cr_chunks (touch i r) = cr_chunks r" "cr_size (touch i r) = cr_size r"
  "cr_chunk_size (touch i r) = cr_chunk_size r" "cr_max_chunks (touch i r) = cr_max_chunks r"
  "n_chunks (touch i r) = n_chunks r" "resident (touch i r) = resident r"
  by (simp_all add: touch_def n_chunks_def resident_def)

lemma touch_order: "distinct (cr_order r) \<Longrightarrow>
    set (cr_order (touch i r)) = insert i (set (cr_order r)) \<and> distinct (cr_order (touch i r))"
  by (auto simp: touch_def)

lemma reader_inv_touch: "reader_inv obj r \<Longrightarrow> i \<in> resident r \<Longrightarrow> reader_inv obj (touch i r)"
  using touch_order [of r i] by (auto simp: reader_inv_def resident_def)

lemma fold_touch_frame [simp]:
  "cr_chunks (fold touch is r) = cr_chunks r" "resident (fold touch is r) = resident r"
  "cr_max_chunks (fold touch is r) = cr_max_chunks r" "cr_chunk_size (fold touch is r) = cr_chunk_size r"
  by (induction "is" arbitrary: r) simp_all

lemma reader_inv_fold_touch:
  "reader_inv obj r \<Longrightarrow> set is \<subseteq> resident r \<Longrightarrow> reader_inv obj (fold touch is r)"
  by (induction "is" arbitrary: r) (simp_all add: reader_inv_touch)

lemma insert_chunk_frame [simp]:
  "cr_size (insert_chunk c r) = cr_size r" "cr_chunk_size (insert_chunk c r) = cr_chunk_size r"
  "cr_max_chunks (insert_chunk c r) = cr_max_chunks r" "n_chunks (insert_chunk c r) = n_chunks r"
  "resident (insert_chunk c r) = insert (fst c) (resident r)"
  "cr_chunks (insert_chunk c r) = AList.update (fst c) (snd c) (cr_chunks r)"
  by (simp_all add: insert_chunk_def n_chunks_def resident_def dom_update)

lemma reader_inv_insert:
  assumes "reader_inv obj r" "fst c < n_chunks r" "snd c = chunk_of (cr_chunk_size r) obj (fst c)"
  shows "reader_inv obj (insert_chunk c r)"
proof -
  have o: "distinct (cr_order (insert_chunk c r))"
    "set (cr_order (insert_chunk c r)) = insert (fst c) (set (cr_order r))"
    using assms(1) touch_order [of "r\<lparr>cr_chunks := AList.update (fst c) (snd c) (cr_chunks r)\<rparr>" "fst c"]
    by (simp_all add: insert_chunk_def reader_inv_def)
  have "fst ` set (cr_chunks (insert_chunk c r)) = insert (fst c) (fst ` set (cr_chunks r))"
    by (simp add: dom_update)
  with assms o show ?thesis
    by (auto simp: reader_inv_def distinct_update update_conv' split: if_splits)
qed

lemma fold_insert_frame [simp]:
  "cr_chunk_size (fold insert_chunk cs r) = cr_chunk_size r"
  "cr_max_chunks (fold insert_chunk cs r) = cr_max_chunks r"
  "n_chunks (fold insert_chunk cs r) = n_chunks r"
  "resident (fold insert_chunk cs r) = resident r \<union> fst ` set cs"
  by (induction cs arbitrary: r) auto

lemma reader_inv_fold_insert:
  "reader_inv obj r \<Longrightarrow> \<forall>c \<in> set cs. fst c < n_chunks r \<and> snd c = chunk_of (cr_chunk_size r) obj (fst c)
     \<Longrightarrow> reader_inv obj (fold insert_chunk cs r)"
  by (induction cs arbitrary: r) (auto simp: reader_inv_insert)

section \<open>Eviction\<close>

lemma reader_inv_rotate:
  "reader_inv obj r \<Longrightarrow> cr_order r = i # rest \<Longrightarrow> reader_inv obj (r\<lparr>cr_order := rest @ [i]\<rparr>)"
  by (auto simp: reader_inv_def n_chunks_def)

lemma reader_inv_drop:
  assumes "reader_inv obj r" "cr_order r = i # rest"
  shows "reader_inv obj (r\<lparr>cr_order := rest, cr_chunks := AList.delete i (cr_chunks r)\<rparr>)"
proof -
  have "fst ` set (AList.delete i (cr_chunks r)) = fst ` set (cr_chunks r) - {i}"
    using delete_keys [of i "cr_chunks r"] by (metis set_map set_removeAll)
  then have "set rest = fst ` set (AList.delete i (cr_chunks r))"
    using assms by (auto simp: reader_inv_def)
  with assms show ?thesis
    by (auto simp: reader_inv_def n_chunks_def distinct_delete delete_conv' split: if_splits)
qed

lemma evict_loop_inv: "reader_inv obj r \<Longrightarrow> reader_inv obj (evict_loop g keep r)"
  by (induction g keep r rule: evict_loop.induct)
    (auto simp: reader_inv_rotate reader_inv_drop split: list.splits)

lemma evict_loop_keeps:
  "i \<in> set keep \<Longrightarrow> map_of (cr_chunks (evict_loop g keep r)) i = map_of (cr_chunks r) i"
  by (induction g keep r rule: evict_loop.induct) (auto simp: delete_conv' split: list.splits)

lemma evict_loop_frame [simp]:
  "cr_chunk_size (evict_loop g keep r) = cr_chunk_size r"
  "cr_max_chunks (evict_loop g keep r) = cr_max_chunks r"
  "cr_size (evict_loop g keep r) = cr_size r"
  by (induction g keep r rule: evict_loop.induct) (auto split: list.splits)

text \<open>
  One turn of the queue is enough: what the loop has passed over is needed by the read, so in
  the end the budget is met or only needed chunks remain.
\<close>

lemma evict_loop_budget:
  "cr_order r = xs @ ys \<Longrightarrow> length xs = g \<Longrightarrow> set ys \<subseteq> set keep \<Longrightarrow>
     length (cr_chunks (evict_loop g keep r)) \<le> cr_max_chunks r \<or>
     set (cr_order (evict_loop g keep r)) \<subseteq> set keep"
proof (induction g keep r arbitrary: xs ys rule: evict_loop.induct)
  case (1 keep r)
  then show ?case by simp
next
  case (2 g keep r)
  show ?case
  proof (cases "cr_max_chunks r < length (cr_chunks r)")
    case True
    from "2.prems" obtain i xs' where xs: "xs = i # xs'" by (cases xs) auto
    with "2.prems" have ord: "cr_order r = i # xs' @ ys" by simp
    show ?thesis
    proof (cases "i \<in> set keep")
      case i: True
      have "length (cr_chunks (evict_loop g keep (r\<lparr>cr_order := (xs' @ ys) @ [i]\<rparr>))) \<le> cr_max_chunks r \<or>
          set (cr_order (evict_loop g keep (r\<lparr>cr_order := (xs' @ ys) @ [i]\<rparr>))) \<subseteq> set keep"
        using "2.IH"(1) [OF True ord i, of xs' "ys @ [i]"] "2.prems" xs i by simp
      then show ?thesis using True ord i by simp
    next
      case i: False
      then show ?thesis
        using "2.IH"(2) [OF True ord i, of xs' ys] "2.prems" xs True ord by simp
    qed
  next
    case False
    then show ?thesis by simp
  qed
qed

section \<open>The object behind the reader\<close>

text \<open>
  What the reader relies on: a ranged GET that succeeds returns that range of the object.
  \<open>sched\<close> reorders the requests of one read.
\<close>

locale ranged_object =
  fixes obj :: string
    and fetch :: "nat \<Rightarrow> nat \<Rightarrow> (error, string) result"
  assumes fetch_range: "fetch start len = Inr data \<Longrightarrow> start + len \<le> length obj \<Longrightarrow>
        data = take len (drop start obj)"
begin

lemma fetch_chunk:
  assumes "reader_inv obj r" "idx < n_chunks r" "chunk_bounds r idx = (s, e)"
    "fetch s (u64_sub e s) = Inr data"
  shows "data = chunk_of (cr_chunk_size r) obj idx"
proof -
  have se: "s = idx * cr_chunk_size r" "e = min ((idx + 1) * cr_chunk_size r) (length obj)"
    using chunk_bounds_eq [OF assms(1,2)] assms(3) by simp_all
  note S = index_small [OF assms(1,2)]
  have "s \<le> e" "e < u64_lim" using se S(1) S(2) by auto
  then have sub: "u64_sub e s = e - s" by (simp add: u64_sub_eq)
  moreover have "s + (e - s) \<le> length obj" using \<open>s \<le> e\<close> se by simp
  ultimately have d: "data = take (e - s) (drop s obj)" using fetch_range assms(4) by simp
  show ?thesis
  proof (cases "(idx + 1) * cr_chunk_size r \<le> length obj")
    case True
    then have "e - s = cr_chunk_size r" using se by simp
    with d se show ?thesis by (simp add: chunk_of_def)
  next
    case False
    then have "e = length obj" "length obj - s \<le> cr_chunk_size r" using se by simp_all
    with d se show ?thesis by (simp add: chunk_of_def)
  qed
qed

lemma fetch_chunks_ok:
  assumes "reader_inv obj r" "\<forall>i \<in> set idxs. i < n_chunks r" "mset (sched idxs) = mset idxs"
    "fetch_chunks r fetch sched idxs = Inr got"
  shows "map fst got = sched idxs \<and> (\<forall>c \<in> set got. snd c = chunk_of (cr_chunk_size r) obj (fst c))"
proof -
  let ?f = "\<lambda>idx. case chunk_bounds r idx of (s, e) \<Rightarrow>
      and_then (fetch s (u64_sub e s)) (\<lambda>data. Ok (idx, data))"
  have m: "map ?f (sched idxs) = map Inr got"
    using assms(4) by (simp add: fetch_chunks_def collect_results_Inr)
  have small: "\<forall>i \<in> set (sched idxs). i < n_chunks r" using assms(2,3) by (metis set_mset_mset)
  have each: "fst c = i \<and> snd c = chunk_of (cr_chunk_size r) obj i"
    if "?f i = Inr c" "i \<in> set (sched idxs)" for i c
    using that small fetch_chunk [OF assms(1)]
    by (cases "chunk_bounds r i") (auto simp: and_then_eq_Inr)
  have len: "length got = length (sched idxs)" using arg_cong [OF m, of length] by simp
  have nth: "fst (got ! k) = sched idxs ! k \<and> snd (got ! k) = chunk_of (cr_chunk_size r) obj (sched idxs ! k)"
    if k: "k < length got" for k
  proof -
    have "?f (sched idxs ! k) = Inr (got ! k)"
      using arg_cong [OF m, of "\<lambda>xs. xs ! k"] k len by simp
    moreover have "sched idxs ! k \<in> set (sched idxs)" using k len by simp
    ultimately show ?thesis by (rule each)
  qed
  have "map fst got = sched idxs" using len nth by (intro nth_equalityI) auto
  moreover have "\<forall>c \<in> set got. snd c = chunk_of (cr_chunk_size r) obj (fst c)"
    using nth by (metis in_set_conv_nth)
  ultimately show ?thesis by blast
qed

end

section \<open>Assembly\<close>

lemma assemble_ok:
  assumes "reader_inv obj r" "fin \<le> length obj" "pos \<le> fin"
    "\<forall>i. pos div cr_chunk_size r \<le> i \<and> i * cr_chunk_size r < fin \<longrightarrow> i \<in> resident r"
  shows "assemble r pos fin out = Inr (out @ take (fin - pos) (drop pos obj))"
  using assms
proof (induction r pos fin out rule: assemble.induct)
  case (1 r pos fin out)
  let ?cs = "cr_chunk_size r" and ?idx = "pos div cr_chunk_size r"
  show ?case
  proof (cases "pos < fin")
    case False
    with 1 show ?thesis by (simp add: assemble.simps)
  next
    case True
    have cs: "0 < ?cs" using "1.prems"(1) by (simp add: reader_inv_def)
    have idx: "?idx < n_chunks r" using "1.prems"(1,2) True by (intro chunk_nonempty) auto
    have "?idx * ?cs \<le> pos" by simp
    with True have "?idx * ?cs < fin" by linarith
    with "1.prems"(4) have "?idx \<in> resident r" by simp
    then obtain chunk where chunk: "map_of (cr_chunks r) ?idx = Some chunk" by (auto simp: resident_iff)
    then have ch: "chunk = chunk_of ?cs obj ?idx" using "1.prems"(1) unfolding reader_inv_def by blast
    have base: "?idx * ?cs \<le> pos" by simp
    have small: "pos < u64_lim" using "1.prems"(1,2) True by (simp add: reader_inv_def)
    then have w: "u64_sub pos (fst (chunk_bounds r ?idx)) = pos - ?idx * ?cs"
      using chunk_bounds_eq [OF "1.prems"(1) idx] base by (simp add: u64_sub_eq)
    let ?w = "pos - ?idx * ?cs"
    have wlt: "?w < ?cs" using cs by (simp add: minus_div_mult_eq_mod)
    have len: "length chunk = min ?cs (length obj - ?idx * ?cs)" by (simp add: ch chunk_of_def)
    have "?w < length obj - ?idx * ?cs" using "1.prems"(2) True base by linarith
    then have short: "\<not> length chunk \<le> ?w" using len wlt by simp
    define n where "n = min (fin - pos) (length chunk - ?w)"
    have n: "0 < n" "n \<le> fin - pos" using short True by (simp_all add: n_def)
    have "n \<le> length chunk - ?w" "length chunk \<le> ?cs" by (simp_all add: n_def len)
    then have n3: "?w + n \<le> ?cs" using short by linarith
    have piece: "take n (drop ?w chunk) = take n (drop pos obj)"
      using n3 base by (simp add: ch chunk_of_def drop_take take_take min_def)
    have IH: "assemble r (pos + n) fin (out @ take n (drop ?w chunk)) =
        Inr ((out @ take n (drop ?w chunk)) @ take (fin - (pos + n)) (drop (pos + n) obj))"
    proof (rule "1.IH" [OF True refl chunk w [symmetric] short n_def "1.prems"(1,2)])
      show "pos + n \<le> fin" using n(2) True by simp
      have "?idx \<le> (pos + n) div ?cs" by (simp add: div_le_mono)
      with "1.prems"(4) show "\<forall>i. (pos + n) div ?cs \<le> i \<and> i * ?cs < fin \<longrightarrow> i \<in> resident r"
        using le_trans by blast
    qed
    have "assemble r pos fin out = assemble r (pos + n) fin (out @ take n (drop ?w chunk))"
      using True chunk short by (subst assemble.simps) (simp add: Let_def w n_def)
    also have "\<dots> = Inr (out @ take n (drop pos obj) @ take (fin - pos - n) (drop n (drop pos obj)))"
      using IH piece by (simp add: add.commute)
    also have "\<dots> = Inr (out @ take (fin - pos) (drop pos obj))"
      using n(2) by (metis le_add_diff_inverse take_add)
    finally show ?thesis .
  qed
qed

section \<open>Reading\<close>

lemma want_until_bounds:
  assumes "lst < n_chunks r"
  shows "lst < want_until r offset first lst" "want_until r offset first lst \<le> n_chunks r"
  using assms by (auto simp: want_until_def Let_def)

lemma collect_results_Inl: "collect_results rs = Inl e \<Longrightarrow> Inl e \<in> set rs"
proof (induction rs)
  case (Cons r rs)
  then show ?case by (cases r; cases "collect_results rs") auto
qed simp

lemma resident_card: "reader_inv obj r \<Longrightarrow> length (cr_chunks r) = card (resident r)"
  unfolding reader_inv_def resident_def by (metis distinct_card length_map set_map)

lemma evict_ok:
  assumes "reader_inv obj r" "set keep \<subseteq> resident r"
  shows "reader_inv obj (evict keep r)" "set keep \<subseteq> resident (evict keep r)"
    and "length (cr_chunks (evict keep r)) \<le> max (cr_max_chunks r) (card (set keep))"
proof -
  show inv: "reader_inv obj (evict keep r)" using assms(1) by (simp add: evict_def evict_loop_inv)
  show "set keep \<subseteq> resident (evict keep r)"
    using assms(2) by (auto simp: evict_def resident_iff evict_loop_keeps)
  consider "length (cr_chunks (evict keep r)) \<le> cr_max_chunks r" | "set (cr_order (evict keep r)) \<subseteq> set keep"
    using evict_loop_budget [of r "cr_order r" "[]" "length (cr_order r)" keep] by (auto simp: evict_def)
  then show "length (cr_chunks (evict keep r)) \<le> max (cr_max_chunks r) (card (set keep))"
  proof cases
    case 2
    then have "resident (evict keep r) \<subseteq> set keep" using inv by (simp add: reader_inv_def resident_def)
    then have "card (resident (evict keep r)) \<le> card (set keep)" by (simp add: card_mono)
    then show ?thesis using resident_card [OF inv] by simp
  qed simp
qed

lemma reader_inv_last_end [simp]: "reader_inv obj (r\<lparr>cr_last_end := e\<rparr>) = reader_inv obj r"
  by (simp add: reader_inv_def n_chunks_def)

text \<open>The number of chunks a request of \<open>len\<close> bytes at \<open>offset\<close> touches.\<close>

definition chunks_spanned :: "chunk_reader \<Rightarrow> nat \<Rightarrow> nat \<Rightarrow> nat" where
  "chunks_spanned r offset len =
     (offset + len - 1) div cr_chunk_size r + 1 - offset div cr_chunk_size r"

definition read_result_ok ::
  "string \<Rightarrow> (nat \<Rightarrow> nat \<Rightarrow> (error, string) result) \<Rightarrow> chunk_reader \<Rightarrow> nat \<Rightarrow> nat \<Rightarrow> (error, string) result \<times> chunk_reader \<Rightarrow> bool" where
  "read_result_ok obj fetch r offset len res \<longleftrightarrow>
     (case res of
        (Inl e, r') \<Rightarrow> r' = r \<and> (\<exists>s l. fetch s l = Inl e)
      | (Inr data, r') \<Rightarrow> data = take len (drop offset obj) \<and> reader_inv obj r' \<and>
          (r' = r \<or> length (cr_chunks r') \<le>
             max (cr_max_chunks r) (chunks_spanned r offset (min len (length obj - offset)))))"

context ranged_object
begin

lemma read_chunks_ok:
  assumes inv: "reader_inv obj r" and perm: "\<And>xs. mset (sched xs) = mset xs"
  shows "read_result_ok obj fetch r offset len (read_chunks fetch sched r offset len)"
proof (cases "cr_size r \<le> offset \<or> len = 0")
  case True
  with inv show ?thesis by (auto simp: read_chunks_def read_result_ok_def reader_inv_def)
next
  case False
  define l where "l = min len (cr_size r - offset)"
  define cs where "cs = cr_chunk_size r"
  define first where "first = offset div cs"
  define lst where "lst = (offset + l - 1) div cs"
  define want where "want = want_until r offset first lst"
  define missing where "missing = filter (\<lambda>i. map_of (cr_chunks r) i = None) [first..<want]"
  have sz: "cr_size r = length obj" and cs: "0 < cs" using inv by (simp_all add: reader_inv_def cs_def)
  have l: "0 < l" "offset + l \<le> length obj" using False by (auto simp: l_def sz)
  have lst: "lst < n_chunks r" unfolding lst_def cs_def using l by (intro chunk_nonempty [OF inv]) simp
  have fl: "first \<le> lst" unfolding first_def lst_def using l by (intro div_le_mono) simp
  note W = want_until_bounds [OF lst, of offset first, folded want_def]
  let ?got = "if missing \<noteq> [] then fetch_chunks r fetch sched missing else Ok []"
  have read: "read_chunks fetch sched r offset len =
      (case ?got of
         Inl e \<Rightarrow> (Err e, r)
       | Inr got \<Rightarrow>
           (let r3 = evict [first..<Suc lst] (fold touch [first..<Suc lst] (fold insert_chunk got r))
            in case assemble r3 offset (offset + l) [] of
                 Inl e \<Rightarrow> (Err e, r3)
               | Inr out \<Rightarrow> (Ok out, r3\<lparr>cr_last_end := offset + l\<rparr>)))"
    using False
    by (simp only: read_chunks_def l_def [symmetric] cs_def [symmetric] first_def [symmetric]
        lst_def [symmetric] want_def [symmetric] missing_def [symmetric] Let_def if_False)
  show ?thesis
  proof (cases ?got)
    case (Inl e)
    then have "Inl e \<in> set (map (\<lambda>idx. case chunk_bounds r idx of (start, fin) \<Rightarrow>
        and_then (fetch start (u64_sub fin start)) (\<lambda>data. Ok (idx, data))) (sched missing))"
      by (intro collect_results_Inl) (simp add: fetch_chunks_def split: if_splits)
    then obtain idx where "Inl e = (case chunk_bounds r idx of (start, fin) \<Rightarrow>
        and_then (fetch start (u64_sub fin start)) (\<lambda>data. Ok (idx, data)))" by auto
    then obtain s l where "Inl e = and_then (fetch s l) (\<lambda>data. Ok (idx, data))"
      by (cases "chunk_bounds r idx") simp
    then have "fetch s l = Inl e" by (cases "fetch s l") simp_all
    then have "\<exists>s l. fetch s l = Inl e" by blast
    with Inl show ?thesis by (simp add: read read_result_ok_def)
  next
    case (Inr got)
    have got: "map fst got = sched missing \<or> got = [] \<and> missing = []"
      "\<forall>c \<in> set got. snd c = chunk_of cs obj (fst c)"
      using Inr fetch_chunks_ok [of r missing sched got] inv perm [of missing] W(2)
      by (auto simp: missing_def cs_def split: if_splits)
    have fst_got: "fst ` set got = set missing"
    proof (cases "missing = []")
      case True
      with Inr show ?thesis by auto
    next
      case False
      with got(1) have "map fst got = sched missing" by blast
      then have "fst ` set got = set (sched missing)" by (metis set_map)
      also have "\<dots> = set missing" using perm by (metis set_mset_mset)
      finally show ?thesis .
    qed
    let ?keep = "[first..<Suc lst]"
    let ?r1 = "fold insert_chunk got r"
    have "fst c < n_chunks r" if "c \<in> set got" for c
    proof -
      have "fst c \<in> set missing" using that fst_got by blast
      with W(2) show ?thesis by (simp add: missing_def)
    qed
    with got(2) have inv1: "reader_inv obj ?r1"
      by (intro reader_inv_fold_insert [OF inv]) (simp add: cs_def)
    have keep1: "set ?keep \<subseteq> resident ?r1"
      using fst_got W(1) by (auto simp: missing_def resident_iff)
    define r3 where "r3 = evict ?keep (fold touch ?keep ?r1)"
    have inv2: "reader_inv obj (fold touch ?keep ?r1)" "set ?keep \<subseteq> resident (fold touch ?keep ?r1)"
      using reader_inv_fold_touch [OF inv1 keep1] keep1 by simp_all
    note E = evict_ok [OF inv2, folded r3_def]
    have "cr_chunk_size r3 = cs" by (simp add: r3_def evict_def cs_def)
    then have "assemble r3 offset (offset + l) [] = Inr ([] @ take (offset + l - offset) (drop offset obj))"
    proof (intro assemble_ok [OF E(1)])
      show "\<forall>i. offset div cr_chunk_size r3 \<le> i \<and> i * cr_chunk_size r3 < offset + l \<longrightarrow> i \<in> resident r3"
      proof (intro allI impI)
        fix i assume i: "offset div cr_chunk_size r3 \<le> i \<and> i * cr_chunk_size r3 < offset + l"
        then have "i * cs < offset + l" using \<open>cr_chunk_size r3 = cs\<close> by simp
        then have "i * cs \<le> offset + l - 1" by linarith
        then have "i \<le> lst" using cs by (simp add: lst_def less_eq_div_iff_mult_less_eq)
        with i \<open>cr_chunk_size r3 = cs\<close> have "i \<in> set ?keep" by (auto simp: first_def)
        with E(2) show "i \<in> resident r3" by blast
      qed
    qed (use l in simp_all)
    moreover have "take l (drop offset obj) = take len (drop offset obj)" by (cases "len \<le> length obj - offset") (simp_all add: l_def sz)
    moreover have "card (set ?keep) = chunks_spanned r offset (min len (length obj - offset))"
      using fl by (simp add: chunks_spanned_def first_def lst_def cs_def l_def sz Suc_diff_le)
    ultimately show ?thesis
      using E(1,3) Inr by (simp add: read read_result_ok_def r3_def Let_def)
  qed
qed

end

section \<open>A reader over its whole life\<close>

text \<open>The states of the reader of \<open>obj\<close>: opened, then any number of reads, each with its own
  responses and completion order.\<close>

inductive reader_reach :: "string \<Rightarrow> chunk_reader \<Rightarrow> bool" for obj where
  opened: "length obj + max chunk_size (64 * 1024) < u64_lim \<Longrightarrow>
     reader_reach obj (reader_new u (length obj) chunk_size buffer_size concurrency)"
| did_read: "reader_reach obj r \<Longrightarrow> ranged_object obj fetch \<Longrightarrow> (\<And>xs. mset (sched xs) = mset xs) \<Longrightarrow>
     reader_reach obj (snd (read_chunks fetch sched r offset len))"

lemma read_result_inv: "read_result_ok obj fetch r offset len (res, r') \<Longrightarrow> reader_inv obj r \<Longrightarrow> reader_inv obj r'"
  by (auto simp: read_result_ok_def split: sum.splits)

lemma reader_reach_inv: "reader_reach obj r \<Longrightarrow> reader_inv obj r"
proof (induction rule: reader_reach.induct)
  case (opened chunk_size u buffer_size concurrency)
  then show ?case by (rule reader_inv_new)
next
  case (did_read r fetch sched offset len)
  obtain res r' where "read_chunks fetch sched r offset len = (res, r')" by (cases "read_chunks fetch sched r offset len")
  with ranged_object.read_chunks_ok [OF did_read(2) did_read(4) did_read(3)] did_read(4)
  show ?case by (metis read_result_inv snd_conv)
qed

text \<open>
  C1. Whatever was read before and in whatever order the concurrent range requests complete, a
  read returns exactly the requested bytes of the object, cut at its end, unless one of its
  range requests fails: then the read fails with that error and leaves the reader as it was. No
  chunk a read needs is missing after the fetch or evicted before it is copied out. Resident
  chunks stay within the budget, except that a request wider than the budget keeps what it spans.
\<close>

theorem mount_read_exact:
  assumes "reader_reach obj r" "ranged_object obj fetch" "\<And>xs. mset (sched xs) = mset xs"
  shows "case read_chunks fetch sched r offset len of
      (Inr data, r') \<Rightarrow> data = take len (drop offset obj) \<and>
        (r' = r \<or> length (cr_chunks r') \<le>
           max (cr_max_chunks r) (chunks_spanned r offset (min len (length obj - offset))))
    | (Inl e, r') \<Rightarrow> r' = r \<and> (\<exists>s l. fetch s l = Inl e)"
  using ranged_object.read_chunks_ok [OF assms(2) reader_reach_inv [OF assms(1)] assms(3), of offset len]
  by (auto simp: read_result_ok_def split: prod.splits sum.splits)

text \<open>A GET that always answers with the range of the object.\<close>

definition direct_fetch :: "string \<Rightarrow> nat \<Rightarrow> nat \<Rightarrow> (error, string) result" where
  "direct_fetch obj start len = Ok (take len (drop start obj))"

lemma direct_fetch_ranged: "ranged_object obj (direct_fetch obj)"
  by unfold_locales (simp add: direct_fetch_def)

theorem mount_read_exact_witness:
  "fst (read_chunks (direct_fetch ''hello world'') rev
      (reader_new (demo_url ''s3://b/k'') (length ''hello world'') 0 0 4) 6 3) = Inr ''wor''"
proof -
  let ?obj = "''hello world''" and ?r = "reader_new (demo_url ''s3://b/k'') (length ''hello world'') 0 0 4"
  have "reader_reach ?obj ?r"
    by (rule reader_reach.opened) simp
  from mount_read_exact [OF this direct_fetch_ranged, where sched = rev and offset = 6 and len = 3] show ?thesis
    by (auto simp: direct_fetch_def split: prod.splits sum.splits)
qed

end
