(* ===== verification/S3_Service.thy ===== *)
theory S3_Service
  imports S3_Transfer Reader
begin

text \<open>
  What the S3 back end promises over a service that keeps the documented promises of S3. The
  locale \<open>s3_service\<close> states those: the objects of the service are a map from bucket and key to
  bytes, an open multipart upload collects numbered parts; a request that succeeds has the
  documented effect on them. The lemmas of the locale show what downloads, uploads and copies do
  to objects and files; \<open>memory_sdk\<close> is a service that satisfies it.
\<close>

section \<open>The service\<close>

type_synonym location = "string \<times> string"

definition loc :: "object_ref \<Rightarrow> location" where
  "loc r = (or_bucket r, or_key r)"

definition url_loc :: "url \<Rightarrow> location" where
  "url_loc u = (url_bucket u, url_path u)"

text \<open>A source of a server-side copy: an unversioned object of a named bucket.\<close>

definition copy_source_ok :: "url \<Rightarrow> bool" where
  "copy_source_ok u \<longleftrightarrow> is_remote u \<and> url_scheme u = ''s3'' \<and> url_version_id u = []
     \<and> url_bucket u \<noteq> [] \<and> CHR ''/'' \<notin> set (url_bucket u)"

text \<open>The \<^verbatim>\<open>Content-Range\<close> of a range of an object of \<open>n\<close> bytes.\<close>

definition content_range :: "nat \<Rightarrow> nat \<Rightarrow> nat \<Rightarrow> string" where
  "content_range a b n = ''bytes '' @ show_nat a @ ''-'' @ show_nat (min b (n - 1)) @ ''/'' @ show_nat n"

locale s3_service =
  fixes C :: "'s sdk"
    and contents :: "'s \<Rightarrow> location \<Rightarrow> string option"
    and uploads :: "'s \<Rightarrow> string \<Rightarrow> (location \<times> (int \<Rightarrow> string option)) option"
  assumes get_frame: "sdk_get C r rng s = (res, s') \<Longrightarrow> contents s' = contents s \<and> uploads s' = uploads s"
    and get_whole: "sdk_get C r None s = (Inr resp, s') \<Longrightarrow> or_version r = None \<Longrightarrow> gr_body_error resp = None \<Longrightarrow>
          contents s (loc r) = Some (concat (gr_chunks resp))"
    and get_range: "sdk_get C r (Some (byte_range a b)) s = (Inr resp, s') \<Longrightarrow> or_version r = None \<Longrightarrow> a \<le> b \<Longrightarrow>
          \<exists>obj. contents s (loc r) = Some obj \<and> a < length obj \<and>
            gr_content_range resp = Some (content_range a b (length obj)) \<and>
            (gr_body_error resp = None \<longrightarrow> concat (gr_chunks resp) = take (b + 1 - a) (drop a obj))"
    and get_unsatisfiable: "sdk_get C r (Some (byte_range a b)) s = (Inl e, s') \<Longrightarrow> or_version r = None \<Longrightarrow>
          is_range_not_satisfiable (se_debug e) \<Longrightarrow> \<exists>obj. contents s (loc r) = Some obj \<and> length obj \<le> a"
    and put_ok: "sdk_put C req s = (Inr u, s') \<Longrightarrow>
          contents s' = (contents s)(loc (pr_ref req) \<mapsto> pr_body req) \<and> uploads s' = uploads s"
    and create_ok: "sdk_create_mpu C creq s = (Inr (Some uid), s') \<Longrightarrow>
          contents s' = contents s \<and> uploads s' = (uploads s)(uid \<mapsto> (loc (cq_ref creq), \<lambda>_. None))"
    and create_fresh: "sdk_create_mpu C creq s = (Inr (Some uid), s') \<Longrightarrow> uploads s uid = None"
    and part_ok: "sdk_upload_part C r uid n body s = (Inr etag, s') \<Longrightarrow> uploads s uid = Some (l, ps) \<Longrightarrow>
          contents s' = contents s \<and> uploads s' = (uploads s)(uid \<mapsto> (l, ps(n \<mapsto> body)))"
    and part_frame: "sdk_upload_part C r uid n body s = (pres, s') \<Longrightarrow>
          contents s' = contents s \<and> (\<forall>v. v \<noteq> uid \<longrightarrow> uploads s' v = uploads s v)"
    and abort_ok: "sdk_abort_mpu C r uid s = (Inr u, s') \<Longrightarrow>
          contents s' = contents s \<and> uploads s' = (uploads s)(uid := None)"
    and complete_ok: "sdk_complete_mpu C r uid parts cond s = (Inr u, s') \<Longrightarrow> uploads s uid = Some (l, ps) \<Longrightarrow>
          sorted_wrt (<) (map cp_number parts) \<Longrightarrow>
          contents s' = (contents s)(l \<mapsto> concat (map (\<lambda>p. unwrap_or [] (ps (cp_number p))) parts))
            \<and> uploads s' = (uploads s)(uid := None)"
    and head_ok: "sdk_head C r s = (hres, s') \<Longrightarrow> contents s' = contents s \<and> uploads s' = uploads s \<and>
          (\<forall>h. hres = Inr h \<longrightarrow> or_version r = None \<longrightarrow>
             (\<exists>obj. contents s (loc r) = Some obj \<and> hr_content_length h = Some (int (length obj))))"
    and part_copy_ok: "sdk_upload_part_copy C r uid n (copy_source_header src) (byte_range a b) s = (Inr etag, s') \<Longrightarrow>
          copy_source_ok src \<Longrightarrow> a \<le> b \<Longrightarrow> uploads s uid = Some (l, ps) \<Longrightarrow>
          \<exists>obj. contents s (url_loc src) = Some obj \<and> contents s' = contents s \<and>
            uploads s' = (uploads s)(uid \<mapsto> (l, ps(n \<mapsto> take (b + 1 - a) (drop a obj))))"
    and copy_ok: "sdk_copy C creq2 s = (Inr u2, s') \<Longrightarrow> cy_source creq2 = copy_source_header src \<Longrightarrow>
          copy_source_ok src \<Longrightarrow>
          \<exists>obj. contents s (url_loc src) = Some obj \<and> contents s' = (contents s)(loc (cy_ref creq2) \<mapsto> obj)"
    and copy_err: "sdk_copy C creq2 s = (Inl e, s') \<Longrightarrow> contents s' = contents s \<and> uploads s' = uploads s"

section \<open>Sequencing\<close>

lemma io_bind_Ok:
  "io_bind m f w = (Inr y, w') \<longleftrightarrow> (\<exists>x w1. m w = (Inr x, w1) \<and> f x w1 = (Inr y, w'))"
  by (auto simp: io_bind_def split: prod.splits sum.splits)

lemma io_return_Ok [simp]: "io_return x w = (Inr y, w') \<longleftrightarrow> y = x \<and> w' = w"
  by (auto simp: io_return_def)

lemma send_try_Ok:
  "send_try req w = (Inr x, w') \<longleftrightarrow> (\<exists>s'. req (w_s3 w) = (Inr x, s') \<and> w' = w\<lparr>w_s3 := s'\<rparr>)"
  by (auto simp: send_try_def send_def split: prod.splits sum.splits)

lemma conditional_send_Ok:
  "conditional_send req dst w = (Inr x, w') \<Longrightarrow> \<exists>s'. req (w_s3 w) = (Inr (), s') \<and> w' = w\<lparr>w_s3 := s'\<rparr>"
  by (auto simp: conditional_send_def send_def split: prod.splits sum.splits)

lemma os_call_Ok: "os_call E op p act w = (Inr x, w') \<longleftrightarrow> env_io E op p = None \<and> act w = (Inr x, w')"
  by (auto simp: os_call_def split: option.splits)

lemma make_parent_Ok: "make_parent E dst w = (Inr x, w') \<Longrightarrow> w' = w"
  by (auto simp: make_parent_def os_call_Ok split: option.splits if_splits)

lemma os_update_Ok: "os_update E op p f w = (Inr x, w') \<Longrightarrow>
    w' = w\<lparr>w_files := (w_files w)(p := map_option f (w_files w p))\<rparr>"
  by (auto simp: os_update_def os_call_Ok)

lemma os_open_truncate_Ok: "os_open_truncate E p w = (Inr x, w') \<Longrightarrow> w' = w\<lparr>w_files := (w_files w)(p \<mapsto> [])\<rparr>"
  by (auto simp: os_open_truncate_def os_call_Ok)

lemma os_read_Ok: "os_read E p w = (Inr f, w') \<Longrightarrow> w_files w p = Some f \<and> w' = w"
  by (auto simp: os_read_def os_call_Ok split: option.splits)

lemma os_len_Ok: "os_len E p w = (Inr n, w') \<Longrightarrow> \<exists>f. w_files w p = Some f \<and> n = length f \<and> w' = w"
  by (auto simp: os_len_def os_call_Ok split: option.splits)

lemma set_mtime_frame:
  "w_files (snd (set_file_mtime_from_value E p v w)) = w_files w" "w_s3 (snd (set_file_mtime_from_value E p v w)) = w_s3 w"
  by (auto simp: set_file_mtime_from_value_def split: sum.splits prod.splits)

lemma collect_body_Ok: "collect_body r = Inr d \<longleftrightarrow> gr_body_error r = None \<and> d = concat (gr_chunks r)"
  by (auto simp: collect_body_def split: option.splits)

text \<open>A list of tasks that all succeed: their effects add up in completion order.\<close>

lemma join_all_Cons_Ok:
  "join_all (t # ts) w = (Inr xs, w') \<Longrightarrow>
     \<exists>x ys w1. t w = (Inr x, w1) \<and> join_all ts w1 = (Inr ys, w') \<and> xs = x # ys"
proof -
  assume a: "join_all (t # ts) w = (Inr xs, w')"
  obtain r w1 where t: "t w = (r, w1)" by (cases "t w")
  obtain rs w2 where ts: "run_tasks ts w1 = (rs, w2)" by (cases "run_tasks ts w1")
  from a t ts have "collect_results (r # rs) = Inr xs" "w2 = w'" by (simp_all add: join_all_def)
  then show ?thesis using t ts by (auto simp: join_all_def and_then_eq_Inr)
qed

lemma join_all_Nil [simp]: "join_all [] w = (Inr [], w)"
  by (simp add: join_all_def)

section \<open>Headers\<close>

lemma digit_not_slash: "is_digit c \<Longrightarrow> c \<noteq> CHR ''/'' \<and> c \<noteq> CHR ''-''"
  by (auto simp: is_digit_def byte_of_def)

lemma show_nat_no_slash: "CHR ''/'' \<notin> set (show_nat n)" "CHR ''-'' \<notin> set (show_nat n)"
  using show_nat_digits [of n] digit_not_slash by (auto simp: list_all_iff)

lemma str_trim_digits:
  assumes "list_all is_digit s"
  shows "str_trim s = s"
proof -
  have digit: "\<not> is_white [c]" if "is_digit c" for c
    using that by (auto simp: is_white_def is_digit_def Let_def)
  have "chars s = map (\<lambda>c. [c]) s"
    using assms
  proof (induction s)
    case (Cons c s)
    then have "takeWhile is_cont s = []" "dropWhile is_cont s = s"
      by (cases s; simp add: is_cont_def is_digit_def)+
    with Cons show ?case by simp
  qed simp
  moreover have "dropWhile is_white (map (\<lambda>c. [c]) t) = map (\<lambda>c. [c]) t" if "list_all is_digit t" for t
    using that digit by (cases t) auto
  ultimately show ?thesis
    using assms by (simp add: str_trim_def rev_map concat_map_singleton)
qed

lemma parse_content_range:
  assumes "n \<le> u64_max"
  shows "parse_content_range_total (Some (content_range a b n)) = Some n"
proof -
  have "last (split_on (CHR ''/'') (content_range a b n)) = show_nat n"
    using last_split_on [OF show_nat_no_slash(1)] unfolding content_range_def by (metis append.assoc append_Cons append_Nil)
  moreover have "str_trim (show_nat n) = show_nat n" using show_nat_digits str_trim_digits by blast
  ultimately show ?thesis using parse_show_unsigned [OF assms] by (simp add: parse_content_range_total_def)
qed

lemma write_part_pair: "write_part (off, d) = file_write_at off d"
  by (simp add: write_part_def fun_eq_iff)

section \<open>Part sizes of a copy\<close>

lemma div_ceil_le: "0 < b \<Longrightarrow> a \<le> n * b \<Longrightarrow> div_ceil a b \<le> n"
  using div_ceil_less [of b n a] by linarith

lemma copy_part_size_grows:
  assumes "0 < part_size" "sz < 2 ^ 63"
  shows "part_size \<le> copy_part_size part_size sz" "sz \<le> MAX_MULTIPART_PARTS * copy_part_size part_size sz"
    "copy_part_size part_size sz \<le> max part_size (sz + 1048576)"
proof -
  let ?m = "div_ceil sz MAX_MULTIPART_PARTS"
  let ?k = "div_ceil ?m 1048576"
  have m: "sz \<le> ?m * MAX_MULTIPART_PARTS" "?m \<le> sz"
    using div_ceil_ge [of MAX_MULTIPART_PARTS sz] div_ceil_le [of MAX_MULTIPART_PARTS sz sz] by simp_all
  have k: "?m \<le> ?k * 1048576" using div_ceil_ge [of 1048576 ?m] by simp
  have kle: "?k * 1048576 \<le> sz + 1048576"
  proof (cases "?k = 0")
    case False
    then have "(?k - 1) * 1048576 < ?m" using div_ceil_less [of 1048576 "?k - 1" ?m] by simp
    then show ?thesis using m(2) by (simp add: diff_mult_distrib)
  qed simp
  have e: "u64_mul (u64_mul ?k 1024) 1024 = ?k * 1048576"
    using kle assms(2) u64_mul_eq [of ?k 1024] u64_mul_eq [of "?k * 1024" 1024] by simp
  have c: "copy_part_size part_size sz = (if part_size < ?m then ?k * 1048576 else part_size)"
    using e by (simp add: copy_part_size_def Let_def)
  show "part_size \<le> copy_part_size part_size sz" using k by (simp add: c)
  show "sz \<le> MAX_MULTIPART_PARTS * copy_part_size part_size sz" using k m(1) by (simp add: c)
  show "copy_part_size part_size sz \<le> max part_size (sz + 1048576)" using kle by (auto simp: c)
qed

section \<open>Downloads\<close>

context s3_service
begin

lemma src_ref_simps [simp]:
  "url_version_id u = [] \<Longrightarrow> or_version (src_ref s u) = None" "loc (src_ref s u) = url_loc u"
  "loc (dst_ref s u) = url_loc u"
  by (simp_all add: src_ref_def dst_ref_def loc_def url_loc_def)

text \<open>A successful range read returns that range, so the mount's reader may rely on it.\<close>

lemma read_range_ok:
  assumes "read_range C s src offset len w = (Inr data, w')" "url_version_id src = []"
    "contents (w_s3 w) (url_loc src) = Some obj" "offset + len \<le> length obj" "length obj < u64_lim"
  shows "data = take len (drop offset obj)"
proof (cases "len = 0")
  case True
  with assms(1) show ?thesis by (simp add: read_range_def)
next
  case False
  define b where "b = u64_sub (u64_add offset len) 1"
  have b: "b = offset + len - 1"
    using False assms(4,5) unfolding b_def by (subst u64_add_eq) (simp_all add: u64_sub_eq)
  obtain res s' where g: "sdk_get C (src_ref s src) (Some (byte_range offset b)) (w_s3 w) = (res, s')"
    by fastforce
  show ?thesis
  proof (cases res)
    case (Inl e)
    with assms(1) g False have "is_range_not_satisfiable (se_debug e)"
      by (auto simp: read_range_def send_def b_def [symmetric] Let_def simp del: One_nat_def split: if_splits)
    with get_unsatisfiable g Inl assms(2,3) have "length obj \<le> offset" by fastforce
    with assms(4) False show ?thesis by simp
  next
    case (Inr resp)
    with assms(1) g False have d: "gr_body_error resp = None" "data = concat (gr_chunks resp)"
      by (auto simp: read_range_def send_def b_def [symmetric] Let_def collect_body_Ok simp del: One_nat_def split: sum.splits)
    have "offset \<le> b" using False b by simp
    from get_range [OF g [unfolded Inr] _ this] assms(2,3) d have "data = take (b + 1 - offset) (drop offset obj)"
      by auto
    moreover have "b + 1 - offset = len" using False b by simp
    ultimately show ?thesis by simp
  qed
qed

lemma reader_source:
  assumes "url_version_id src = []" "contents (w_s3 w) (url_loc src) = Some obj" "length obj < u64_lim"
  shows "ranged_object obj (\<lambda>offset len. fst (read_range C s src offset len w))"
proof
  fix start len data
  assume r: "fst (read_range C s src start len w) = Inr data" and "start + len \<le> length obj"
  then show "data = take len (drop start obj)"
    using read_range_ok [of s src start len w data "snd (read_range C s src start len w)" obj] assms
    by (metis prod.collapse)
qed

lemma download_part_ok:
  assumes "download_part C E s src dst (length obj) ps i w = (Inr x, w')" "url_version_id src = []"
    "contents (w_s3 w) (url_loc src) = Some obj" "0 < ps" "length obj + ps < u64_lim" "i * ps < length obj"
  shows "w_files w' = (w_files w)(dst := map_option (write_part (i * ps, part_of ps obj i)) (w_files w dst))
    \<and> contents (w_s3 w') = contents (w_s3 w) \<and> uploads (w_s3 w') = uploads (w_s3 w)"
proof -
  have off: "u64_mul i ps = i * ps" using assms(5,6) by (simp add: u64_mul_eq)
  have sub: "u64_sub (length obj) (i * ps) = length obj - i * ps"
    using assms(5,6) by (simp add: u64_sub_eq)
  define len where "len = min ps (length obj - i * ps)"
  define b where "b = u64_sub (u64_add (i * ps) len) 1"
  have len: "0 < len" "i * ps + len \<le> length obj" using assms(4,6) by (auto simp: len_def)
  then have b: "b = i * ps + len - 1"
    using assms(5) unfolding b_def by (subst u64_add_eq) (simp_all add: u64_sub_eq)
  obtain resp s' where g: "sdk_get C (src_ref s src) (Some (byte_range (i * ps) b)) (w_s3 w) = (Inr resp, s')"
    and d: "gr_body_error resp = None"
    and upd: "os_update E ''write'' dst (file_write_at (i * ps) (concat (gr_chunks resp))) (w\<lparr>w_s3 := s'\<rparr>) = (Inr x, w')"
    using assms(1) by (auto simp: download_part_def off sub len_def [symmetric] b_def [symmetric] Let_def
        io_bind_Ok send_try_Ok collect_body_def simp del: One_nat_def split: sum.splits option.splits)
  have "i * ps \<le> b" using len(1) b by simp
  from get_range [OF g _ this] assms(2,3) d have "concat (gr_chunks resp) = take (b + 1 - i * ps) (drop (i * ps) obj)"
    by auto
  moreover have "b + 1 - i * ps = len" using len b by simp
  ultimately have "concat (gr_chunks resp) = part_of ps obj i"
    by (simp add: part_of_def len_def min_def)
  then show ?thesis using os_update_Ok [OF upd] get_frame [OF g] by (simp add: write_part_pair)
qed

lemma download_parts_ok:
  assumes "join_all (map (download_part C E s src dst (length obj) ps) ns) w = (Inr xs, w')"
    "url_version_id src = []" "contents (w_s3 w) (url_loc src) = Some obj" "0 < ps"
    "length obj + ps < u64_lim" "\<forall>i \<in> set ns. i * ps < length obj"
  shows "w_files w' = (w_files w)(dst := map_option
      (fold write_part (map (\<lambda>i. (i * ps, part_of ps obj i)) ns)) (w_files w dst))
    \<and> contents (w_s3 w') = contents (w_s3 w) \<and> uploads (w_s3 w') = uploads (w_s3 w)"
  using assms
proof (induction ns arbitrary: w xs)
  case Nil
  then show ?case by (simp add: option.map_ident)
next
  case (Cons i ns)
  obtain x ys w1 where p: "download_part C E s src dst (length obj) ps i w = (Inr x, w1)"
    and rest: "join_all (map (download_part C E s src dst (length obj) ps) ns) w1 = (Inr ys, w')"
    using join_all_Cons_Ok [of "download_part C E s src dst (length obj) ps i" "map (download_part C E s src dst (length obj) ps) ns" w xs w']
      Cons.prems(1) by auto
  note P = download_part_ok [OF p Cons.prems(2-5)]
  have "w_files w1 = (w_files w)(dst := map_option (write_part (i * ps, part_of ps obj i)) (w_files w dst))
    \<and> contents (w_s3 w1) = contents (w_s3 w) \<and> uploads (w_s3 w1) = uploads (w_s3 w)"
    using P Cons.prems(6) by simp
  with Cons.IH [OF rest Cons.prems(2)] Cons.prems show ?case
    by (auto simp: option.map_comp comp_def fun_eq_iff)
qed

text \<open>Whatever the order of the parts, the file ends up with the bytes of the object.\<close>

lemma parts_make_object:
  assumes "0 < ps" "mset ns = mset [1..<div_ceil (length obj) ps]"
  shows "fold write_part (map (\<lambda>i. (i * ps, part_of ps obj i)) ns)
      (file_write_at 0 (take ps obj) (file_set_len (length obj) [])) = obj"
proof (rule fold_write_parts_whole)
  have set_ns: "set ns = {1..<div_ceil (length obj) ps}" using assms(2) by (metis set_mset_mset set_upt)
  show "\<forall>p \<in> set (map (\<lambda>i. (i * ps, part_of ps obj i)) ns).
      snd p = take (length (snd p)) (drop (fst p) obj) \<and> fst p + length (snd p) \<le> length obj"
    using set_ns assms(1) by (auto simp: part_of_def div_ceil_less min_def)
  show "length (file_write_at 0 (take ps obj) (file_set_len (length obj) [])) = length obj"
    by (simp add: length_write_at)
  fix i assume i: "i < length obj"
  show "(\<exists>p \<in> set (map (\<lambda>i. (i * ps, part_of ps obj i)) ns). fst p \<le> i \<and> i < fst p + length (snd p)) \<or>
      file_write_at 0 (take ps obj) (file_set_len (length obj) []) ! i = obj ! i"
  proof (cases "i < ps")
    case True
    moreover have "i < length (file_write_at 0 (take ps obj) (file_set_len (length obj) []))"
      using i by (simp add: length_write_at)
    ultimately show ?thesis using i write_at_nth [of i 0 "take ps obj" "file_set_len (length obj) []"] by simp
  next
    case False
    let ?k = "i div ps"
    have k: "?k * ps \<le> i" "i < ?k * ps + ps"
      using dividend_less_div_times [OF assms(1), of i] by (simp_all add: add.commute)
    have "1 \<le> ?k" using False assms(1) by (simp add: Suc_leI div_greater_zero_iff)
    moreover have "?k * ps < length obj" using k(1) i by linarith
    then have "?k < div_ceil (length obj) ps" using assms(1) by (simp add: div_ceil_less)
    ultimately have "?k \<in> set ns" by (simp add: set_ns)
    moreover have "i < ?k * ps + length (part_of ps obj ?k)" using k i by (simp add: part_length)
    ultimately show ?thesis using k by force
  qed
qed

lemma download_single_ok:
  assumes "download_single C E s src dst w = (Inr x, w')" "url_version_id src = []"
  shows "\<exists>obj. contents (w_s3 w) (url_loc src) = Some obj \<and> w_files w' = (w_files w)(dst \<mapsto> obj)
    \<and> contents (w_s3 w') = contents (w_s3 w) \<and> uploads (w_s3 w') = uploads (w_s3 w)"
proof -
  obtain resp s' w2 w3 where g: "sdk_get C (src_ref s src) None (w_s3 w) = (Inr resp, s')"
    and o: "os_open_truncate E dst (w\<lparr>w_s3 := s'\<rparr>) = (Inr (), w2)"
    and u: "os_update E ''write'' dst (\<lambda>f. f @ concat (gr_chunks resp)) w2 = (Inr (), w3)"
    and e: "gr_body_error resp = None" "w' = w3"
    using assms(1) by (auto simp: download_single_def s3_read_def io_bind_Ok send_try_Ok split: option.splits)
  have "w_files w3 = (w_files w)(dst \<mapsto> concat (gr_chunks resp))" "w_s3 w3 = s'"
    using os_open_truncate_Ok [OF o] os_update_Ok [OF u] by simp_all
  with get_whole [OF g] get_frame [OF g] e assms(2) show ?thesis by auto
qed

text \<open>
  A download that succeeds leaves the object's bytes in the file, whatever its size and in
  whatever order the parts complete, and touches nothing else.
\<close>

lemma download_ok:
  assumes dl: "s3_download C E sched s src dst w = (Inr x, w')"
    and "\<not> s3_dry_run s" "url_version_id src = []" "0 < s3_part_size s"
    and perm: "\<And>xs. mset (sched xs) = mset xs"
    and small: "\<And>obj. contents (w_s3 w) (url_loc src) = Some obj \<Longrightarrow> length obj + s3_part_size s < u64_lim"
  shows "\<exists>obj. contents (w_s3 w) (url_loc src) = Some obj \<and> w_files w' = (w_files w)(dst \<mapsto> obj)
    \<and> contents (w_s3 w') = contents (w_s3 w) \<and> uploads (w_s3 w') = uploads (w_s3 w)"
proof -
  let ?ps = "s3_part_size s"
  obtain res s1 where g: "sdk_get C (src_ref s src) (Some (byte_range 0 (?ps - 1))) (w_s3 w) = (res, s1)"
    by fastforce
  let ?w1 = "w\<lparr>w_s3 := s1\<rparr>"
  note fr = get_frame [OF g]
  obtain u0 w0 where "make_parent E dst w = (Inr u0, w0)"
    using dl assms(2) by (auto simp: s3_download_def io_bind_Ok)
  then have mp: "make_parent E dst w = (Inr u0, w)" using make_parent_Ok by blast
  show ?thesis
  proof (cases res)
    case (Inl e)
    with dl g mp assms(2) have "download_single C E s src dst ?w1 = (Inr x, w')"
      by (simp add: s3_download_def io_bind_def [of "make_parent E dst"] send_def Let_def split: if_splits)
    from download_single_ok [OF this assms(3)] fr show ?thesis by simp
  next
    case (Inr resp)
    obtain obj where obj: "contents (w_s3 w) (url_loc src) = Some obj"
      and cr: "gr_content_range resp = Some (content_range 0 (?ps - 1) (length obj))"
      and body: "gr_body_error resp = None \<Longrightarrow> concat (gr_chunks resp) = take ?ps obj"
      using get_range [OF g [unfolded Inr]] assms(3,4) by auto
    have lim: "length obj + ?ps < u64_lim" using small [OF obj] .
    then have tot: "parse_content_range_total (gr_content_range resp) = Some (length obj)"
      using parse_content_range [of "length obj" 0 "?ps - 1"] cr by simp
    have first: "gr_body_error resp = None"
      using dl g Inr mp assms(2)
      by (auto simp: s3_download_def io_bind_def [of "make_parent E dst"] send_def Let_def collect_body_def
          split: option.splits)
    from dl g Inr mp assms(2) first obtain wa wb wc wd where
      o: "os_open_truncate E dst ?w1 = (Inr (), wa)"
      and l: "os_update E ''set_len'' dst (file_set_len (length obj)) wa = (Inr (), wb)"
      and u: "os_update E ''write'' dst (file_write_at 0 (concat (gr_chunks resp))) wb = (Inr (), wc)"
      and p: "(if ?ps < length obj then download_remaining_parts C E sched s src dst (length obj) ?ps
                else io_return ()) wc = (Inr (), wd)"
      and w': "w_files w' = w_files wd" "w_s3 w' = w_s3 wd"
      by (simp add: s3_download_def store_download_def io_bind_def [of "make_parent E dst"] send_def Let_def tot
          collect_body_def io_bind_Ok)
        (auto simp: set_mtime_frame split: option.splits)
    have wc: "w_files wc = (w_files w)(dst \<mapsto> file_write_at 0 (take ?ps obj) (file_set_len (length obj) []))"
      "w_s3 wc = s1"
      using os_open_truncate_Ok [OF o] os_update_Ok [OF l] os_update_Ok [OF u] body [OF first]
      by simp_all
    show ?thesis
    proof (cases "?ps < length obj")
      case True
      obtain xs where j: "join_all (map (download_part C E s src dst (length obj) ?ps)
          (sched [1..<div_ceil (length obj) ?ps])) wc = (Inr xs, wd)"
        using p True by (auto simp: download_remaining_parts_def io_bind_Ok Let_def)
      have "set (sched [1..<div_ceil (length obj) ?ps]) = set [1..<div_ceil (length obj) ?ps]"
        using perm by (metis set_mset_mset)
      then have idx: "\<forall>i \<in> set (sched [1..<div_ceil (length obj) ?ps]). i * ?ps < length obj"
        using assms(4) by (simp add: div_ceil_less)
      note D = download_parts_ok [OF j assms(3) _ assms(4) lim idx]
      show ?thesis
        using D obj fr wc w' parts_make_object [OF assms(4) perm] by (auto simp: fun_eq_iff)
    next
      case False
      then have "wd = wc" using p by simp
      moreover have "file_write_at 0 (take ?ps obj) (file_set_len (length obj) []) = obj"
        using parts_make_object [OF assms(4), of "[]" obj] False div_ceil_less [OF assms(4), of 1 "length obj"]
        by simp
      ultimately show ?thesis using obj fr wc w' by auto
    qed
  qed
qed

section \<open>Uploads\<close>

lemma upload_one_part_ok:
  assumes "upload_one_part C E s src dst uid (length f) ps i w = (Inr p, w')"
    "w_files w src = Some f" "uploads (w_s3 w) uid = Some (l, m)" "i * ps < length f" "length f < u64_lim"
  shows "cp_number p = int i + 1 \<and> w_files w' = w_files w \<and> contents (w_s3 w') = contents (w_s3 w)
    \<and> uploads (w_s3 w') = (uploads (w_s3 w))(uid \<mapsto> (l, m(int i + 1 \<mapsto> part_of ps f i)))"
proof -
  have off: "u64_mul i ps = i * ps" using assms(4,5) by (simp add: u64_mul_eq)
  have sub: "u64_sub (length f) (i * ps) = length f - i * ps" using assms(4,5) by (simp add: u64_sub_eq)
  define len where "len = min ps (length f - i * ps)"
  have part: "file_read_at (i * ps) len f = part_of ps f i"
    by (simp add: file_read_at_def part_of_def len_def min_def)
  obtain etag s' where u: "sdk_upload_part C (dst_ref s dst) uid (int i + 1) (part_of ps f i) (w_s3 w) = (Inr etag, s')"
    and p: "p = \<lparr>cp_number = int i + 1, cp_etag = etag\<rparr>" and w': "w' = w\<lparr>w_s3 := s'\<rparr>"
    using assms(1,2)
    by (auto simp: upload_one_part_def off sub len_def [symmetric] Let_def io_bind_Ok send_try_Ok
        os_read_exact_def part dest!: os_read_Ok split: if_splits)
  from part_ok [OF u assms(3)] show ?thesis by (simp add: p w')
qed

text \<open>
  A run of part tasks, each of which stores its part of \<open>f\<close> in the open upload and keeps the
  source where it is.
\<close>

definition stores_part ::
  "('s world \<Rightarrow> bool) \<Rightarrow> string \<Rightarrow> location \<Rightarrow> string \<Rightarrow> nat \<Rightarrow> (nat \<Rightarrow> ('s, completed_part) io) \<Rightarrow> nat \<Rightarrow> bool" where
  "stores_part Q uid l f ps t i \<longleftrightarrow>
     (\<forall>w p w' m. t i w = (Inr p, w') \<longrightarrow> Q w \<longrightarrow> uploads (w_s3 w) uid = Some (l, m) \<longrightarrow>
        cp_number p = int i + 1 \<and> Q w' \<and> w_files w' = w_files w \<and> contents (w_s3 w') = contents (w_s3 w)
        \<and> uploads (w_s3 w') = (uploads (w_s3 w))(uid \<mapsto> (l, m(int i + 1 \<mapsto> part_of ps f i))))"

lemma parts_run:
  assumes "join_all (map t ns) w = (Inr parts, w')" "Q w" "uploads (w_s3 w) uid = Some (l, m)"
    "\<forall>i \<in> set ns. stores_part Q uid l f ps t i"
  shows "map cp_number parts = map (\<lambda>i. int i + 1) ns \<and> w_files w' = w_files w
    \<and> contents (w_s3 w') = contents (w_s3 w)
    \<and> (\<exists>m'. uploads (w_s3 w') uid = Some (l, m') \<and>
         (\<forall>k. m' k = (if k \<in> (\<lambda>i. int i + 1) ` set ns then Some (part_of ps f (nat (k - 1))) else m k)))"
  using assms
proof (induction ns arbitrary: w m parts)
  case Nil
  then have "w' = w" "parts = []" by simp_all
  with Nil show ?case by (intro conjI exI [of _ m]) simp_all
next
  case (Cons i ns)
  obtain x ys w1 where p: "t i w = (Inr x, w1)" and rest: "join_all (map t ns) w1 = (Inr ys, w')"
    and parts: "parts = x # ys"
    using join_all_Cons_Ok [of "t i" "map t ns" w parts w'] Cons.prems(1) by auto
  have P: "cp_number x = int i + 1" "Q w1" "w_files w1 = w_files w" "contents (w_s3 w1) = contents (w_s3 w)"
    "uploads (w_s3 w1) = (uploads (w_s3 w))(uid \<mapsto> (l, m(int i + 1 \<mapsto> part_of ps f i)))"
    using Cons.prems(2-4) p unfolding stores_part_def by (auto 4 3)
  have u1: "uploads (w_s3 w1) uid = Some (l, m(int i + 1 \<mapsto> part_of ps f i))" by (simp add: P(5))
  have b1: "\<forall>i \<in> set ns. stores_part Q uid l f ps t i" using Cons.prems(4) by simp
  from Cons.IH [OF rest P(2) u1 b1] obtain m' where IH: "map cp_number ys = map (\<lambda>i. int i + 1) ns"
    "w_files w' = w_files w1" "contents (w_s3 w') = contents (w_s3 w1)" "uploads (w_s3 w') uid = Some (l, m')"
    "\<forall>k. m' k = (if k \<in> (\<lambda>i. int i + 1) ` set ns then Some (part_of ps f (nat (k - 1)))
                else (m(int i + 1 \<mapsto> part_of ps f i)) k)"
    by blast
  have "\<forall>k. m' k = (if k \<in> (\<lambda>i. int i + 1) ` set (i # ns) then Some (part_of ps f (nat (k - 1))) else m k)"
    using IH(5) by auto
  then show ?case using IH(1-4) P(1,3,4) parts by auto
qed

lemma sorted_numbers:
  assumes "map cp_number parts = map (\<lambda>i. int i + 1) (sched [0..<n])" "mset (sched [0..<n]) = mset [0..<n]"
  shows "map cp_number (sort_key cp_number parts) = map (\<lambda>i. int i + 1) [0..<n]"
proof -
  have "mset (map cp_number (sort_key cp_number parts)) = mset (map cp_number parts)" by simp
  then have 1: "sort (map cp_number parts) = map cp_number (sort_key cp_number parts)"
    by (intro properties_for_sort) simp_all
  have "mset (map (\<lambda>i. int i + 1) [0..<n]) = mset (map cp_number parts)"
    unfolding assms(1) mset_map assms(2) ..
  then have 2: "sort (map cp_number parts) = map (\<lambda>i. int i + 1) [0..<n]"
    by (intro properties_for_sort) (simp_all add: sorted_wrt_map sorted_wrt_mono_rel [OF _ sorted_wrt_upt])
  from 1 2 show ?thesis by simp
qed

lemma ascending_numbers: "sorted_wrt (<) (map (\<lambda>i. int i + 1) [0..<n])"
  by (simp add: sorted_wrt_map sorted_wrt_mono_rel [OF _ sorted_wrt_upt])

lemma as_i32_small: "n < 2 ^ 31 \<Longrightarrow> as_i32 n = int n"
  by (simp add: as_i32_def)

text \<open>Parts collected in any order and completed in ascending order assemble the file.\<close>

lemma complete_parts:
  assumes "map cp_number parts = map (\<lambda>i. int i + 1) [0..<n]" "0 < ps" "length f \<le> n * ps"
    and "\<forall>k. m k = (if k \<in> (\<lambda>i. int i + 1) ` set ns then Some (part_of ps f (nat (k - 1))) else m0 k)"
    and "set ns = {0..<n}"
  shows "concat (map (\<lambda>p. unwrap_or [] (m (cp_number p))) parts) = f"
proof -
  have "map (\<lambda>p. unwrap_or [] (m (cp_number p))) parts = map (\<lambda>k. unwrap_or [] (m k)) (map cp_number parts)"
    by simp
  also have "\<dots> = map (part_of ps f) [0..<n]"
    unfolding assms(1) using assms(4,5) by auto
  finally show ?thesis using concat_parts [OF assms(2,3)] by simp
qed

lemma multipart_ok:
  assumes fin: "finish_multipart C s dst uid
       (io_bind (join_all (map t (sched (part_indices (as_i32 n))))) (\<lambda>parts. io_return (sort_key cp_number parts)))
       complete w = (Inr x, w')"
    and comp: "\<And>parts w1. complete parts w1 = (Inr x, w') \<Longrightarrow>
       \<exists>cond s'. sdk_complete_mpu C (dst_ref s dst) uid parts cond (w_s3 w1) = (Inr (), s') \<and> w' = w1\<lparr>w_s3 := s'\<rparr>"
    and "Q w" "uploads (w_s3 w) uid = Some (url_loc dst, \<lambda>_. None)"
    and step: "\<forall>i < n. stores_part Q uid (url_loc dst) f ps t i"
    and ps: "0 < ps" and n: "length f \<le> n * ps" "n < 2 ^ 31" and perm: "\<And>xs. mset (sched xs) = mset xs"
  shows "contents (w_s3 w') = (contents (w_s3 w))(url_loc dst \<mapsto> f) \<and> w_files w' = w_files w"
proof -
  have idx: "part_indices (as_i32 n) = [0..<n]" using n(2) by (simp add: as_i32_small part_indices_def)
  obtain ps0 w2 where j: "join_all (map t (sched [0..<n])) w = (Inr ps0, w2)"
    and done1: "complete (sort_key cp_number ps0) w2 = (Inr x, w')"
    using fin by (auto simp: finish_multipart_def idx io_bind_def io_return_def split: prod.splits sum.splits)
  have set_sched: "set (sched [0..<n]) = {0..<n}" using perm by (metis set_mset_mset set_upt)
  then have st: "\<forall>i \<in> set (sched [0..<n]). stores_part Q uid (url_loc dst) f ps t i" using step by simp
  from parts_run [OF j assms(3,4) st] obtain m where
    R: "map cp_number ps0 = map (\<lambda>i. int i + 1) (sched [0..<n])" "w_files w2 = w_files w"
    "contents (w_s3 w2) = contents (w_s3 w)" "uploads (w_s3 w2) uid = Some (url_loc dst, m)"
    "\<forall>k. m k = (if k \<in> (\<lambda>i. int i + 1) ` set (sched [0..<n]) then Some (part_of ps f (nat (k - 1))) else None)"
    by blast
  let ?parts = "sort_key cp_number ps0"
  have nums: "map cp_number ?parts = map (\<lambda>i. int i + 1) [0..<n]"
    using sorted_numbers [of ps0 sched n] R(1) perm by blast
  obtain cond s3 where c: "sdk_complete_mpu C (dst_ref s dst) uid ?parts cond (w_s3 w2) = (Inr (), s3)"
    and w': "w' = w2\<lparr>w_s3 := s3\<rparr>"
    using comp [OF done1] by blast
  have "concat (map (\<lambda>p. unwrap_or [] (m (cp_number p))) ?parts) = f"
    using complete_parts [OF nums ps n(1) R(5) set_sched] .
  with complete_ok [OF c R(4)] nums ascending_numbers R(2,3) show ?thesis by (simp add: w')
qed

text \<open>Whatever becomes of its parts, an upload touches no object and no other upload.\<close>

lemma upload_one_part_frame:
  assumes "upload_one_part C E s src dst uid sz ps i w = (r, w')"
  shows "contents (w_s3 w') = contents (w_s3 w) \<and> w_files w' = w_files w \<and>
    (\<forall>v. v \<noteq> uid \<longrightarrow> uploads (w_s3 w') v = uploads (w_s3 w) v)"
  using assms
  by (auto simp: upload_one_part_def os_read_exact_def os_read_def os_call_def io_bind_def io_return_def Let_def
      send_try_def send_def split: prod.splits sum.splits if_splits option.splits dest!: part_frame)

lemma upload_parts_frame:
  assumes "upload_parts C E sched s src dst uid sz w = (r, w')"
  shows "contents (w_s3 w') = contents (w_s3 w) \<and> w_files w' = w_files w \<and>
    (\<forall>v. v \<noteq> uid \<longrightarrow> uploads (w_s3 w') v = uploads (w_s3 w) v)"
proof -
  have run: "contents (w_s3 w') = contents (w_s3 w) \<and> w_files w' = w_files w \<and>
      (\<forall>v. v \<noteq> uid \<longrightarrow> uploads (w_s3 w') v = uploads (w_s3 w) v)"
    if "run_tasks (map (upload_one_part C E s src dst uid sz ps) ns) w = (rs, w')" for ps ns rs w w'
    using that
  proof (induction ns arbitrary: w rs)
    case (Cons i ns)
    obtain r1 w1 where "upload_one_part C E s src dst uid sz ps i w = (r1, w1)" by fastforce
    with Cons upload_one_part_frame [OF this] show ?case by (fastforce split: prod.splits)
  qed simp
  obtain rs w2 where "run_tasks (map (upload_one_part C E s src dst uid sz (s3_part_size s))
      (sched (part_indices (as_i32 (div_ceil sz (s3_part_size s)))))) w = (rs, w2)"
    by fastforce
  with assms run [OF this] show ?thesis
    by (auto simp: upload_parts_def Let_def join_all_def io_bind_def io_return_def split: prod.splits sum.splits)
qed

lemma failed_parts_aborted:
  assumes "sdk_create_mpu C creq s0 = (Inr (Some uid), w_s3 w)"
    and f: "upload_parts C E sched s src dst uid sz w = (Inl e, w1)"
    and a: "fst (sdk_abort_mpu C (dst_ref s dst) uid (w_s3 w1)) = Inr ()"
  shows "\<exists>w'. finish_multipart C s dst uid (upload_parts C E sched s src dst uid sz) complete w = (Inl e, w') \<and>
    contents (w_s3 w') = contents s0 \<and> uploads (w_s3 w') = uploads s0"
proof -
  obtain s2 where s2: "sdk_abort_mpu C (dst_ref s dst) uid (w_s3 w1) = (Inr (), s2)"
    using a by (metis prod.collapse)
  let ?w' = "w1\<lparr>w_s3 := s2\<rparr>"
  have "finish_multipart C s dst uid (upload_parts C E sched s src dst uid sz) complete w = (Inl e, ?w')"
    using f s2 by (simp add: finish_multipart_def send_def)
  moreover have "contents s2 = contents s0" "uploads s2 = uploads s0"
    using abort_ok [OF s2] upload_parts_frame [OF f] create_ok [OF assms(1)] create_fresh [OF assms(1)]
    by (auto simp: fun_eq_iff)
  ultimately show ?thesis by (intro exI [of _ ?w']) simp
qed

lemma upload_multipart_ok:
  assumes up: "upload_multipart C E sched s src dst md (length f) w = (Inr x, w')"
    and f: "w_files w src = Some f" and ps: "0 < s3_part_size s"
    and lim: "length f < u64_lim" "div_ceil (length f) (s3_part_size s) < 2 ^ 31"
    and perm: "\<And>xs. mset (sched xs) = mset xs"
  shows "contents (w_s3 w') = (contents (w_s3 w))(url_loc dst \<mapsto> f) \<and> w_files w' = w_files w"
proof -
  let ?ps = "s3_part_size s" and ?n = "div_ceil (length f) (s3_part_size s)"
  let ?Q = "\<lambda>w. w_files w src = Some f"
  obtain creq uid s1 where c: "sdk_create_mpu C creq (w_s3 w) = (Inr (Some uid), s1)"
    and loc: "loc (cq_ref creq) = url_loc dst"
    and fin: "finish_multipart C s dst uid (upload_parts C E sched s src dst uid (length f))
       (\<lambda>parts. conditional_send (sdk_complete_mpu C (dst_ref s dst) uid parts (md_if_none_match md)) dst)
       (w\<lparr>w_s3 := s1\<rparr>) = (Inr x, w')"
    using up by (auto simp: upload_multipart_def Let_def io_bind_Ok send_try_Ok need_upload_id_def split: option.splits)
  have c': "contents s1 = contents (w_s3 w)" "uploads s1 uid = Some (url_loc dst, \<lambda>_. None)"
    using create_ok [OF c] loc by simp_all
  have "stores_part ?Q uid (url_loc dst) f ?ps (upload_one_part C E s src dst uid (length f) ?ps) i" if "i < ?n" for i
    unfolding stores_part_def using upload_one_part_ok that ps lim(1) by (auto simp: div_ceil_less)
  then have st: "\<forall>i < ?n. stores_part ?Q uid (url_loc dst) f ?ps (upload_one_part C E s src dst uid (length f) ?ps) i"
    by blast
  have "\<exists>cond s'. sdk_complete_mpu C (dst_ref s dst) uid parts cond (w_s3 w1) = (Inr (), s') \<and> w' = w1\<lparr>w_s3 := s'\<rparr>"
    if "conditional_send (sdk_complete_mpu C (dst_ref s dst) uid parts (md_if_none_match md)) dst w1 = (Inr x, w')"
    for parts w1
    using conditional_send_Ok [OF that] by blast
  from multipart_ok [OF fin [unfolded upload_parts_def Let_def] this _ _ st ps div_ceil_ge [OF ps] lim(2) perm] f c'
  show ?thesis by simp
qed

lemma upload_ok:
  assumes up: "s3_upload C E sched s src dst md w = (Inr x, w')" and "\<not> s3_dry_run s"
    and f: "w_files w src = Some f" and ps: "0 < s3_part_size s"
    and lim: "length f < u64_lim" "div_ceil (length f) (s3_part_size s) < 2 ^ 31"
    and perm: "\<And>xs. mset (sched xs) = mset xs"
  shows "contents (w_s3 w') = (contents (w_s3 w))(url_loc dst \<mapsto> f) \<and> w_files w' = w_files w"
proof -
  obtain md1 where up: "(if length f \<le> s3_part_size s then upload_single C E s src dst md1
      else upload_multipart C E sched s src dst md1 (length f)) w = (Inr x, w')"
    using up assms(2) f by (auto simp: s3_upload_def io_bind_Ok Let_def dest!: os_len_Ok)
  show ?thesis
  proof (cases "length f \<le> s3_part_size s")
    case True
    with up f show ?thesis
      by (auto simp: upload_single_def io_bind_Ok Let_def conditional_send_def send_def apply_put_metadata_def
          plain_put_def dest!: os_read_Ok put_ok split: prod.splits sum.splits)
  next
    case False
    with up have "upload_multipart C E sched s src dst md1 (length f) w = (Inr x, w')" by simp
    from upload_multipart_ok [OF this f ps lim perm] show ?thesis .
  qed
qed

section \<open>Copies\<close>

lemma copy_one_part_ok:
  assumes "copy_one_part C s (copy_source_header src) dst uid (length f) ps i w = (Inr p, w')" "copy_source_ok src"
    "contents (w_s3 w) (url_loc src) = Some f" "uploads (w_s3 w) uid = Some (l, m)" "0 < ps" "i * ps < length f"
    "length f < u64_lim"
  shows "cp_number p = int i + 1 \<and> w_files w' = w_files w \<and> contents (w_s3 w') = contents (w_s3 w)
    \<and> uploads (w_s3 w') = (uploads (w_s3 w))(uid \<mapsto> (l, m(int i + 1 \<mapsto> part_of ps f i)))"
proof -
  have off: "u64_mul i ps = i * ps" using assms(6,7) by (simp add: u64_mul_eq)
  have sub: "u64_sub (length f) (i * ps) = length f - i * ps" using assms(6,7) by (simp add: u64_sub_eq)
  define len where "len = min ps (length f - i * ps)"
  define b where "b = u64_sub (u64_add (i * ps) len) 1"
  have len: "0 < len" "i * ps + len \<le> length f" using assms(5,6) by (auto simp: len_def)
  then have b: "b = i * ps + len - 1"
    using assms(7) unfolding b_def by (subst u64_add_eq) (simp_all add: u64_sub_eq)
  obtain etag s' where u: "sdk_upload_part_copy C (dst_ref s dst) uid (int i + 1) (copy_source_header src)
      (byte_range (i * ps) b) (w_s3 w) = (Inr etag, s')"
    and p: "p = \<lparr>cp_number = int i + 1, cp_etag = etag\<rparr>" and w': "w' = w\<lparr>w_s3 := s'\<rparr>"
    using assms(1)
    by (auto simp: copy_one_part_def off sub len_def [symmetric] b_def [symmetric] Let_def io_bind_Ok send_try_Ok
        simp del: One_nat_def)
  have "i * ps \<le> b" "b + 1 - i * ps = len" using len b by simp_all
  moreover have "take len (drop (i * ps) f) = part_of ps f i"
    by (simp add: part_of_def len_def min_def)
  ultimately show ?thesis using part_copy_ok [OF u assms(2) _ assms(4)] assms(3) by (simp add: p w')
qed

lemma head_size_ok:
  assumes "head_size C s src w = (Inr sz, w')" "url_version_id src = []"
  shows "\<exists>obj. contents (w_s3 w) (url_loc src) = Some obj \<and> sz = length obj \<and> w_files w' = w_files w
    \<and> contents (w_s3 w') = contents (w_s3 w)"
  using assms head_ok [of "src_ref s src" "w_s3 w"]
  by (fastforce simp: head_size_def io_bind_Ok send_try_Ok)

lemma head_size_frame:
  "head_size C s src w = (r, w') \<Longrightarrow> w_files w' = w_files w \<and> contents (w_s3 w') = contents (w_s3 w)"
  "head_content_type C s src w = (r2, w') \<Longrightarrow> w_files w' = w_files w \<and> contents (w_s3 w') = contents (w_s3 w)"
  using head_ok [of "src_ref s src" "w_s3 w"]
  by (auto simp: head_size_def head_content_type_def io_bind_def io_return_def send_try_def send_def
      split: prod.splits sum.splits)

lemma copy_multipart_ok:
  assumes cp: "copy_multipart C sched s src dst md (length f) w = (Inr x, w')" and src: "copy_source_ok src"
    and f: "contents (w_s3 w) (url_loc src) = Some f" and ps: "0 < s3_part_size s"
    and lim: "length f < 2 ^ 63" and perm: "\<And>xs. mset (sched xs) = mset xs"
  shows "contents (w_s3 w') = (contents (w_s3 w))(url_loc dst \<mapsto> f) \<and> w_files w' = w_files w"
proof -
  define ps where "ps = copy_part_size (s3_part_size s) (length f)"
  let ?n = "div_ceil (length f) ps"
  note grow = copy_part_size_grows [OF assms(4) lim, folded ps_def]
  have ps0: "0 < ps" using grow(1) assms(4) by simp
  have n: "?n < 2 ^ 31" using div_ceil_le [OF ps0 grow(2)] by simp
  let ?Q = "\<lambda>w. contents (w_s3 w) (url_loc src) = Some f"
  obtain creq w1 uid s1 where w1: "w_files w1 = w_files w" "contents (w_s3 w1) = contents (w_s3 w)"
    and c: "sdk_create_mpu C creq (w_s3 w1) = (Inr (Some uid), s1)"
    and loc: "loc (cq_ref creq) = url_loc dst"
    and fin: "finish_multipart C s dst uid (copy_parts C sched s (copy_source_header src) dst uid (length f))
       (\<lambda>parts. send_try (sdk_complete_mpu C (dst_ref s dst) uid parts False)) (w1\<lparr>w_s3 := s1\<rparr>) = (Inr x, w')"
    using cp by (fastforce simp: copy_multipart_def Let_def io_bind_Ok send_try_Ok need_upload_id_def
        split: option.splits prod.splits sum.splits dest: head_size_frame)
  have c': "contents s1 = contents (w_s3 w)" "uploads s1 uid = Some (url_loc dst, \<lambda>_. None)"
    using create_ok [OF c] loc w1 by simp_all
  have "stores_part ?Q uid (url_loc dst) f ps (copy_one_part C s (copy_source_header src) dst uid (length f) ps) i"
    if "i < ?n" for i
    unfolding stores_part_def using copy_one_part_ok [OF _ src] that ps0 lim by (auto simp: div_ceil_less)
  then have st: "\<forall>i < ?n. stores_part ?Q uid (url_loc dst) f ps
      (copy_one_part C s (copy_source_header src) dst uid (length f) ps) i" by blast
  have "\<exists>cond s'. sdk_complete_mpu C (dst_ref s dst) uid parts cond (w_s3 w1) = (Inr (), s') \<and> w' = w1\<lparr>w_s3 := s'\<rparr>"
    if "send_try (sdk_complete_mpu C (dst_ref s dst) uid parts False) w1 = (Inr x, w')" for parts w1
    using that by (auto simp: send_try_Ok)
  from multipart_ok [OF fin [unfolded copy_parts_def Let_def, folded ps_def] this _ _ st ps0 div_ceil_ge [OF ps0] n perm]
    f c' w1 show ?thesis by simp
qed

lemma copy_object_single_cases:
  assumes "copy_object_single C s src dst md w = (r, w')" "copy_source_ok src"
  shows "w_files w' = w_files w \<and> (\<forall>e. r = Inl e \<longrightarrow> contents (w_s3 w') = contents (w_s3 w)) \<and>
    (\<forall>x. r = Inr x \<longrightarrow> (\<exists>obj. contents (w_s3 w) (url_loc src) = Some obj \<and>
       contents (w_s3 w') = (contents (w_s3 w))(url_loc dst \<mapsto> obj)))"
proof -
  obtain ex w1 where pre: "(if md_if_none_match md then (case head_size C s dst w of (r, w1) \<Rightarrow> (is_ok r, w1))
      else (False, w)) = (ex, w1)" by fastforce
  then have fr: "w_files w1 = w_files w" "contents (w_s3 w1) = contents (w_s3 w)"
    by (auto split: if_splits prod.splits dest: head_size_frame)
  show ?thesis
  proof (cases ex)
    case True
    with assms(1) pre fr show ?thesis by (auto simp: copy_object_single_def)
  next
    case False
    with assms(1) pre obtain creq where
      s: "send_try (sdk_copy C creq) w1 = (r, w')" "cy_source creq = copy_source_header src" "loc (cy_ref creq) = url_loc dst"
      by (simp add: copy_object_single_def)
    with fr show ?thesis
      using copy_ok [OF _ s(2) assms(2)] copy_err
      by (fastforce simp: send_try_def send_def split: prod.splits sum.splits)
  qed
qed

lemma copy_exact:
  assumes cp: "s3_copy C sched s src dst md w = (Inr x, w')" and "\<not> s3_dry_run s" and src: "copy_source_ok src"
    and ps: "0 < s3_part_size s" and lim: "\<And>f. contents (w_s3 w) (url_loc src) = Some f \<Longrightarrow> length f < 2 ^ 63"
    and perm: "\<And>xs. mset (sched xs) = mset xs"
  shows "\<exists>obj. contents (w_s3 w) (url_loc src) = Some obj \<and>
    contents (w_s3 w') = (contents (w_s3 w))(url_loc dst \<mapsto> obj) \<and> w_files w' = w_files w"
proof -
  have v: "url_version_id src = []" using src by (simp add: copy_source_ok_def)
  have multi: ?thesis if m: "copy_multipart C sched s src dst md sz w2 = (Inr x, w')"
    and h: "head_size C s src w1 = (Inr sz, w2)"
    and w1: "contents (w_s3 w1) = contents (w_s3 w)" "w_files w1 = w_files w" for sz w1 w2
  proof -
    obtain obj where o: "contents (w_s3 w) (url_loc src) = Some obj" "sz = length obj" "w_files w2 = w_files w"
      "contents (w_s3 w2) = contents (w_s3 w)"
      using head_size_ok [OF h v] w1 by auto
    then show ?thesis
      using copy_multipart_ok [OF m [unfolded o(2)] src _ ps lim perm] by auto
  qed
  have single: ?thesis if f: "copy_falling_back C sched s src dst md w1 = (Inr x, w')"
    and w1: "contents (w_s3 w1) = contents (w_s3 w)" "w_files w1 = w_files w" for w1
  proof -
    obtain r w2 where c: "copy_object_single C s src dst md w1 = (r, w2)" by fastforce
    note D = copy_object_single_cases [OF c src]
    show ?thesis
      using f c D w1 multi by (cases r) (auto simp: copy_falling_back_def io_bind_Ok split: if_splits)
  qed
  show ?thesis
  proof (cases "s3_multipart_copy_threshold s < DEFAULT_MULTIPART_COPY_THRESHOLD")
    case True
    then obtain sz w1 where h: "head_size C s src w = (Inr sz, w1)"
      and r: "(if s3_multipart_copy_threshold s < sz then copy_multipart C sched s src dst md sz w1
        else copy_falling_back C sched s src dst md w1) = (Inr x, w')"
      using cp assms(2) by (auto simp: s3_copy_def io_bind_Ok split: if_splits)
    then show ?thesis
      using multi [OF _ h] single [of w1] head_size_frame(1) [OF h] by (simp split: if_splits)
  next
    case False
    with cp assms(2) show ?thesis by (intro single [of w]) (simp_all add: s3_copy_def)
  qed
qed

end

section \<open>The object behind a mounted file\<close>

locale stored_object = s3_service +
  fixes s :: s3 and src :: url and w :: "'a world" and obj :: string
  assumes stored: "url_version_id src = []" "contents (w_s3 w) (url_loc src) = Some obj" "length obj < u64_lim"

sublocale stored_object \<subseteq> source: ranged_object obj "\<lambda>offset len. fst (read_range C s src offset len w)"
  by (rule reader_source [OF stored])

end
