(* ===== verification/S3_Memory.thy ===== *)
theory S3_Memory
  imports S3_Service
begin

text \<open>
  A service with the documented behaviour, kept in memory: objects, open multipart uploads and
  buckets as association lists. It instantiates the locales \<open>s3_service\<close> and \<open>ranged_object\<close>, so
  that what their lemmas say of transfers and of the mount's reader holds of the whole back end
  over this service, and it lets transfers be evaluated.
\<close>

record memstore =
  ms_objects :: "(location \<times> string) list"
  ms_uploads :: "(string \<times> location \<times> (int \<times> string) list) list"
  ms_buckets :: "string list"
  ms_versioning :: "(string \<times> string) list"

definition mem_contents :: "memstore \<Rightarrow> location \<Rightarrow> string option" where
  "mem_contents s = map_of (ms_objects s)"

definition mem_uploads :: "memstore \<Rightarrow> string \<Rightarrow> (location \<times> (int \<Rightarrow> string option)) option" where
  "mem_uploads s uid = map_option (\<lambda>(l, ps). (l, map_of ps)) (map_of (ms_uploads s) uid)"

definition sdk_failure :: "string \<Rightarrow> bool \<Rightarrow> sdk_error" where
  "sdk_failure msg nf =
     \<lparr>se_debug = msg, se_anyhow_debug = msg, se_chain = msg, se_display = msg, se_not_found = nf\<rparr>"

definition no_such_key :: sdk_error where
  "no_such_key = sdk_failure ''NoSuchKey'' True"

text \<open>An upload id is longer than those in use, hence new. A \<^verbatim>\<open>Range\<close> header and a copy source, read back.\<close>

definition range_bounds :: "string \<Rightarrow> (nat \<times> nat) option" where
  "range_bounds h =
     (case split_once (drop 6 h) ''-'' of None \<Rightarrow> None | Some (a, b) \<Rightarrow> Some (digits_val a, digits_val b))"

definition plus_to_space :: "char \<Rightarrow> char" where
  "plus_to_space c = (if c = CHR ''+'' then CHR '' '' else c)"

definition copy_source_location :: "string \<Rightarrow> location option" where
  "copy_source_location h = split_once (percent_bytes (map plus_to_space h)) ''/''"

section \<open>Requests\<close>

definition mem_get ::
  "object_ref \<Rightarrow> string option \<Rightarrow> memstore \<Rightarrow> (sdk_error, get_response) result \<times> memstore" where
  "mem_get r rng s =
     (let resp = (\<lambda>cr d. \<lparr>gr_content_range = cr, gr_content_length = Some (int (length d)),
                          gr_metadata = None, gr_chunks = [d], gr_body_error = None\<rparr>)
      in case (or_version r, mem_contents s (loc r)) of
           (None, Some obj) \<Rightarrow>
             (case rng of
                None \<Rightarrow> (Ok (resp None obj), s)
              | Some h \<Rightarrow>
                  (case range_bounds h of
                     None \<Rightarrow> (Ok (resp None obj), s)
                   | Some (a, b) \<Rightarrow>
                       if a < length obj \<and> a \<le> b then
                         (Ok (resp (Some (content_range a b (length obj))) (take (b + 1 - a) (drop a obj))), s)
                       else if length obj \<le> a then (Err (sdk_failure ''InvalidRange'' False), s)
                       else (Ok (resp None obj), s)))
         | _ \<Rightarrow> (Err no_such_key, s))"

definition mem_head :: "object_ref \<Rightarrow> memstore \<Rightarrow> (sdk_error, head_response) result \<times> memstore" where
  "mem_head r s =
     (case (or_version r, mem_contents s (loc r)) of
        (None, Some obj) \<Rightarrow>
          (Ok \<lparr>hr_content_length = Some (int (length obj)), hr_etag = Some (show_nat (length obj)),
               hr_last_modified = None, hr_content_type = Some ''binary/octet-stream'',
               hr_storage_class = None, hr_sse = None, hr_metadata = None\<rparr>, s)
      | _ \<Rightarrow> (Err no_such_key, s))"

definition mem_store :: "location \<Rightarrow> string \<Rightarrow> memstore \<Rightarrow> memstore" where
  "mem_store l obj s = s\<lparr>ms_objects := AList.update l obj (ms_objects s)\<rparr>"

definition mem_put :: "put_request \<Rightarrow> memstore \<Rightarrow> (sdk_error, unit) result \<times> memstore" where
  "mem_put req s =
     (if pr_if_none_match req \<and> mem_contents s (loc (pr_ref req)) \<noteq> None
      then (Err (sdk_failure ''PreconditionFailed'' False), s)
      else (Ok (), mem_store (loc (pr_ref req)) (pr_body req) s))"

definition mem_create_mpu :: "create_request \<Rightarrow> memstore \<Rightarrow> (sdk_error, string option) result \<times> memstore" where
  "mem_create_mpu creq s =
     (let uid = CHR ''u'' # concat (map fst (ms_uploads s)) in
      (Ok (Some uid), s\<lparr>ms_uploads := AList.update uid (loc (cq_ref creq), []) (ms_uploads s)\<rparr>))"

definition mem_add_part ::
  "string \<Rightarrow> int \<Rightarrow> string \<Rightarrow> memstore \<Rightarrow> (sdk_error, string option) result \<times> memstore" where
  "mem_add_part uid n body s =
     (case map_of (ms_uploads s) uid of
        None \<Rightarrow> (Err (sdk_failure ''NoSuchUpload'' False), s)
      | Some (l, ps) \<Rightarrow>
          (Ok (Some (show_nat (nat n))), s\<lparr>ms_uploads := AList.update uid (l, AList.update n body ps) (ms_uploads s)\<rparr>))"

definition mem_upload_part_copy ::
  "string \<Rightarrow> int \<Rightarrow> string \<Rightarrow> string \<Rightarrow> memstore \<Rightarrow> (sdk_error, string option) result \<times> memstore" where
  "mem_upload_part_copy uid n source h s =
     (case (copy_source_location source, range_bounds h) of
        (Some l, Some (a, b)) \<Rightarrow>
          (case mem_contents s l of
             None \<Rightarrow> (Err no_such_key, s)
           | Some obj \<Rightarrow> mem_add_part uid n (take (b + 1 - a) (drop a obj)) s)
      | _ \<Rightarrow> (Err (sdk_failure ''InvalidArgument'' False), s))"

definition mem_complete_mpu ::
  "object_ref \<Rightarrow> string \<Rightarrow> completed_part list \<Rightarrow> bool \<Rightarrow> memstore \<Rightarrow> (sdk_error, unit) result \<times> memstore" where
  "mem_complete_mpu r uid parts cond s =
     (case map_of (ms_uploads s) uid of
        None \<Rightarrow> (Err (sdk_failure ''NoSuchUpload'' False), s)
      | Some (l, ps) \<Rightarrow>
          if l \<noteq> loc r then (Err (sdk_failure ''NoSuchUpload'' False), s)
          else if cond \<and> mem_contents s l \<noteq> None then (Err (sdk_failure ''PreconditionFailed'' False), s)
          else (Ok (), (mem_store l (concat (map (\<lambda>p. unwrap_or [] (map_of ps (cp_number p))) parts)) s)
                  \<lparr>ms_uploads := AList.delete uid (ms_uploads s)\<rparr>))"

definition mem_copy :: "copy_request \<Rightarrow> memstore \<Rightarrow> (sdk_error, unit) result \<times> memstore" where
  "mem_copy creq s =
     (case copy_source_location (cy_source creq) of
        None \<Rightarrow> (Err (sdk_failure ''InvalidArgument'' False), s)
      | Some l \<Rightarrow>
          (case mem_contents s l of
             None \<Rightarrow> (Err no_such_key, s)
           | Some obj \<Rightarrow> (Ok (), mem_store (loc (cy_ref creq)) obj s)))"

definition mem_delete :: "location \<Rightarrow> memstore \<Rightarrow> memstore" where
  "mem_delete l s = s\<lparr>ms_objects := AList.delete l (ms_objects s)\<rparr>"

text \<open>Keys are echoed percent-encoded, as the listings ask for.\<close>

definition url_encode :: "string \<Rightarrow> string" where
  "url_encode s = concat (map (\<lambda>c. if unreserved c \<or> c = CHR ''/'' then [c]
      else [CHR ''%'', hex_upper (byte_of c div 16), hex_upper (byte_of c mod 16)]) s)"

definition mem_keys :: "string \<Rightarrow> string \<Rightarrow> memstore \<Rightarrow> (string \<times> string) list" where
  "mem_keys bucket prefix s =
     filter (\<lambda>(k, _). starts_with k prefix)
       (map (\<lambda>((_, k), obj). (k, obj)) (filter (\<lambda>((b, _), _). b = bucket) (ms_objects s)))"

definition mem_entry :: "string \<times> string \<Rightarrow> listed_object" where
  "mem_entry = (\<lambda>(k, obj). \<lparr>lo_key = Some (url_encode k), lo_etag = Some (show_nat (length obj)),
     lo_last_modified = None, lo_size = Some (int (length obj)), lo_storage_class = None, lo_version_id = None\<rparr>)"

definition common_prefix :: "string \<Rightarrow> string option \<Rightarrow> string \<Rightarrow> string option" where
  "common_prefix prefix delim k =
     (case delim of
        None \<Rightarrow> None
      | Some d \<Rightarrow> map_option (\<lambda>(a, _). prefix @ a @ d) (split_once (drop (length prefix) k) d))"

definition mem_page :: "string \<Rightarrow> string option \<Rightarrow> (string \<times> string) list \<Rightarrow> list_page" where
  "mem_page prefix delim ks =
     \<lparr>lp_common_prefixes = map (map_option url_encode)
          (remdups (filter (\<lambda>p. p \<noteq> None) (map (\<lambda>(k, _). common_prefix prefix delim k) ks))),
      lp_contents = map mem_entry (filter (\<lambda>(k, _). common_prefix prefix delim k = None) ks),
      lp_delete_markers = [], lp_is_truncated = Some False, lp_next_marker = None, lp_next_version_marker = None\<rparr>"

definition mem_list :: "list_request \<Rightarrow> memstore \<Rightarrow> list_page" where
  "mem_list q s = mem_page (lq_prefix q) (lq_delimiter q) (mem_keys (lq_bucket q) (lq_prefix q) s)"

text \<open>The V1 listing answers in pages of two keys and leaves the next marker out.\<close>

definition mem_list_v1 :: "list_request \<Rightarrow> memstore \<Rightarrow> list_page" where
  "mem_list_v1 q s =
     (let ks = mem_keys (lq_bucket q) (lq_prefix q) s;
          rest = (case lq_marker q of None \<Rightarrow> ks | Some m \<Rightarrow> drop 1 (dropWhile (\<lambda>x. fst x \<noteq> m) ks))
      in if lq_delimiter q \<noteq> None then mem_list q s
         else (mem_page (lq_prefix q) None (take 2 rest))\<lparr>lp_is_truncated := Some (2 < length rest)\<rparr>)"

definition memory_sdk :: "memstore sdk" where
  "memory_sdk =
     \<lparr>sdk_get = mem_get, sdk_head = mem_head, sdk_put = mem_put, sdk_create_mpu = mem_create_mpu,
      sdk_upload_part = (\<lambda>_. mem_add_part), sdk_upload_part_copy = (\<lambda>_. mem_upload_part_copy),
      sdk_complete_mpu = mem_complete_mpu,
      sdk_abort_mpu = (\<lambda>_ uid s. (Ok (), s\<lparr>ms_uploads := AList.delete uid (ms_uploads s)\<rparr>)),
      sdk_copy = mem_copy, sdk_delete = (\<lambda>r s. (Ok (), mem_delete (loc r) s)),
      sdk_delete_objects = (\<lambda>b ks _ s. (Ok \<lparr>dr_deleted = map Some ks, dr_errors = []\<rparr>,
          fold (\<lambda>k. mem_delete (b, k)) ks s)),
      sdk_list_v2 = (\<lambda>q _ s. ([Ok (mem_list q s)], s)), sdk_list_v1 = (\<lambda>q s. (Ok (mem_list_v1 q s), s)),
      sdk_list_versions = (\<lambda>q s. (Ok (mem_list q s), s)),
      sdk_list_buckets = (\<lambda>s. (Ok (map (\<lambda>b. (Some b, None)) (ms_buckets s)), s)),
      sdk_create_bucket = (\<lambda>b s. (Ok (), s\<lparr>ms_buckets := ms_buckets s @ [b]\<rparr>)),
      sdk_delete_bucket = (\<lambda>b s. (Ok (), s\<lparr>ms_buckets := removeAll b (ms_buckets s)\<rparr>)),
      sdk_get_versioning = (\<lambda>b s. (Ok (map_of (ms_versioning s) b), s)),
      sdk_put_versioning = (\<lambda>b v s. (Ok (), s\<lparr>ms_versioning := AList.update b v (ms_versioning s)\<rparr>))\<rparr>"

section \<open>Headers read back\<close>

lemma range_bounds_byte_range: "range_bounds (byte_range a b) = Some (a, b)"
proof -
  have "split_once (show_nat a @ CHR ''-'' # show_nat b) ''-'' = Some (show_nat a, show_nat b)"
    by (rule split_once_single) (rule show_nat_no_slash)
  then show ?thesis using show_nat_digits by (simp add: range_bounds_def byte_range_def)
qed

lemma hex_val_upper: "n < 16 \<Longrightarrow> hex_val (hex_upper n) = Some n"
  by (simp add: less_Suc_eq numeral_eq_Suc)
    (elim disjE; simp add: hex_upper_def hex_val_def byte_of_def)

lemma percent_bytes_escape: "percent_bytes (CHR ''%'' # hex_upper (byte_of c div 16) # hex_upper (byte_of c mod 16) # s)
    = c # percent_bytes s"
proof -
  have "byte_of c < 256" by (simp add: byte_of_def)
  then have "byte_of c div 16 < 16" "byte_of c mod 16 < 16" by simp_all
  then show ?thesis by (simp add: hex_val_upper byte_of_def)
qed

lemma hex_upper_not_plus: "n < 16 \<Longrightarrow> hex_upper n \<noteq> CHR ''+''"
  by (simp add: less_Suc_eq numeral_eq_Suc) (elim disjE; simp add: hex_upper_def)

text \<open>Escaping leaves the separators alone, so it works on the whole of bucket and key.\<close>

definition escape_char :: "char \<Rightarrow> string" where
  "escape_char c = (if c = CHR ''/'' then ''/'' else query_escape_byte c)"

lemma join_query_escape:
  "join_with ''/'' (map query_escape (split_on (CHR ''/'') s)) = concat (map escape_char s)"
proof (induction s)
  case Nil
  then show ?case by (simp add: query_escape_def)
next
  case (Cons c s)
  obtain p ps where sp: "split_on (CHR ''/'') s = p # ps" by (cases "split_on (CHR ''/'') s") auto
  show ?case using Cons sp by (cases ps) (auto simp: escape_char_def query_escape_def)
qed

lemma unescape_char:
  "percent_bytes (map plus_to_space (escape_char c) @ s) = c # percent_bytes s"
proof -
  consider "c = CHR ''/''" | "unreserved c" | "c = CHR '' ''" | "c \<noteq> CHR ''/''" "\<not> unreserved c" "c \<noteq> CHR '' ''"
    by blast
  then show ?thesis
  proof cases
    case 2
    then have "c \<noteq> CHR ''%''" "c \<noteq> CHR ''+''" by (auto simp: unreserved_def byte_of_def)
    with 2 show ?thesis by (simp add: escape_char_def query_escape_byte_def plus_to_space_def)
  next
    case 4
    have "byte_of c < 256" by (simp add: byte_of_def)
    then have "byte_of c div 16 < 16" "byte_of c mod 16 < 16" by simp_all
    with 4 show ?thesis
      by (simp add: escape_char_def query_escape_byte_def plus_to_space_def hex_upper_not_plus percent_bytes_escape
          del: percent_bytes.simps)
  qed (simp_all add: escape_char_def query_escape_byte_def plus_to_space_def unreserved_def byte_of_def)
qed

lemma unescape_path: "percent_bytes (map plus_to_space (concat (map escape_char s))) = s"
proof (induction s)
  case Nil
  then show ?case by simp
next
  case (Cons c s)
  then show ?case using unescape_char [of c "map plus_to_space (concat (map escape_char s))"] by simp
qed

lemma source_key_absolute:
  assumes "copy_source_ok u"
  shows "unwrap_or (absolute u) (strip_prefix (absolute u) ''s3://'') =
    url_bucket u @ (if url_path u \<noteq> [] then ''/'' @ url_path u else [])"
  using assms by (simp add: copy_source_ok_def absolute_def remote_url_def strip_prefix_def)

lemma copy_source_decoded:
  assumes "copy_source_ok u"
  shows "percent_bytes (map plus_to_space (copy_source_header u)) =
    url_bucket u @ (if url_path u \<noteq> [] then ''/'' @ url_path u else [])"
proof -
  have "copy_source_header u = concat (map escape_char (url_bucket u @ (if url_path u \<noteq> [] then ''/'' @ url_path u else [])))"
    using assms unfolding copy_source_header_def escaped_path_def Let_def join_query_escape
      source_key_absolute [OF assms] by (simp add: copy_source_ok_def)
  then show ?thesis by (simp only: unescape_path)
qed

lemma copy_source_location_header:
  assumes "copy_source_ok u"
  shows "copy_source_location (copy_source_header u) = (if url_path u = [] then None else Some (url_loc u))"
proof -
  have b: "CHR ''/'' \<notin> set (url_bucket u)" using assms by (simp add: copy_source_ok_def)
  show ?thesis
  proof (cases "url_path u = []")
    case True
    have "split_once (url_bucket u) ''/'' = None"
      using b split_once_Some [of "url_bucket u" "''/''"] by (cases "split_once (url_bucket u) ''/''") auto
    with True copy_source_decoded [OF assms] show ?thesis by (simp add: copy_source_location_def)
  next
    case False
    with copy_source_decoded [OF assms] split_once_single [OF b, of "url_path u"] show ?thesis
      by (simp add: copy_source_location_def url_loc_def)
  qed
qed

section \<open>The promises hold\<close>

lemmas mem_defs = memory_sdk_def mem_get_def mem_head_def mem_put_def mem_create_mpu_def mem_add_part_def
  mem_upload_part_copy_def mem_complete_mpu_def mem_copy_def mem_store_def

lemma mem_contents_update [simp]:
  "mem_contents (s\<lparr>ms_objects := AList.update l obj (ms_objects s)\<rparr>) = (mem_contents s)(l \<mapsto> obj)"
  "mem_contents (s\<lparr>ms_objects := os, ms_uploads := us\<rparr>) = mem_contents (s\<lparr>ms_objects := os\<rparr>)"
  "mem_contents (s\<lparr>ms_uploads := us\<rparr>) = mem_contents s"
  by (simp_all add: mem_contents_def update_conv')

lemma mem_uploads_update [simp]:
  "mem_uploads (s\<lparr>ms_uploads := AList.update uid (l, ps) (ms_uploads s)\<rparr>) = (mem_uploads s)(uid \<mapsto> (l, map_of ps))"
  "mem_uploads (s\<lparr>ms_uploads := AList.delete uid (ms_uploads s)\<rparr>) = (mem_uploads s)(uid := None)"
  "mem_uploads (s\<lparr>ms_objects := os\<rparr>) = mem_uploads s"
  "mem_uploads (s\<lparr>ms_objects := os, ms_uploads := us\<rparr>) = mem_uploads (s\<lparr>ms_uploads := us\<rparr>)"
  by (auto simp: mem_uploads_def fun_eq_iff update_conv' delete_conv')

lemma failure_texts:
  "\<not> is_range_not_satisfiable ''NoSuchKey''" "is_range_not_satisfiable ''InvalidRange''"
  by code_simp+

lemma new_upload_id: "map_of us (CHR ''u'' # concat (map fst us)) = None"
proof -
  have "length (fst x) \<le> length (concat (map fst us))" if "x \<in> set us" for x
    using that by (induction us) auto
  then have "CHR ''u'' # concat (map fst us) \<notin> fst ` set us" by force
  then show ?thesis by (simp add: map_of_eq_None_iff)
qed

interpretation mem: s3_service memory_sdk mem_contents mem_uploads
proof
  fix r rng s res s'
  assume "sdk_get memory_sdk r rng s = (res, s')"
  then show "mem_contents s' = mem_contents s \<and> mem_uploads s' = mem_uploads s"
    by (auto simp: mem_defs Let_def split: option.splits prod.splits if_splits)
next
  fix r s resp s'
  assume "sdk_get memory_sdk r None s = (Inr resp, s')"
  then show "mem_contents s (loc r) = Some (concat (gr_chunks resp))"
    by (auto simp: mem_defs Let_def split: option.splits)
next
  fix r a b s resp s'
  assume "sdk_get memory_sdk r (Some (byte_range a b)) s = (Inr resp, s')" "a \<le> b"
  then show "\<exists>obj. mem_contents s (loc r) = Some obj \<and> a < length obj \<and>
            gr_content_range resp = Some (content_range a b (length obj)) \<and>
            (gr_body_error resp = None \<longrightarrow> concat (gr_chunks resp) = take (b + 1 - a) (drop a obj))"
    by (auto simp: mem_defs Let_def range_bounds_byte_range split: option.splits if_splits)
next
  fix r a b s e s'
  assume "sdk_get memory_sdk r (Some (byte_range a b)) s = (Inl e, s')" "is_range_not_satisfiable (se_debug e)"
  then show "\<exists>obj. mem_contents s (loc r) = Some obj \<and> length obj \<le> a"
    using failure_texts
    by (auto simp: mem_defs Let_def range_bounds_byte_range no_such_key_def sdk_failure_def split: option.splits if_splits)
next
  fix req s u s'
  assume "sdk_put memory_sdk req s = (Inr u, s')"
  then show "mem_contents s' = (mem_contents s)(loc (pr_ref req) \<mapsto> pr_body req) \<and> mem_uploads s' = mem_uploads s"
    by (auto simp: mem_defs split: if_splits)
next
  fix creq s uid s'
  assume "sdk_create_mpu memory_sdk creq s = (Inr (Some uid), s')"
  then show "mem_contents s' = mem_contents s \<and>
      mem_uploads s' = (mem_uploads s)(uid \<mapsto> (loc (cq_ref creq), \<lambda>_. None))"
    by (auto simp: mem_defs Let_def fun_eq_iff)
next
  fix creq s uid s'
  assume "sdk_create_mpu memory_sdk creq s = (Inr (Some uid), s')"
  then show "mem_uploads s uid = None"
    by (auto simp: mem_defs Let_def mem_uploads_def new_upload_id)
next
  fix r uid n body s etag s' l ps
  assume "sdk_upload_part memory_sdk r uid n body s = (Inr etag, s')" "mem_uploads s uid = Some (l, ps)"
  then show "mem_contents s' = mem_contents s \<and> mem_uploads s' = (mem_uploads s)(uid \<mapsto> (l, ps(n \<mapsto> body)))"
    by (auto simp: mem_defs mem_uploads_def [of s] update_conv' split: option.splits)
next
  fix r uid n body s pres s'
  assume "sdk_upload_part memory_sdk r uid n body s = (pres, s')"
  then show "mem_contents s' = mem_contents s \<and> (\<forall>v. v \<noteq> uid \<longrightarrow> mem_uploads s' v = mem_uploads s v)"
    by (auto simp: mem_defs split: option.splits)
next
  fix r uid s u s'
  assume "sdk_abort_mpu memory_sdk r uid s = (Inr u, s')"
  then show "mem_contents s' = mem_contents s \<and> mem_uploads s' = (mem_uploads s)(uid := None)"
    by (auto simp: memory_sdk_def)
next
  fix r uid parts cond s u s' l ps
  assume "sdk_complete_mpu memory_sdk r uid parts cond s = (Inr u, s')" "mem_uploads s uid = Some (l, ps)"
  then show "mem_contents s' = (mem_contents s)(l \<mapsto> concat (map (\<lambda>p. unwrap_or [] (ps (cp_number p))) parts))
            \<and> mem_uploads s' = (mem_uploads s)(uid := None)"
    by (auto simp: mem_defs mem_uploads_def [of s] split: option.splits if_splits)
next
  fix r s hres s'
  assume "sdk_head memory_sdk r s = (hres, s')"
  then show "mem_contents s' = mem_contents s \<and> mem_uploads s' = mem_uploads s \<and>
          (\<forall>h. hres = Inr h \<longrightarrow> or_version r = None \<longrightarrow>
             (\<exists>obj. mem_contents s (loc r) = Some obj \<and> hr_content_length h = Some (int (length obj))))"
    by (auto simp: mem_defs split: option.splits)
next
  fix r uid n src a b s etag s' l ps
  assume a: "sdk_upload_part_copy memory_sdk r uid n (copy_source_header src) (byte_range a b) s = (Inr etag, s')"
    "copy_source_ok src" "mem_uploads s uid = Some (l, ps)"
  then obtain l2 obj where l2: "copy_source_location (copy_source_header src) = Some l2" "mem_contents s l2 = Some obj"
    and p: "mem_add_part uid n (take (b + 1 - a) (drop a obj)) s = (Inr etag, s')"
    by (auto simp: memory_sdk_def mem_upload_part_copy_def range_bounds_byte_range simp del: One_nat_def split: option.splits)
  then have "mem_contents s (url_loc src) = Some obj" using copy_source_location_header [OF a(2)] by (simp split: if_splits)
  with p a(3) show "\<exists>obj. mem_contents s (url_loc src) = Some obj \<and> mem_contents s' = mem_contents s \<and>
            mem_uploads s' = (mem_uploads s)(uid \<mapsto> (l, ps(n \<mapsto> take (b + 1 - a) (drop a obj))))"
    by (auto simp: mem_add_part_def mem_uploads_def [of s] update_conv' split: option.splits)
next
  fix creq s u s' src
  assume a: "sdk_copy memory_sdk creq s = (Inr u, s')" "cy_source creq = copy_source_header src" "copy_source_ok src"
  then obtain l2 obj where l2: "copy_source_location (copy_source_header src) = Some l2" "mem_contents s l2 = Some obj"
    and p: "s' = mem_store (loc (cy_ref creq)) obj s"
    by (auto simp: memory_sdk_def mem_copy_def split: option.splits)
  then have "mem_contents s (url_loc src) = Some obj" using copy_source_location_header [OF a(3)] by (simp split: if_splits)
  with p show "\<exists>obj. mem_contents s (url_loc src) = Some obj \<and> mem_contents s' = (mem_contents s)(loc (cy_ref creq) \<mapsto> obj)"
    by (simp add: mem_store_def)
next
  fix creq s e s'
  assume "sdk_copy memory_sdk creq s = (Inl e, s')"
  then show "mem_contents s' = mem_contents s \<and> mem_uploads s' = mem_uploads s"
    by (auto simp: memory_sdk_def mem_copy_def split: option.splits)
qed

section \<open>Transfers are exact\<close>

text \<open>
  C6. A download that succeeds leaves in the destination file exactly the bytes of the object, and
  nothing else changes: whatever the size of the object and of the parts, and in whatever order
  the concurrent range requests complete. The service is any that keeps the documented promises
  of S3.
\<close>

theorem download_writes_object:
  assumes "s3_service C contents uploads"
    and "s3_download C E sched s src dst w = (Inr x, w')"
    and "\<not> s3_dry_run s" "url_version_id src = []" "0 < s3_part_size s"
    and "\<And>xs. mset (sched xs) = mset xs"
    and "\<And>obj. contents (w_s3 w) (url_loc src) = Some obj \<Longrightarrow> length obj + s3_part_size s < u64_lim"
  shows "\<exists>obj. contents (w_s3 w) (url_loc src) = Some obj \<and> w_files w' = (w_files w)(dst \<mapsto> obj)
    \<and> contents (w_s3 w') = contents (w_s3 w)"
  using s3_service.download_ok [OF assms] by blast

text \<open>
  C10. An upload that succeeds makes the object exactly the file, whether it went up in one request
  or in parts sent concurrently and completed in any order; other objects and the local files stay
  as they were.
\<close>

theorem upload_stores_file:
  assumes "s3_service C contents uploads"
    and "s3_upload C E sched s src dst md w = (Inr x, w')"
    and "\<not> s3_dry_run s" "w_files w src = Some f" "0 < s3_part_size s"
    and "length f < u64_lim" "div_ceil (length f) (s3_part_size s) < 2 ^ 31"
    and "\<And>xs. mset (sched xs) = mset xs"
  shows "contents (w_s3 w') = (contents (w_s3 w))(url_loc dst \<mapsto> f) \<and> w_files w' = w_files w"
  by (rule s3_service.upload_ok [OF assms])

text \<open>
  C12. A server-side copy that succeeds makes the destination the bytes of the source, by one copy
  request or, for a source that is too large, by ranges of it copied as parts in any order; every
  other object stays as it was. Bucket and key reach the service through the escaped copy-source
  header.
\<close>

theorem copy_duplicates_object:
  assumes "s3_service C contents uploads"
    and "s3_copy C sched s src dst md w = (Inr x, w')"
    and "\<not> s3_dry_run s" "copy_source_ok src" "0 < s3_part_size s"
    and "\<And>f. contents (w_s3 w) (url_loc src) = Some f \<Longrightarrow> length f < 2 ^ 63"
    and "\<And>xs. mset (sched xs) = mset xs"
  shows "\<exists>obj. contents (w_s3 w) (url_loc src) = Some obj \<and>
    contents (w_s3 w') = (contents (w_s3 w))(url_loc dst \<mapsto> obj) \<and> w_files w' = w_files w"
  by (rule s3_service.copy_exact [OF assms])

text \<open>
  Uploading a file and downloading the object again gives the file back, with any two clients
  and any two part sizes.
\<close>

theorem upload_download_round_trip:
  assumes S: "s3_service C contents uploads"
    and up: "s3_upload C E sched s src u md w = (Inr x, w1)"
    and down: "s3_download C E2 sched2 s2 u dst w1 = (Inr y, w2)"
    and "\<not> s3_dry_run s" "\<not> s3_dry_run s2" "url_version_id u = []"
    and f: "w_files w src = Some f" and ps: "0 < s3_part_size s" "0 < s3_part_size s2"
    and lim: "length f + s3_part_size s2 < u64_lim" "div_ceil (length f) (s3_part_size s) < 2 ^ 31"
    and perm: "\<And>xs. mset (sched xs) = mset xs" "\<And>xs. mset (sched2 xs) = mset xs"
  shows "w_files w2 dst = Some f"
proof -
  have l: "length f < u64_lim" using lim(1) by simp
  have u: "contents (w_s3 w1) (url_loc u) = Some f"
    using s3_service.upload_ok [OF S up assms(4) f ps(1) l lim(2) perm(1)] by simp
  with s3_service.download_ok [OF S down assms(5,6) ps(2) perm(2)] lim(1) show ?thesis by auto
qed

section \<open>Part sizes\<close>

text \<open>
  A multipart copy of an object of any size uses at most 10,000 parts, the limit of the
  service, and its parts are never smaller than the configured part size.
\<close>

theorem copy_part_count_within_limit:
  assumes "0 < part_size" "sz < 2 ^ 63"
  shows "div_ceil sz (copy_part_size part_size sz) \<le> MAX_MULTIPART_PARTS \<and> part_size \<le> copy_part_size part_size sz"
  using copy_part_size_grows [OF assms] assms(1) by (intro conjI div_ceil_le) simp_all

theorem copy_part_count_within_limit_witness:
  "div_ceil 1099511627776 (copy_part_size 8388608 1099511627776) \<le> MAX_MULTIPART_PARTS
    \<and> copy_part_size 8388608 1099511627776 = 110100480"
proof -
  have "div_ceil 1099511627776 (copy_part_size 8388608 1099511627776) \<le> MAX_MULTIPART_PARTS"
    using copy_part_count_within_limit [of 8388608 1099511627776] by simp
  moreover have "copy_part_size 8388608 1099511627776 = 110100480"
    by (simp add: copy_part_size_def div_ceil_def u64_mul_def)
  ultimately show ?thesis by simp
qed

section \<open>Examples\<close>

definition demo_s3 :: "nat \<Rightarrow> s3" where
  "demo_s3 part_size =
     \<lparr>s3_dry_run = False, s3_use_list_objects_v1 = False, s3_request_payer_str = None, s3_part_size = part_size,
      s3_concurrency = 4, s3_multipart_copy_threshold = 4, s3_preserve_timestamps = False,
      s3_upload_limiter = None, s3_download_limiter = None\<rparr>"

definition demo_env :: env where
  "demo_env = \<lparr>env_io = (\<lambda>_ _. None), env_set_mtime = (\<lambda>_ _ _ m. (Ok (), m)), env_var = (\<lambda>_. None)\<rparr>"

definition demo_world :: "(location \<times> string) list \<Rightarrow> (string \<Rightarrow> string option) \<Rightarrow> memstore world" where
  "demo_world objs files =
     \<lparr>w_s3 = \<lparr>ms_objects = objs, ms_uploads = [], ms_buckets = [''b''], ms_versioning = []\<rparr>,
      w_files = files, w_mtimes = (\<lambda>_. None)\<rparr>"

lemmas s3_ops = s3_upload_def s3_download_def store_download_def upload_multipart_def upload_single_def upload_parts_def
  upload_one_part_def finish_multipart_def need_upload_id_def conditional_send_def send_def send_try_def
  io_bind_def io_return_def join_all_def os_len_def os_call_def os_read_def os_read_exact_def os_update_def
  os_open_truncate_def make_parent_def download_remaining_parts_def download_part_def download_single_def
  s3_read_def collect_body_def s3_copy_def copy_falling_back_def copy_object_single_def head_size_def
  copy_multipart_def copy_parts_def copy_one_part_def head_content_type_def non_empty_def src_ref_def dst_ref_def loc_def

lemmas s3_demo = demo_env_def demo_s3_def demo_world_def mem_defs default_metadata_def mem_contents_def

lemmas s3_arith = as_i32_def part_indices_def div_ceil_def upt_rec u64_mul_def u64_sub_def u64_add_def
  file_read_at_def

lemma demo_url_parts:
  "url_path (demo_url ''s3://b/k'') = ''k''" "url_bucket (demo_url ''s3://b/k'') = ''b''"
  "url_version_id (demo_url ''s3://b/k'') = []" "is_remote (demo_url ''s3://b/k'')"
  "url_scheme (demo_url ''s3://b/k'') = ''s3''"
  "url_path (demo_url ''s3://b/l'') = ''l''" "url_bucket (demo_url ''s3://b/l'') = ''b''"
  by (simp_all add: demo_url_def url_eval Let_def)

lemma demo_upload_ok:
  "fst (s3_upload memory_sdk demo_env rev (demo_s3 4) ''f'' (demo_url ''s3://b/k'') default_metadata
     (demo_world [] [''f'' \<mapsto> ''hello world''])) = Inr ()"
  by (simp add: s3_ops s3_demo s3_arith demo_url_parts Let_def)

lemma demo_parent: "make_parent E ''f'' w = (Ok (), w)"
  by (simp add: make_parent_def path_parent_def path_split_last_def path_head_def no_component_def io_return_def)

lemma demo_download_ok:
  "fst (s3_download memory_sdk demo_env rev (demo_s3 4) (demo_url ''s3://b/k'') ''f''
     (demo_world [((''b'', ''k''), ''hello world'')] Map.empty)) = Inr ()"
  by (simp add: s3_ops s3_demo s3_arith demo_url_parts Let_def range_bounds_byte_range parse_content_range
      demo_parent [unfolded demo_env_def make_parent_def])

lemma demo_copy_source:
  "copy_source_location (copy_source_header (demo_url ''s3://b/k'')) = Some (''b'', ''k'')"
  "copy_source_ok (demo_url ''s3://b/k'')"
proof -
  show "copy_source_ok (demo_url ''s3://b/k'')" by (simp add: copy_source_ok_def demo_url_parts)
  from copy_source_location_header [OF this]
  show "copy_source_location (copy_source_header (demo_url ''s3://b/k'')) = Some (''b'', ''k'')"
    by (simp add: demo_url_parts url_loc_def)
qed

lemma demo_copy_ok:
  "fst (s3_copy memory_sdk rev (demo_s3 4) (demo_url ''s3://b/k'') (demo_url ''s3://b/l'') default_metadata
     (demo_world [((''b'', ''k''), ''hello world'')] Map.empty)) = Inr ()"
  by (simp add: s3_ops s3_demo s3_arith demo_url_parts Let_def range_bounds_byte_range copy_part_size_def
      demo_copy_source)

theorem download_writes_object_witness:
  "w_files (snd (s3_download memory_sdk demo_env rev (demo_s3 4) (demo_url ''s3://b/k'') ''f''
     (demo_world [((''b'', ''k''), ''hello world'')] Map.empty))) ''f'' = Some ''hello world''"
proof -
  let ?d = "s3_download memory_sdk demo_env rev (demo_s3 4) (demo_url ''s3://b/k'') ''f''
     (demo_world [((''b'', ''k''), ''hello world'')] Map.empty)"
  have d: "?d = (Inr (), snd ?d)" using demo_download_ok by (metis prod.collapse)
  from download_writes_object [OF mem.s3_service_axioms d] show ?thesis
    by (auto simp: demo_s3_def demo_world_def mem_contents_def url_loc_def demo_url_parts)
qed

theorem upload_stores_file_witness:
  "mem_contents (w_s3 (snd (s3_upload memory_sdk demo_env rev (demo_s3 4) ''f'' (demo_url ''s3://b/k'') default_metadata
     (demo_world [] [''f'' \<mapsto> ''hello world''])))) (''b'', ''k'') = Some ''hello world''"
proof -
  let ?d = "s3_upload memory_sdk demo_env rev (demo_s3 4) ''f'' (demo_url ''s3://b/k'') default_metadata
     (demo_world [] [''f'' \<mapsto> ''hello world''])"
  have d: "?d = (Inr (), snd ?d)" using demo_upload_ok by (metis prod.collapse)
  from upload_stores_file [OF mem.s3_service_axioms d, of "''hello world''"] show ?thesis
    by (simp add: demo_s3_def demo_world_def div_ceil_def url_loc_def demo_url_parts)
qed

theorem copy_duplicates_object_witness:
  "mem_contents (w_s3 (snd (s3_copy memory_sdk rev (demo_s3 4) (demo_url ''s3://b/k'') (demo_url ''s3://b/l'')
     default_metadata (demo_world [((''b'', ''k''), ''hello world'')] Map.empty)))) (''b'', ''l'') = Some ''hello world''"
proof -
  let ?d = "s3_copy memory_sdk rev (demo_s3 4) (demo_url ''s3://b/k'') (demo_url ''s3://b/l'') default_metadata
     (demo_world [((''b'', ''k''), ''hello world'')] Map.empty)"
  have d: "?d = (Inr (), snd ?d)" using demo_copy_ok by (metis prod.collapse)
  from copy_duplicates_object [OF mem.s3_service_axioms d _ demo_copy_source(2)] show ?thesis
    by (auto simp: demo_s3_def demo_world_def mem_contents_def url_loc_def demo_url_parts)
qed

lemma demo_download_back:
  "fst (s3_download memory_sdk demo_env id (demo_s3 3) (demo_url ''s3://b/k'') ''f''
     (snd (s3_upload memory_sdk demo_env rev (demo_s3 4) ''f'' (demo_url ''s3://b/k'') default_metadata
       (demo_world [] [''f'' \<mapsto> ''hello world''])))) = Inr ()"
  by (simp add: s3_ops s3_demo s3_arith demo_url_parts Let_def range_bounds_byte_range parse_content_range
      demo_parent [unfolded demo_env_def make_parent_def])

theorem upload_download_round_trip_witness:
  "w_files (snd (s3_download memory_sdk demo_env id (demo_s3 3) (demo_url ''s3://b/k'') ''f''
     (snd (s3_upload memory_sdk demo_env rev (demo_s3 4) ''f'' (demo_url ''s3://b/k'') default_metadata
       (demo_world [] [''f'' \<mapsto> ''hello world'']))))) ''f'' = Some ''hello world''"
proof -
  let ?u = "s3_upload memory_sdk demo_env rev (demo_s3 4) ''f'' (demo_url ''s3://b/k'') default_metadata
       (demo_world [] [''f'' \<mapsto> ''hello world''])"
  let ?d = "s3_download memory_sdk demo_env id (demo_s3 3) (demo_url ''s3://b/k'') ''f'' (snd ?u)"
  have u: "?u = (Inr (), snd ?u)" using demo_upload_ok by (metis prod.collapse)
  have d: "?d = (Inr (), snd ?d)" using demo_download_back by (metis prod.collapse)
  from upload_download_round_trip [OF mem.s3_service_axioms u d] show ?thesis
    by (simp add: demo_s3_def demo_world_def div_ceil_def demo_url_parts)
qed

section \<open>Failed uploads\<close>

text \<open>
  When a part of a multipart upload fails, for whatever reason and after whatever other parts
  went through, the upload is aborted and the error returned: if the abort succeeds, the service
  has the objects and the open uploads it had before the upload was created.
\<close>

theorem failed_part_leaves_no_upload:
  assumes "s3_service C contents uploads"
    and "sdk_create_mpu C creq s0 = (Inr (Some uid), w_s3 w)"
    and "upload_parts C E sched s src dst uid sz w = (Inl e, w1)"
    and "fst (sdk_abort_mpu C (dst_ref s dst) uid (w_s3 w1)) = Inr ()"
  shows "\<exists>w'. finish_multipart C s dst uid (upload_parts C E sched s src dst uid sz) complete w = (Inl e, w') \<and>
    contents (w_s3 w') = contents s0 \<and> uploads (w_s3 w') = uploads s0"
  by (rule s3_service.failed_parts_aborted [OF assms])

definition demo_create :: create_request where
  "demo_create = \<lparr>cq_ref = dst_ref (demo_s3 4) (demo_url ''s3://b/k''), cq_content_type = None, cq_storage_class = None,
     cq_acl = None, cq_cache_control = None, cq_content_encoding = None, cq_content_disposition = None, cq_sse = None, cq_kms_key_id = None,
     cq_metadata = (\<lambda>_. None)\<rparr>"

definition demo_broken_env :: env where
  "demo_broken_env = demo_env\<lparr>env_io := (\<lambda>op _. if op = ''read'' then Some (Message ''I/O error'') else None)\<rparr>"

theorem failed_part_leaves_no_upload_witness:
  "\<exists>w'. finish_multipart memory_sdk (demo_s3 4) (demo_url ''s3://b/k'') ''u''
      (upload_parts memory_sdk demo_broken_env rev (demo_s3 4) ''f'' (demo_url ''s3://b/k'') ''u'' 11) (\<lambda>_. io_return ())
      \<lparr>w_s3 = snd (mem_create_mpu demo_create (w_s3 (demo_world [] Map.empty))),
       w_files = [''f'' \<mapsto> ''hello world''], w_mtimes = (\<lambda>_. None)\<rparr> = (Inl (Message ''I/O error''), w') \<and>
    mem_uploads (w_s3 w') = mem_uploads (w_s3 (demo_world [] Map.empty))"
proof -
  let ?w = "\<lparr>w_s3 = snd (mem_create_mpu demo_create (w_s3 (demo_world [] Map.empty))),
       w_files = [''f'' \<mapsto> ''hello world''], w_mtimes = (\<lambda>_. None)\<rparr> :: memstore world"
  have c: "sdk_create_mpu memory_sdk demo_create (w_s3 (demo_world [] Map.empty)) = (Inr (Some ''u''), w_s3 ?w)"
    by (simp add: mem_defs demo_world_def Let_def)
  have p: "upload_parts memory_sdk demo_broken_env rev (demo_s3 4) ''f'' (demo_url ''s3://b/k'') ''u'' 11 ?w
      = (Inl (Message ''I/O error''), ?w)"
    by (simp add: s3_ops s3_demo s3_arith demo_broken_env_def Let_def)
  have a: "fst (sdk_abort_mpu memory_sdk (dst_ref (demo_s3 4) (demo_url ''s3://b/k'')) ''u'' (w_s3 ?w)) = Inr ()"
    by (simp add: memory_sdk_def)
  from failed_part_leaves_no_upload [OF mem.s3_service_axioms c p a] show ?thesis by blast
qed

text \<open>
  The completing request is not covered by that: a conditional multipart upload whose object
  exists by then is refused with the typed precondition error, the object keeps its bytes, and
  the upload with all its parts stays open.
\<close>

theorem conditional_multipart_leaks_parts:
  "\<exists>w' l. s3_upload memory_sdk demo_env rev (demo_s3 4) ''f'' (demo_url ''s3://b/k'') (default_metadata\<lparr>md_if_none_match := True\<rparr>)
      (demo_world [((''b'', ''k''), ''old'')] [''f'' \<mapsto> ''hello world'']) = (Inl (PreconditionFailedError ''s3://b/k''), w')
    \<and> mem_contents (w_s3 w') (''b'', ''k'') = Some ''old''
    \<and> ms_uploads (w_s3 w') = [(''u'', l, [(3, ''rld''), (2, ''o wo''), (1, ''hell'')])]"
proof -
  have t: "is_precondition_failed ''PreconditionFailed''" by code_simp
  have a: "absolute (demo_url ''s3://b/k'') = ''s3://b/k''"
    by (simp add: absolute_def remote_url_def demo_url_parts)
  show ?thesis
    by (simp add: s3_ops s3_demo s3_arith demo_url_parts Let_def t a map_conditional_write_error_def error_debug_def sdk_failure_def)
qed

section \<open>The copy source\<close>

text \<open>
  Decoding a copy-source header, a plus sign read as a blank and a percent escape as its byte,
  gives the bucket and key the URL names, byte for byte: no key, whatever bytes it has, is copied
  from another object.
\<close>

theorem copy_source_names_object:
  assumes "copy_source_ok u"
  shows "percent_bytes (map plus_to_space (copy_source_header u)) =
    url_bucket u @ (if url_path u \<noteq> [] then ''/'' @ url_path u else [])"
  by (rule copy_source_decoded [OF assms])

theorem copy_source_names_object_witness:
  "percent_bytes (map plus_to_space (copy_source_header ((demo_url ''s3://b/k'')\<lparr>url_path := ''a b+c/%41''\<rparr>)))
    = ''b/a b+c/%41''"
  using copy_source_names_object [of "(demo_url ''s3://b/k'')\<lparr>url_path := ''a b+c/%41''\<rparr>"] demo_copy_source(2)
  by (simp add: copy_source_ok_def is_remote_def demo_url_parts)

section \<open>Dry runs\<close>



section \<open>The mounted object\<close>

text \<open>
  Reading a mounted file over an S3 service returns exactly the requested bytes of the object
  behind it, or the error of one of the back end's range requests, with which the chunks are
  fetched.
\<close>

theorem mount_read_over_s3:
  assumes "s3_service C contents uploads" "url_version_id src = []" "contents (w_s3 w) (url_loc src) = Some obj"
    and "length obj < u64_lim" "reader_reach obj r" "\<And>xs. mset (sched xs) = mset xs"
  shows "case fst (read_chunks (\<lambda>start n. fst (read_range C s src start n w)) sched r offset len) of
      Inr data \<Rightarrow> data = take len (drop offset obj)
    | Inl e \<Rightarrow> \<exists>start n. fst (read_range C s src start n w) = Inl e"
proof -
  have "ranged_object obj (\<lambda>start n. fst (read_range C s src start n w))"
    by (rule s3_service.reader_source [OF assms(1-4)])
  from ranged_object.read_chunks_ok [OF this reader_reach_inv [OF assms(5)] assms(6), of offset len]
  show ?thesis by (auto simp: read_result_ok_def split: prod.splits sum.splits)
qed

interpretation demo_object: stored_object memory_sdk mem_contents mem_uploads "demo_s3 4" "demo_url ''s3://b/k''"
  "demo_world [((''b'', ''k''), ''hello world'')] Map.empty" "''hello world''"
  by unfold_locales (simp_all add: demo_url_parts demo_world_def mem_contents_def url_loc_def)

lemma demo_range_Ok:
  "fst (read_range memory_sdk (demo_s3 4) (demo_url ''s3://b/k'') start n
     (demo_world [((''b'', ''k''), ''hello world'')] Map.empty)) \<noteq> Inl e"
  using failure_texts
  by (auto simp: read_range_def s3_ops s3_demo demo_url_parts range_bounds_byte_range Let_def sdk_failure_def)

theorem mount_read_over_s3_witness:
  "fst (read_chunks (\<lambda>start n. fst (read_range memory_sdk (demo_s3 4) (demo_url ''s3://b/k'') start n
       (demo_world [((''b'', ''k''), ''hello world'')] Map.empty))) rev
     (reader_new (demo_url ''s3://b/k'') 11 0 0 4) 6 3) = Inr ''wor''"
proof -
  let ?w = "demo_world [((''b'', ''k''), ''hello world'')] Map.empty" and ?u = "demo_url ''s3://b/k''"
  have rr: "reader_reach ''hello world'' (reader_new ?u 11 0 0 4)"
  proof -
    have l: "length ''hello world'' = 11" by simp
    show ?thesis using reader_reach.opened [of "''hello world''" 0 ?u 0 4] unfolding l by simp
  qed
  have "url_version_id ?u = []" "mem_contents (w_s3 ?w) (url_loc ?u) = Some ''hello world''"
    by (simp_all add: demo_url_parts demo_world_def mem_contents_def url_loc_def)
  from mount_read_over_s3 [OF mem.s3_service_axioms this _ rr, where sched = rev and offset = 6 and len = 3
      and s = "demo_s3 4"]
  show ?thesis by (auto simp: demo_range_Ok split: sum.splits)
qed

end
