(* ===== verification/S3_Listing.thy ===== *)
theory S3_Listing
  imports S3_Memory
begin

text \<open>
  Listings and batched deletion of the S3 back end (\<^verbatim>\<open>src/storage/s3.rs\<close>). A listing sends objects
  into a channel; here it returns the list of what it sends. The SDK's paginator of the V2 API
  answers with its pages in order; the V1 and version listings page by hand, and a service could
  keep them going for ever, so their loops are partial functions into \<open>option\<close>.
\<close>

section \<open>One page\<close>

definition file_object :: "listed_object \<Rightarrow> url \<Rightarrow> object" where
  "file_object c u =
     default_object\<lparr>ob_url := Some u, ob_etag := trim_quotes (unwrap_or [] (lo_etag c)),
       ob_mod_time := epoch_time (lo_last_modified c), ob_typ := FileType,
       ob_size := unwrap_or 0 (lo_size c), ob_storage_class := unwrap_or [] (lo_storage_class c)\<rparr>"

definition dir_object :: "url \<Rightarrow> object" where
  "dir_object u = default_object\<lparr>ob_url := Some u, ob_typ := DirType\<rparr>"

definition marker_object :: "listed_object \<Rightarrow> url \<Rightarrow> object" where
  "marker_object d u =
     default_object\<lparr>ob_url := Some u, ob_mod_time := epoch_time (lo_last_modified d), ob_typ := FileType,
       ob_is_delete_marker := True\<rparr>"

text \<open>
  The loop over the entries of a page: an entry without a key is skipped, a key that does not
  match is, and matching leaves the relative path in the listed URL, which each object copies.
\<close>

fun emit ::
  "regex_lib \<Rightarrow> ('a \<Rightarrow> string option) \<Rightarrow> ('a \<Rightarrow> url \<Rightarrow> object option) \<Rightarrow> 'a list \<Rightarrow> url \<Rightarrow> object list \<times> url" where
  "emit L key mk [] src = ([], src)"
| "emit L key mk (x # xs) src =
     (case key x of
        None \<Rightarrow> emit L key mk xs src
      | Some e \<Rightarrow>
          let k = percent_decode e in
          (case url_matches L src k of
             (False, src1) \<Rightarrow> emit L key mk xs src1
           | (True, src1) \<Rightarrow>
               (case emit L key mk xs src1 of
                  (os, src2) \<Rightarrow>
                    ((case mk x (src1\<lparr>url_path := k\<rparr>) of None \<Rightarrow> os | Some ob \<Rightarrow> ob # os), src2))))"

definition emit_prefixes :: "regex_lib \<Rightarrow> string option list \<Rightarrow> url \<Rightarrow> object list \<times> url" where
  "emit_prefixes L = emit L (\<lambda>p. p) (\<lambda>_ u. Some (dir_object u))"

definition emit_contents :: "regex_lib \<Rightarrow> listed_object list \<Rightarrow> url \<Rightarrow> object list \<times> url" where
  "emit_contents L = emit L lo_key (\<lambda>c u. Some (file_object c u))"

text \<open>A version that is not the one asked for is skipped after the match.\<close>

definition emit_versions ::
  "regex_lib \<Rightarrow> (listed_object \<Rightarrow> url \<Rightarrow> object) \<Rightarrow> listed_object list \<Rightarrow> url \<Rightarrow> object list \<times> url" where
  "emit_versions L mk =
     emit L lo_key (\<lambda>v u.
       let vid = unwrap_or [] (lo_version_id v) in
       if url_version_id u \<noteq> [] \<and> url_version_id u \<noteq> vid then None
       else Some (mk v (u\<lparr>url_version_id := vid\<rparr>)))"

definition emit_page :: "regex_lib \<Rightarrow> list_page \<Rightarrow> url \<Rightarrow> object list \<times> url" where
  "emit_page L page src =
     (case emit_prefixes L (lp_common_prefixes page) src of
        (os1, src1) \<Rightarrow> case emit_contents L (lp_contents page) src1 of (os2, src2) \<Rightarrow> (os1 @ os2, src2))"

definition emit_version_page :: "regex_lib \<Rightarrow> list_page \<Rightarrow> url \<Rightarrow> object list \<times> url" where
  "emit_version_page L page src =
     (case emit_prefixes L (lp_common_prefixes page) src of
        (os1, src1) \<Rightarrow> case emit_versions L file_object (lp_contents page) src1 of
        (os2, src2) \<Rightarrow> case emit_versions L marker_object (lp_delete_markers page) src2 of
        (os3, src3) \<Rightarrow> (os1 @ os2 @ os3, src3))"

text \<open>After the last page: nothing found under anything but a bucket is an error.\<close>

definition finish_listing :: "url \<Rightarrow> object list \<Rightarrow> object list" where
  "finish_listing src sent =
     (if sent = [] \<and> \<not> is_bucket src then [object_with_error NoObjectFound] else sent)"

section \<open>Listings\<close>

definition list_request_for :: "url \<Rightarrow> list_request" where
  "list_request_for src =
     \<lparr>lq_bucket = url_bucket src, lq_prefix = url_prefix src,
      lq_delimiter = (if url_delimiter src = [] then None else Some (url_delimiter src)),
      lq_start_after = None, lq_marker = None, lq_version_marker = None\<rparr>"

fun emit_pages :: "regex_lib \<Rightarrow> (sdk_error, list_page) result list \<Rightarrow> url \<Rightarrow> object list \<Rightarrow> object list" where
  "emit_pages L [] src sent = finish_listing src sent"
| "emit_pages L (Inl e # pages) src sent = sent @ [object_with_error (SdkError e)]"
| "emit_pages L (Inr page # pages) src sent =
     (case emit_page L page src of (os, src1) \<Rightarrow> emit_pages L pages src1 (sent @ os))"

definition list_v2 :: "'s sdk \<Rightarrow> regex_lib \<Rightarrow> s3 \<Rightarrow> url \<Rightarrow> 's world \<Rightarrow> object list \<times> 's world" where
  "list_v2 C L s src w =
     (let q = (list_request_for src)\<lparr>lq_start_after :=
                (if url_start_after src = [] then None else Some (url_start_after src))\<rparr>
      in case sdk_list_v2 C q (request_payer s) (w_s3 w) of
           (pages, s') \<Rightarrow> (emit_pages L pages src [], w\<lparr>w_s3 := s'\<rparr>))"

text \<open>The key that stands in for a missing next marker: the last one of the page.\<close>

definition last_key :: "list_page \<Rightarrow> string option" where
  "last_key page =
     (case rev (filter (\<lambda>c. lo_key c \<noteq> None) (lp_contents page)) of
        [] \<Rightarrow> None
      | c # _ \<Rightarrow> map_option percent_decode (lo_key c))"

partial_function (option) v1_loop ::
  "'s sdk \<Rightarrow> regex_lib \<Rightarrow> string option \<Rightarrow> url \<Rightarrow> object list \<Rightarrow> 's world \<Rightarrow> (object list \<times> 's world) option" where
  "v1_loop C L marker src sent w =
     (case send (sdk_list_v1 C ((list_request_for src)\<lparr>lq_marker := marker\<rparr>)) w of
        (Inl e, w1) \<Rightarrow> Some (sent @ [object_with_error (SdkError e)], w1)
      | (Inr page, w1) \<Rightarrow>
          (case emit_page L page src of
             (os, src1) \<Rightarrow>
               if \<not> unwrap_or False (lp_is_truncated page) then Some (finish_listing src1 (sent @ os), w1)
               else
                 (case or_else (map_option percent_decode (lp_next_marker page)) (last_key page) of
                    None \<Rightarrow> Some (finish_listing src1 (sent @ os), w1)
                  | Some m \<Rightarrow> v1_loop C L (Some m) src1 (sent @ os) w1)))"

definition list_objects_v1 ::
  "'s sdk \<Rightarrow> regex_lib \<Rightarrow> url \<Rightarrow> 's world \<Rightarrow> (object list \<times> 's world) option" where
  "list_objects_v1 C L src w = v1_loop C L None src [] w"

partial_function (option) versions_loop ::
  "'s sdk \<Rightarrow> regex_lib \<Rightarrow> string option \<Rightarrow> string option \<Rightarrow> url \<Rightarrow> object list \<Rightarrow> 's world
     \<Rightarrow> (object list \<times> 's world) option" where
  "versions_loop C L key_marker version_marker src sent w =
     (case send (sdk_list_versions C
              ((list_request_for src)\<lparr>lq_marker := key_marker, lq_version_marker := version_marker\<rparr>)) w of
        (Inl e, w1) \<Rightarrow> Some (sent @ [object_with_error (SdkError e)], w1)
      | (Inr page, w1) \<Rightarrow>
          (case emit_version_page L page src of
             (os, src1) \<Rightarrow>
               if \<not> unwrap_or False (lp_is_truncated page) then Some (finish_listing src1 (sent @ os), w1)
               else
                 let km = map_option percent_decode (lp_next_marker page);
                     vm = map_option percent_decode (lp_next_version_marker page)
                 in if km = None \<and> vm = None then Some (finish_listing src1 (sent @ os), w1)
                    else versions_loop C L km vm src1 (sent @ os) w1))"

definition list_object_versions ::
  "'s sdk \<Rightarrow> regex_lib \<Rightarrow> url \<Rightarrow> 's world \<Rightarrow> (object list \<times> 's world) option" where
  "list_object_versions C L src w = versions_loop C L None None src [] w"

definition s3_list :: "'s sdk \<Rightarrow> regex_lib \<Rightarrow> s3 \<Rightarrow> url \<Rightarrow> 's world \<Rightarrow> (object list \<times> 's world) option" where
  "s3_list C L s src w =
     (if is_versioned src then list_object_versions C L src w
      else if s3_use_list_objects_v1 s then list_objects_v1 C L src w
      else Some (list_v2 C L s src w))"

section \<open>Batched deletion\<close>

definition delete_chunk :: "'s sdk \<Rightarrow> regex_lib \<Rightarrow> s3 \<Rightarrow> url list \<Rightarrow> 's world \<Rightarrow> object list \<times> 's world" where
  "delete_chunk C L s urls w =
     (case urls of
        [] \<Rightarrow> ([], w)
      | first # _ \<Rightarrow>
          let bucket = url_bucket first;
              named = (\<lambda>k. url_parse L (''s3://'' @ bucket @ ''/'' @ unwrap_or [] k))
          in if s3_dry_run s then ([], w)
             else
               (case send (sdk_delete_objects C bucket (map url_path urls) (request_payer s)) w of
                  (Inl e, w1) \<Rightarrow> ([object_with_error (SdkError e)], w1)
                | (Inr out, w1) \<Rightarrow>
                    (concat (map (\<lambda>k. case named k of
                               Inr u \<Rightarrow> [default_object\<lparr>ob_url := Some u\<rparr>] | Inl _ \<Rightarrow> []) (dr_deleted out))
                     @ map (\<lambda>(k, msg). default_object\<lparr>
                               ob_url := (case named k of Inr u \<Rightarrow> Some u | Inl _ \<Rightarrow> None),
                               ob_err := Some (Message (unwrap_or ''delete failed'' msg))\<rparr>) (dr_errors out), w1)))"

fun multi_delete_loop ::
  "'s sdk \<Rightarrow> regex_lib \<Rightarrow> s3 \<Rightarrow> url list \<Rightarrow> url list \<Rightarrow> 's world \<Rightarrow> object list \<times> 's world" where
  "multi_delete_loop C L s batch [] w = (if batch \<noteq> [] then delete_chunk C L s batch w else ([], w))"
| "multi_delete_loop C L s batch (u # urls) w =
     (let batch1 = batch @ [u] in
      if DELETE_CHUNK_SIZE \<le> length batch1 then
        (case delete_chunk C L s batch1 w of
           (os1, w1) \<Rightarrow> case multi_delete_loop C L s [] urls w1 of (os2, w2) \<Rightarrow> (os1 @ os2, w2))
      else multi_delete_loop C L s batch1 urls w)"

definition multi_delete :: "'s sdk \<Rightarrow> regex_lib \<Rightarrow> s3 \<Rightarrow> url list \<Rightarrow> 's world \<Rightarrow> object list \<times> 's world" where
  "multi_delete C L s urls w = multi_delete_loop C L s [] urls w"

section \<open>What a listing sends\<close>

definition matched_url :: "regex_lib \<Rightarrow> url \<Rightarrow> string \<Rightarrow> url" where
  "matched_url L src k = (snd (url_matches L src k))\<lparr>url_path := k\<rparr>"

definition matching :: "regex_lib \<Rightarrow> url \<Rightarrow> string \<Rightarrow> bool" where
  "matching L src k \<longleftrightarrow> fst (url_matches L src k)"

definition entry_key :: "listed_object \<Rightarrow> string" where
  "entry_key c = percent_decode (unwrap_or [] (lo_key c))"

text \<open>The specification: one object per matching entry, in the order of the entries.\<close>

definition listed_objects :: "regex_lib \<Rightarrow> url \<Rightarrow> listed_object list \<Rightarrow> object list" where
  "listed_objects L src entries =
     map (\<lambda>c. file_object c (matched_url L src (entry_key c)))
       (filter (\<lambda>c. lo_key c \<noteq> None \<and> matching L src (entry_key c)) entries)"

text \<open>Earlier matches leave no trace but a relative path, which the next match overwrites.\<close>

lemma url_matches_relative:
  "fst (url_matches L (u\<lparr>url_relative_path := r\<rparr>) k) = matching L u k"
  "matching L u k \<Longrightarrow> (snd (url_matches L (u\<lparr>url_relative_path := r\<rparr>) k))\<lparr>url_path := k\<rparr> = matched_url L u k"
  "\<exists>r'. snd (url_matches L (u\<lparr>url_relative_path := r\<rparr>) k) = u\<lparr>url_relative_path := r'\<rparr>"
  by (auto simp: url_matches_def matching_def matched_url_def Let_def split: option.splits)

lemma emit_contents_eq:
  "\<exists>r'. emit_contents L entries (src\<lparr>url_relative_path := r\<rparr>) =
     (listed_objects L src entries, src\<lparr>url_relative_path := r'\<rparr>)"
proof (induction entries arbitrary: r)
  case Nil
  show ?case by (auto simp: emit_contents_def listed_objects_def)
next
  case (Cons c entries)
  let ?s = "src\<lparr>url_relative_path := r\<rparr>"
  show ?case
  proof (cases "lo_key c")
    case None
    with Cons show ?thesis by (simp add: emit_contents_def listed_objects_def)
  next
    case (Some e)
    let ?k = "percent_decode e"
    obtain b s1 where m: "url_matches L ?s ?k = (b, s1)" by fastforce
    have b: "b = matching L src ?k" using url_matches_relative(1) [where L = L and u = src and r = r and k = ?k] m by simp
    obtain r1 where s1: "s1 = src\<lparr>url_relative_path := r1\<rparr>"
      using url_matches_relative(3) [where L = L and u = src and r = r and k = ?k] m by auto
    obtain r2 where IH: "emit_contents L entries s1 = (listed_objects L src entries, src\<lparr>url_relative_path := r2\<rparr>)"
      using Cons [of r1] s1 by blast
    show ?thesis
    proof (cases b)
      case True
      then have "s1\<lparr>url_path := ?k\<rparr> = matched_url L src ?k"
        using url_matches_relative(2) [where L = L and u = src and k = ?k and r = r] b m by simp
      with True b IH m Some show ?thesis
        by (auto simp: emit_contents_def listed_objects_def entry_key_def)
    next
      case False
      with b IH m Some show ?thesis by (auto simp: emit_contents_def listed_objects_def entry_key_def)
    qed
  qed
qed

lemma listed_objects_append: "listed_objects L src (xs @ ys) = listed_objects L src xs @ listed_objects L src ys"
  by (simp add: listed_objects_def)

lemma emit_page_flat:
  assumes "lp_common_prefixes page = []"
  shows "\<exists>r'. emit_page L page (src\<lparr>url_relative_path := r\<rparr>) =
     (listed_objects L src (lp_contents page), src\<lparr>url_relative_path := r'\<rparr>)"
  using emit_contents_eq [where L = L and entries = "lp_contents page" and src = src and r = r] assms
  by (auto simp: emit_page_def emit_prefixes_def)

lemma relative_frame [simp]:
  "list_request_for (src\<lparr>url_relative_path := r\<rparr>) = list_request_for src"
  "finish_listing (src\<lparr>url_relative_path := r\<rparr>) = finish_listing src"
  by (simp_all add: list_request_for_def finish_listing_def is_bucket_def is_remote_def fun_eq_iff)

lemma emit_pages_flat:
  assumes "\<And>page. page \<in> set pages \<Longrightarrow> lp_common_prefixes page = []"
  shows "emit_pages L (map Inr pages) (src\<lparr>url_relative_path := r\<rparr>) sent =
    finish_listing src (sent @ listed_objects L src (concat (map lp_contents pages)))"
  using assms
proof (induction pages arbitrary: r sent)
  case Nil
  then show ?case by (simp add: listed_objects_def)
next
  case (Cons page pages)
  then show ?case using emit_page_flat [where page = page and L = L and src = src and r = r] by (auto simp: listed_objects_append)
qed

section \<open>Paging by marker\<close>

text \<open>
  The entries behind a marker, and the pages the V1 API may answer with: a non-empty run of the
  entries behind the marker, truncated when some remain, and a next marker, if any, that names
  the last entry of the page.
\<close>

definition after_marker :: "listed_object list \<Rightarrow> string option \<Rightarrow> listed_object list" where
  "after_marker entries m =
     (case m of None \<Rightarrow> entries | Some k \<Rightarrow> drop 1 (dropWhile (\<lambda>c. entry_key c \<noteq> k) entries))"

definition page_after :: "listed_object list \<Rightarrow> string option \<Rightarrow> list_page \<Rightarrow> bool" where
  "page_after entries m page \<longleftrightarrow>
     (let rest = after_marker entries m; n = length (lp_contents page) in
      lp_common_prefixes page = [] \<and> lp_contents page = take n rest
      \<and> unwrap_or False (lp_is_truncated page) = (n < length rest) \<and> (rest \<noteq> [] \<longrightarrow> 0 < n)
      \<and> (case lp_next_marker page of None \<Rightarrow> True
         | Some e \<Rightarrow> n \<noteq> 0 \<longrightarrow> percent_decode e = entry_key (last (lp_contents page))))"

lemma dropWhile_distinct_key:
  "distinct (map f xs) \<Longrightarrow> j < length xs \<Longrightarrow> dropWhile (\<lambda>c. f c \<noteq> f (xs ! j)) xs = drop j xs"
proof (induction xs arbitrary: j)
  case (Cons x xs)
  then show ?case by (cases j) (auto simp: image_iff)
qed simp

locale v1_pages =
  fixes C :: "'s sdk" and src :: url and entries :: "listed_object list" and holds :: "'s \<Rightarrow> bool"
  assumes keyed: "c \<in> set entries \<Longrightarrow> lo_key c \<noteq> None"
    and distinct_keys: "distinct (map entry_key entries)"
    and answers: "holds s \<Longrightarrow> \<exists>page s'. sdk_list_v1 C ((list_request_for src)\<lparr>lq_marker := m\<rparr>) s = (Inr page, s')
          \<and> page_after entries m page \<and> holds s'"
begin

lemma after_key:
  assumes "j < length entries"
  shows "after_marker entries (Some (entry_key (entries ! j))) = drop (Suc j) entries"
  using dropWhile_distinct_key [OF distinct_keys assms] by (simp add: after_marker_def drop_Suc tl_drop)

lemma last_key_page:
  assumes "lp_contents page = take n (drop i entries)" "lp_contents page \<noteq> []"
  shows "last_key page = Some (entry_key (last (lp_contents page)))"
proof -
  have "c \<in> set entries" if "c \<in> set (lp_contents page)" for c
    using that assms(1) by (metis in_set_dropD in_set_takeD)
  then have k: "lo_key c \<noteq> None" if "c \<in> set (lp_contents page)" for c using keyed that by blast
  then have f: "filter (\<lambda>c. lo_key c \<noteq> None) (lp_contents page) = lp_contents page" by (simp add: filter_id_conv)
  obtain ys c where c: "lp_contents page = ys @ [c]" using assms(2) by (metis rev_exhaust)
  then obtain e where "lo_key c = Some e" using k [of c] by auto
  with c show ?thesis unfolding last_key_def f by (simp add: entry_key_def)
qed

definition marker_at :: "nat \<Rightarrow> string option" where
  "marker_at i = (if i = 0 then None else Some (entry_key (entries ! (i - 1))))"

lemma after_marker_at: "i \<le> length entries \<Longrightarrow> after_marker entries (marker_at i) = drop i entries"
  using after_key [of "i - 1"] by (cases i) (auto simp: marker_at_def after_marker_def)

lemma v1_loop_ok:
  assumes "i \<le> length entries" "holds (w_s3 w)"
  shows "\<exists>w'. v1_loop C L (marker_at i) (src\<lparr>url_relative_path := r\<rparr>) sent w =
    Some (finish_listing src (sent @ listed_objects L src (drop i entries)), w')"
  using assms
proof (induction "length entries - i" arbitrary: i r sent w rule: less_induct)
  case less
  obtain page s1 where p: "sdk_list_v1 C ((list_request_for src)\<lparr>lq_marker := marker_at i\<rparr>) (w_s3 w) = (Inr page, s1)"
    and pa: "page_after entries (marker_at i) page" and h: "holds s1"
    using answers [OF less.prems(2)] by blast
  define n where "n = length (lp_contents page)"
  have cp: "lp_common_prefixes page = []" and c: "lp_contents page = take n (drop i entries)"
    and t: "unwrap_or False (lp_is_truncated page) = (n < length entries - i)"
    and pos: "i < length entries \<Longrightarrow> 0 < n"
    and nm: "\<And>e. lp_next_marker page = Some e \<Longrightarrow> n \<noteq> 0 \<Longrightarrow> percent_decode e = entry_key (last (lp_contents page))"
    using pa after_marker_at [OF less.prems(1)] by (auto simp: page_after_def Let_def n_def)
  obtain r1 where e: "emit_page L page (src\<lparr>url_relative_path := r\<rparr>) =
      (listed_objects L src (lp_contents page), src\<lparr>url_relative_path := r1\<rparr>)"
    using emit_page_flat [where L = L and src = src and r = r, OF cp] by blast
  show ?case
  proof (cases "n < length entries - i")
    case False
    then have "lp_contents page = drop i entries" using c by simp
    with False t e p show ?thesis by (subst v1_loop.simps) (simp add: send_def)
  next
    case True
    then have n: "0 < n" using pos by simp
    then have ne: "lp_contents page \<noteq> []" unfolding n_def by auto
    have "last (lp_contents page) = entries ! (i + n - 1)"
      using c n True by (simp add: last_conv_nth ne n_def [symmetric])
    then have m: "marker_at (i + n) = Some (entry_key (last (lp_contents page)))"
      using n by (simp add: marker_at_def)
    have mk: "or_else (map_option percent_decode (lp_next_marker page)) (last_key page) = marker_at (i + n)"
      using nm n last_key_page [OF c ne] m by (cases "lp_next_marker page") (auto simp: or_else_def)
    have shrink: "length entries - (i + n) < length entries - i" and le: "i + n \<le> length entries"
      using n True by simp_all
    obtain w' where "v1_loop C L (marker_at (i + n)) (src\<lparr>url_relative_path := r1\<rparr>)
        (sent @ listed_objects L src (lp_contents page)) (w\<lparr>w_s3 := s1\<rparr>) =
      Some (finish_listing src ((sent @ listed_objects L src (lp_contents page)) @ listed_objects L src (drop (i + n) entries)), w')"
      using less.hyps [OF shrink, of "w\<lparr>w_s3 := s1\<rparr>" r1 "sent @ listed_objects L src (lp_contents page)"] le h
      by auto
    moreover have "listed_objects L src (lp_contents page) @ listed_objects L src (drop (i + n) entries)
        = listed_objects L src (drop i entries)"
      unfolding listed_objects_append [symmetric] c by (metis append_take_drop_id drop_drop add.commute)
    ultimately show ?thesis using True t e p mk m by (subst v1_loop.simps) (simp add: send_def)
  qed
qed

lemma list_objects_v1_complete:
  assumes "holds (w_s3 w)"
  shows "\<exists>w'. list_objects_v1 C L src w = Some (finish_listing src (listed_objects L src entries), w')"
  using v1_loop_ok [of 0 w L "url_relative_path src" "[]"] assms by (simp add: list_objects_v1_def marker_at_def)

end

section \<open>The memory service pages as documented\<close>

lemma percent_bytes_url_encode: "percent_bytes (url_encode s) = s"
proof (induction s)
  case Nil
  then show ?case by (simp add: url_encode_def)
next
  case (Cons c s)
  show ?case
  proof (cases "unreserved c \<or> c = CHR ''/''")
    case True
    then have "c \<noteq> CHR ''%''" by (auto simp: unreserved_def byte_of_def)
    with True Cons show ?thesis by (simp add: url_encode_def)
  next
    case False
    with Cons percent_bytes_escape [of c "url_encode s"] show ?thesis
      by (simp add: url_encode_def del: percent_bytes.simps)
  qed
qed

lemma percent_decode_url_encode: "utf8_valid k \<Longrightarrow> percent_decode (url_encode k) = k"
  by (simp add: percent_decode_def percent_bytes_url_encode utf8_lossy_valid)

locale memory_listing =
  fixes src :: url and ks :: "(string \<times> string) list"
  assumes no_delimiter: "url_delimiter src = []" and distinct_names: "distinct (map fst ks)"
    and valid_names: "x \<in> set ks \<Longrightarrow> utf8_valid (fst x)"
begin

lemma entry_key_mem: "x \<in> set ks \<Longrightarrow> entry_key (mem_entry x) = fst x"
  using valid_names by (auto simp: entry_key_def mem_entry_def percent_decode_url_encode split: prod.splits)

lemma after_marker_mem:
  "after_marker (map mem_entry ks) m =
    map mem_entry (case m of None \<Rightarrow> ks | Some k \<Rightarrow> drop 1 (dropWhile (\<lambda>x. fst x \<noteq> k) ks))"
proof -
  have "dropWhile ((\<lambda>c. entry_key c \<noteq> k) \<circ> mem_entry) ks = dropWhile (\<lambda>x. fst x \<noteq> k) ks" for k
    by (rule dropWhile_cong) (simp_all add: entry_key_mem)
  then show ?thesis by (simp add: after_marker_def dropWhile_map drop_map split: option.splits)
qed

end

sublocale memory_listing \<subseteq> paged: v1_pages memory_sdk src "map mem_entry ks"
  "\<lambda>s. mem_keys (url_bucket src) (url_prefix src) s = ks"
proof
  fix c
  assume "c \<in> set (map mem_entry ks)"
  then show "lo_key c \<noteq> None" by (auto simp: mem_entry_def)
next
  have "map entry_key (map mem_entry ks) = map fst ks" using entry_key_mem by simp
  then show "distinct (map entry_key (map mem_entry ks))" using distinct_names by (simp only:)
next
  fix s m
  assume k: "mem_keys (url_bucket src) (url_prefix src) s = ks"
  let ?q = "(list_request_for src)\<lparr>lq_marker := m\<rparr>"
  have "page_after (map mem_entry ks) m (mem_list_v1 ?q s)"
    using no_delimiter
    by (auto simp: page_after_def after_marker_mem mem_list_v1_def mem_page_def common_prefix_def
        list_request_for_def Let_def k take_map min_def split: option.splits)
  then show "\<exists>page s'. sdk_list_v1 memory_sdk ?q s = (Inr page, s') \<and> page_after (map mem_entry ks) m page
      \<and> mem_keys (url_bucket src) (url_prefix src) s' = ks"
    using k by (auto simp: memory_sdk_def)
qed

text \<open>
  C16. Listing with the V1 API ends, over a service that pages by marker as documented, and sends
  one object for each key of the bucket under the prefix that matches the URL, in order, with its
  attributes and its own relative path: no key is lost or repeated at a page boundary, whether or
  not the service names the next marker. When nothing matches under a URL other than a bucket,
  the no-object error is all it sends.
\<close>

theorem list_v1_sends_each_match_once:
  assumes "v1_pages C src entries holds" "holds (w_s3 w)"
  shows "\<exists>w'. list_objects_v1 C L src w = Some (finish_listing src (listed_objects L src entries), w')"
  by (rule v1_pages.list_objects_v1_complete [OF assms])

text \<open>
  C20. The two listing APIs agree: when the pages of the V2 paginator hold the entries the V1 pages
  hold, in whatever pages, both listings send the same objects.
\<close>

theorem listing_apis_agree:
  assumes "v1_pages C src entries holds" "holds (w_s3 w)" "url_start_after src = []"
    and v2: "fst (sdk_list_v2 C (list_request_for src) (request_payer s) (w_s3 w)) = map Inr pages"
    and "\<And>page. page \<in> set pages \<Longrightarrow> lp_common_prefixes page = []" "concat (map lp_contents pages) = entries"
  shows "\<exists>w'. list_objects_v1 C L src w = Some (fst (list_v2 C L s src w), w')"
proof -
  have q: "(list_request_for src)\<lparr>lq_start_after := None\<rparr> = list_request_for src"
    by (simp add: list_request_for_def)
  have "fst (list_v2 C L s src w) = finish_listing src (listed_objects L src entries)"
    using emit_pages_flat [where pages = pages and L = L and src = src and r = "url_relative_path src" and sent = "[]"] assms(3,5,6) v2 q
    by (auto simp: list_v2_def Let_def split: prod.splits)
  then show ?thesis using v1_pages.list_objects_v1_complete [OF assms(1,2), of L] by simp
qed

section \<open>Batches\<close>

fun delete_batches :: "'s sdk \<Rightarrow> regex_lib \<Rightarrow> s3 \<Rightarrow> url list list \<Rightarrow> 's world \<Rightarrow> object list \<times> 's world" where
  "delete_batches C L s [] w = ([], w)"
| "delete_batches C L s (b # bs) w =
     (case delete_chunk C L s b w of (os1, w1) \<Rightarrow> case delete_batches C L s bs w1 of (os2, w2) \<Rightarrow> (os1 @ os2, w2))"

lemma multi_delete_loop_batches:
  assumes "length batch < DELETE_CHUNK_SIZE"
  shows "\<exists>bs. concat bs = batch @ urls \<and> list_all (\<lambda>b. b \<noteq> [] \<and> length b \<le> DELETE_CHUNK_SIZE) bs \<and>
    length bs = div_ceil (length (batch @ urls)) DELETE_CHUNK_SIZE \<and>
    multi_delete_loop C L s batch urls w = delete_batches C L s bs w"
  using assms
proof (induction urls arbitrary: batch w)
  case Nil
  show ?case
  proof (cases "batch = []")
    case True
    then show ?thesis by (intro exI [of _ "[]"]) (simp add: div_ceil_def)
  next
    case False
    then have "div_ceil (length batch) DELETE_CHUNK_SIZE = 1"
      using Nil div_ceil_less [of DELETE_CHUNK_SIZE 0 "length batch"] div_ceil_le [of DELETE_CHUNK_SIZE "length batch" 1]
      by simp
    with False Nil show ?thesis by (intro exI [of _ "[batch]"]) (simp split: prod.splits)
  qed
next
  case (Cons u urls)
  show ?case
  proof (cases "DELETE_CHUNK_SIZE \<le> length (batch @ [u])")
    case False
    with Cons.IH [of "batch @ [u]" w] show ?thesis by simp
  next
    case True
    then have full: "length (batch @ [u]) = DELETE_CHUNK_SIZE" using Cons.prems by simp
    obtain os1 w1 where d: "delete_chunk C L s (batch @ [u]) w = (os1, w1)" by fastforce
    obtain bs where bs: "concat bs = urls" "list_all (\<lambda>b. b \<noteq> [] \<and> length b \<le> DELETE_CHUNK_SIZE) bs"
      "length bs = div_ceil (length urls) DELETE_CHUNK_SIZE"
      "multi_delete_loop C L s [] urls w1 = delete_batches C L s bs w1"
      using Cons.IH [of "[]" w1] by auto
    have "div_ceil (length urls + DELETE_CHUNK_SIZE) DELETE_CHUNK_SIZE = Suc (div_ceil (length urls) DELETE_CHUNK_SIZE)"
      by (simp add: div_ceil_def)
    moreover have l: "length (batch @ u # urls) = length urls + DELETE_CHUNK_SIZE" using full by simp
    ultimately have "length ((batch @ [u]) # bs) = div_ceil (length (batch @ u # urls)) DELETE_CHUNK_SIZE"
      unfolding l using bs(3) by simp
    with True full bs d show ?thesis by (intro exI [of _ "(batch @ [u]) # bs"]) simp
  qed
qed

text \<open>
  Deleting any number of objects sends them in their order in requests of at most 1,000 keys,
  the limit of the service, each object in exactly one request, and in as few requests as the
  limit allows.
\<close>

theorem multi_delete_batches:
  "\<exists>bs. concat bs = urls \<and> list_all (\<lambda>b. b \<noteq> [] \<and> length b \<le> DELETE_CHUNK_SIZE) bs \<and>
    length bs = div_ceil (length urls) DELETE_CHUNK_SIZE \<and>
    multi_delete C L s urls w = delete_batches C L s bs w"
  using multi_delete_loop_batches [of "[]" urls] by (simp add: multi_delete_def)

section \<open>What deletion does\<close>

locale deleting_service = s3_service +
  assumes delete_many: "sdk_delete_objects C b keys payer s = (Inr out, s') \<Longrightarrow> dr_errors out = [] \<Longrightarrow>
    contents s' = (\<lambda>l. if fst l = b \<and> snd l \<in> set keys then None else contents s l)"
    and delete_one: "sdk_delete C r s = (Inr u, s') \<Longrightarrow> or_version r = None \<Longrightarrow> contents s' = (contents s)(loc r := None)"
begin

lemma delete_ok:
  assumes "s3_delete C s u w = (Inr x, w')" "\<not> s3_dry_run s" "url_version_id u = []"
  shows "contents (w_s3 w') = (contents (w_s3 w))(url_loc u := None)"
proof -
  obtain s' where d: "sdk_delete C (src_ref s u) (w_s3 w) = (Inr x, s')" and w': "w' = w\<lparr>w_s3 := s'\<rparr>"
    using assms(1,2) by (auto simp: s3_delete_def send_try_Ok)
  have "loc (src_ref s u) = url_loc u" by (simp add: src_ref_def loc_def url_loc_def)
  with delete_one [OF d] w' assms(3) show ?thesis by (simp add: src_ref_def)
qed

lemma delete_chunk_ok:
  assumes "delete_chunk C L s urls w = (os, w')" "\<not> s3_dry_run s" "\<And>u. u \<in> set urls \<Longrightarrow> url_bucket u = b"
    "list_all (\<lambda>ob. ob_err ob = None) os"
  shows "contents (w_s3 w') = (\<lambda>l. if fst l = b \<and> snd l \<in> url_path ` set urls then None else contents (w_s3 w) l)"
proof (cases urls)
  case Nil
  with assms(1) show ?thesis by (auto simp: delete_chunk_def)
next
  case (Cons u us)
  have b: "url_bucket u = b" using assms(3) Cons by simp
  obtain res s1 where r: "sdk_delete_objects C b (map url_path urls) (request_payer s) (w_s3 w) = (res, s1)"
    by fastforce
  show ?thesis
  proof (cases res)
    case (Inl e)
    with r assms(1,2,4) Cons b show ?thesis
      by (auto simp: delete_chunk_def send_def object_with_error_def Let_def)
  next
    case (Inr out)
    with r assms(1,2,4) Cons b have "dr_errors out = []" "w' = w\<lparr>w_s3 := s1\<rparr>"
      by (cases "dr_errors out"; auto simp: delete_chunk_def send_def Let_def split: prod.splits)+
    with delete_many [OF r [unfolded Inr]] show ?thesis by (simp add: fun_eq_iff)
  qed
qed

lemma delete_batches_ok:
  assumes "delete_batches C L s bs w = (os, w')" "\<not> s3_dry_run s" "\<And>u. u \<in> set (concat bs) \<Longrightarrow> url_bucket u = b"
    "list_all (\<lambda>ob. ob_err ob = None) os"
  shows "contents (w_s3 w') =
    (\<lambda>l. if fst l = b \<and> snd l \<in> url_path ` set (concat bs) then None else contents (w_s3 w) l)"
  using assms
proof (induction bs arbitrary: w os)
  case Nil
  then show ?case by (simp add: fun_eq_iff)
next
  case (Cons x bs)
  obtain os1 w1 where d: "delete_chunk C L s x w = (os1, w1)" by fastforce
  obtain os2 where r: "delete_batches C L s bs w1 = (os2, w')" and os: "os = os1 @ os2"
    using Cons.prems(1) d by (auto split: prod.splits)
  have 1: "contents (w_s3 w1) = (\<lambda>l. if fst l = b \<and> snd l \<in> url_path ` set x then None else contents (w_s3 w) l)"
    using delete_chunk_ok [OF d Cons.prems(2), of b] Cons.prems(3,4) os by simp
  have 2: "contents (w_s3 w') =
      (\<lambda>l. if fst l = b \<and> snd l \<in> url_path ` set (concat bs) then None else contents (w_s3 w1) l)"
    using Cons.IH [OF r Cons.prems(2)] Cons.prems(3,4) os by simp
  show ?case unfolding 2 1 by (auto simp: fun_eq_iff)
qed

end

lemma fold_mem_delete: "mem_contents (fold (\<lambda>k. mem_delete (b, k)) keys s) =
    (\<lambda>l. if fst l = b \<and> snd l \<in> set keys then None else mem_contents s l)"
proof (induction keys arbitrary: s)
  case (Cons k keys)
  then show ?case by (auto simp: mem_delete_def mem_contents_def delete_conv' fun_eq_iff)
qed simp

interpretation mem_deleting: deleting_service memory_sdk mem_contents mem_uploads
proof
  fix b keys payer s out s'
  assume "sdk_delete_objects memory_sdk b keys payer s = (Inr out, s')"
  then show "mem_contents s' = (\<lambda>l. if fst l = b \<and> snd l \<in> set keys then None else mem_contents s l)"
    by (auto simp: memory_sdk_def fold_mem_delete)
next
  fix r s u s'
  assume "sdk_delete memory_sdk r s = (Inr u, s')"
  then show "mem_contents s' = (mem_contents s)(loc r := None)"
    by (auto simp: memory_sdk_def mem_delete_def mem_contents_def delete_conv')
qed

text \<open>
  When a batched deletion reports no error, exactly the given objects of the bucket are gone,
  however many batches it took.
\<close>

theorem multi_delete_removes_exactly:
  assumes S: "deleting_service C contents uploads"
    and d: "multi_delete C L s urls w = (os, w')" and "\<not> s3_dry_run s"
    and b: "\<And>u. u \<in> set urls \<Longrightarrow> url_bucket u = b" and ok: "list_all (\<lambda>ob. ob_err ob = None) os"
  shows "contents (w_s3 w') = (\<lambda>l. if fst l = b \<and> snd l \<in> url_path ` set urls then None else contents (w_s3 w) l)"
proof -
  obtain bs where "concat bs = urls" "delete_batches C L s bs w = (os, w')"
    using multi_delete_loop_batches [of "[]" urls C L s w] d by (auto simp: multi_delete_def)
  with deleting_service.delete_batches_ok [OF S _ assms(3) _ ok] b show ?thesis by auto
qed

text \<open>
  In a dry run a batched deletion deletes nothing, and it reports nothing either: the objects
  it would delete never reach the channel, so that a dry run of a removal prints no line.
\<close>

theorem dry_run_delete_reports_nothing:
  assumes "s3_dry_run s"
  shows "multi_delete C L s urls w = ([], w)"
proof -
  have "multi_delete_loop C L s batch urls w = ([], w)" for batch
    using assms by (induction urls arbitrary: batch) (auto simp: delete_chunk_def Let_def split: list.splits)
  then show ?thesis by (simp add: multi_delete_def)
qed

section \<open>Instances\<close>

definition demo_store :: "memstore world" where
  "demo_store = demo_world [((''b'', ''x''), ''1''), ((''b'', ''y''), ''22''), ((''c'', ''x''), ''3''), ((''b'', ''z''), ''4'')] Map.empty"

lemma demo_bucket: "url_delimiter (demo_url ''s3://b/*'') = []" "url_bucket (demo_url ''s3://b/*'') = ''b''"
  "url_prefix (demo_url ''s3://b/*'') = []" "url_start_after (demo_url ''s3://b/*'') = []"
  by (simp_all add: demo_url_def url_eval Let_def)

interpretation demo_listing: memory_listing "demo_url ''s3://b/*''" "[(''x'', ''1''), (''y'', ''22''), (''z'', ''4'')]"
proof
  show "url_delimiter (demo_url ''s3://b/*'') = []" by (rule demo_bucket)
  show "distinct (map fst [(''x'', ''1''), (''y'', ''22''), (''z'', ''4'')])" by simp
  fix x
  assume "x \<in> set [(''x'', ''1''), (''y'', ''22''), (''z'', ''4'')]"
  then show "utf8_valid (fst x)" by (auto intro!: utf8_valid_ascii simp: byte_of_def)
qed

lemma demo_keys: "mem_keys (url_bucket (demo_url ''s3://b/*'')) (url_prefix (demo_url ''s3://b/*'')) (w_s3 demo_store) =
    [(''x'', ''1''), (''y'', ''22''), (''z'', ''4'')]"
  by (simp add: demo_bucket mem_keys_def demo_store_def demo_world_def)

theorem list_v1_sends_each_match_once_witness:
  "\<exists>w'. list_objects_v1 memory_sdk reference_engine (demo_url ''s3://b/*'') demo_store =
    Some (finish_listing (demo_url ''s3://b/*'') (listed_objects reference_engine (demo_url ''s3://b/*'')
       (map mem_entry [(''x'', ''1''), (''y'', ''22''), (''z'', ''4'')])), w')"
  by (rule list_v1_sends_each_match_once [OF demo_listing.paged.v1_pages_axioms demo_keys])

theorem listing_apis_agree_witness:
  "\<exists>w'. list_objects_v1 memory_sdk reference_engine (demo_url ''s3://b/*'') demo_store =
    Some (fst (list_v2 memory_sdk reference_engine (demo_s3 4) (demo_url ''s3://b/*'') demo_store), w')"
proof -
  let ?p = "mem_list (list_request_for (demo_url ''s3://b/*'')) (w_s3 demo_store)"
  have "lp_common_prefixes ?p = []" "lp_contents ?p = map mem_entry [(''x'', ''1''), (''y'', ''22''), (''z'', ''4'')]"
    using demo_keys by (auto simp: mem_list_def mem_page_def list_request_for_def demo_bucket common_prefix_def)
  then show ?thesis
    by (intro listing_apis_agree [OF demo_listing.paged.v1_pages_axioms demo_keys, where pages = "[?p]"])
      (auto simp: memory_sdk_def demo_bucket)
qed

theorem multi_delete_removes_exactly_witness:
  "mem_contents (w_s3 (snd (multi_delete memory_sdk reference_engine (demo_s3 4) [demo_url ''s3://b/k'']
     (demo_world [((''b'', ''k''), ''1''), ((''b'', ''y''), ''2'')] Map.empty)))) (''b'', ''k'') = None"
proof -
  let ?w = "demo_world [((''b'', ''k''), ''1''), ((''b'', ''y''), ''2'')] Map.empty"
  obtain os w' where d: "multi_delete memory_sdk reference_engine (demo_s3 4) [demo_url ''s3://b/k''] ?w = (os, w')"
    by fastforce
  then have "list_all (\<lambda>ob. ob_err ob = None) os"
    by (auto simp: multi_delete_def delete_chunk_def Let_def demo_s3_def memory_sdk_def send_def default_object_def
        split: sum.splits)
  from multi_delete_removes_exactly [OF mem_deleting.deleting_service_axioms d _ _ this, of "''b''"] d show ?thesis
    by (simp add: demo_s3_def demo_url_parts)
qed

theorem dry_run_delete_reports_nothing_witness:
  "multi_delete memory_sdk reference_engine ((demo_s3 4)\<lparr>s3_dry_run := True\<rparr>) [demo_url ''s3://b/k''] demo_store
    = ([], demo_store)"
  by (rule dry_run_delete_reports_nothing) simp

end
