(* ===== verification/Writer.thy ===== *)
theory Writer
  imports S3_Listing
begin

text \<open>
  The write-back cache file behind a file opened for writing on the mount (\<^verbatim>\<open>src/mount/writer.rs\<close>).
  The writer's file is the local file at its path; writes and truncation change it in place, a
  flush uploads it whole. The invariant \<open>writer_ok\<close> says that the size the writer reports is the
  length of its file.
\<close>

record writer =
  wr_path :: string
  wr_dst :: url
  wr_size :: nat
  wr_dirty :: bool

definition writer_new :: "string \<Rightarrow> url \<Rightarrow> nat \<Rightarrow> bool \<Rightarrow> writer" where
  "writer_new path dst sz dirty = \<lparr>wr_path = path, wr_dst = dst, wr_size = sz, wr_dirty = dirty\<rparr>"

definition writer_write :: "env \<Rightarrow> writer \<Rightarrow> nat \<Rightarrow> string \<Rightarrow> ('s, nat \<times> writer) io" where
  "writer_write E wr offset data =
     io_bind (os_update E ''write'' (wr_path wr) (file_write_at offset data)) (\<lambda>_.
       io_return (length data,
         wr\<lparr>wr_size := max (wr_size wr) (u64_sat_add offset (length data)), wr_dirty := True\<rparr>))"

definition writer_set_dst :: "writer \<Rightarrow> url \<Rightarrow> writer" where
  "writer_set_dst wr dst = wr\<lparr>wr_dst := dst\<rparr>"

definition writer_read :: "env \<Rightarrow> writer \<Rightarrow> nat \<Rightarrow> nat \<Rightarrow> ('s, string) io" where
  "writer_read E wr offset sz =
     (if wr_size wr \<le> offset then io_return []
      else
        let len = min sz (wr_size wr - offset)
        in io_bind (os_read E (wr_path wr)) (\<lambda>f. io_return (file_read_at offset len f)))"

definition writer_truncate :: "env \<Rightarrow> writer \<Rightarrow> nat \<Rightarrow> ('s, writer) io" where
  "writer_truncate E wr new_size =
     io_bind (os_update E ''set_len'' (wr_path wr) (file_set_len new_size)) (\<lambda>_.
       io_return (wr\<lparr>wr_size := new_size, wr_dirty := True\<rparr>))"

definition writer_flush ::
  "'s sdk \<Rightarrow> env \<Rightarrow> (nat list \<Rightarrow> nat list) \<Rightarrow> s3 \<Rightarrow> writer \<Rightarrow> ('s, writer) io" where
  "writer_flush C E sched s wr =
     (if \<not> wr_dirty wr then io_return wr
      else
        io_bind (os_call E ''sync_all'' (wr_path wr) (io_return ())) (\<lambda>_.
        io_bind (s3_upload C E sched s (wr_path wr) (wr_dst wr) default_metadata) (\<lambda>_.
          io_return (wr\<lparr>wr_dirty := False\<rparr>))))"

text \<open>Dropping a writer keeps a file that is not safely uploaded.\<close>

definition writer_drop :: "env \<Rightarrow> writer \<Rightarrow> 's world \<Rightarrow> 's world" where
  "writer_drop E wr w = (if wr_dirty wr then w else snd (os_remove E (wr_path wr) w))"

definition open_cache_file :: "env \<Rightarrow> string \<Rightarrow> bool \<Rightarrow> ('s, unit) io" where
  "open_cache_file E path trunc =
     os_call E ''open'' path (\<lambda>w.
       (Ok (), w\<lparr>w_files := (w_files w)(path \<mapsto>
           (if trunc then [] else unwrap_or [] (w_files w path)))\<rparr>))"

section \<open>The size is the length of the file\<close>

definition writer_ok :: "(string \<Rightarrow> string option) \<Rightarrow> writer \<Rightarrow> bool" where
  "writer_ok files wr \<longleftrightarrow> (\<exists>f. files (wr_path wr) = Some f \<and> wr_size wr = length f)"

text \<open>
  A write leaves the file with the data at its offset, zero bytes in a gap before it, and every
  other byte as it was. A write of no bytes beyond the end would move the size alone.
\<close>

lemma writer_write_ok:
  assumes "writer_write E wr offset data w = (Inr (n, wr'), w')" "writer_ok (w_files w) wr"
    "data \<noteq> [] \<or> offset \<le> wr_size wr" "offset + length data < u64_lim"
  shows "writer_ok (w_files w') wr'" "wr_path wr' = wr_path wr" "wr_dst wr' = wr_dst wr" "wr_dirty wr'"
    "n = length data" "w_s3 w' = w_s3 w"
    "w_files w' = (w_files w)(wr_path wr := map_option (file_write_at offset data) (w_files w (wr_path wr)))"
proof -
  obtain f where f: "w_files w (wr_path wr) = Some f" "wr_size wr = length f"
    using assms(2) by (auto simp: writer_ok_def)
  have w': "w' = w\<lparr>w_files := (w_files w)(wr_path wr := map_option (file_write_at offset data) (w_files w (wr_path wr)))\<rparr>"
    and wr': "wr' = wr\<lparr>wr_size := max (wr_size wr) (u64_sat_add offset (length data)), wr_dirty := True\<rparr>"
    and n: "n = length data"
    using assms(1) by (auto simp: writer_write_def io_bind_Ok dest!: os_update_Ok)
  have "u64_sat_add offset (length data) = offset + length data" using assms(4) by (simp add: u64_sat_add_def)
  then have "max (wr_size wr) (u64_sat_add offset (length data)) = length (file_write_at offset data f)"
    using f(2) assms(3) by (auto simp: length_write_at)
  then show "writer_ok (w_files w') wr'" by (simp add: writer_ok_def w' wr' f(1))
  show "wr_path wr' = wr_path wr" "wr_dst wr' = wr_dst wr" "wr_dirty wr'" "n = length data" "w_s3 w' = w_s3 w"
    "w_files w' = (w_files w)(wr_path wr := map_option (file_write_at offset data) (w_files w (wr_path wr)))"
    by (simp_all add: w' wr' n)
qed

lemma writer_truncate_ok:
  assumes "writer_truncate E wr n w = (Inr wr', w')" "writer_ok (w_files w) wr"
  shows "writer_ok (w_files w') wr'" "wr_path wr' = wr_path wr" "wr_dst wr' = wr_dst wr" "wr_dirty wr'" "wr_size wr' = n"
    "w_files w' = (w_files w)(wr_path wr := map_option (file_set_len n) (w_files w (wr_path wr)))" "w_s3 w' = w_s3 w"
  using assms by (auto simp: writer_truncate_def io_bind_Ok writer_ok_def dest!: os_update_Ok)

lemma writer_read_ok:
  assumes "writer_read E wr offset sz w = (Inr data, w')" "writer_ok (w_files w) wr" "w_files w (wr_path wr) = Some f"
  shows "data = take sz (drop offset f)" "w' = w"
  using assms
  by (auto simp: writer_read_def writer_ok_def io_bind_Ok file_read_at_def Let_def min_def dest!: os_read_Ok split: if_splits)

text \<open>A flush uploads what the file holds to where the writer points.\<close>

context s3_service
begin

lemma writer_flush_ok:
  assumes fl: "writer_flush C E sched s wr w = (Inr wr', w')" and "\<not> s3_dry_run s" "wr_dirty wr"
    and f: "w_files w (wr_path wr) = Some f" and "0 < s3_part_size s"
    and "length f < u64_lim" "div_ceil (length f) (s3_part_size s) < 2 ^ 31" "\<And>xs. mset (sched xs) = mset xs"
  shows "contents (w_s3 w') = (contents (w_s3 w))(url_loc (wr_dst wr) \<mapsto> f)" "w_files w' = w_files w"
    "wr' = wr\<lparr>wr_dirty := False\<rparr>"
proof -
  obtain x where u: "s3_upload C E sched s (wr_path wr) (wr_dst wr) default_metadata w = (Inr x, w')"
    and wr': "wr' = wr\<lparr>wr_dirty := False\<rparr>"
    using fl assms(3) by (auto simp: writer_flush_def io_bind_Ok os_call_Ok)
  from upload_ok [OF u assms(2) f assms(5-8)]
  show "contents (w_s3 w') = (contents (w_s3 w))(url_loc (wr_dst wr) \<mapsto> f)" "w_files w' = w_files w" by simp_all
  show "wr' = wr\<lparr>wr_dirty := False\<rparr>" by (rule wr')
qed

end

end
