(* ===== verification/Inode.thy ===== *)
theory Inode
  imports Prelude
begin

text \<open>
  The inode table of the FUSE mount (\<^verbatim>\<open>src/mount/inode.rs\<close>): a bidirectional map between
  synthesized inode numbers and S3 keys. A \<^verbatim>\<open>HashMap\<close> is a HOL map; where the source iterates
  over one, the iteration order is a parameter of the operation.

  The two maps are inverse to each other (\<open>inode_inv\<close>) as long as an inode is re-pointed at a
  key no other inode holds; soundness of the key index alone (\<open>inode_sound\<close>) needs no such
  condition.
\<close>

section \<open>Data and operations\<close>

abbreviation ROOT_INODE :: nat where
  "ROOT_INODE \<equiv> 1"

datatype node_kind = Dir | File

definition is_dir :: "node_kind \<Rightarrow> bool" where
  "is_dir k = (case k of Dir \<Rightarrow> True | File \<Rightarrow> False)"

record node =
  node_key :: string
  node_kind :: node_kind
  node_parent :: nat

record inode_table =
  it_nodes :: "nat \<Rightarrow> node option"
  it_by_key :: "string \<Rightarrow> nat option"
  it_next :: nat

definition inode_new :: "string \<Rightarrow> inode_table" where
  "inode_new root_key =
     \<lparr>it_nodes = [ROOT_INODE \<mapsto> \<lparr>node_key = root_key, node_kind = Dir, node_parent = ROOT_INODE\<rparr>],
      it_by_key = [root_key \<mapsto> ROOT_INODE],
      it_next = ROOT_INODE + 1\<rparr>"

definition inode_get :: "inode_table \<Rightarrow> nat \<Rightarrow> node option" where
  "inode_get t ino = it_nodes t ino"

definition lookup_key :: "inode_table \<Rightarrow> string \<Rightarrow> nat option" where
  "lookup_key t key = it_by_key t key"

definition intern :: "inode_table \<Rightarrow> string \<Rightarrow> node_kind \<Rightarrow> nat \<Rightarrow> nat \<times> inode_table" where
  "intern t key kind parent =
     (case it_by_key t key of
        Some ino \<Rightarrow> (ino, t)
      | None \<Rightarrow>
          let ino = it_next t in
          (ino, t\<lparr>it_next := u64_add (it_next t) 1,
                  it_nodes := (it_nodes t)(ino \<mapsto>
                     \<lparr>node_key = key, node_kind = kind, node_parent = parent\<rparr>),
                  it_by_key := (it_by_key t)(key \<mapsto> ino)\<rparr>))"

definition rekey :: "inode_table \<Rightarrow> nat \<Rightarrow> string \<Rightarrow> inode_table" where
  "rekey t ino new_key =
     (case it_nodes t ino of
        None \<Rightarrow> t
      | Some n \<Rightarrow>
          t\<lparr>it_nodes := (it_nodes t)(ino \<mapsto> n\<lparr>node_key := new_key\<rparr>),
            it_by_key := ((it_by_key t)(node_key n := None))(new_key \<mapsto> ino)\<rparr>)"

text \<open>
  \<open>iter\<close> is the order in which the node map is walked; the affected entries are collected
  before any of them is changed.
\<close>

definition affected_nodes :: "inode_table \<Rightarrow> nat list \<Rightarrow> string \<Rightarrow> (nat \<times> string) list" where
  "affected_nodes t iter old_prefix =
     concat (map (\<lambda>ino. case it_nodes t ino of
        None \<Rightarrow> []
      | Some n \<Rightarrow> if starts_with (node_key n) old_prefix then [(ino, node_key n)] else []) iter)"

definition rekey_one :: "string \<Rightarrow> string \<Rightarrow> nat \<times> string \<Rightarrow> inode_table \<Rightarrow> inode_table" where
  "rekey_one old_prefix new_prefix e t =
     (let ino = fst e; old_key = snd e;
          new_key = new_prefix @ drop (length old_prefix) old_key
      in t\<lparr>it_nodes := (case it_nodes t ino of
                          None \<Rightarrow> it_nodes t
                        | Some n \<Rightarrow> (it_nodes t)(ino \<mapsto> n\<lparr>node_key := new_key\<rparr>)),
           it_by_key := ((it_by_key t)(old_key := None))(new_key \<mapsto> ino)\<rparr>)"

definition rekey_prefix ::
  "inode_table \<Rightarrow> nat list \<Rightarrow> string \<Rightarrow> string \<Rightarrow> nat list \<times> inode_table" where
  "rekey_prefix t iter old_prefix new_prefix =
     (let affected = affected_nodes t iter old_prefix
      in (map fst affected, fold (rekey_one old_prefix new_prefix) affected t))"

definition forget :: "inode_table \<Rightarrow> nat \<Rightarrow> inode_table" where
  "forget t ino =
     (case it_nodes t ino of
        None \<Rightarrow> t
      | Some n \<Rightarrow> t\<lparr>it_nodes := (it_nodes t)(ino := None),
                    it_by_key := (it_by_key t)(node_key n := None)\<rparr>)"

lemmas inode_op_defs = inode_new_def inode_get_def lookup_key_def intern_def rekey_def forget_def

section \<open>Invariants\<close>

text \<open>Every key of the index belongs to the inode the index gives.\<close>

definition inode_sound :: "inode_table \<Rightarrow> bool" where
  "inode_sound t \<longleftrightarrow>
     (\<forall>k i. it_by_key t k = Some i \<longrightarrow> (\<exists>n. it_nodes t i = Some n \<and> node_key n = k))"

text \<open>Every inode is found again under its key.\<close>

definition inode_indexed :: "inode_table \<Rightarrow> bool" where
  "inode_indexed t \<longleftrightarrow> (\<forall>i n. it_nodes t i = Some n \<longrightarrow> it_by_key t (node_key n) = Some i)"

text \<open>The next number has never been handed out.\<close>

definition inode_fresh :: "inode_table \<Rightarrow> bool" where
  "inode_fresh t \<longleftrightarrow> (\<forall>i n. it_nodes t i = Some n \<longrightarrow> i < it_next t) \<and> 1 < it_next t"

definition inode_inv :: "inode_table \<Rightarrow> bool" where
  "inode_inv t \<longleftrightarrow> inode_sound t \<and> inode_indexed t \<and> inode_fresh t"

lemmas inode_inv_defs = inode_inv_def inode_sound_def inode_indexed_def inode_fresh_def

lemma inode_invI [intro?]:
  assumes "\<And>k i. it_by_key t k = Some i \<Longrightarrow> \<exists>n. it_nodes t i = Some n \<and> node_key n = k"
    and "\<And>i n. it_nodes t i = Some n \<Longrightarrow> it_by_key t (node_key n) = Some i"
    and "\<And>i n. it_nodes t i = Some n \<Longrightarrow> i < it_next t"
    and "1 < it_next t"
  shows "inode_inv t"
  using assms by (simp add: inode_inv_defs)

lemma inode_inv_key: "inode_inv t \<Longrightarrow> it_by_key t k = Some i \<Longrightarrow> \<exists>n. it_nodes t i = Some n \<and> node_key n = k"
  by (simp add: inode_inv_defs)

lemma inode_inv_node: "inode_inv t \<Longrightarrow> it_nodes t i = Some n \<Longrightarrow> it_by_key t (node_key n) = Some i"
  by (simp add: inode_inv_defs)

lemma inode_inv_next: "inode_inv t \<Longrightarrow> it_nodes t i = Some n \<Longrightarrow> i < it_next t"
  by (auto simp: inode_inv_defs)

lemma inode_inv_unknown:
  "inode_inv t \<Longrightarrow> it_by_key t k = None \<Longrightarrow> it_nodes t i = Some n \<Longrightarrow> node_key n \<noteq> k"
  using inode_inv_node by fastforce

lemma inode_inv_unique:
  "inode_inv t \<Longrightarrow> it_nodes t i = Some n \<Longrightarrow> it_nodes t j = Some m \<Longrightarrow> node_key n = node_key m \<Longrightarrow> i = j"
  by (metis inode_inv_node option.inject)

lemma inode_inv_new: "inode_inv (inode_new root)"
  by (auto simp: inode_inv_defs inode_new_def split: if_splits)

section \<open>Each operation keeps the bijection\<close>

lemma intern_known: "it_by_key t key = Some i \<Longrightarrow> intern t key kind parent = (i, t)"
  by (simp add: intern_def)

lemma intern_unknown:
  assumes "it_by_key t key = None" "it_next t < u64_max"
  shows "intern t key kind parent =
    (it_next t, \<lparr>it_nodes = (it_nodes t)(it_next t \<mapsto>
         \<lparr>node_key = key, node_kind = kind, node_parent = parent\<rparr>),
       it_by_key = (it_by_key t)(key \<mapsto> it_next t), it_next = it_next t + 1\<rparr>)"
  using assms by (cases t) (simp add: intern_def u64_simps Let_def)

lemma inode_inv_intern:
  assumes inv: "inode_inv t" and lim: "it_next t < u64_max"
  shows "inode_inv (snd (intern t key kind parent))"
proof (cases "it_by_key t key")
  case None
  have fresh: "it_nodes t (it_next t) = None"
    using inode_inv_next [OF inv] by (cases "it_nodes t (it_next t)") auto
  show ?thesis
  proof (rule inode_invI)
    fix k i
    assume "it_by_key (snd (intern t key kind parent)) k = Some i"
    then show "\<exists>n. it_nodes (snd (intern t key kind parent)) i = Some n \<and> node_key n = k"
      using inode_inv_key [OF inv] fresh None lim by (fastforce simp: intern_unknown split: if_splits)
  next
    fix i n
    assume "it_nodes (snd (intern t key kind parent)) i = Some n"
    then show "it_by_key (snd (intern t key kind parent)) (node_key n) = Some i"
      using inode_inv_node [OF inv] inode_inv_unknown [OF inv None] None lim
      by (auto simp: intern_unknown split: if_splits)
  next
    fix i n
    assume "it_nodes (snd (intern t key kind parent)) i = Some n"
    then show "i < it_next (snd (intern t key kind parent))"
      using inode_inv_next [OF inv] None lim
      by (fastforce simp: intern_unknown split: if_splits)
  next
    show "1 < it_next (snd (intern t key kind parent))"
      using inv None lim by (simp add: intern_unknown inode_inv_defs)
  qed
next
  case (Some i)
  with inv show ?thesis by (simp add: intern_known)
qed

lemma inode_inv_forget:
  assumes inv: "inode_inv t"
  shows "inode_inv (forget t ino)"
proof (cases "it_nodes t ino")
  case None
  with inv show ?thesis by (simp add: forget_def)
next
  case (Some m)
  have m: "it_by_key t (node_key m) = Some ino" using inode_inv_node [OF inv Some] .
  show ?thesis
  proof (rule inode_invI)
    fix k i
    assume "it_by_key (forget t ino) k = Some i"
    then show "\<exists>n. it_nodes (forget t ino) i = Some n \<and> node_key n = k"
      using inode_inv_key [OF inv] Some by (fastforce simp: forget_def split: if_splits)
  next
    fix i n
    assume "it_nodes (forget t ino) i = Some n"
    then show "it_by_key (forget t ino) (node_key n) = Some i"
      using inode_inv_node [OF inv] Some m by (fastforce simp: forget_def split: if_splits)
  next
    fix i n
    assume "it_nodes (forget t ino) i = Some n"
    then show "i < it_next (forget t ino)"
      using inode_inv_next [OF inv] Some by (auto simp: forget_def split: if_splits)
  next
    show "1 < it_next (forget t ino)"
      using inv Some by (simp add: forget_def inode_inv_defs)
  qed
qed

text \<open>
  Re-pointing keeps the bijection when the new key is free or already the inode's own. One
  step of \<open>rekey_prefix\<close> is such a re-pointing of an inode under its current key.
\<close>

lemma rekey_one_is_rekey:
  "it_nodes t ino = Some n \<Longrightarrow>
     rekey_one old new (ino, node_key n) t = rekey t ino (new @ drop (length old) (node_key n))"
  by (simp add: rekey_one_def rekey_def Let_def)

lemma inode_inv_rekey:
  assumes inv: "inode_inv t" and free: "it_by_key t new_key \<in> {None, Some ino}"
  shows "inode_inv (rekey t ino new_key)"
proof (cases "it_nodes t ino")
  case None
  with inv show ?thesis by (simp add: rekey_def)
next
  case (Some n)
  have key: "it_by_key t (node_key n) = Some ino" using inode_inv_node [OF inv Some] .
  have other: "node_key m \<noteq> new_key \<and> node_key m \<noteq> node_key n"
    if "it_nodes t j = Some m" "j \<noteq> ino" for j m
    using inode_inv_node [OF inv that(1)] free that(2) key by auto
  show ?thesis
  proof (rule inode_invI)
    fix k i
    assume "it_by_key (rekey t ino new_key) k = Some i"
    then show "\<exists>m. it_nodes (rekey t ino new_key) i = Some m \<and> node_key m = k"
      using inode_inv_key [OF inv, of k i] Some by (auto simp: rekey_def split: if_splits)
  next
    fix i m
    assume "it_nodes (rekey t ino new_key) i = Some m"
    then show "it_by_key (rekey t ino new_key) (node_key m) = Some i"
      using inode_inv_node [OF inv] other Some by (fastforce simp: rekey_def split: if_splits)
  next
    fix i m
    assume "it_nodes (rekey t ino new_key) i = Some m"
    then show "i < it_next (rekey t ino new_key)"
      using inode_inv_next [OF inv] Some by (fastforce simp: rekey_def split: if_splits)
  next
    show "1 < it_next (rekey t ino new_key)"
      using inv Some by (simp add: rekey_def inode_inv_defs)
  qed
qed

section \<open>Directory rename\<close>

text \<open>The node map after the loop: exactly the listed inodes have moved.\<close>

definition move_key :: "string \<Rightarrow> string \<Rightarrow> string \<Rightarrow> string" where
  "move_key old_prefix new_prefix k = new_prefix @ drop (length old_prefix) k"

lemma move_key_inj:
  "starts_with k old \<Longrightarrow> starts_with k' old \<Longrightarrow> move_key old new k = move_key old new k' \<Longrightarrow> k = k'"
  by (auto simp: move_key_def starts_with_iff)

lemma rekey_one_nodes:
  "it_nodes (rekey_one old new (ino, k) t) =
     (it_nodes t)(ino := map_option (\<lambda>n. n\<lparr>node_key := move_key old new k\<rparr>) (it_nodes t ino))"
  by (cases "it_nodes t ino") (auto simp: rekey_one_def move_key_def Let_def)

lemma fold_rekey_nodes:
  "distinct (map fst es) \<Longrightarrow>
     it_nodes (fold (rekey_one old new) es t) i =
       (case map_of es i of
          None \<Rightarrow> it_nodes t i
        | Some k \<Rightarrow> map_option (\<lambda>n. n\<lparr>node_key := move_key old new k\<rparr>) (it_nodes t i))"
proof (induction es arbitrary: t)
  case Nil
  then show ?case by simp
next
  case (Cons e es)
  obtain j k where e: "e = (j, k)" by (cases e)
  from Cons.prems have "distinct (map fst es)" "map_of es j = None"
    by (auto simp: e map_of_eq_None_iff)
  with Cons.IH [of "rekey_one old new e t"] show ?case
    by (auto simp: e rekey_one_nodes split: option.splits)
qed

lemma inode_inv_fold_rekey:
  assumes "inode_inv t" "distinct (map fst es)"
    and "\<And>i k. (i, k) \<in> set es \<Longrightarrow> \<exists>n. it_nodes t i = Some n \<and> node_key n = k"
    and "\<And>i k. (i, k) \<in> set es \<Longrightarrow> starts_with k old \<and> it_by_key t (move_key old new k) = None"
  shows "inode_inv (fold (rekey_one old new) es t)"
  using assms
proof (induction es arbitrary: t)
  case Nil
  then show ?case by simp
next
  case (Cons e es)
  obtain i k where e: "e = (i, k)" by (cases e)
  from Cons.prems(3) obtain n where n: "it_nodes t i = Some n" "node_key n = k"
    by (auto simp: e)
  let ?t = "rekey_one old new e t"
  have rk: "?t = rekey t i (move_key old new k)"
    using rekey_one_is_rekey [OF n(1)] by (simp add: e n(2) move_key_def)
  have "inode_inv ?t"
    unfolding rk using Cons.prems(1,4) by (intro inode_inv_rekey) (auto simp: e)
  moreover have "\<exists>n. it_nodes ?t i' = Some n \<and> node_key n = k'" if "(i', k') \<in> set es" for i' k'
    using Cons.prems(2,3) that by (force simp: e rekey_one_nodes)
  moreover have "starts_with k' old \<and> it_by_key ?t (move_key old new k') = None"
    if "(i', k') \<in> set es" for i' k'
  proof -
    have "i' \<noteq> i" using Cons.prems(2) that by (force simp: e)
    then have "k' \<noteq> k" using Cons.prems(1,3) that n by (metis inode_inv_unique list.set_intros(2))
    with Cons.prems(4) [of i k] Cons.prems(4) [of i' k'] that
    have "move_key old new k' \<noteq> move_key old new k" "starts_with k' old"
      "it_by_key t (move_key old new k') = None"
      by (auto simp: e dest: move_key_inj)
    then show ?thesis using n(1) by (simp add: rk rekey_def)
  qed
  ultimately show ?case using Cons.IH [of ?t] Cons.prems(2) by simp
qed

lemma affected_nodes_set:
  "(i, k) \<in> set (affected_nodes t iter old) \<longleftrightarrow>
     i \<in> set iter \<and> (\<exists>n. it_nodes t i = Some n \<and> node_key n = k \<and> starts_with k old)"
proof (induction iter)
  case Nil
  then show ?case by (simp add: affected_nodes_def)
next
  case (Cons j iter)
  then show ?case by (cases "it_nodes t j"; cases "j = i") (auto simp: affected_nodes_def)
qed

lemma affected_nodes_fst: "map fst (affected_nodes t iter old) =
    filter (\<lambda>i. case it_nodes t i of None \<Rightarrow> False | Some n \<Rightarrow> starts_with (node_key n) old) iter"
  by (induction iter) (auto simp: affected_nodes_def split: option.splits)

lemma affected_nodes_distinct: "distinct iter \<Longrightarrow> distinct (map fst (affected_nodes t iter old))"
  by (simp add: affected_nodes_fst)

text \<open>
  Moving a subtree to a prefix under which no inode lives keeps the bijection, in every
  iteration order of the node map, and moves exactly the inodes of the subtree.
\<close>

definition iteration_of :: "(nat \<Rightarrow> 'a option) \<Rightarrow> nat list \<Rightarrow> bool" where
  "iteration_of m iter \<longleftrightarrow> distinct iter \<and> set iter = dom m"

definition vacant_prefix :: "inode_table \<Rightarrow> string \<Rightarrow> bool" where
  "vacant_prefix t p \<longleftrightarrow> (\<forall>i n. it_nodes t i = Some n \<longrightarrow> \<not> starts_with (node_key n) p)"

lemma vacant_prefix_unindexed:
  "inode_inv t \<Longrightarrow> vacant_prefix t p \<Longrightarrow> it_by_key t (p @ s) = None"
  by (cases "it_by_key t (p @ s)") (metis vacant_prefix_def inode_inv_key starts_with_append)+

lemma inode_inv_rekey_prefix:
  assumes "inode_inv t" "distinct iter" "vacant_prefix t new"
  shows "inode_inv (snd (rekey_prefix t iter old new))"
proof -
  have "inode_inv (fold (rekey_one old new) (affected_nodes t iter old) t)"
    using assms by (intro inode_inv_fold_rekey)
      (auto simp: affected_nodes_distinct affected_nodes_set move_key_def vacant_prefix_unindexed)
  then show ?thesis by (simp add: rekey_prefix_def Let_def)
qed

lemma rekey_prefix_nodes:
  assumes "iteration_of (it_nodes t) iter"
  shows "it_nodes (snd (rekey_prefix t iter old new)) i =
     map_option (\<lambda>n. if starts_with (node_key n) old
                     then n\<lparr>node_key := move_key old new (node_key n)\<rparr> else n) (it_nodes t i)"
proof -
  let ?es = "affected_nodes t iter old"
  have d: "distinct (map fst ?es)"
    using assms by (simp add: iteration_of_def affected_nodes_distinct)
  show ?thesis
  proof (cases "it_nodes t i")
    case None
    with fold_rekey_nodes [OF d] show ?thesis
      by (simp add: rekey_prefix_def Let_def split: option.splits)
  next
    case (Some n)
    then have "i \<in> set iter" using assms by (auto simp: iteration_of_def)
    then have "map_of ?es i = (if starts_with (node_key n) old then Some (node_key n) else None)"
      using Some d by (auto simp: map_of_eq_None_iff affected_nodes_set intro!: map_of_is_SomeI)
    with Some fold_rekey_nodes [OF d, of old new t i] show ?thesis
      by (simp add: rekey_prefix_def Let_def)
  qed
qed


section \<open>The table over its whole life\<close>

text \<open>
  One call of the mount on its table. A re-pointing goes to a free key (file rename first
  forgets the destination's inode), a subtree to a vacant prefix; numbers are assumed not to
  run out.
\<close>

inductive inode_step :: "inode_table \<Rightarrow> inode_table \<Rightarrow> bool" where
  step_intern: "it_next t < u64_max \<Longrightarrow> inode_step t (snd (intern t key kind parent))"
| step_forget: "inode_step t (forget t ino)"
| step_rekey: "lookup_key t key \<in> {None, Some ino} \<Longrightarrow> inode_step t (rekey t ino key)"
| step_rekey_prefix:
    "iteration_of (it_nodes t) iter \<Longrightarrow> vacant_prefix t new
       \<Longrightarrow> inode_step t (snd (rekey_prefix t iter old new))"

inductive inode_reach :: "inode_table \<Rightarrow> bool" where
  reach_new: "inode_reach (inode_new root)"
| reach_step: "inode_reach t \<Longrightarrow> inode_step t t' \<Longrightarrow> inode_reach t'"

inductive_cases inode_stepE: "inode_step t t'"

lemma inode_inv_step: "inode_step t t' \<Longrightarrow> inode_inv t \<Longrightarrow> inode_inv t'"
  by (induction rule: inode_step.induct)
    (auto simp: lookup_key_def iteration_of_def intro: inode_inv_intern inode_inv_forget
      inode_inv_rekey inode_inv_rekey_prefix)

lemma inode_inv_reach: "inode_reach t \<Longrightarrow> inode_inv t"
  by (induction rule: inode_reach.induct) (auto intro: inode_inv_new inode_inv_step)

lemma rekey_prefix_next: "it_next (snd (rekey_prefix t iter old new)) = it_next t"
proof -
  have "it_next (fold (rekey_one old new) es t) = it_next t" for es
    by (induction es arbitrary: t) (simp_all add: rekey_one_def Let_def)
  then show ?thesis by (simp add: rekey_prefix_def Let_def)
qed

text \<open>A number once handed out and forgotten stays unmapped: numbers are never reused.\<close>

lemma inode_step_keeps_retired:
  assumes "inode_step t t'" "i < it_next t" "it_nodes t i = None"
  shows "i < it_next t' \<and> it_nodes t' i = None"
  using assms
proof (cases rule: inode_step.cases)
  case (step_intern key kind parent)
  with assms(2,3) show ?thesis
    by (cases "it_by_key t key") (auto simp: intern_known intern_unknown)
next
  case (step_forget ino)
  with assms(2,3) show ?thesis by (auto simp: forget_def split: option.splits)
next
  case (step_rekey key ino)
  with assms(2,3) show ?thesis by (auto simp: rekey_def split: option.splits)
next
  case (step_rekey_prefix iter new old)
  with assms(2,3) show ?thesis by (simp add: rekey_prefix_nodes rekey_prefix_next)
qed

section \<open>The interface the mount relies on\<close>

text \<open>
  What the file system above needs of a table of inodes: names resolve to the inode that
  carries them, interning is stable, forgetting one inode leaves the others alone.
\<close>

locale inode_names =
  fixes inv :: "'t \<Rightarrow> bool"
    and room :: "'t \<Rightarrow> bool"
    and get_node :: "'t \<Rightarrow> nat \<Rightarrow> node option"
    and find_key :: "'t \<Rightarrow> string \<Rightarrow> nat option"
    and intern_key :: "'t \<Rightarrow> string \<Rightarrow> node_kind \<Rightarrow> nat \<Rightarrow> nat \<times> 't"
    and drop_ino :: "'t \<Rightarrow> nat \<Rightarrow> 't"
  assumes find_get: "inv t \<Longrightarrow> find_key t k = Some i \<longleftrightarrow> (\<exists>n. get_node t i = Some n \<and> node_key n = k)"
    and intern_inv: "inv t \<Longrightarrow> room t \<Longrightarrow> inv (snd (intern_key t k kd p))"
    and intern_find: "inv t \<Longrightarrow> room t \<Longrightarrow>
        find_key (snd (intern_key t k kd p)) = (find_key t)(k \<mapsto> fst (intern_key t k kd p))"
    and intern_hit: "inv t \<Longrightarrow> find_key t k = Some i \<Longrightarrow> intern_key t k kd p = (i, t)"
    and drop_inv: "inv t \<Longrightarrow> inv (drop_ino t i)"
    and drop_get: "inv t \<Longrightarrow> get_node (drop_ino t i) = (get_node t)(i := None)"
begin

text \<open>Two names resolve to the same inode only when they are equal.\<close>

lemma names_distinct: "inv t \<Longrightarrow> find_key t k = Some i \<Longrightarrow> find_key t k' = Some i \<Longrightarrow> k = k'"
  using find_get by (metis option.inject)

lemma intern_stable:
  "inv t \<Longrightarrow> room t \<Longrightarrow> intern_key t k kd p = (i, t') \<Longrightarrow> intern_key t' k kd' p' = (i, t')"
  using intern_inv [of t k kd p] intern_find [of t k kd p] intern_hit [of t' k i kd' p']
  by simp

lemma intern_names: "inv t \<Longrightarrow> room t \<Longrightarrow> intern_key t k kd p = (i, t') \<Longrightarrow>
    \<exists>n. get_node t' i = Some n \<and> node_key n = k"
  using intern_inv [of t k kd p] intern_find [of t k kd p] find_get [of t' k i] by simp

lemma drop_find: "inv t \<Longrightarrow> find_key (drop_ino t i) k = (if find_key t k = Some i then None else find_key t k)"
proof -
  assume inv: "inv t"
  have "find_key (drop_ino t i) k = Some j \<longleftrightarrow> find_key t k = Some j \<and> j \<noteq> i" for j
    unfolding find_get [OF inv] find_get [OF drop_inv [OF inv]] drop_get [OF inv] by simp
  note iff = this
  show ?thesis
  proof (cases "find_key t k")
    case None
    then have "\<forall>j. find_key (drop_ino t i) k \<noteq> Some j" using iff by simp
    with None show ?thesis by simp
  next
    case (Some j)
    have "find_key (drop_ino t i) k = (if j = i then None else Some j)"
    proof (cases "j = i")
      case True
      with Some iff have "\<forall>l. find_key (drop_ino t i) k \<noteq> Some l" by simp
      with True show ?thesis by simp
    next
      case False
      with Some iff [of j] show ?thesis by simp
    qed
    with Some show ?thesis by simp
  qed
qed

text \<open>Dropping what was just interned for a new name restores every lookup.\<close>

lemma drop_interned:
  "inv t \<Longrightarrow> room t \<Longrightarrow> find_key t k = None \<Longrightarrow> intern_key t k kd p = (i, t')
     \<Longrightarrow> (\<forall>k'. find_key t k' \<noteq> Some i) \<Longrightarrow> find_key (drop_ino t' i) = find_key t"
  using intern_inv [of t k kd p] intern_find [of t k kd p] by (auto simp: drop_find)

end

interpretation itab: inode_names inode_inv "\<lambda>t. it_next t < u64_max" inode_get lookup_key intern forget
proof unfold_locales
  fix t k i
  assume "inode_inv t"
  then show "lookup_key t k = Some i \<longleftrightarrow> (\<exists>n. inode_get t i = Some n \<and> node_key n = k)"
    unfolding inode_get_def lookup_key_def using inode_inv_key inode_inv_node by blast
next
  fix t k kd p
  assume "inode_inv t" "it_next t < u64_max"
  then show "lookup_key (snd (intern t k kd p)) = (lookup_key t)(k \<mapsto> fst (intern t k kd p))"
    by (cases "it_by_key t k") (auto simp: lookup_key_def intern_known intern_unknown)
next
  fix t k i kd p
  assume "lookup_key t k = Some i"
  then show "intern t k kd p = (i, t)" by (simp add: lookup_key_def intern_known)
next
  fix t i
  show "inode_get (forget t i) = (inode_get t)(i := None)"
    by (auto simp: inode_get_def forget_def split: option.splits)
qed (auto intro: inode_inv_intern inode_inv_forget)

section \<open>Properties\<close>


definition demo_table :: inode_table where
  "demo_table = snd (intern (snd (intern (inode_new []) ''a/'' Dir 1)) ''a/x'' File 2)"

lemma demo_table_reach: "inode_reach demo_table"
  unfolding demo_table_def
  by (intro reach_step [OF _ step_intern] reach_new) (simp_all add: inode_op_defs u64_simps)


text \<open>
  An inode number that has been handed out and forgotten never names a node again,
  whatever the mount does with the table afterwards.
\<close>

theorem inode_never_reused:
  assumes "inode_step\<^sup>*\<^sup>* (forget t i) t'" "i < it_next t"
  shows "inode_get t' i = None"
proof -
  have "i < it_next t' \<and> it_nodes t' i = None"
    using assms(1)
  proof (induction rule: rtranclp_induct)
    case base
    then show ?case using assms(2) by (auto simp: forget_def split: option.splits)
  next
    case (step t1 t2)
    then show ?case using inode_step_keeps_retired by blast
  qed
  then show ?thesis by (simp add: inode_get_def)
qed

theorem inode_never_reused_witness:
  "inode_get (snd (intern (forget demo_table 3) ''a/x'' File 2)) 3 = None"
proof (rule inode_never_reused)
  have n: "it_next demo_table = 4" by (simp add: demo_table_def inode_op_defs u64_simps)
  then show "3 < it_next demo_table" by simp
  have "it_next (forget demo_table 3) < u64_max"
    using n by (simp add: forget_def split: option.splits)
  then show "inode_step\<^sup>*\<^sup>* (forget demo_table 3) (snd (intern (forget demo_table 3) ''a/x'' File 2))"
    by (intro r_into_rtranclp step_intern)
qed

text \<open>
  Renaming a directory to a prefix under which nothing is known moves exactly the inodes
  of the subtree, keeps their numbers, kinds and parents, and every moved key resolves again,
  whatever the iteration order of the hash map.
\<close>

theorem rekey_prefix_moves_subtree:
  assumes "inode_reach t" "iteration_of (it_nodes t) iter" "vacant_prefix t new"
    and "rekey_prefix t iter old new = (ids, t')"
  shows "inode_get t' i = map_option (\<lambda>n. if starts_with (node_key n) old
      then n\<lparr>node_key := new @ drop (length old) (node_key n)\<rparr> else n) (inode_get t i) \<and>
    (lookup_key t' k = Some i \<longleftrightarrow> (\<exists>n. inode_get t' i = Some n \<and> node_key n = k)) \<and>
    (i \<in> set ids \<longleftrightarrow> (\<exists>n. inode_get t i = Some n \<and> starts_with (node_key n) old))"
proof -
  have t': "t' = snd (rekey_prefix t iter old new)" and ids: "ids = fst (rekey_prefix t iter old new)"
    using assms(4) by simp_all
  have "inode_inv t'" unfolding t'
    using assms(1-3) by (intro inode_inv_rekey_prefix inode_inv_reach) (auto simp: iteration_of_def)
  then have "lookup_key t' k = Some i \<longleftrightarrow> (\<exists>n. inode_get t' i = Some n \<and> node_key n = k)"
    by (rule itab.find_get)
  moreover have "i \<in> set ids \<longleftrightarrow> (\<exists>n. inode_get t i = Some n \<and> starts_with (node_key n) old)"
    using assms(2) by (auto simp: ids rekey_prefix_def Let_def affected_nodes_fst inode_get_def
        iteration_of_def split: option.splits)
  ultimately show ?thesis
    using rekey_prefix_nodes [OF assms(2), of old new i]
    by (simp only: t' inode_get_def move_key_def simp_thms)
qed

theorem rekey_prefix_moves_subtree_witness:
  "map_option node_key (inode_get (snd (rekey_prefix demo_table [3, 1, 2] ''a/'' ''b/'')) 3) = Some ''b/x''"
proof -
  have dom: "dom (it_nodes demo_table) = {1, 2, 3}"
    by (auto simp: demo_table_def inode_op_defs u64_simps split: if_splits)
  then have it: "iteration_of (it_nodes demo_table) [3, 1, 2]"
    by (auto simp: iteration_of_def)
  have v: "vacant_prefix demo_table ''b/''"
    by (simp add: vacant_prefix_def demo_table_def inode_op_defs u64_simps)
  have g: "inode_get demo_table 3 = Some \<lparr>node_key = ''a/x'', node_kind = File, node_parent = 2\<rparr>"
    by (simp add: demo_table_def inode_op_defs u64_simps)
  show ?thesis
    using rekey_prefix_moves_subtree [OF demo_table_reach it v prod.collapse [symmetric], of "''a/''" 3] g
    by simp
qed

text \<open>
  Without that vacancy the bijection is lost: when the directory \<^verbatim>\<open>b/\<close> already has an
  inode, renaming \<^verbatim>\<open>a/\<close> onto it leaves the old inode of \<^verbatim>\<open>b/\<close> in the table, and forgetting
  that stale inode later removes the name of the directory that was moved there.
\<close>

theorem rekey_prefix_stale_destination:
  "\<exists>t iter. inode_reach t \<and> iteration_of (it_nodes t) iter \<and>
     (let t' = snd (rekey_prefix t iter ''a/'' ''b/'') in
        inode_get t' 2 \<noteq> None \<and> inode_get t' 3 \<noteq> None \<and>
        map_option node_key (inode_get t' 2) = map_option node_key (inode_get t' 3) \<and>
        lookup_key (forget t' 3) ''b/'' = None)"
proof -
  let ?t = "snd (intern (snd (intern (inode_new []) ''a/'' Dir 1)) ''b/'' Dir 1)"
  have "inode_reach ?t"
    by (intro reach_step [OF _ step_intern] reach_new) (simp_all add: inode_op_defs u64_simps)
  moreover have "iteration_of (it_nodes ?t) [1, 2, 3]"
    by (auto simp: iteration_of_def inode_op_defs u64_simps split: if_splits)
  moreover have "let t' = snd (rekey_prefix ?t [1, 2, 3] ''a/'' ''b/'') in
        inode_get t' 2 \<noteq> None \<and> inode_get t' 3 \<noteq> None \<and>
        map_option node_key (inode_get t' 2) = map_option node_key (inode_get t' 3) \<and>
        lookup_key (forget t' 3) ''b/'' = None"
    by (simp add: rekey_prefix_def affected_nodes_def rekey_one_def inode_op_defs u64_simps Let_def)
  ultimately show ?thesis by blast
qed

end
