(* ===== verification/Vfs.thy ===== *)
theory Vfs
  imports Writer Inode "HOL-Library.Word"
begin

text \<open>
  The file system core of the mount (\<^verbatim>\<open>src/mount/vfs.rs\<close>): the inode table, the attribute and
  directory caches, the open handles with their readers and writers, and every operation the
  FUSE adapter calls, over the S3 back end.

  An operation acts on the record \<open>vfs\<close> and on the world (service and local files); \<open>None\<close> means
  that it does not return, which only a listing that pages for ever causes. The record \<open>host\<close>
  holds what an operation finds around it: the SDK, the regex crate, the operating system, the
  completion order of concurrent requests, the reading of the clock, and the order in which a
  hash map is walked. Operations run one after the other; a lock is held by none of them.
\<close>

section \<open>State\<close>

record attr =
  at_ino :: nat
  at_kind :: node_kind
  at_size :: nat
  at_mtime :: int

record dir_entry =
  de_ino :: nat
  de_name :: string
  de_kind :: node_kind

record vfs_config =
  vc_attr_ttl :: int
  vc_dir_ttl :: int
  vc_uid :: nat
  vc_gid :: nat
  vc_chunk_size :: nat
  vc_buffer_size :: nat
  vc_concurrency :: nat

datatype handle_kind = ReadHandle chunk_reader | WriteHandle writer

record open_file =
  of_ino :: nat
  of_kind :: handle_kind

record vfs =
  vf_s3 :: s3
  vf_bucket :: string
  vf_cfg :: vfs_config
  vf_cache_dir :: string
  vf_start_time :: int
  vf_inodes :: inode_table
  vf_attr_cache :: "nat \<Rightarrow> (attr \<times> int) option"
  vf_dir_cache :: "nat \<Rightarrow> (dir_entry list \<times> int) option"
  vf_handles :: "nat \<Rightarrow> open_file option"
  vf_dirty_sizes :: "nat \<Rightarrow> (nat \<times> int) option"
  vf_next_fh :: nat

definition vfs_new :: "s3 \<Rightarrow> string \<Rightarrow> string \<Rightarrow> string \<Rightarrow> vfs_config \<Rightarrow> int \<Rightarrow> vfs" where
  "vfs_new s bucket root_prefix cache_dir cfg now =
     \<lparr>vf_s3 = s, vf_bucket = bucket, vf_cfg = cfg, vf_cache_dir = cache_dir, vf_start_time = now,
      vf_inodes = inode_new root_prefix, vf_attr_cache = (\<lambda>_. None), vf_dir_cache = (\<lambda>_. None),
      vf_handles = (\<lambda>_. None), vf_dirty_sizes = (\<lambda>_. None), vf_next_fh = 0\<rparr>"

record 's host =
  h_sdk :: "'s sdk"
  h_regex :: regex_lib
  h_env :: env
  h_sched :: "nat list \<Rightarrow> nat list"
  h_now :: int
  h_handles :: "nat list"
  h_nodes :: "nat list"

section \<open>Sequencing\<close>

type_synonym ('s, 'a) vio = "vfs \<Rightarrow> 's world \<Rightarrow> ((error, 'a) result \<times> vfs \<times> 's world) option"

definition v_return :: "'a \<Rightarrow> ('s, 'a) vio" where
  "v_return x v w = Some (Ok x, v, w)"

definition v_fail :: "error \<Rightarrow> ('s, 'a) vio" where
  "v_fail e v w = Some (Err e, v, w)"

definition v_result :: "(error, 'a) result \<Rightarrow> ('s, 'a) vio" where
  "v_result r v w = Some (r, v, w)"

definition v_match :: "('s, 'a) vio \<Rightarrow> ((error, 'a) result \<Rightarrow> ('s, 'b) vio) \<Rightarrow> ('s, 'b) vio" where
  "v_match m f v w = (case m v w of None \<Rightarrow> None | Some (r, v1, w1) \<Rightarrow> f r v1 w1)"

definition v_bind :: "('s, 'a) vio \<Rightarrow> ('a \<Rightarrow> ('s, 'b) vio) \<Rightarrow> ('s, 'b) vio" where
  "v_bind m f = v_match m (\<lambda>r. case r of Inl e \<Rightarrow> v_fail e | Inr x \<Rightarrow> f x)"

definition v_seq :: "('s, 'a) vio \<Rightarrow> ('s, 'b) vio \<Rightarrow> ('s, 'b) vio" where
  "v_seq m k = v_bind m (\<lambda>_. k)"

definition v_io :: "('s, 'a) io \<Rightarrow> ('s, 'a) vio" where
  "v_io act v w = (case act w of (r, w1) \<Rightarrow> Some (r, v, w1))"

definition v_get :: "(vfs \<Rightarrow> 'a) \<Rightarrow> ('s, 'a) vio" where
  "v_get f v w = Some (Ok (f v), v, w)"

definition v_modify :: "(vfs \<Rightarrow> vfs) \<Rightarrow> ('s, unit) vio" where
  "v_modify f v w = Some (Ok (), f v, w)"

fun v_each :: "('a \<Rightarrow> ('s, unit) vio) \<Rightarrow> 'a list \<Rightarrow> ('s, unit) vio" where
  "v_each f [] = v_return ()"
| "v_each f (x # xs) = v_seq (f x) (v_each f xs)"

section \<open>Helpers\<close>

definition is_not_found :: "error \<Rightarrow> bool" where
  "is_not_found e = (case e of ObjectNotFound _ \<Rightarrow> True | _ \<Rightarrow> False)"

definition is_no_object :: "error \<Rightarrow> bool" where
  "is_no_object e = (case e of NoObjectFound \<Rightarrow> True | _ \<Rightarrow> False)"

definition vfs_node :: "nat \<Rightarrow> ('s, node) vio" where
  "vfs_node ino v w =
     Some (case inode_get (vf_inodes v) ino of
             None \<Rightarrow> Err (ObjectNotFound (''inode '' @ show_nat ino))
           | Some n \<Rightarrow> Ok n, v, w)"

definition vfs_intern :: "string \<Rightarrow> node_kind \<Rightarrow> nat \<Rightarrow> ('s, nat) vio" where
  "vfs_intern key kind parent v w =
     (case intern (vf_inodes v) key kind parent of (ino, t) \<Rightarrow> Some (Ok ino, v\<lparr>vf_inodes := t\<rparr>, w))"

definition alloc_fh :: "('s, nat) vio" where
  "alloc_fh v w =
     Some (Ok (u64_add (vf_next_fh v) 1), v\<lparr>vf_next_fh := u64_add (vf_next_fh v) 1\<rparr>, w)"

definition parent_of :: "nat \<Rightarrow> vfs \<Rightarrow> nat" where
  "parent_of ino v = (case inode_get (vf_inodes v) ino of Some n \<Rightarrow> node_parent n | None \<Rightarrow> ROOT_INODE)"

definition dir_attr :: "nat \<Rightarrow> vfs \<Rightarrow> attr" where
  "dir_attr ino v = \<lparr>at_ino = ino, at_kind = Dir, at_size = 0, at_mtime = vf_start_time v\<rparr>"

definition file_attr :: "nat \<Rightarrow> nat \<Rightarrow> int \<Rightarrow> attr" where
  "file_attr ino sz mtime = \<lparr>at_ino = ino, at_kind = File, at_size = sz, at_mtime = mtime\<rparr>"

definition obj_attr :: "vfs \<Rightarrow> nat \<Rightarrow> object \<Rightarrow> attr" where
  "obj_attr v ino ob = file_attr ino (nat (max (ob_size ob) 0)) (unwrap_or (vf_start_time v) (ob_mod_time ob))"

definition cached_attr :: "'s host \<Rightarrow> nat \<Rightarrow> vfs \<Rightarrow> attr option" where
  "cached_attr H ino v =
     (case vf_attr_cache v ino of
        None \<Rightarrow> None
      | Some (a, t) \<Rightarrow> if h_now H - t < vc_attr_ttl (vf_cfg v) then Some a else None)"

definition store_attr :: "'s host \<Rightarrow> attr \<Rightarrow> vfs \<Rightarrow> vfs" where
  "store_attr H a v = v\<lparr>vf_attr_cache := (vf_attr_cache v)(at_ino a \<mapsto> (a, h_now H))\<rparr>"

definition invalidate_attr :: "nat \<Rightarrow> vfs \<Rightarrow> vfs" where
  "invalidate_attr ino v = v\<lparr>vf_attr_cache := (vf_attr_cache v)(ino := None)\<rparr>"

definition cached_dir :: "'s host \<Rightarrow> nat \<Rightarrow> vfs \<Rightarrow> dir_entry list option" where
  "cached_dir H ino v =
     (case vf_dir_cache v ino of
        None \<Rightarrow> None
      | Some (es, t) \<Rightarrow> if h_now H - t < vc_dir_ttl (vf_cfg v) then Some es else None)"

definition store_dir :: "'s host \<Rightarrow> nat \<Rightarrow> dir_entry list \<Rightarrow> vfs \<Rightarrow> vfs" where
  "store_dir H ino es v = v\<lparr>vf_dir_cache := (vf_dir_cache v)(ino \<mapsto> (es, h_now H))\<rparr>"

definition invalidate_dir :: "nat \<Rightarrow> vfs \<Rightarrow> vfs" where
  "invalidate_dir ino v = v\<lparr>vf_dir_cache := (vf_dir_cache v)(ino := None)\<rparr>"

definition set_dirty_size :: "'s host \<Rightarrow> nat \<Rightarrow> nat \<Rightarrow> vfs \<Rightarrow> vfs" where
  "set_dirty_size H ino sz v = v\<lparr>vf_dirty_sizes := (vf_dirty_sizes v)(ino \<mapsto> (sz, h_now H))\<rparr>"

definition dirty_entry :: "nat \<Rightarrow> vfs \<Rightarrow> (nat \<times> int) option" where
  "dirty_entry ino v = vf_dirty_sizes v ino"

definition dirty_size :: "nat \<Rightarrow> vfs \<Rightarrow> nat option" where
  "dirty_size ino v = map_option fst (vf_dirty_sizes v ino)"

definition clear_dirty_size :: "nat \<Rightarrow> vfs \<Rightarrow> vfs" where
  "clear_dirty_size ino v = v\<lparr>vf_dirty_sizes := (vf_dirty_sizes v)(ino := None)\<rparr>"

definition obj_url :: "'s host \<Rightarrow> string \<Rightarrow> ('s, url) vio" where
  "obj_url H key v w =
     Some (case url_parse (h_regex H) (''s3://'' @ vf_bucket v @ ''/'' @ key) of
             Inl e \<Rightarrow> Err (Message e) | Inr u \<Rightarrow> Ok u, v, w)"

definition list_url :: "'s host \<Rightarrow> string \<Rightarrow> ('s, url) vio" where
  "list_url H prefix = obj_url H prefix"

definition list_url_recursive :: "'s host \<Rightarrow> string \<Rightarrow> ('s, url) vio" where
  "list_url_recursive H prefix = v_bind (list_url H prefix) (\<lambda>u. v_return (u\<lparr>url_delimiter := []\<rparr>))"

text \<open>Calls of the back end with the mount's client.\<close>

definition vfs_s3 :: "(s3 \<Rightarrow> ('s, 'a) io) \<Rightarrow> ('s, 'a) vio" where
  "vfs_s3 act v w = v_io (act (vf_s3 v)) v w"

definition vfs_stat :: "'s host \<Rightarrow> url \<Rightarrow> ('s, object) vio" where
  "vfs_stat H u = vfs_s3 (\<lambda>s. s3_stat (h_sdk H) s u)"

definition vfs_list :: "'s host \<Rightarrow> url \<Rightarrow> ('s, object list) vio" where
  "vfs_list H u v w =
     (case s3_list (h_sdk H) (h_regex H) (vf_s3 v) u w of
        None \<Rightarrow> None | Some (os, w1) \<Rightarrow> Some (Ok os, v, w1))"

definition vfs_delete_obj :: "'s host \<Rightarrow> url \<Rightarrow> ('s, unit) vio" where
  "vfs_delete_obj H u = vfs_s3 (\<lambda>s. s3_delete (h_sdk H) s u)"

definition vfs_copy_obj :: "'s host \<Rightarrow> url \<Rightarrow> url \<Rightarrow> ('s, unit) vio" where
  "vfs_copy_obj H src dst = vfs_s3 (\<lambda>s. s3_copy (h_sdk H) (h_sched H) s src dst default_metadata)"

definition vfs_upload :: "'s host \<Rightarrow> string \<Rightarrow> url \<Rightarrow> ('s, unit) vio" where
  "vfs_upload H path dst = vfs_s3 (\<lambda>s. s3_upload (h_sdk H) (h_env H) (h_sched H) s path dst default_metadata)"

definition vfs_download :: "'s host \<Rightarrow> url \<Rightarrow> string \<Rightarrow> ('s, unit) vio" where
  "vfs_download H src path = vfs_s3 (\<lambda>s. s3_download (h_sdk H) (h_env H) (h_sched H) s src path)"

definition ignore_remove :: "'s host \<Rightarrow> string \<Rightarrow> ('s, unit) vio" where
  "ignore_remove H path v w = Some (Ok (), v, snd (os_remove (h_env H) path w))"

definition prefix_exists :: "'s host \<Rightarrow> string \<Rightarrow> ('s, bool) vio" where
  "prefix_exists H dir_key =
     v_bind (list_url H dir_key) (\<lambda>u.
     v_bind (vfs_list H u) (\<lambda>os.
       case os of
         [] \<Rightarrow> v_return False
       | ob # _ \<Rightarrow>
           (case ob_err ob of
              Some e \<Rightarrow> if is_no_object e then v_return False else v_fail e
            | None \<Rightarrow> v_return True)))"

fun only_marker :: "string \<Rightarrow> object list \<Rightarrow> (error, bool) result" where
  "only_marker dir_key [] = Ok True"
| "only_marker dir_key (ob # os) =
     (case ob_err ob of
        Some e \<Rightarrow> if is_no_object e then Ok True else Err e
      | None \<Rightarrow>
          (case ob_url ob of
             Some u \<Rightarrow> if url_path u \<noteq> dir_key then Ok False else only_marker dir_key os
           | None \<Rightarrow> only_marker dir_key os))"

definition dir_is_empty :: "'s host \<Rightarrow> string \<Rightarrow> ('s, bool) vio" where
  "dir_is_empty H dir_key =
     v_bind (list_url H dir_key) (\<lambda>u. v_bind (vfs_list H u) (\<lambda>os. v_result (only_marker dir_key os)))"

definition cache_path :: "string \<Rightarrow> char \<Rightarrow> nat \<Rightarrow> string" where
  "cache_path dir c fh = path_push dir (c # show_nat fh @ ''.tmp'')"

definition put_empty_object :: "'s host \<Rightarrow> string \<Rightarrow> ('s, unit) vio" where
  "put_empty_object H key =
     v_bind (obj_url H key) (\<lambda>u.
     v_bind alloc_fh (\<lambda>i.
     v_bind (v_get vf_cache_dir) (\<lambda>dir.
       let tmp = cache_path dir (CHR ''e'') i in
       v_seq (v_io (os_write_file (h_env H) tmp []))
         (v_match (vfs_upload H tmp u) (\<lambda>res. v_seq (ignore_remove H tmp) (v_result res))))))"

section \<open>Handles\<close>

definition is_writer :: "open_file \<Rightarrow> bool" where
  "is_writer f = (case of_kind f of WriteHandle _ \<Rightarrow> True | ReadHandle _ \<Rightarrow> False)"

definition write_handle_of :: "nat \<Rightarrow> vfs \<Rightarrow> (error, nat \<times> writer) result" where
  "write_handle_of fh v =
     (case vf_handles v fh of
        None \<Rightarrow> Err (Message (''unknown handle '' @ show_nat fh))
      | Some f \<Rightarrow>
          (case of_kind f of
             WriteHandle wr \<Rightarrow> Ok (of_ino f, wr)
           | ReadHandle _ \<Rightarrow> Err (Message (''handle '' @ show_nat fh @ '' is not open for writing''))))"

text \<open>The handle found stands for the reference to its writer.\<close>

definition find_write_handle :: "'s host \<Rightarrow> nat \<Rightarrow> nat option \<Rightarrow> vfs \<Rightarrow> nat option" where
  "find_write_handle H ino fh v =
     (let fits = (\<lambda>h. case vf_handles v h of Some f \<Rightarrow> is_writer f \<and> of_ino f = ino | None \<Rightarrow> False)
      in case fh of
           Some h \<Rightarrow> if fits h then Some h else List.find fits (h_handles H)
         | None \<Rightarrow> List.find fits (h_handles H))"

definition set_writer :: "nat \<Rightarrow> writer \<Rightarrow> vfs \<Rightarrow> vfs" where
  "set_writer fh wr v =
     v\<lparr>vf_handles := (vf_handles v)(fh := map_option (\<lambda>f. f\<lparr>of_kind := WriteHandle wr\<rparr>) (vf_handles v fh))\<rparr>"

definition set_reader :: "nat \<Rightarrow> chunk_reader \<Rightarrow> vfs \<Rightarrow> vfs" where
  "set_reader fh r v =
     v\<lparr>vf_handles := (vf_handles v)(fh := map_option (\<lambda>f. f\<lparr>of_kind := ReadHandle r\<rparr>) (vf_handles v fh))\<rparr>"

definition insert_handle :: "nat \<Rightarrow> nat \<Rightarrow> handle_kind \<Rightarrow> vfs \<Rightarrow> vfs" where
  "insert_handle fh ino k v = v\<lparr>vf_handles := (vf_handles v)(fh \<mapsto> \<lparr>of_ino = ino, of_kind = k\<rparr>)\<rparr>"

text \<open>Record the in-progress size of a file being written and its attributes.\<close>

definition note_size :: "'s host \<Rightarrow> nat \<Rightarrow> nat \<Rightarrow> vfs \<Rightarrow> vfs" where
  "note_size H ino sz v = store_attr H (file_attr ino sz (h_now H)) (set_dirty_size H ino sz v)"

section \<open>Attributes and lookup\<close>

definition getattr :: "'s host \<Rightarrow> nat \<Rightarrow> ('s, attr) vio" where
  "getattr H ino =
     v_bind (vfs_node ino) (\<lambda>n.
       case node_kind n of
         Dir \<Rightarrow> v_get (dir_attr ino)
       | File \<Rightarrow>
           v_bind (v_get (dirty_entry ino)) (\<lambda>d.
             case d of
               Some (sz, mtime) \<Rightarrow> v_return (file_attr ino sz mtime)
             | None \<Rightarrow>
                 v_bind (v_get (cached_attr H ino)) (\<lambda>c.
                   case c of
                     Some a \<Rightarrow> v_return a
                   | None \<Rightarrow>
                       v_bind (obj_url H (node_key n)) (\<lambda>u.
                       v_bind (vfs_stat H u) (\<lambda>ob.
                       v_bind (v_get (\<lambda>v. obj_attr v ino ob)) (\<lambda>a.
                         v_seq (v_modify (store_attr H a)) (v_return a)))))))"

text \<open>The probe of the service that a lookup falls back to: a file first, then a directory.\<close>

definition lookup_probe :: "'s host \<Rightarrow> nat \<Rightarrow> node \<Rightarrow> string \<Rightarrow> ('s, attr) vio" where
  "lookup_probe H parent pnode name =
     (let file_key = node_key pnode @ name; dir_key = node_key pnode @ name @ ''/'' in
      v_bind (obj_url H file_key) (\<lambda>u.
      v_match (vfs_stat H u) (\<lambda>r.
        case r of
          Inr ob \<Rightarrow>
            v_bind (vfs_intern file_key File parent) (\<lambda>cino.
            v_bind (v_get (\<lambda>v. obj_attr v cino ob)) (\<lambda>a.
              v_seq (v_modify (store_attr H a)) (v_return a)))
        | Inl e \<Rightarrow>
            if \<not> is_not_found e then v_fail e
            else
              v_bind (prefix_exists H dir_key) (\<lambda>ex.
                if ex then v_bind (vfs_intern dir_key Dir parent) (\<lambda>cino. v_get (dir_attr cino))
                else v_fail (ObjectNotFound name)))))"

definition vfs_lookup :: "'s host \<Rightarrow> nat \<Rightarrow> string \<Rightarrow> ('s, attr) vio" where
  "vfs_lookup H parent name =
     v_bind (vfs_node parent) (\<lambda>pnode.
       if \<not> is_dir (node_kind pnode) then v_fail (ObjectNotFound name)
       else
         v_bind (v_get (\<lambda>v. case lookup_key (vf_inodes v) (node_key pnode @ name) of
                              Some ino \<Rightarrow> if dirty_size ino v \<noteq> None then Some ino else None
                            | None \<Rightarrow> None)) (\<lambda>pending.
           case pending of
             Some ino \<Rightarrow> getattr H ino
           | None \<Rightarrow>
               v_bind (v_get (cached_dir H parent)) (\<lambda>es.
                 case List.find (\<lambda>e. de_name e = name) (unwrap_or [] es) of
                   Some e \<Rightarrow> getattr H (de_ino e)
                 | None \<Rightarrow> lookup_probe H parent pnode name)))"

section \<open>Directories\<close>

record dir_scan =
  ds_entries :: "dir_entry list"
  ds_attrs :: "attr list"
  ds_seen :: "string list"

definition scan_child :: "nat \<Rightarrow> string \<Rightarrow> node_kind \<Rightarrow> (vfs \<Rightarrow> nat \<Rightarrow> attr) \<Rightarrow> string \<Rightarrow> dir_scan \<Rightarrow> vfs \<Rightarrow> dir_scan \<times> vfs" where
  "scan_child ino name kind mk key sc v =
     (case intern (vf_inodes v) key kind ino of
        (cino, t) \<Rightarrow>
          (sc\<lparr>ds_entries := ds_entries sc @ [\<lparr>de_ino = cino, de_name = name, de_kind = kind\<rparr>],
              ds_attrs := ds_attrs sc @ [mk v cino], ds_seen := name # ds_seen sc\<rparr>,
           v\<lparr>vf_inodes := t\<rparr>))"

fun readdir_loop :: "nat \<Rightarrow> string \<Rightarrow> object list \<Rightarrow> dir_scan \<Rightarrow> vfs \<Rightarrow> (error, dir_scan) result \<times> vfs" where
  "readdir_loop ino key [] sc v = (Ok sc, v)"
| "readdir_loop ino key (ob # os) sc v =
     (case ob_err ob of
        Some e \<Rightarrow> if is_no_object e then (Ok sc, v) else (Err e, v)
      | None \<Rightarrow>
          (case ob_url ob of
             None \<Rightarrow> readdir_loop ino key os sc v
           | Some u \<Rightarrow>
               let rel = unwrap_or (url_path u) (strip_prefix (url_path u) key) in
               if rel = [] then readdir_loop ino key os sc v
               else
                 (case ob_typ ob of
                    DirType \<Rightarrow>
                      let name = trim_end_matches (CHR ''/'') rel in
                      if name = [] \<or> name \<in> set (ds_seen sc) then readdir_loop ino key os sc v
                      else (case scan_child ino name Dir (\<lambda>v i. dir_attr i v) (key @ name @ ''/'') sc v of
                              (sc1, v1) \<Rightarrow> readdir_loop ino key os sc1 v1)
                  | FileType \<Rightarrow>
                      if rel \<in> set (ds_seen sc) then readdir_loop ino key os sc v
                      else (case scan_child ino rel File (\<lambda>v i. obj_attr v i ob) (key @ rel) sc v of
                              (sc1, v1) \<Rightarrow> readdir_loop ino key os sc1 v1)
                  | _ \<Rightarrow> readdir_loop ino key os sc v)))"

text \<open>Files written through the mount that may not be in the service yet.\<close>

definition dirty_children :: "'s host \<Rightarrow> nat \<Rightarrow> vfs \<Rightarrow> (nat \<times> string) list" where
  "dirty_children H ino v =
     (case inode_get (vf_inodes v) ino of
        None \<Rightarrow> []
      | Some p \<Rightarrow>
          let write_inos = concat (map (\<lambda>h. case vf_handles v h of
                  Some f \<Rightarrow> if is_writer f then [of_ino f] else [] | None \<Rightarrow> []) (h_handles H))
          in concat (map (\<lambda>cino. case inode_get (vf_inodes v) cino of
               None \<Rightarrow> []
             | Some n \<Rightarrow>
                 if node_parent n = ino \<and> \<not> is_dir (node_kind n) then
                   (case strip_prefix (node_key n) (node_key p) of
                      Some name \<Rightarrow> if name \<noteq> [] \<and> \<not> contains_str name ''/'' then [(cino, name)] else []
                    | None \<Rightarrow> [])
                 else []) write_inos))"

fun merge_dirty :: "(nat \<times> string) list \<Rightarrow> dir_scan \<Rightarrow> dir_scan" where
  "merge_dirty [] sc = sc"
| "merge_dirty ((cino, name) # cs) sc =
     merge_dirty cs
       (if name \<in> set (ds_seen sc) then sc
        else sc\<lparr>ds_entries := ds_entries sc @ [\<lparr>de_ino = cino, de_name = name, de_kind = File\<rparr>],
                ds_seen := name # ds_seen sc\<rparr>)"

definition readdir :: "'s host \<Rightarrow> nat \<Rightarrow> ('s, dir_entry list) vio" where
  "readdir H ino =
     v_bind (vfs_node ino) (\<lambda>n.
       if \<not> is_dir (node_kind n) then v_fail (ObjectNotFound (''inode '' @ show_nat ino))
       else
         v_bind (v_get (cached_dir H ino)) (\<lambda>c.
           case c of
             Some es \<Rightarrow> v_return es
           | None \<Rightarrow>
               v_bind (list_url H (node_key n)) (\<lambda>u.
               v_bind (vfs_list H u) (\<lambda>os v w.
                 case readdir_loop ino (node_key n) os \<lparr>ds_entries = [], ds_attrs = [], ds_seen = []\<rparr> v of
                   (Inl e, v1) \<Rightarrow> Some (Err e, v1, w)
                 | (Inr sc, v1) \<Rightarrow>
                     let sc1 = merge_dirty (dirty_children H ino v1) sc;
                         v2 = store_dir H ino (ds_entries sc1) (fold (store_attr H) (ds_attrs sc1) v1)
                     in Some (Ok (ds_entries sc1), v2, w)))))"

section \<open>Reading\<close>

definition vfs_read :: "'s host \<Rightarrow> nat \<Rightarrow> nat \<Rightarrow> nat \<Rightarrow> ('s, string) vio" where
  "vfs_read H ino offset sz =
     v_bind (vfs_node ino) (\<lambda>n.
       if is_dir (node_kind n) then v_fail (ObjectNotFound (''inode '' @ show_nat ino @ '' is a directory''))
       else
         v_bind (getattr H ino) (\<lambda>a.
           if at_size a \<le> offset then v_return []
           else
             v_bind (obj_url H (node_key n)) (\<lambda>u.
               vfs_s3 (\<lambda>s. read_range (h_sdk H) s u offset (min sz (at_size a - offset))))))"

text \<open>The range requests of one read are answered from the service as it is when the read starts.\<close>

definition read_handle :: "'s host \<Rightarrow> nat \<Rightarrow> nat \<Rightarrow> nat \<Rightarrow> nat \<Rightarrow> ('s, string) vio" where
  "read_handle H ino fh offset sz v w =
     (case vf_handles v fh of
        None \<Rightarrow> vfs_read H ino offset sz v w
      | Some f \<Rightarrow>
          (case of_kind f of
             ReadHandle r \<Rightarrow>
               (case read_chunks (\<lambda>start len. fst (read_range (h_sdk H) (vf_s3 v) (cr_url r) start len w))
                       (h_sched H) r offset sz of
                  (res, r1) \<Rightarrow> Some (res, set_reader fh r1 v, w))
           | WriteHandle wr \<Rightarrow> v_io (writer_read (h_env H) wr offset sz) v w))"

section \<open>Opening and creating\<close>

definition O_ACCMODE :: "32 word" where "O_ACCMODE = 3"
definition O_RDONLY :: "32 word" where "O_RDONLY = 0"
definition O_TRUNC :: "32 word" where "O_TRUNC = 512"

definition opens_for_writing :: "32 word \<Rightarrow> bool" where
  "opens_for_writing flags \<longleftrightarrow> and flags O_ACCMODE \<noteq> O_RDONLY \<or> and flags O_TRUNC \<noteq> 0"

text \<open>The cache file of a write open: its size and whether it must be uploaded anyway.\<close>

definition open_empty_cache :: "'s host \<Rightarrow> string \<Rightarrow> ('s, nat \<times> bool) vio" where
  "open_empty_cache H path = v_seq (v_io (open_cache_file (h_env H) path True)) (v_return (0, True))"

definition load_cache :: "'s host \<Rightarrow> url \<Rightarrow> string \<Rightarrow> ('s, nat \<times> bool) vio" where
  "load_cache H dst path =
     v_match (vfs_stat H dst) (\<lambda>st.
       case st of
         Inr _ \<Rightarrow>
           v_match (vfs_download H dst path) (\<lambda>dl.
             case dl of
               Inr _ \<Rightarrow>
                 v_seq (v_io (open_cache_file (h_env H) path False))
                   (v_match (v_io (os_len (h_env H) path)) (\<lambda>l.
                      v_return (case l of Inr n \<Rightarrow> n | Inl _ \<Rightarrow> 0, False)))
             | Inl e \<Rightarrow>
                 v_seq (ignore_remove H path)
                   (if is_not_found e then open_empty_cache H path else v_fail e))
       | Inl e \<Rightarrow> if is_not_found e then open_empty_cache H path else v_fail e)"

definition vfs_open :: "'s host \<Rightarrow> nat \<Rightarrow> 32 word \<Rightarrow> ('s, nat) vio" where
  "vfs_open H ino flags =
     v_bind (vfs_node ino) (\<lambda>n.
       if is_dir (node_kind n) then v_fail (ObjectNotFound (''inode '' @ show_nat ino @ '' is a directory''))
       else
         v_bind alloc_fh (\<lambda>fh.
           if \<not> opens_for_writing flags then
             v_bind (getattr H ino) (\<lambda>a.
             v_bind (obj_url H (node_key n)) (\<lambda>u.
             v_bind (v_get vf_cfg) (\<lambda>cfg.
               v_seq (v_modify (insert_handle fh ino (ReadHandle
                        (reader_new u (at_size a) (vc_chunk_size cfg) (vc_buffer_size cfg) (vc_concurrency cfg)))))
                 (v_return fh))))
           else
             v_bind (obj_url H (node_key n)) (\<lambda>dst.
             v_bind (v_get (\<lambda>v. cache_path (vf_cache_dir v) (CHR ''h'') fh)) (\<lambda>path.
             v_bind (if and flags O_TRUNC \<noteq> 0 then open_empty_cache H path else load_cache H dst path) (\<lambda>(sz, dirty).
               v_seq (v_modify (\<lambda>v. note_size H ino sz
                        (insert_handle fh ino (WriteHandle (writer_new path dst sz dirty)) v)))
                 (v_return fh))))))"

definition vfs_create :: "'s host \<Rightarrow> nat \<Rightarrow> string \<Rightarrow> ('s, nat \<times> nat \<times> attr) vio" where
  "vfs_create H parent name =
     v_bind (vfs_node parent) (\<lambda>pnode.
       if \<not> is_dir (node_kind pnode) then v_fail (ObjectNotFound name)
       else
         let file_key = node_key pnode @ name in
         v_bind (vfs_intern file_key File parent) (\<lambda>ino.
         v_bind alloc_fh (\<lambda>fh.
         v_bind (v_get (\<lambda>v. cache_path (vf_cache_dir v) (CHR ''h'') fh)) (\<lambda>path.
         v_seq (v_io (open_cache_file (h_env H) path True))
           (v_bind (obj_url H file_key) (\<lambda>dst.
              v_seq (v_modify (\<lambda>v. invalidate_dir parent (note_size H ino 0
                       (insert_handle fh ino (WriteHandle (writer_new path dst 0 True)) v))))
                (v_return (ino, fh, file_attr ino 0 (h_now H)))))))))"

section \<open>Writing\<close>

definition write_handle :: "'s host \<Rightarrow> nat \<Rightarrow> nat \<Rightarrow> string \<Rightarrow> ('s, nat) vio" where
  "write_handle H fh offset data =
     v_bind (v_get (write_handle_of fh)) (\<lambda>r. v_bind (v_result r) (\<lambda>(ino, wr).
     v_bind (v_io (writer_write (h_env H) wr offset data)) (\<lambda>(_, wr1).
       v_seq (v_modify (\<lambda>v. note_size H ino (wr_size wr1) (set_writer fh wr1 v)))
         (v_return (length data)))))"

definition flush_handle :: "'s host \<Rightarrow> nat \<Rightarrow> ('s, unit) vio" where
  "flush_handle H fh =
     v_bind (v_get (write_handle_of fh)) (\<lambda>r.
       case r of
         Inl _ \<Rightarrow> v_return ()
       | Inr (_, wr) \<Rightarrow>
           v_bind (vfs_s3 (\<lambda>s. writer_flush (h_sdk H) (h_env H) (h_sched H) s wr)) (\<lambda>wr1.
             v_modify (set_writer fh wr1)))"

definition vfs_release :: "'s host \<Rightarrow> nat \<Rightarrow> ('s, unit) vio" where
  "vfs_release H fh =
     v_bind (v_get (\<lambda>v. vf_handles v fh)) (\<lambda>h.
     v_seq (v_modify (\<lambda>v. v\<lparr>vf_handles := (vf_handles v)(fh := None)\<rparr>))
       (case h of
          None \<Rightarrow> v_return ()
        | Some f \<Rightarrow>
            (case of_kind f of
               ReadHandle _ \<Rightarrow> v_return ()
             | WriteHandle wr \<Rightarrow>
                 v_bind (vfs_s3 (\<lambda>s. writer_flush (h_sdk H) (h_env H) (h_sched H) s wr)) (\<lambda>wr1 v w.
                   let v1 = store_attr H (file_attr (of_ino f) (wr_size wr1) (h_now H)) (clear_dirty_size (of_ino f) v);
                       v2 = invalidate_dir (parent_of (of_ino f) v1) v1
                   in Some (Ok (), v2, writer_drop (h_env H) wr1 w)))))"

definition truncate_object_inner :: "'s host \<Rightarrow> url \<Rightarrow> string \<Rightarrow> nat \<Rightarrow> ('s, unit) vio" where
  "truncate_object_inner H dst path new_size =
     v_seq (v_match (vfs_stat H dst) (\<lambda>st.
              case st of
                Inr _ \<Rightarrow> vfs_download H dst path
              | Inl e \<Rightarrow> if is_not_found e then v_io (os_write_file (h_env H) path []) else v_fail e))
       (v_seq (v_io (open_cache_file (h_env H) path False))
       (v_seq (v_io (os_update (h_env H) ''set_len'' path (file_set_len new_size)))
       (v_seq (v_io (os_call (h_env H) ''sync_all'' path (io_return ())))
              (vfs_upload H path dst))))"

definition truncate_object :: "'s host \<Rightarrow> nat \<Rightarrow> nat \<Rightarrow> ('s, unit) vio" where
  "truncate_object H ino new_size =
     v_bind (vfs_node ino) (\<lambda>n.
     v_bind (obj_url H (node_key n)) (\<lambda>dst.
     v_bind alloc_fh (\<lambda>i.
     v_bind (v_get (\<lambda>v. cache_path (vf_cache_dir v) (CHR ''t'') i)) (\<lambda>path.
     v_match (truncate_object_inner H dst path new_size) (\<lambda>res.
       v_seq (ignore_remove H path)
         (v_seq (v_result res) (v_modify (store_attr H (file_attr ino new_size (h_now H))))))))))"

definition vfs_setattr :: "'s host \<Rightarrow> nat \<Rightarrow> nat option \<Rightarrow> nat option \<Rightarrow> ('s, attr) vio" where
  "vfs_setattr H ino sz fh =
     v_seq (case sz of
              None \<Rightarrow> v_return ()
            | Some new_size \<Rightarrow>
                v_bind (v_get (\<lambda>v. case find_write_handle H ino fh v of
                     None \<Rightarrow> None
                   | Some h \<Rightarrow> (case write_handle_of h v of Inr (_, wr) \<Rightarrow> Some (h, wr) | Inl _ \<Rightarrow> None))) (\<lambda>x.
                  case x of
                    Some (h, wr) \<Rightarrow>
                      v_bind (v_io (writer_truncate (h_env H) wr new_size)) (\<lambda>wr1.
                        v_modify (\<lambda>v. note_size H ino (wr_size wr1) (set_writer h wr1 v)))
                  | None \<Rightarrow> truncate_object H ino new_size))
       (getattr H ino)"

section \<open>The name space\<close>

definition vfs_unlink :: "'s host \<Rightarrow> nat \<Rightarrow> string \<Rightarrow> ('s, unit) vio" where
  "vfs_unlink H parent name =
     v_bind (vfs_node parent) (\<lambda>pnode.
       let file_key = node_key pnode @ name in
       v_bind (obj_url H file_key) (\<lambda>u.
       v_seq (vfs_delete_obj H u)
         (v_modify (\<lambda>v.
            let v1 = (case lookup_key (vf_inodes v) file_key of
                        None \<Rightarrow> v
                      | Some ino \<Rightarrow>
                          let v1 = clear_dirty_size ino (invalidate_attr ino v)
                          in v1\<lparr>vf_inodes := forget (vf_inodes v1) ino\<rparr>)
            in invalidate_dir parent v1))))"

definition vfs_mkdir :: "'s host \<Rightarrow> nat \<Rightarrow> string \<Rightarrow> ('s, attr) vio" where
  "vfs_mkdir H parent name =
     v_bind (vfs_node parent) (\<lambda>pnode.
       let file_key = node_key pnode @ name; dir_key = node_key pnode @ name @ ''/'' in
       v_bind (obj_url H file_key) (\<lambda>u.
       v_match (vfs_stat H u) (\<lambda>st.
         case st of
           Inr _ \<Rightarrow> v_fail AlreadyExists
         | Inl e \<Rightarrow>
             if \<not> is_not_found e then v_fail e
             else
               v_bind (prefix_exists H dir_key) (\<lambda>ex.
                 if ex then v_fail AlreadyExists
                 else
                   v_seq (put_empty_object H dir_key)
                     (v_bind (vfs_intern dir_key Dir parent) (\<lambda>ino.
                        v_seq (v_modify (invalidate_dir parent)) (v_get (dir_attr ino))))))))"

definition vfs_rmdir :: "'s host \<Rightarrow> nat \<Rightarrow> string \<Rightarrow> ('s, unit) vio" where
  "vfs_rmdir H parent name =
     v_bind (vfs_node parent) (\<lambda>pnode.
       let dir_key = node_key pnode @ name @ ''/'' in
       v_bind (dir_is_empty H dir_key) (\<lambda>empty.
         if \<not> empty then v_fail DirNotEmpty
         else
           v_bind (obj_url H dir_key) (\<lambda>u.
           v_seq (vfs_delete_obj H u)
             (v_modify (\<lambda>v.
                let v1 = (case lookup_key (vf_inodes v) dir_key of
                            None \<Rightarrow> v
                          | Some ino \<Rightarrow>
                              let v1 = invalidate_dir ino v in v1\<lparr>vf_inodes := forget (vf_inodes v1) ino\<rparr>)
                in invalidate_dir parent v1)))))"

text \<open>What a file rename does to the tables once the object has moved.\<close>

definition rename_forget_dest :: "string \<Rightarrow> vfs \<Rightarrow> vfs" where
  "rename_forget_dest new_file v =
     (case lookup_key (vf_inodes v) new_file of
        None \<Rightarrow> v
      | Some d \<Rightarrow> (invalidate_attr d v)\<lparr>vf_inodes := forget (vf_inodes v) d\<rparr>)"

definition rename_rekey :: "'s host \<Rightarrow> string \<Rightarrow> string \<Rightarrow> vfs \<Rightarrow> vfs" where
  "rename_rekey H old_file new_file v =
     (case lookup_key (vf_inodes v) old_file of
        None \<Rightarrow> v
      | Some ino \<Rightarrow>
          let v1 = invalidate_attr ino (v\<lparr>vf_inodes := rekey (vf_inodes v) ino new_file\<rparr>) in
          (case find_write_handle H ino None v1 of
             None \<Rightarrow> v1
           | Some h \<Rightarrow>
               (case (url_parse (h_regex H) (''s3://'' @ vf_bucket v1 @ ''/'' @ new_file), write_handle_of h v1) of
                  (Inr u, Inr (_, wr)) \<Rightarrow> set_writer h (writer_set_dst wr u) v1
                | _ \<Rightarrow> v1)))"

definition rename_file :: "'s host \<Rightarrow> nat \<Rightarrow> nat \<Rightarrow> string \<Rightarrow> string \<Rightarrow> ('s, unit) vio" where
  "rename_file H parent newparent old_file new_file =
     v_bind (obj_url H old_file) (\<lambda>src.
     v_bind (obj_url H new_file) (\<lambda>dst.
     v_seq (vfs_copy_obj H src dst)
       (v_seq (vfs_delete_obj H src)
         (v_modify (\<lambda>v. invalidate_dir newparent (invalidate_dir parent
            (rename_rekey H old_file new_file (rename_forget_dest new_file v))))))))"

fun rename_keys :: "object list \<Rightarrow> (error, string list) result" where
  "rename_keys [] = Ok []"
| "rename_keys (ob # os) =
     (case ob_err ob of
        Some e \<Rightarrow> if is_no_object e then Ok [] else Err e
      | None \<Rightarrow>
          and_then (rename_keys os) (\<lambda>ks. Ok (case ob_url ob of Some u \<Rightarrow> url_path u # ks | None \<Rightarrow> ks)))"

definition rename_dir :: "'s host \<Rightarrow> nat \<Rightarrow> nat \<Rightarrow> string \<Rightarrow> string \<Rightarrow> string \<Rightarrow> ('s, unit) vio" where
  "rename_dir H parent newparent name old_prefix new_prefix =
     v_bind (prefix_exists H old_prefix) (\<lambda>ex.
       if \<not> ex then v_fail (ObjectNotFound name)
       else
         v_bind (list_url_recursive H old_prefix) (\<lambda>u.
         v_bind (vfs_list H u) (\<lambda>os.
         v_bind (v_result (rename_keys os)) (\<lambda>keys.
         v_seq (v_each (\<lambda>k.
              v_bind (obj_url H k) (\<lambda>src.
              v_bind (obj_url H (new_prefix @ unwrap_or k (strip_prefix k old_prefix))) (\<lambda>dst.
                vfs_copy_obj H src dst))) keys)
           (v_seq (v_each (\<lambda>k. v_bind (obj_url H k) (vfs_delete_obj H)) keys)
             (v_modify (\<lambda>v.
                case rekey_prefix (vf_inodes v) (h_nodes H) old_prefix new_prefix of
                  (affected, t) \<Rightarrow>
                    invalidate_dir newparent (invalidate_dir parent
                      (fold invalidate_attr affected (v\<lparr>vf_inodes := t\<rparr>))))))))))"

definition vfs_rename :: "'s host \<Rightarrow> nat \<Rightarrow> string \<Rightarrow> nat \<Rightarrow> string \<Rightarrow> ('s, unit) vio" where
  "vfs_rename H parent name newparent newname =
     v_bind (vfs_node parent) (\<lambda>pnode.
     v_bind (vfs_node newparent) (\<lambda>npnode.
       let old_file = node_key pnode @ name; new_file = node_key npnode @ newname in
       v_bind (obj_url H old_file) (\<lambda>src.
       v_match (vfs_stat H src) (\<lambda>st.
         case st of
           Inr _ \<Rightarrow> rename_file H parent newparent old_file new_file
         | Inl e \<Rightarrow>
             if is_not_found e then
               rename_dir H parent newparent name (node_key pnode @ name @ ''/'') (node_key npnode @ newname @ ''/'')
             else v_fail e))))"

end
