(* ===== verification/Vfs_Props.thy ===== *)
theory Vfs_Props
  imports Vfs
begin

text \<open>
  What the file system core guarantees. First which operations leave the handles and the local
  files alone, then the invariant of the open handles under every operation, then the contract of
  a file being written: a byte string that writes, truncation and reads act on and that the
  release of the handle stores as the object.
\<close>

section \<open>What leaves the local files alone\<close>

text \<open>A call of the back end that changes no local file, whatever the service does.\<close>

definition io_quiet :: "('s, 'a) io \<Rightarrow> bool" where
  "io_quiet m \<longleftrightarrow> (\<forall>w r w'. m w = (r, w') \<longrightarrow> w_files w' = w_files w)"

lemma io_quiet_intros [intro!]:
  "io_quiet (io_return x)" "io_quiet (send_try req)" "io_quiet (os_read E p)" "io_quiet (os_len E p)"
  "io_quiet (\<lambda>w. (r, w))" "io_quiet (os_read_exact E p offset len)" "io_quiet (need_upload_id i)"
  "io_quiet (conditional_send creq dst)"
  by (auto simp: io_quiet_def io_return_def send_try_def send_def os_read_def os_len_def os_call_def
      os_read_exact_def io_bind_def need_upload_id_def conditional_send_def split: prod.splits sum.splits option.splits if_splits)

lemma io_quiet_bind [intro!]:
  assumes "io_quiet m" "\<And>x. io_quiet (f x)"
  shows "io_quiet (io_bind m f)"
  using assms unfolding io_quiet_def io_bind_def by (fastforce split: prod.splits sum.splits)

lemma io_quietD: "io_quiet m \<Longrightarrow> m w = (r, w') \<Longrightarrow> w_files w' = w_files w"
  by (simp add: io_quiet_def)

lemma run_tasks_quiet:
  assumes "\<And>t. t \<in> set ts \<Longrightarrow> io_quiet t"
  shows "run_tasks ts w = (rs, w') \<Longrightarrow> w_files w' = w_files w"
  using assms
proof (induction ts arbitrary: w rs)
  case (Cons t ts)
  obtain r w1 where t: "t w = (r, w1)" by fastforce
  with Cons show ?case by (fastforce split: prod.splits dest: io_quietD)
qed simp

lemma join_all_quiet [intro!]: "(\<And>t. t \<in> set ts \<Longrightarrow> io_quiet t) \<Longrightarrow> io_quiet (join_all ts)"
  using run_tasks_quiet by (fastforce simp: io_quiet_def join_all_def split: prod.splits)

lemma finish_multipart_quiet [intro!]:
  assumes "io_quiet fill" "\<And>parts. io_quiet (complete parts)"
  shows "io_quiet (finish_multipart C s dst uid fill complete)"
  unfolding io_quiet_def finish_multipart_def
  using assms by (auto simp: send_def split: prod.splits sum.splits) (metis io_quietD)+

lemma head_quiet: "io_quiet (head_size C s src)" "io_quiet (head_content_type C s src)"
  by (auto simp: head_size_def head_content_type_def)

lemma upload_quiet: "io_quiet (s3_upload C E sched s path dst md)"
proof -
  have "io_quiet (upload_single C E s path dst md)" for md
    unfolding upload_single_def Let_def by auto
  moreover have "io_quiet (upload_multipart C E sched s path dst md sz)" for md sz
    unfolding upload_multipart_def upload_parts_def upload_one_part_def Let_def by auto
  ultimately show ?thesis
    by (auto simp: io_quiet_def s3_upload_def io_bind_def os_len_def os_call_def Let_def
        split: if_splits option.splits prod.splits sum.splits)
qed

lemma stat_quiet: "io_quiet (s3_stat C s u)"
  by (auto simp: io_quiet_def s3_stat_def send_def split: prod.splits sum.splits if_splits)

lemma delete_quiet: "io_quiet (s3_delete C s u)"
  by (auto simp: io_quiet_def s3_delete_def send_try_def send_def split: prod.splits sum.splits if_splits)

lemma read_range_quiet: "io_quiet (read_range C s u offset len)"
  by (auto simp: io_quiet_def read_range_def send_def Let_def split: prod.splits sum.splits if_splits)

lemma copy_multipart_quiet: "io_quiet (copy_multipart C sched s src dst md sz)"
proof -
  have "io_quiet (copy_parts C sched s h dst uid sz)" for h uid
    unfolding copy_parts_def copy_one_part_def Let_def by auto
  then have fin: "io_quiet (io_bind (send_try (sdk_create_mpu C creq)) (\<lambda>created.
         io_bind (need_upload_id created) (\<lambda>uid.
           finish_multipart C s dst uid (copy_parts C sched s h dst uid sz)
             (\<lambda>parts. send_try (sdk_complete_mpu C (dst_ref s dst) uid parts False)))))" for creq h
    by auto
  show ?thesis
    unfolding io_quiet_def copy_multipart_def Let_def
    by (auto split: option.splits prod.splits sum.splits dest!: io_quietD [OF fin] io_quietD [OF head_quiet(2)])
qed

lemma copy_quiet: "io_quiet (s3_copy C sched s src dst md)"
proof -
  have 1: "io_quiet (copy_object_single C s src dst md)"
    unfolding io_quiet_def copy_object_single_def Let_def
    by (auto simp: send_try_def send_def split: if_splits prod.splits sum.splits dest: io_quietD [OF head_quiet(1)])
  have 2: "io_quiet (copy_falling_back C sched s src dst md)"
    unfolding io_quiet_def copy_falling_back_def
    by (auto simp: io_bind_def split: if_splits prod.splits sum.splits
        dest!: io_quietD [OF 1] io_quietD [OF head_quiet(1)] io_quietD [OF copy_multipart_quiet])
  have "io_quiet (io_bind (head_size C s src) (\<lambda>sz. if s3_multipart_copy_threshold s < sz
      then copy_multipart C sched s src dst md sz else copy_falling_back C sched s src dst md))"
    using head_quiet(1) copy_multipart_quiet 2 by auto
  with 2 show ?thesis by (auto simp: io_quiet_def s3_copy_def)
qed

lemma send_files: "send req w = (r, w') \<Longrightarrow> w_files w' = w_files w"
  by (auto simp: send_def split: prod.splits)

text \<open>What no page of a listing changes, a listing does not change.\<close>

definition list_frame :: "'s sdk \<Rightarrow> ('s world \<Rightarrow> 'o) \<Rightarrow> bool" where
  "list_frame C obs \<longleftrightarrow> (\<forall>q w r w'.
     (send (sdk_list_v1 C q) w = (r, w') \<longrightarrow> obs w' = obs w) \<and>
     (send (sdk_list_versions C q) w = (r, w') \<longrightarrow> obs w' = obs w) \<and>
     (\<forall>payer. obs (w\<lparr>w_s3 := snd (sdk_list_v2 C q payer (w_s3 w))\<rparr>) = obs w))"

lemma v1_loop_frame:
  fixes obs :: "'s world \<Rightarrow> 'o"
  shows "v1_loop C L m u sent w = Some res \<Longrightarrow> list_frame C obs \<longrightarrow> obs (snd res) = obs w"
proof (erule v1_loop.raw_induct [rotated])
  fix loop :: "'s sdk \<Rightarrow> regex_lib \<Rightarrow> string option \<Rightarrow> url \<Rightarrow> object list \<Rightarrow> 's world \<Rightarrow> (object list \<times> 's world) option"
  fix C L m u sent w res
  assume 1: "\<And>C L m u sent w res. loop C L m u sent w = Some res \<Longrightarrow> list_frame C obs \<longrightarrow> obs (snd res) = obs w"
    "(case send (sdk_list_v1 C ((list_request_for u)\<lparr>lq_marker := m\<rparr>)) w of
        (Inl e, w1) \<Rightarrow> Some (sent @ [object_with_error (SdkError e)], w1)
      | (Inr page, w1) \<Rightarrow>
          (case emit_page L page u of
             (os, src1) \<Rightarrow>
               if \<not> unwrap_or False (lp_is_truncated page) then Some (finish_listing src1 (sent @ os), w1)
               else
                 (case or_else (map_option percent_decode (lp_next_marker page)) (last_key page) of
                    None \<Rightarrow> Some (finish_listing src1 (sent @ os), w1)
                  | Some m \<Rightarrow> loop C L (Some m) src1 (sent @ os) w1))) = Some res"
  obtain r w1 where s: "send (sdk_list_v1 C ((list_request_for u)\<lparr>lq_marker := m\<rparr>)) w = (r, w1)" by fastforce
  have f: "list_frame C obs \<longrightarrow> obs w1 = obs w" using s by (auto simp: list_frame_def)
  show "list_frame C obs \<longrightarrow> obs (snd res) = obs w"
  proof (cases r)
    case (Inr page)
    obtain os u1 where e: "emit_page L page u = (os, u1)" by fastforce
    show ?thesis
    proof (cases "unwrap_or False (lp_is_truncated page)")
      case True
      with 1(2) s Inr e f 1(1) show ?thesis
        by (cases "or_else (map_option percent_decode (lp_next_marker page)) (last_key page)") auto
    qed (use 1(2) s Inr e f in auto)
  qed (use 1(2) s f in auto)
qed

lemma versions_loop_frame:
  fixes obs :: "'s world \<Rightarrow> 'o"
  shows "versions_loop C L m vm u sent w = Some res \<Longrightarrow> list_frame C obs \<longrightarrow> obs (snd res) = obs w"
proof (erule versions_loop.raw_induct [rotated])
  fix loop :: "'s sdk \<Rightarrow> regex_lib \<Rightarrow> string option \<Rightarrow> string option \<Rightarrow> url \<Rightarrow> object list \<Rightarrow> 's world
    \<Rightarrow> (object list \<times> 's world) option"
  fix C L m vm u sent w res
  assume 1: "\<And>C L m vm u sent w res. loop C L m vm u sent w = Some res \<Longrightarrow> list_frame C obs \<longrightarrow> obs (snd res) = obs w"
    "(case send (sdk_list_versions C ((list_request_for u)\<lparr>lq_marker := m, lq_version_marker := vm\<rparr>)) w of
        (Inl e, w1) \<Rightarrow> Some (sent @ [object_with_error (SdkError e)], w1)
      | (Inr page, w1) \<Rightarrow>
          (case emit_version_page L page u of
             (os, src1) \<Rightarrow>
               if \<not> unwrap_or False (lp_is_truncated page) then Some (finish_listing src1 (sent @ os), w1)
               else
                 let km = map_option percent_decode (lp_next_marker page);
                     vm = map_option percent_decode (lp_next_version_marker page)
                 in if km = None \<and> vm = None then Some (finish_listing src1 (sent @ os), w1)
                    else loop C L km vm src1 (sent @ os) w1)) = Some res"
  obtain r w1 where s: "send (sdk_list_versions C
      ((list_request_for u)\<lparr>lq_marker := m, lq_version_marker := vm\<rparr>)) w = (r, w1)" by fastforce
  have f: "list_frame C obs \<longrightarrow> obs w1 = obs w" using s by (auto simp: list_frame_def)
  show "list_frame C obs \<longrightarrow> obs (snd res) = obs w"
  proof (cases r)
    case (Inr page)
    obtain os u1 where e: "emit_version_page L page u = (os, u1)" by fastforce
    show ?thesis
    proof (cases "unwrap_or False (lp_is_truncated page)")
      case True
      with 1(2) s Inr e f 1(1) show ?thesis by (auto simp: Let_def split: if_splits)
    qed (use 1(2) s Inr e f in auto)
  qed (use 1(2) s f in auto)
qed

lemma list_keeps:
  assumes "s3_list C L s u w = Some (os, w')" "list_frame C obs"
  shows "obs w' = obs w"
proof -
  have "obs (snd (list_v2 C L s u w)) = obs w"
    using assms(2) by (auto simp: list_v2_def list_frame_def Let_def split: prod.splits) (metis snd_conv)+
  with assms v1_loop_frame [of C L None u "[]" w "(os, w')" obs] versions_loop_frame [of C L None None u "[]" w "(os, w')" obs]
  show ?thesis
    by (auto simp: s3_list_def list_object_versions_def list_objects_v1_def split: if_splits)
qed

lemma list_quiet: "s3_list C L s u w = Some (os, w') \<Longrightarrow> w_files w' = w_files w"
  by (erule list_keeps [where obs = w_files]) (auto simp: list_frame_def send_files)

section \<open>What leaves the handles alone\<close>

definition vfs_core :: "vfs \<Rightarrow> s3 \<times> string \<times> vfs_config \<times> string \<times> (nat \<Rightarrow> open_file option) \<times> nat" where
  "vfs_core v = (vf_s3 v, vf_bucket v, vf_cfg v, vf_cache_dir v, vf_handles v, vf_next_fh v)"

definition v_quiet :: "('s, 'a) vio \<Rightarrow> bool" where
  "v_quiet m \<longleftrightarrow>
     (\<forall>v w r v' w'. m v w = Some (r, v', w') \<longrightarrow> vfs_core v' = vfs_core v \<and> w_files w' = w_files w)"

lemma v_quietD: "v_quiet m \<Longrightarrow> m v w = Some (r, v', w') \<Longrightarrow> vfs_core v' = vfs_core v \<and> w_files w' = w_files w"
  unfolding v_quiet_def by blast

lemma v_quiet_basic [intro!]:
  "v_quiet (v_return x)" "v_quiet (v_fail e)" "v_quiet (v_result r)" "v_quiet (v_get g)" "v_quiet (vfs_node ino)"
  "v_quiet (obj_url H key)" "v_quiet (list_url H key)"
  by (simp_all add: v_quiet_def v_return_def v_fail_def v_result_def v_get_def vfs_node_def obj_url_def list_url_def)

lemma v_quiet_match [intro!]:
  assumes "v_quiet m" "\<And>r. v_quiet (f r)"
  shows "v_quiet (v_match m f)"
  using assms unfolding v_quiet_def v_match_def by (fastforce split: option.splits)

lemma v_quiet_bind [intro!]:
  assumes "v_quiet m" "\<And>x. v_quiet (f x)"
  shows "v_quiet (v_bind m f)"
  unfolding v_bind_def using assms by (auto split: sum.splits)

lemma v_quiet_seq [intro!]: "v_quiet m \<Longrightarrow> v_quiet k \<Longrightarrow> v_quiet (v_seq m k)"
  unfolding v_seq_def by auto

lemma v_quiet_each [intro!]: "(\<And>x. v_quiet (f x)) \<Longrightarrow> v_quiet (v_each f xs)"
  by (induction xs) auto

lemma v_quiet_modify [intro!]: "(\<And>v. vfs_core (f v) = vfs_core v) \<Longrightarrow> v_quiet (v_modify f)"
  by (simp add: v_quiet_def v_modify_def)

lemma v_quiet_io [intro!]: "io_quiet act \<Longrightarrow> v_quiet (v_io act)"
  by (auto simp: v_quiet_def v_io_def io_quiet_def split: prod.splits)

lemma v_quiet_s3 [intro!]: "(\<And>s. io_quiet (act s)) \<Longrightarrow> v_quiet (vfs_s3 act)"
  by (auto simp: v_quiet_def vfs_s3_def v_io_def io_quiet_def split: prod.splits)

lemma v_quiet_backend [intro!]:
  "v_quiet (vfs_stat H u)" "v_quiet (vfs_delete_obj H u)" "v_quiet (vfs_copy_obj H src dst)" "v_quiet (vfs_upload H p dst)"
  unfolding vfs_stat_def vfs_delete_obj_def vfs_copy_obj_def vfs_upload_def
  by (auto intro: stat_quiet delete_quiet copy_quiet upload_quiet)

lemma v_quiet_list [intro!]: "v_quiet (vfs_list H u)"
  by (auto simp: v_quiet_def vfs_list_def split: option.splits dest: list_quiet)

lemma v_quiet_intern [intro!]: "v_quiet (vfs_intern key kind parent)"
  by (auto simp: v_quiet_def vfs_intern_def vfs_core_def split: prod.splits)

lemma vfs_core_caches [simp]:
  "vfs_core (store_attr H a v) = vfs_core v" "vfs_core (invalidate_attr i v) = vfs_core v"
  "vfs_core (store_dir H i es v) = vfs_core v" "vfs_core (invalidate_dir i v) = vfs_core v"
  "vfs_core (set_dirty_size H i n v) = vfs_core v" "vfs_core (clear_dirty_size i v) = vfs_core v"
  "vfs_core (v\<lparr>vf_inodes := t\<rparr>) = vfs_core v"
  by (simp_all add: vfs_core_def store_attr_def invalidate_attr_def store_dir_def invalidate_dir_def
      set_dirty_size_def clear_dirty_size_def)

lemma vfs_core_fold: "(\<And>x v. vfs_core (f x v) = vfs_core v) \<Longrightarrow> vfs_core (fold f xs v) = vfs_core v"
  by (induction xs arbitrary: v) auto

lemma getattr_quiet [intro!]: "v_quiet (getattr H ino)"
  unfolding getattr_def by (auto split: node_kind.splits option.splits)

lemma prefix_exists_quiet [intro!]: "v_quiet (prefix_exists H key)"
  unfolding prefix_exists_def by (auto split: list.splits option.splits)

lemma dir_is_empty_quiet [intro!]: "v_quiet (dir_is_empty H key)"
  unfolding dir_is_empty_def by auto

lemma lookup_quiet [intro!]: "v_quiet (vfs_lookup H parent name)"
proof -
  have "v_quiet (lookup_probe H parent n name)" for n
    unfolding lookup_probe_def Let_def by (auto split: sum.splits)
  then show ?thesis unfolding vfs_lookup_def by (auto split: option.splits)
qed

lemma readdir_loop_core: "readdir_loop ino key os sc v = (r, v') \<Longrightarrow> vfs_core v' = vfs_core v"
proof (induction os arbitrary: sc v)
  case (Cons ob os)
  have sc: "scan_child i n k mk key sc v = (sc1, v1) \<Longrightarrow> vfs_core v1 = vfs_core v" for i n k mk key sc v sc1 v1
    by (auto simp: scan_child_def split: prod.splits)
  show ?case
    using Cons.prems
    by (auto simp: Let_def split: option.splits object_type.splits if_splits prod.splits dest!: Cons.IH sc)
qed auto

lemma readdir_quiet [intro!]: "v_quiet (readdir H ino)"
proof -
  have "v_quiet (\<lambda>v w.
         case readdir_loop ino key os \<lparr>ds_entries = [], ds_attrs = [], ds_seen = []\<rparr> v of
           (Inl e, v1) \<Rightarrow> Some (Err e, v1, w)
         | (Inr sc, v1) \<Rightarrow>
             let sc1 = merge_dirty (dirty_children H ino v1) sc;
                 v2 = store_dir H ino (ds_entries sc1) (fold (store_attr H) (ds_attrs sc1) v1)
             in Some (Ok (ds_entries sc1), v2, w))" for key os
    by (auto simp: v_quiet_def Let_def vfs_core_fold split: prod.splits sum.splits dest!: readdir_loop_core)
  then show ?thesis unfolding readdir_def by (auto split: option.splits)
qed

lemma vfs_read_quiet [intro!]: "v_quiet (vfs_read H ino offset sz)"
  unfolding vfs_read_def by (auto intro!: read_range_quiet)

lemma unlink_quiet [intro!]: "v_quiet (vfs_unlink H parent name)"
  unfolding vfs_unlink_def Let_def by (auto split: option.splits)

lemma rmdir_quiet [intro!]: "v_quiet (vfs_rmdir H parent name)"
  unfolding vfs_rmdir_def Let_def by (auto split: option.splits)

lemma rename_dir_quiet [intro!]: "v_quiet (rename_dir H parent newparent name p1 p2)"
  unfolding rename_dir_def list_url_recursive_def by (auto simp: vfs_core_fold split: prod.splits)

section \<open>What touches one local file only\<close>

definition io_only :: "string \<Rightarrow> ('s, 'a) io \<Rightarrow> bool" where
  "io_only p m \<longleftrightarrow> (\<forall>w r w' q. m w = (r, w') \<longrightarrow> q \<noteq> p \<longrightarrow> w_files w' q = w_files w q)"

lemma io_onlyD: "io_only p m \<Longrightarrow> m w = (r, w') \<Longrightarrow> q \<noteq> p \<Longrightarrow> w_files w' q = w_files w q"
  unfolding io_only_def by blast

lemma io_only_quiet: "io_quiet m \<Longrightarrow> io_only p m"
  by (simp add: io_quiet_def io_only_def)

lemma io_only_basic [intro!]:
  "io_only p (os_update E op p f)" "io_only p (os_open_truncate E p)" "io_only p (open_cache_file E p t)"
  "io_only p (os_write_file E p d)" "io_only p (os_remove E p)" "io_only p (io_return x)" "io_only p (send_try req)"
  "io_only p (\<lambda>w. (r, w))" "io_only p (make_parent E q)"
  by (auto simp: io_only_def os_update_def os_open_truncate_def open_cache_file_def os_write_file_def os_remove_def
      os_call_def io_return_def send_try_def send_def make_parent_def split: option.splits prod.splits sum.splits if_splits)

lemma io_only_bind [intro!]:
  assumes "io_only p m" "\<And>x. io_only p (f x)"
  shows "io_only p (io_bind m f)"
  using assms unfolding io_only_def io_bind_def by (fastforce split: prod.splits sum.splits)

lemma join_all_only:
  assumes "\<And>t. t \<in> set ts \<Longrightarrow> io_only p t"
  shows "io_only p (join_all ts)"
proof -
  have "run_tasks ts w = (rs, w') \<Longrightarrow> q \<noteq> p \<Longrightarrow> w_files w' q = w_files w q" for q w rs w'
    using assms
  proof (induction ts arbitrary: w rs)
    case (Cons t ts)
    obtain r w1 where t: "t w = (r, w1)" by fastforce
    with Cons show ?case by (fastforce split: prod.splits dest: io_onlyD)
  qed simp
  then show ?thesis by (fastforce simp: io_only_def join_all_def split: prod.splits)
qed

lemma io_only_send:
  assumes "\<And>e. io_only p (g e)" "\<And>x. io_only p (h x)"
  shows "io_only p (\<lambda>w. case send req w of (Inl e, w1) \<Rightarrow> g e w1 | (Inr x, w1) \<Rightarrow> h x w1)"
  unfolding io_only_def
  using assms by (auto split: prod.splits sum.splits) (metis io_onlyD send_files)+

lemma io_only_if [intro!]: "(b \<Longrightarrow> io_only p m) \<Longrightarrow> (\<not> b \<Longrightarrow> io_only p k) \<Longrightarrow> io_only p (\<lambda>w. if b then m w else k w)"
  by (cases b) auto

lemma io_only_sum [intro!]:
  "(\<And>e. io_only p (g e)) \<Longrightarrow> (\<And>x. io_only p (h x)) \<Longrightarrow> io_only p (\<lambda>w. case y of Inl e \<Rightarrow> g e w | Inr x \<Rightarrow> h x w)"
  by (cases y) auto

lemma download_only: "io_only p (s3_download C E sched s u p)"
proof -
  have part: "io_only p (download_part C E s u p tot ps i)" for tot ps i
    unfolding download_part_def Let_def by (auto split: sum.splits)
  have rest: "io_only p (download_remaining_parts C E sched s u p tot ps)" for tot ps
    unfolding download_remaining_parts_def Let_def using part by (auto intro!: join_all_only)
  have single: "io_only p (download_single C E s u p)"
    unfolding download_single_def s3_read_def by (auto split: option.splits)
  have mt: "io_only p (\<lambda>w2. case x of None \<Rightarrow> (Ok (), w2) | Some v \<Rightarrow> (Ok (), snd (set_file_mtime_from_value E p v w2)))" for x
    by (auto simp: io_only_def set_mtime_frame split: option.splits)
  have tail: "io_only p (store_download C E sched s u p tot first x)" for tot first x
    unfolding store_download_def using rest mt by auto
  show ?thesis
    unfolding s3_download_def Let_def
    by (intro io_only_if io_only_bind io_only_send io_only_basic) (auto intro!: single tail)
qed

section \<open>Cache files\<close>

lemma show_nat_inj: "show_nat a = show_nat b \<Longrightarrow> a = b"
  using show_nat_digits by metis

lemma cache_path_inj [simp]: "cache_path d c a = cache_path d c' b \<longleftrightarrow> c = c' \<and> a = b"
  by (auto simp: cache_path_def path_push_def dest: show_nat_inj)

text \<open>
  Every handle has a number the counter has passed; a write handle has its own cache file, and
  the size it reports is the length of that file.
\<close>

definition handles_ok :: "nat \<Rightarrow> vfs \<Rightarrow> 's world \<Rightarrow> bool" where
  "handles_ok n v w \<longleftrightarrow>
     (\<forall>fh f. vf_handles v fh = Some f \<longrightarrow> fh \<le> n \<and>
        (\<forall>wr. of_kind f = WriteHandle wr \<longrightarrow>
           wr_path wr = cache_path (vf_cache_dir v) (CHR ''h'') fh \<and> writer_ok (w_files w) wr))"

definition vfs_ok :: "vfs \<Rightarrow> 's world \<Rightarrow> bool" where
  "vfs_ok v w \<longleftrightarrow> handles_ok (vf_next_fh v) v w"

lemma handles_ok_core: "vfs_core v' = vfs_core v \<Longrightarrow> w_files w' = w_files w \<Longrightarrow> handles_ok n v' w' = handles_ok n v w"
  by (simp add: handles_ok_def vfs_core_def)

lemma handles_ok_mono: "handles_ok n v w \<Longrightarrow> n \<le> m \<Longrightarrow> handles_ok m v w"
  unfolding handles_ok_def by (meson order.trans)

lemma writer_ok_cong: "files' (wr_path wr) = files (wr_path wr) \<Longrightarrow> writer_ok files' wr = writer_ok files wr"
  by (simp add: writer_ok_def)

text \<open>A file no handle owns may change.\<close>

lemma handles_ok_files:
  assumes "handles_ok n v w" "\<And>fh. fh \<le> n \<Longrightarrow> p \<noteq> cache_path (vf_cache_dir v) (CHR ''h'') fh"
    "\<And>q. q \<noteq> p \<Longrightarrow> w_files w' q = w_files w q"
  shows "handles_ok n v w'"
  unfolding handles_ok_def
proof (intro allI impI)
  fix fh f assume h: "vf_handles v fh = Some f"
  then have le: "fh \<le> n" using assms(1) by (simp add: handles_ok_def)
  moreover have "wr_path wr = cache_path (vf_cache_dir v) (CHR ''h'') fh \<and> writer_ok (w_files w') wr"
    if "of_kind f = WriteHandle wr" for wr
  proof -
    have wr: "wr_path wr = cache_path (vf_cache_dir v) (CHR ''h'') fh" "writer_ok (w_files w) wr"
      using assms(1) h that by (simp_all add: handles_ok_def)
    moreover have "w_files w' (wr_path wr) = w_files w (wr_path wr)" using assms(2) [OF le] assms(3) wr(1) by metis
    ultimately show ?thesis using writer_ok_cong by blast
  qed
  ultimately show "fh \<le> n \<and> (\<forall>wr. of_kind f = WriteHandle wr \<longrightarrow>
      wr_path wr = cache_path (vf_cache_dir v) (CHR ''h'') fh \<and> writer_ok (w_files w') wr)" by blast
qed

text \<open>A handle may be added or replaced by one that is in order.\<close>

lemma handles_ok_put:
  assumes "handles_ok n v w" "fh \<le> n" "vf_cache_dir v' = vf_cache_dir v"
    "vf_handles v' = (vf_handles v)(fh := h)"
    "\<And>f wr. h = Some f \<Longrightarrow> of_kind f = WriteHandle wr \<Longrightarrow>
       wr_path wr = cache_path (vf_cache_dir v) (CHR ''h'') fh \<and> writer_ok (w_files w) wr"
  shows "handles_ok n v' w"
  using assms unfolding handles_ok_def by auto

lemma quiet_ok: "v_quiet m \<Longrightarrow> m v w = Some (r, v', w') \<Longrightarrow> vfs_ok v w \<Longrightarrow> vfs_ok v' w'"
  unfolding vfs_ok_def using v_quietD [of m v w r v' w'] handles_ok_core [of v' v w' w]
  by (auto simp: vfs_core_def)

section \<open>Hoare triples\<close>

definition vhoare :: "(vfs \<Rightarrow> 's world \<Rightarrow> bool) \<Rightarrow> ('s, 'a) vio \<Rightarrow> ((error, 'a) result \<Rightarrow> vfs \<Rightarrow> 's world \<Rightarrow> bool) \<Rightarrow> bool" where
  "vhoare P m Q \<longleftrightarrow> (\<forall>v w r v' w'. P v w \<longrightarrow> m v w = Some (r, v', w') \<longrightarrow> Q r v' w')"

lemma vhoareD: "vhoare P m Q \<Longrightarrow> P v w \<Longrightarrow> m v w = Some (r, v', w') \<Longrightarrow> Q r v' w'"
  unfolding vhoare_def by blast

lemma vhoare_match:
  assumes "vhoare P m R" "\<And>r. vhoare (R r) (f r) Q"
  shows "vhoare P (v_match m f) Q"
  using assms unfolding vhoare_def v_match_def by (fastforce split: option.splits)

lemma vhoare_bind:
  assumes "vhoare P m R" "\<And>e v w. R (Inl e) v w \<Longrightarrow> Q (Inl e) v w" "\<And>x. vhoare (R (Inr x)) (f x) Q"
  shows "vhoare P (v_bind m f) Q"
  unfolding v_bind_def
proof (rule vhoare_match [OF assms(1)])
  fix r
  show "vhoare (R r) (case r of Inl e \<Rightarrow> v_fail e | Inr x \<Rightarrow> f x) Q"
    using assms(2,3) by (cases r) (auto simp: vhoare_def v_fail_def)
qed

lemma vhoare_seq: "vhoare P m R \<Longrightarrow> (\<And>e v w. R (Inl e) v w \<Longrightarrow> Q (Inl e) v w) \<Longrightarrow> (\<And>x. vhoare (R (Inr x)) k Q) \<Longrightarrow>
    vhoare P (v_seq m k) Q"
  unfolding v_seq_def by (rule vhoare_bind)

lemma vhoare_weaken: "vhoare P m Q \<Longrightarrow> (\<And>v w. P' v w \<Longrightarrow> P v w) \<Longrightarrow> (\<And>r v w. Q r v w \<Longrightarrow> Q' r v w) \<Longrightarrow> vhoare P' m Q'"
  unfolding vhoare_def by blast

section \<open>Operations that allocate a number\<close>

text \<open>Between the allocation of handle number \<open>n + 1\<close> and the insertion of its handle.\<close>

definition between :: "string \<Rightarrow> nat \<Rightarrow> vfs \<Rightarrow> 's world \<Rightarrow> bool" where
  "between d n v w \<longleftrightarrow> handles_ok n v w \<and> vf_next_fh v = Suc n \<and> vf_cache_dir v = d"

definition ready :: "string \<Rightarrow> nat \<Rightarrow> vfs \<Rightarrow> 's world \<Rightarrow> bool" where
  "ready d n v w \<longleftrightarrow> vfs_ok v w \<and> vf_next_fh v = n \<and> vf_cache_dir v = d"

lemma between_ok: "between d n v w \<Longrightarrow> vfs_ok v w"
  unfolding between_def vfs_ok_def using handles_ok_mono [of n v w "Suc n"] by simp

lemma between_quiet: "v_quiet m \<Longrightarrow> vhoare (between d n) m (\<lambda>_. between d n)"
  unfolding vhoare_def between_def
  by (intro allI impI) (frule (1) v_quietD, auto simp: vfs_core_def handles_ok_def)

lemma ready_quiet: "v_quiet m \<Longrightarrow> vhoare (ready d n) m (\<lambda>_. ready d n)"
  unfolding vhoare_def ready_def
  by (intro allI impI) (frule (1) v_quietD, auto simp: vfs_core_def vfs_ok_def handles_ok_def)

definition spare :: "string \<Rightarrow> nat \<Rightarrow> string \<Rightarrow> bool" where
  "spare d n p \<longleftrightarrow> (\<forall>fh \<le> n. p \<noteq> cache_path d (CHR ''h'') fh)"

lemma spare_paths [simp]: "spare d n (cache_path d (CHR ''h'') (Suc n))"
  "c \<noteq> CHR ''h'' \<Longrightarrow> spare d n (cache_path d c i)"
  by (simp_all add: spare_def)

lemma between_io:
  assumes "spare d n p" "io_only p act"
  shows "vhoare (between d n) (v_io act) (\<lambda>_. between d n)"
  unfolding vhoare_def between_def
proof (intro allI impI)
  fix v w r v' and w' :: "'a world"
  assume o: "handles_ok n v w \<and> vf_next_fh v = Suc n \<and> vf_cache_dir v = d" and "v_io act v w = Some (r, v', w')"
  then have v': "v' = v" and a: "act w = (r, w')" by (auto simp: v_io_def split: prod.splits)
  have "handles_ok n v w'"
  proof (rule handles_ok_files)
    show "handles_ok n v w" using o by simp
    show "p \<noteq> cache_path (vf_cache_dir v) (CHR ''h'') fh" if "fh \<le> n" for fh
      using assms(1) o that by (auto simp: spare_def)
    show "w_files w' q = w_files w q" if "q \<noteq> p" for q using io_onlyD [OF assms(2) a that] .
  qed
  with o v' show "handles_ok n v' w' \<and> vf_next_fh v' = Suc n \<and> vf_cache_dir v' = d" by simp
qed

lemma between_s3:
  assumes "spare d n p" "\<And>s. io_only p (act s)"
  shows "vhoare (between d n) (vfs_s3 act) (\<lambda>_. between d n)"
  using between_io [OF assms(1) assms(2)] unfolding vhoare_def vfs_s3_def by blast

lemma between_remove: "spare d n p \<Longrightarrow> vhoare (between d n) (ignore_remove H p) (\<lambda>_. between d n)"
proof -
  assume s: "spare d n p"
  have "vhoare (between d n) (v_io (os_remove (h_env H) p)) (\<lambda>_. between d n)"
    by (rule between_io [OF s]) auto
  from vhoareD [OF this] show ?thesis
    unfolding vhoare_def ignore_remove_def v_io_def by (simp add: case_prod_unfold) blast
qed

lemma alloc_ready:
  assumes "n < u64_max"
  shows "vhoare (ready d n) alloc_fh (\<lambda>r v w. r = Inr (Suc n) \<and> between d n v w)"
proof -
  have "u64_add n 1 = Suc n" using assms by (simp add: u64_add_def)
  then show ?thesis
    unfolding vhoare_def ready_def alloc_fh_def between_def vfs_ok_def handles_ok_def by auto
qed

lemma vhoare_post: "vhoare P m Q \<Longrightarrow> (\<And>r v w. Q r v w \<Longrightarrow> Q' r v w) \<Longrightarrow> vhoare P m Q'"
  unfolding vhoare_def by blast

lemma vhoare_const: "(P \<Longrightarrow> vhoare Q m R) \<Longrightarrow> vhoare (\<lambda>v w. P \<and> Q v w) m R"
  unfolding vhoare_def by blast

lemma vhoare_result: "(\<And>v w. P v w \<Longrightarrow> Q r v w) \<Longrightarrow> vhoare P (v_result r) Q"
  unfolding vhoare_def v_result_def by auto

lemma vhoare_modify: "(\<And>v w. P v w \<Longrightarrow> Q (Inr ()) (f v) w) \<Longrightarrow> vhoare P (v_modify f) Q"
  unfolding vhoare_def v_modify_def by auto

lemma vhoare_return: "(\<And>v w. P v w \<Longrightarrow> Q (Inr x) v w) \<Longrightarrow> vhoare P (v_return x) Q"
  unfolding vhoare_def v_return_def by auto

lemma vhoare_fail: "(\<And>v w. P v w \<Longrightarrow> Q (Inl e) v w) \<Longrightarrow> vhoare P (v_fail e) Q"
  unfolding vhoare_def v_fail_def by auto

text \<open>The body after an allocation; its number is the successor of the old counter.\<close>

lemma alloc_bind:
  assumes "n < u64_max" "vhoare (between d n) (f (Suc n)) Q"
  shows "vhoare (ready d n) (v_bind alloc_fh f) Q"
  by (rule vhoare_bind [OF alloc_ready [OF assms(1)]]) (use assms(2) in \<open>auto intro: vhoare_const\<close>)

lemma dir_bind:
  assumes "vhoare (between d n) (f (g d)) Q"
  shows "vhoare (between d n) (v_bind (v_get (\<lambda>v. g (vf_cache_dir v))) f) Q"
  using assms unfolding vhoare_def v_bind_def v_match_def v_get_def between_def by auto

lemma put_empty_ok:
  assumes "n < u64_max"
  shows "vhoare (ready d n) (put_empty_object H key) (\<lambda>_. vfs_ok)"
  unfolding put_empty_object_def Let_def
proof (rule vhoare_bind [OF ready_quiet], rule v_quiet_basic)
  fix u
  let ?tmp = "cache_path d (CHR ''e'') (Suc n)"
  have sp: "spare d n ?tmp" by simp
  have body: "vhoare (between d n) (v_seq (v_io (os_write_file (h_env H) ?tmp []))
         (v_match (vfs_upload H ?tmp u) (\<lambda>res. v_seq (ignore_remove H ?tmp) (v_result res)))) (\<lambda>_. between d n)"
    by (rule vhoare_seq [OF between_io [OF sp]] vhoare_match [OF between_quiet] vhoare_seq [OF between_remove [OF sp]]
        vhoare_result | auto)+
  show "vhoare (ready d n) (v_bind alloc_fh (\<lambda>i. v_bind (v_get vf_cache_dir) (\<lambda>dir.
          v_seq (v_io (os_write_file (h_env H) (cache_path dir (CHR ''e'') i) []))
            (v_match (vfs_upload H (cache_path dir (CHR ''e'') i) u)
              (\<lambda>res. v_seq (ignore_remove H (cache_path dir (CHR ''e'') i)) (v_result res)))))) (\<lambda>_. vfs_ok)"
    by (rule alloc_bind [OF assms], rule dir_bind [where g = "\<lambda>x. x"], rule vhoare_post [OF body]) (rule between_ok)
qed (auto simp: ready_def)

lemma mkdir_ok:
  assumes "n < u64_max"
  shows "vhoare (ready d n) (vfs_mkdir H parent name) (\<lambda>_. vfs_ok)"
proof -
  have ready_ok: "ready d n v w \<Longrightarrow> vfs_ok v w" for v and w :: "'a world" by (simp add: ready_def)
  have q: "v_quiet m \<Longrightarrow> vhoare (vfs_ok) m (\<lambda>_. vfs_ok)" for m :: "('a, 'b) vio"
    unfolding vhoare_def using quiet_ok by blast
  have body: "vhoare (ready d n) (v_bind (prefix_exists H dir_key) (\<lambda>ex.
      if ex then v_fail AlreadyExists
      else v_seq (put_empty_object H dir_key) (v_bind (vfs_intern dir_key Dir parent) (\<lambda>ino.
             v_seq (v_modify (invalidate_dir parent)) (v_get (dir_attr ino)))))) (\<lambda>_. vfs_ok)" for dir_key
  proof (rule vhoare_bind [OF ready_quiet], rule prefix_exists_quiet)
    fix ex
    have "v_quiet (v_bind (vfs_intern dir_key Dir parent) (\<lambda>ino. v_seq (v_modify (invalidate_dir parent)) (v_get (dir_attr ino))))"
      by auto
    then have "vhoare vfs_ok (v_bind (vfs_intern dir_key Dir parent) (\<lambda>ino.
        v_seq (v_modify (invalidate_dir parent)) (v_get (dir_attr ino)))) (\<lambda>_. vfs_ok)"
      unfolding vhoare_def using quiet_ok by blast
    then show "vhoare (ready d n) (if ex then v_fail AlreadyExists
      else v_seq (put_empty_object H dir_key) (v_bind (vfs_intern dir_key Dir parent) (\<lambda>ino.
             v_seq (v_modify (invalidate_dir parent)) (v_get (dir_attr ino))))) (\<lambda>_. vfs_ok)"
      using vhoare_seq [OF put_empty_ok [OF assms]] by (auto intro!: vhoare_fail ready_ok)
  qed (rule ready_ok)
  show ?thesis
    unfolding vfs_mkdir_def Let_def
    by (rule vhoare_bind [OF ready_quiet] vhoare_match [OF ready_quiet] | rule v_quiet_basic v_quiet_backend
        | (rule ready_ok, assumption) | (split sum.split, auto intro!: vhoare_fail body ready_ok))+
qed

lemma io_only_sync: "io_only p (os_call E op q (io_return x))"
  by (auto simp: io_only_def os_call_def io_return_def split: option.splits)

lemma truncate_object_ok:
  assumes "n < u64_max"
  shows "vhoare (ready d n) (truncate_object H ino sz) (\<lambda>_. vfs_ok)"
proof -
  let ?p = "cache_path d (CHR ''t'') (Suc n)"
  have sp: "spare d n ?p" by simp
  have inner: "vhoare (between d n) (truncate_object_inner H u ?p sz) (\<lambda>_. between d n)" for u
    unfolding truncate_object_inner_def
  proof (rule vhoare_seq)
    show "vhoare (between d n) (v_match (vfs_stat H u) (\<lambda>st. case st of Inr _ \<Rightarrow> vfs_download H u ?p
        | Inl e \<Rightarrow> if is_not_found e then v_io (os_write_file (h_env H) ?p []) else v_fail e)) (\<lambda>_. between d n)"
    proof (rule vhoare_match [OF between_quiet], rule v_quiet_backend)
      fix st
      show "vhoare (between d n) (case st of Inr _ \<Rightarrow> vfs_download H u ?p
        | Inl e \<Rightarrow> if is_not_found e then v_io (os_write_file (h_env H) ?p []) else v_fail e) (\<lambda>_. between d n)"
        unfolding vfs_download_def
        by (cases st) (auto intro!: between_s3 [OF sp] between_io [OF sp] download_only vhoare_fail)
    qed
    show "vhoare (between d n) (v_seq (v_io (open_cache_file (h_env H) ?p False))
       (v_seq (v_io (os_update (h_env H) ''set_len'' ?p (file_set_len sz)))
       (v_seq (v_io (os_call (h_env H) ''sync_all'' ?p (io_return ()))) (vfs_upload H ?p u)))) (\<lambda>_. between d n)"
      by (rule vhoare_seq [OF between_io [OF sp]] between_quiet io_only_basic io_only_sync v_quiet_backend | assumption)+
  qed
  have body: "vhoare (between d n) (v_match (truncate_object_inner H u ?p sz) (\<lambda>res.
       v_seq (ignore_remove H ?p) (v_seq (v_result res) (v_modify (store_attr H (file_attr ino sz (h_now H))))))) (\<lambda>_. vfs_ok)" for u
  proof (rule vhoare_match [OF inner], rule vhoare_seq [OF between_remove [OF sp]])
    fix res
    have "v_quiet (v_seq (v_result res) (v_modify (store_attr H (file_attr ino sz (h_now H)))))" by auto
    from vhoare_post [OF between_quiet [OF this] between_ok]
    show "vhoare (between d n) (v_seq (v_result res) (v_modify (store_attr H (file_attr ino sz (h_now H))))) (\<lambda>_. vfs_ok)" .
  qed (rule between_ok)
  show ?thesis
    unfolding truncate_object_def
    by (rule vhoare_bind [OF ready_quiet], (auto simp: ready_def)[2], rule vhoare_bind [OF ready_quiet], (auto simp: ready_def)[2],
        rule alloc_bind [OF assms], rule dir_bind [where g = "\<lambda>x. cache_path x (CHR ''t'') (Suc n)"], rule body)
qed

section \<open>Opening and creating\<close>

text \<open>The size of an open file can be read.\<close>

definition fstat_ok :: "'s host \<Rightarrow> bool" where
  "fstat_ok H \<longleftrightarrow> (\<forall>p. env_io (h_env H) ''metadata'' p = None)"

definition loaded :: "string \<Rightarrow> nat \<Rightarrow> string \<Rightarrow> (error, nat \<times> bool) result \<Rightarrow> vfs \<Rightarrow> 's world \<Rightarrow> bool" where
  "loaded d n p r v w \<longleftrightarrow> between d n v w \<and>
     (\<forall>sz dirty. r = Inr (sz, dirty) \<longrightarrow> (\<exists>f. w_files w p = Some f \<and> length f = sz))"

lemma vhoare_conj: "vhoare P m Q \<Longrightarrow> vhoare P m R \<Longrightarrow> vhoare P m (\<lambda>r v w. Q r v w \<and> R r v w)"
  unfolding vhoare_def by blast

lemma open_empty_cache_ok:
  assumes "spare d n p"
  shows "vhoare (between d n) (open_empty_cache H p) (loaded d n p)"
proof -
  have "vhoare (between d n) (v_io (open_cache_file (h_env H) p True))
      (\<lambda>r v w. between d n v w \<and> (\<forall>x. r = Inr x \<longrightarrow> w_files w p = Some []))"
    by (rule vhoare_conj [OF between_io [OF assms io_only_basic(3)]])
      (auto simp: vhoare_def v_io_def open_cache_file_def os_call_def split: option.splits)
  then show ?thesis
    unfolding open_empty_cache_def by (rule vhoare_seq) (auto simp: loaded_def intro!: vhoare_return)
qed

lemma load_cache_ok:
  assumes "spare d n p" "fstat_ok H"
  shows "vhoare (between d n) (load_cache H dst p) (loaded d n p)"
proof -
  have fail: "vhoare (between d n) (v_fail e) (loaded d n p)" for e
    by (rule vhoare_fail) (simp add: loaded_def)
  have o: "vhoare (between d n) (v_io (open_cache_file (h_env H) p False))
      (\<lambda>r v w. between d n v w \<and> (\<forall>x. r = Inr x \<longrightarrow> (\<exists>f. w_files w p = Some f)))"
    by (rule vhoare_conj [OF between_io [OF assms(1) io_only_basic(3)]])
      (auto simp: vhoare_def v_io_def open_cache_file_def os_call_def split: option.splits)
  have l: "vhoare (\<lambda>v w. between d n v w \<and> (\<exists>f. w_files w p = Some f))
      (v_match (v_io (os_len (h_env H) p)) (\<lambda>l. v_return (case l of Inr n \<Rightarrow> n | Inl _ \<Rightarrow> 0, False))) (loaded d n p)"
    using assms(2)
    by (auto simp: vhoare_def v_match_def v_io_def v_return_def os_len_def os_call_def fstat_ok_def loaded_def)
  have open_old: "vhoare (between d n) (v_seq (v_io (open_cache_file (h_env H) p False))
      (v_match (v_io (os_len (h_env H) p)) (\<lambda>l. v_return (case l of Inr n \<Rightarrow> n | Inl _ \<Rightarrow> 0, False)))) (loaded d n p)"
    by (rule vhoare_seq [OF o]) (auto simp: loaded_def intro!: vhoare_weaken [OF l])
  have dl: "vhoare (between d n) (vfs_download H dst p) (\<lambda>_. between d n)"
    unfolding vfs_download_def by (rule between_s3 [OF assms(1)]) (rule download_only)
  show ?thesis
    unfolding load_cache_def
  proof (rule vhoare_match [OF between_quiet], rule v_quiet_backend)
    fix st
    have "vhoare (between d n) (v_match (vfs_download H dst p) (\<lambda>dl.
             case dl of
               Inr _ \<Rightarrow> v_seq (v_io (open_cache_file (h_env H) p False))
                   (v_match (v_io (os_len (h_env H) p)) (\<lambda>l. v_return (case l of Inr n \<Rightarrow> n | Inl _ \<Rightarrow> 0, False)))
             | Inl e \<Rightarrow> v_seq (ignore_remove H p)
                   (if is_not_found e then open_empty_cache H p else v_fail e))) (loaded d n p)"
    proof (rule vhoare_match [OF dl])
      fix r
      show "vhoare (between d n) (case r of
               Inr _ \<Rightarrow> v_seq (v_io (open_cache_file (h_env H) p False))
                   (v_match (v_io (os_len (h_env H) p)) (\<lambda>l. v_return (case l of Inr n \<Rightarrow> n | Inl _ \<Rightarrow> 0, False)))
             | Inl e \<Rightarrow> v_seq (ignore_remove H p)
                   (if is_not_found e then open_empty_cache H p else v_fail e)) (loaded d n p)"
        using open_old
        by (cases r) (auto intro!: vhoare_seq [OF between_remove [OF assms(1)]] open_empty_cache_ok [OF assms(1)] fail
            simp: loaded_def)
    qed
    then show "vhoare (between d n) (case st of
         Inr _ \<Rightarrow> v_match (vfs_download H dst p) (\<lambda>dl.
             case dl of
               Inr _ \<Rightarrow> v_seq (v_io (open_cache_file (h_env H) p False))
                   (v_match (v_io (os_len (h_env H) p)) (\<lambda>l. v_return (case l of Inr n \<Rightarrow> n | Inl _ \<Rightarrow> 0, False)))
             | Inl e \<Rightarrow> v_seq (ignore_remove H p)
                   (if is_not_found e then open_empty_cache H p else v_fail e))
       | Inl e \<Rightarrow> if is_not_found e then open_empty_cache H p else v_fail e) (loaded d n p)"
      by (cases st) (auto intro!: open_empty_cache_ok [OF assms(1)] fail)
  qed
qed

lemma insert_writer_ok:
  assumes "between d n v w" "w_files w p = Some f" "length f = sz" "p = cache_path d (CHR ''h'') (Suc n)"
    "vfs_core v' = vfs_core (insert_handle (Suc n) ino (WriteHandle (writer_new p dst sz dirty)) v)"
  shows "vfs_ok v' w"
proof -
  have "handles_ok (Suc n) v w" using assms(1) handles_ok_mono [of n v w "Suc n"] by (simp add: between_def)
  then have "handles_ok (Suc n) v' w"
    by (rule handles_ok_put [where fh = "Suc n"])
      (use assms in \<open>auto simp: vfs_core_def insert_handle_def between_def writer_new_def writer_ok_def\<close>)
  then show ?thesis using assms(1,5) by (simp add: vfs_ok_def between_def vfs_core_def insert_handle_def)
qed

lemma vfs_core_note_size [simp]: "vfs_core (note_size H ino sz v) = vfs_core v"
  by (simp add: note_size_def)

lemma insert_writer_note:
  assumes "between d n v w" "w_files w (cache_path d (CHR ''h'') (Suc n)) = Some f"
  shows "vfs_ok (note_size H ino (length f) (insert_handle (Suc n) ino
      (WriteHandle (writer_new (cache_path d (CHR ''h'') (Suc n)) dst (length f) dirty)) v)) w"
  by (rule insert_writer_ok [OF assms refl refl]) simp

lemma open_ok:
  assumes "n < u64_max" "fstat_ok H"
  shows "vhoare (ready d n) (vfs_open H ino flags) (\<lambda>_. vfs_ok)"
proof -
  let ?p = "cache_path d (CHR ''h'') (Suc n)"
  have ready_ok: "ready d n v w \<Longrightarrow> vfs_ok v w" for v and w :: "'a world" by (simp add: ready_def)
  have rd: "vhoare (between d n) (v_bind (getattr H ino) (\<lambda>a. v_bind (obj_url H key) (\<lambda>u. v_bind (v_get vf_cfg) (\<lambda>cfg.
      v_seq (v_modify (insert_handle (Suc n) ino (ReadHandle
          (reader_new u (at_size a) (vc_chunk_size cfg) (vc_buffer_size cfg) (vc_concurrency cfg))))) (v_return (Suc n)))))) (\<lambda>_. vfs_ok)" for key
  proof -
    have put: "between d n v w \<Longrightarrow> vfs_ok (insert_handle (Suc n) ino (ReadHandle r) v) w" for v r and w :: "'a world"
      unfolding vfs_ok_def
      by (rule handles_ok_put [where v = v and fh = "Suc n" and h = "Some \<lparr>of_ino = ino, of_kind = ReadHandle r\<rparr>"])
        (auto simp: between_def insert_handle_def intro: handles_ok_mono)
    show ?thesis
      by (rule vhoare_bind [OF between_quiet] v_quiet_basic getattr_quiet
          vhoare_seq [where R = "\<lambda>_. vfs_ok"] vhoare_modify vhoare_return put | erule between_ok | assumption)+
  qed
  have wr: "vhoare (between d n) (v_bind (obj_url H key) (\<lambda>dst.
        v_bind (v_get (\<lambda>v. cache_path (vf_cache_dir v) (CHR ''h'') (Suc n))) (\<lambda>path.
        v_bind (if and flags O_TRUNC \<noteq> 0 then open_empty_cache H path else load_cache H dst path) (\<lambda>(sz, dirty).
          v_seq (v_modify (\<lambda>v. note_size H ino sz (insert_handle (Suc n) ino (WriteHandle (writer_new path dst sz dirty)) v)))
            (v_return (Suc n)))))) (\<lambda>_. vfs_ok)" for key
  proof (rule vhoare_bind [OF between_quiet], rule v_quiet_basic, erule between_ok,
      rule dir_bind [where g = "\<lambda>x. cache_path x (CHR ''h'') (Suc n)"])
    fix dst
    have "vhoare (between d n) (if and flags O_TRUNC \<noteq> 0 then open_empty_cache H ?p else load_cache H dst ?p) (loaded d n ?p)"
      by (auto intro!: open_empty_cache_ok load_cache_ok assms(2))
    then show "vhoare (between d n) (v_bind (if and flags O_TRUNC \<noteq> 0 then open_empty_cache H ?p else load_cache H dst ?p) (\<lambda>(sz, dirty).
          v_seq (v_modify (\<lambda>v. note_size H ino sz (insert_handle (Suc n) ino (WriteHandle (writer_new ?p dst sz dirty)) v)))
            (v_return (Suc n)))) (\<lambda>_. vfs_ok)"
    proof (rule vhoare_bind)
      show "vhoare (loaded d n ?p (Inr x)) (case x of (sz, dirty) \<Rightarrow>
          v_seq (v_modify (\<lambda>v. note_size H ino sz (insert_handle (Suc n) ino (WriteHandle (writer_new ?p dst sz dirty)) v)))
            (v_return (Suc n))) (\<lambda>_. vfs_ok)" for x
        by (cases x) (auto simp: loaded_def intro!: vhoare_seq [where R = "\<lambda>_. vfs_ok"] vhoare_modify vhoare_return
            intro: insert_writer_note)
    qed (auto simp: loaded_def intro: between_ok)
  qed
  show ?thesis
    unfolding vfs_open_def
  proof (rule vhoare_bind [OF ready_quiet], rule v_quiet_basic, erule ready_ok)
    fix nd
    show "vhoare (ready d n) (if is_dir (node_kind nd) then v_fail (ObjectNotFound (''inode '' @ show_nat ino @ '' is a directory''))
       else v_bind alloc_fh (\<lambda>fh.
           if \<not> opens_for_writing flags then
             v_bind (getattr H ino) (\<lambda>a. v_bind (obj_url H (node_key nd)) (\<lambda>u. v_bind (v_get vf_cfg) (\<lambda>cfg.
               v_seq (v_modify (insert_handle fh ino (ReadHandle
                        (reader_new u (at_size a) (vc_chunk_size cfg) (vc_buffer_size cfg) (vc_concurrency cfg))))) (v_return fh))))
           else
             v_bind (obj_url H (node_key nd)) (\<lambda>dst. v_bind (v_get (\<lambda>v. cache_path (vf_cache_dir v) (CHR ''h'') fh)) (\<lambda>path.
             v_bind (if and flags O_TRUNC \<noteq> 0 then open_empty_cache H path else load_cache H dst path) (\<lambda>(sz, dirty).
               v_seq (v_modify (\<lambda>v. note_size H ino sz (insert_handle fh ino (WriteHandle (writer_new path dst sz dirty)) v)))
                 (v_return fh)))))) (\<lambda>_. vfs_ok)"
      using rd wr by (auto intro!: vhoare_fail ready_ok alloc_bind [OF assms(1)])
  qed
qed

lemma create_ok:
  assumes "n < u64_max"
  shows "vhoare (ready d n) (vfs_create H parent name) (\<lambda>_. vfs_ok)"
proof -
  let ?p = "cache_path d (CHR ''h'') (Suc n)"
  have sp: "spare d n ?p" by simp
  have ready_ok: "ready d n v w \<Longrightarrow> vfs_ok v w" for v and w :: "'a world" by (simp add: ready_def)
  have o: "vhoare (between d n) (v_io (open_cache_file (h_env H) ?p True))
      (\<lambda>r v w. between d n v w \<and> (\<forall>x. r = Inr x \<longrightarrow> w_files w ?p = Some []))"
    by (rule vhoare_conj [OF between_io [OF sp io_only_basic(3)]])
      (auto simp: vhoare_def v_io_def open_cache_file_def os_call_def split: option.splits)
  have u: "vhoare (\<lambda>v w. between d n v w \<and> w_files w ?p = Some []) (obj_url H key)
      (\<lambda>_ v w. between d n v w \<and> w_files w ?p = Some [])" for key
    by (auto simp: vhoare_def obj_url_def)
  have put: "vfs_ok (invalidate_dir parent (note_size H ino 0 (insert_handle (Suc n) ino (WriteHandle (writer_new ?p dst 0 True)) v))) w"
    if "between d n v w" "w_files w ?p = Some []" for ino dst v and w :: "'a world"
    by (rule insert_writer_ok [OF that, where sz = 0 and ino = ino and dst = dst and dirty = True]) simp_all
  have body: "vhoare (between d n) (v_bind (v_get (\<lambda>v. cache_path (vf_cache_dir v) (CHR ''h'') (Suc n))) (\<lambda>path.
         v_seq (v_io (open_cache_file (h_env H) path True))
           (v_bind (obj_url H key) (\<lambda>dst.
              v_seq (v_modify (\<lambda>v. invalidate_dir parent (note_size H ino 0
                       (insert_handle (Suc n) ino (WriteHandle (writer_new path dst 0 True)) v))))
                (v_return (ino, Suc n, file_attr ino 0 (h_now H))))))) (\<lambda>_. vfs_ok)" for key ino
    by (rule dir_bind [where g = "\<lambda>x. cache_path x (CHR ''h'') (Suc n)"], rule vhoare_seq [OF o])
      (auto intro: between_ok intro!: vhoare_bind [OF u] vhoare_seq [where R = "\<lambda>_. vfs_ok"] vhoare_modify vhoare_return put)
  show ?thesis
    unfolding vfs_create_def Let_def
  proof (rule vhoare_bind [OF ready_quiet], rule v_quiet_basic, erule ready_ok)
    fix pn
    have "vhoare (ready d n) (v_bind (vfs_intern (node_key pn @ name) File parent) (\<lambda>ino. v_bind alloc_fh (\<lambda>fh.
         v_bind (v_get (\<lambda>v. cache_path (vf_cache_dir v) (CHR ''h'') fh)) (\<lambda>path.
         v_seq (v_io (open_cache_file (h_env H) path True))
           (v_bind (obj_url H (node_key pn @ name)) (\<lambda>dst.
              v_seq (v_modify (\<lambda>v. invalidate_dir parent (note_size H ino 0
                       (insert_handle fh ino (WriteHandle (writer_new path dst 0 True)) v))))
                (v_return (ino, fh, file_attr ino 0 (h_now H))))))))) (\<lambda>_. vfs_ok)"
      by (rule vhoare_bind [OF ready_quiet], rule v_quiet_intern, erule ready_ok, rule alloc_bind [OF assms], rule body)
    then show "vhoare (ready d n) (if \<not> is_dir (node_kind pn) then v_fail (ObjectNotFound name)
       else v_bind (vfs_intern (node_key pn @ name) File parent) (\<lambda>ino. v_bind alloc_fh (\<lambda>fh.
         v_bind (v_get (\<lambda>v. cache_path (vf_cache_dir v) (CHR ''h'') fh)) (\<lambda>path.
         v_seq (v_io (open_cache_file (h_env H) path True))
           (v_bind (obj_url H (node_key pn @ name)) (\<lambda>dst.
              v_seq (v_modify (\<lambda>v. invalidate_dir parent (note_size H ino 0
                       (insert_handle fh ino (WriteHandle (writer_new path dst 0 True)) v))))
                (v_return (ino, fh, file_attr ino 0 (h_now H))))))))) (\<lambda>_. vfs_ok)"
      by (auto intro!: vhoare_fail ready_ok)
  qed
qed

section \<open>Handles in use\<close>

lemma write_handle_of_Inr:
  "write_handle_of fh v = Inr (ino, wr) \<longleftrightarrow> (\<exists>f. vf_handles v fh = Some f \<and> of_kind f = WriteHandle wr \<and> of_ino f = ino)"
  by (auto simp: write_handle_of_def split: option.splits handle_kind.splits)

text \<open>The files of two handles are different files.\<close>

lemma vfs_ok_writer:
  assumes "vfs_ok v w" "write_handle_of fh v = Inr (ino, wr)"
  shows "wr_path wr = cache_path (vf_cache_dir v) (CHR ''h'') fh" "writer_ok (w_files w) wr" "fh \<le> vf_next_fh v"
  using assms by (auto simp: vfs_ok_def handles_ok_def write_handle_of_Inr)

text \<open>An update of one writer together with its file.\<close>

lemma set_writer_ok:
  assumes ok: "vfs_ok v w" and h: "write_handle_of fh v = Inr (ino, wr)" and wr': "wr_path wr' = wr_path wr"
    and fl: "writer_ok (w_files w') wr'" "\<And>q. q \<noteq> wr_path wr \<Longrightarrow> w_files w' q = w_files w q"
    and core: "vfs_core v' = vfs_core (set_writer fh wr' v)"
  shows "vfs_ok v' w'"
proof -
  note W = vfs_ok_writer [OF ok h]
  have v': "vf_next_fh v' = vf_next_fh v" "vf_cache_dir v' = vf_cache_dir v"
    "vf_handles v' = (vf_handles v)(fh := map_option (\<lambda>f. f\<lparr>of_kind := WriteHandle wr'\<rparr>) (vf_handles v fh))"
    using core by (simp_all add: vfs_core_def set_writer_def)
  show ?thesis
    unfolding vfs_ok_def handles_ok_def
  proof (intro allI impI)
    fix g f assume g: "vf_handles v' g = Some f"
    show "g \<le> vf_next_fh v' \<and> (\<forall>wx. of_kind f = WriteHandle wx \<longrightarrow>
        wr_path wx = cache_path (vf_cache_dir v') (CHR ''h'') g \<and> writer_ok (w_files w') wx)"
    proof (cases "g = fh")
      case True
      with g v' W wr' fl(1) show ?thesis by auto
    next
      case False
      then have gv: "vf_handles v g = Some f" using g v'(3) by simp
      have "wr_path wx = cache_path (vf_cache_dir v) (CHR ''h'') g \<and> writer_ok (w_files w') wx"
        if "of_kind f = WriteHandle wx" for wx
      proof -
        have wx: "wr_path wx = cache_path (vf_cache_dir v) (CHR ''h'') g" "writer_ok (w_files w) wx"
          using ok gv that by (simp_all add: vfs_ok_def handles_ok_def)
        then have "w_files w' (wr_path wx) = w_files w (wr_path wx)"
          using fl(2) [of "wr_path wx"] W(1) False by simp
        with wx show ?thesis using writer_ok_cong by blast
      qed
      then show ?thesis using ok gv v' by (simp add: vfs_ok_def handles_ok_def)
    qed
  qed
qed

lemma write_ok:
  assumes "write_handle H fh offset data v w = Some (r, v', w')" "vfs_ok v w" "data \<noteq> []" "offset + length data < u64_lim"
  shows "vfs_ok v' w'"
proof (cases "write_handle_of fh v")
  case (Inl e)
  with assms show ?thesis by (auto simp: write_handle_def v_bind_def v_match_def v_get_def v_result_def v_fail_def)
next
  case (Inr x)
  obtain ino wr where x: "x = (ino, wr)" by (cases x)
  note h = Inr [unfolded x]
  obtain rr w1 where ww: "writer_write (h_env H) wr offset data w = (rr, w1)" by fastforce
  show ?thesis
  proof (cases rr)
    case (Inl e)
    then have "w_files w1 = w_files w" "v' = v" "w' = w1" using assms(1) h ww
      by (auto simp: write_handle_def v_bind_def v_match_def v_get_def v_result_def v_fail_def v_io_def writer_write_def
          io_bind_def io_return_def os_update_def os_call_def split: option.splits)
    with assms(2) show ?thesis using handles_ok_core [of v v w1 w] by (simp add: vfs_ok_def)
  next
    case (Inr y)
    obtain n wr1 where y: "y = (n, wr1)" by (cases y)
    have v': "v' = note_size H ino (wr_size wr1) (set_writer fh wr1 v)" and w': "w' = w1"
      using assms(1) h ww Inr y
      by (auto simp: write_handle_def v_seq_def v_bind_def v_match_def v_get_def v_result_def v_io_def v_modify_def v_return_def)
    note WW = writer_write_ok [OF ww [unfolded Inr y] vfs_ok_writer(2) [OF assms(2) h] disjI1 [OF assms(3)] assms(4)]
    show ?thesis
      by (rule set_writer_ok [OF assms(2) h WW(2)]) (use WW w' v' in auto)
  qed
qed

lemma flush_quiet: "io_quiet (writer_flush C E sched s wr)"
proof -
  have "io_quiet (os_call E op p (io_return x))" for op p x
    by (auto simp: io_quiet_def os_call_def io_return_def split: option.splits)
  then show ?thesis unfolding writer_flush_def by (auto intro!: upload_quiet)
qed

lemma flush_writer: "writer_flush C E sched s wr w = (Inr wr', w') \<Longrightarrow> wr' = wr\<lparr>wr_dirty := False\<rparr>"
  by (auto simp: writer_flush_def io_bind_Ok split: if_splits)

lemma flush_ok:
  assumes "flush_handle H fh v w = Some (r, v', w')" "vfs_ok v w"
  shows "vfs_ok v' w'"
proof (cases "write_handle_of fh v")
  case (Inl e)
  with assms show ?thesis by (auto simp: flush_handle_def v_bind_def v_match_def v_get_def v_return_def)
next
  case (Inr x)
  obtain ino wr where x: "x = (ino, wr)" by (cases x)
  note h = Inr [unfolded x]
  obtain rr w1 where ff: "writer_flush (h_sdk H) (h_env H) (h_sched H) (vf_s3 v) wr w = (rr, w1)" by fastforce
  have files: "w_files w1 = w_files w" using io_quietD [OF flush_quiet ff] .
  show ?thesis
  proof (cases rr)
    case (Inl e)
    with assms h ff have "v' = v" "w' = w1"
      by (auto simp: flush_handle_def v_bind_def v_match_def v_get_def v_fail_def vfs_s3_def v_io_def)
    with assms(2) files show ?thesis using handles_ok_core [of v v w1 w] by (simp add: vfs_ok_def)
  next
    case (Inr wr1)
    with assms h ff have v': "v' = set_writer fh wr1 v" "w' = w1"
      by (auto simp: flush_handle_def v_bind_def v_match_def v_get_def v_modify_def vfs_s3_def v_io_def)
    have wr1: "wr1 = wr\<lparr>wr_dirty := False\<rparr>" using flush_writer ff Inr by blast
    show ?thesis
      by (rule set_writer_ok [OF assms(2) h, where wr' = wr1])
        (use vfs_ok_writer(2) [OF assms(2) h] wr1 v' files in \<open>auto simp: writer_ok_def\<close>)
  qed
qed

lemma drop_handle_ok: "handles_ok n v w \<Longrightarrow> handles_ok n (v\<lparr>vf_handles := (vf_handles v)(fh := None)\<rparr>) w"
  by (auto simp: handles_ok_def)

lemma release_ok:
  assumes "vfs_release H fh v w = Some (r, v', w')" "vfs_ok v w"
  shows "vfs_ok v' w'"
proof -
  let ?v0 = "v\<lparr>vf_handles := (vf_handles v)(fh := None)\<rparr>"
  have v0: "vfs_ok ?v0 w" using assms(2) drop_handle_ok [of "vf_next_fh v" v w fh] by (simp add: vfs_ok_def)
  show ?thesis
  proof (cases "write_handle_of fh v")
    case (Inl e)
    then have "v' = ?v0 \<and> w' = w"
      using assms(1)
      by (auto simp: write_handle_of_def vfs_release_def v_seq_def v_bind_def v_match_def v_get_def v_modify_def v_return_def
          split: option.splits handle_kind.splits)
    with v0 show ?thesis by simp
  next
    case (Inr x)
    obtain ino wr where x: "x = (ino, wr)" by (cases x)
    note h = Inr [unfolded x]
    note W = vfs_ok_writer [OF assms(2) h]
    obtain rr w1 where ff: "writer_flush (h_sdk H) (h_env H) (h_sched H) (vf_s3 v) wr w = (rr, w1)" by fastforce
    have files: "w_files w1 = w_files w" using io_quietD [OF flush_quiet ff] .
    then have v1: "vfs_ok ?v0 w1" using v0 handles_ok_core [of ?v0 ?v0 w1 w] by (simp add: vfs_ok_def)
    from h obtain f where f: "vf_handles v fh = Some f" "of_kind f = WriteHandle wr" by (auto simp: write_handle_of_Inr)
    show ?thesis
    proof (cases rr)
      case (Inl e)
      with assms(1) f ff have "v' = ?v0 \<and> w' = w1"
        by (auto simp: vfs_release_def v_seq_def v_bind_def v_match_def v_get_def v_modify_def v_fail_def vfs_s3_def v_io_def)
      with v1 show ?thesis by simp
    next
      case (Inr wr1)
      have wr1: "wr_path wr1 = wr_path wr" using flush_writer ff Inr by fastforce
      obtain v2 where v2: "v' = v2" "vfs_core v2 = vfs_core ?v0" and w': "w' = writer_drop (h_env H) wr1 w1"
        using assms(1) f ff Inr
        by (auto simp: vfs_release_def v_seq_def v_bind_def v_match_def v_get_def v_modify_def vfs_s3_def v_io_def Let_def)
      have "io_only (wr_path wr) (os_remove (h_env H) (wr_path wr))" by (rule io_only_basic)
      then have only: "q \<noteq> wr_path wr \<Longrightarrow> w_files w' q = w_files w1 q" for q
        unfolding w' writer_drop_def using wr1 by (auto dest: io_onlyD [OF _ prod.collapse [symmetric]])
      have other: "w_files w' (wr_path wx) = w_files w1 (wr_path wx)"
        if "vf_handles ?v0 g = Some fx" "of_kind fx = WriteHandle wx" for g fx wx
      proof -
        have "g \<noteq> fh" using that(1) by (auto split: if_splits)
        moreover have "wr_path wx = cache_path (vf_cache_dir v) (CHR ''h'') g"
          using v1 that by (simp add: vfs_ok_def handles_ok_def split: if_splits)
        ultimately show ?thesis using only W(1) by simp
      qed
      have "vfs_ok ?v0 w'"
        using v1 other writer_ok_cong unfolding vfs_ok_def handles_ok_def by (metis (no_types, lifting))
      with v2 show ?thesis using handles_ok_core [of v2 ?v0 w' w'] by (simp add: vfs_ok_def vfs_core_def)
    qed
  qed
qed

lemma find_write_handle_Some:
  "find_write_handle H ino fh v = Some h \<Longrightarrow> \<exists>wr. write_handle_of h v = Inr (ino, wr)"
  by (auto simp: find_write_handle_def Let_def write_handle_of_def is_writer_def find_Some_iff
      split: option.splits handle_kind.splits if_splits)

lemma setattr_ok:
  assumes "vfs_setattr H ino sz fh v w = Some (r, v', w')" "vfs_ok v w" "vf_next_fh v < u64_max"
  shows "vfs_ok v' w'"
proof -
  define k where "k = (case sz of
              None \<Rightarrow> v_return ()
            | Some new_size \<Rightarrow>
                v_bind (v_get (\<lambda>v. case find_write_handle H ino fh v of
                     None \<Rightarrow> None
                   | Some h \<Rightarrow> (case write_handle_of h v of Inr (_, wr) \<Rightarrow> Some (h, wr) | Inl _ \<Rightarrow> None))) (\<lambda>x.
                  case x of
                    Some (h, wr) \<Rightarrow>
                      v_bind (v_io (writer_truncate (h_env H) wr new_size)) (\<lambda>wr1.
                        v_modify (\<lambda>v. note_size H ino (wr_size wr1) (set_writer h wr1 v)))
                  | None \<Rightarrow> truncate_object H ino new_size))"
  have key: "vfs_ok v1 w1" if k: "k v w = Some (r1, v1, w1)" for r1 v1 w1
  proof (cases sz)
    case None
    with k assms(2) show ?thesis by (simp add: k_def v_return_def)
  next
    case (Some n)
    show ?thesis
    proof (cases "find_write_handle H ino fh v")
      case None
      with k Some have t: "truncate_object H ino n v w = Some (r1, v1, w1)"
        by (simp add: k_def v_bind_def v_match_def v_get_def)
      have "ready (vf_cache_dir v) (vf_next_fh v) v w" using assms(2) by (simp add: ready_def)
      from vhoareD [OF truncate_object_ok [OF assms(3)] this t] show ?thesis .
    next
      case (Some h)
      obtain wr where h: "write_handle_of h v = Inr (ino, wr)" using find_write_handle_Some [OF Some] ..
      obtain rr w2 where t: "writer_truncate (h_env H) wr n w = (rr, w2)" by fastforce
      show ?thesis
      proof (cases rr)
        case (Inl e)
        then have "w_files w2 = w_files w" using t
          by (auto simp: writer_truncate_def io_bind_def io_return_def os_update_def os_call_def split: option.splits)
        moreover have "v1 = v" "w1 = w2"
          using k \<open>sz = Some n\<close> Some h t Inl
          by (auto simp: k_def v_bind_def v_match_def v_get_def v_io_def v_fail_def)
        ultimately show ?thesis using assms(2) handles_ok_core [of v v w2 w] by (simp add: vfs_ok_def)
      next
        case (Inr wr1)
        have v1: "v1 = note_size H ino (wr_size wr1) (set_writer h wr1 v)" "w1 = w2"
          using k \<open>sz = Some n\<close> Some h t Inr
          by (auto simp: k_def v_bind_def v_match_def v_get_def v_io_def v_modify_def)
        note T = writer_truncate_ok [OF t [unfolded Inr] vfs_ok_writer(2) [OF assms(2) h]]
        show ?thesis by (rule set_writer_ok [OF assms(2) h T(2)]) (use T v1 in auto)
      qed
    qed
  qed
  obtain r1 v1 w1 where k: "k v w = Some (r1, v1, w1)"
    using assms(1) by (auto simp: vfs_setattr_def k_def [symmetric] v_seq_def v_bind_def v_match_def split: option.splits)
  show ?thesis
  proof (cases r1)
    case (Inl e)
    with assms(1) k key show ?thesis
      by (auto simp: vfs_setattr_def k_def [symmetric] v_seq_def v_bind_def v_match_def v_fail_def)
  next
    case (Inr u)
    with assms(1) k have "getattr H ino v1 w1 = Some (r, v', w')"
      by (auto simp: vfs_setattr_def k_def [symmetric] v_seq_def v_bind_def v_match_def)
    from quiet_ok [OF getattr_quiet this key [OF k]] show ?thesis .
  qed
qed

lemma rename_rekey_ok:
  assumes "vfs_ok v w"
  shows "vfs_ok (rename_rekey H old_file new_file v) w"
proof (cases "lookup_key (vf_inodes v) old_file")
  case None
  with assms show ?thesis by (simp add: rename_rekey_def)
next
  case (Some ino)
  define v1 where "v1 = invalidate_attr ino (v\<lparr>vf_inodes := rekey (vf_inodes v) ino new_file\<rparr>)"
  have "vfs_core v1 = vfs_core v" by (simp add: v1_def)
  then have v1: "vfs_ok v1 w" using assms handles_ok_core [of v1 v w w] by (simp add: vfs_ok_def vfs_core_def)
  show ?thesis
  proof (cases "find_write_handle H ino None v1")
    case None
    with Some v1 show ?thesis by (simp add: rename_rekey_def v1_def [symmetric])
  next
    case (Some h)
    obtain wr where h: "write_handle_of h v1 = Inr (ino, wr)" using find_write_handle_Some [OF Some] ..
    have "vfs_ok (set_writer h (writer_set_dst wr u) v1) w" for u
      by (rule set_writer_ok [OF v1 h, where wr' = "writer_set_dst wr u"])
        (use vfs_ok_writer(2) [OF v1 h] in \<open>auto simp: writer_set_dst_def writer_ok_def\<close>)
    with Some \<open>lookup_key (vf_inodes v) old_file = Some ino\<close> v1 h show ?thesis
      by (auto simp: rename_rekey_def v1_def [symmetric] split: sum.splits)
  qed
qed

lemma rename_ok:
  assumes "vfs_rename H parent name newparent newname v w = Some (r, v', w')" "vfs_ok v w"
  shows "vfs_ok v' w'"
proof -
  have q: "v_quiet m \<Longrightarrow> vhoare vfs_ok m (\<lambda>_. vfs_ok)" for m :: "('s, 'b) vio"
    unfolding vhoare_def using quiet_ok by blast
  have upd: "vfs_ok (invalidate_dir newparent (invalidate_dir parent
      (rename_rekey H old_file new_file (rename_forget_dest new_file v)))) w" if "vfs_ok v w" for v w old_file new_file
  proof -
    have "vfs_core (rename_forget_dest new_file v) = vfs_core v"
      by (simp add: rename_forget_dest_def split: option.splits)
    then have "vfs_ok (rename_forget_dest new_file v) w"
      using that handles_ok_core [of "rename_forget_dest new_file v" v w w] by (simp add: vfs_ok_def vfs_core_def)
    from rename_rekey_ok [OF this, of H old_file new_file] show ?thesis
      using handles_ok_core [OF vfs_core_caches(4)] by (simp add: vfs_ok_def invalidate_dir_def handles_ok_def)
  qed
  have fil: "vhoare vfs_ok (rename_file H parent newparent old_file new_file) (\<lambda>_. vfs_ok)" for old_file new_file
    unfolding rename_file_def
    by (rule vhoare_bind [OF q] vhoare_seq [OF q] v_quiet_basic v_quiet_backend vhoare_modify upd | assumption)+
  have "vhoare vfs_ok (vfs_rename H parent name newparent newname) (\<lambda>_. vfs_ok)"
    unfolding vfs_rename_def Let_def
  proof (rule vhoare_bind [OF q], rule v_quiet_basic, assumption, rule vhoare_bind [OF q], rule v_quiet_basic, assumption,
      rule vhoare_bind [OF q], rule v_quiet_basic, assumption, rule vhoare_match [OF q], rule v_quiet_backend)
    fix pn npn src st
    show "vhoare vfs_ok (case st of
           Inr _ \<Rightarrow> rename_file H parent newparent (node_key pn @ name) (node_key npn @ newname)
         | Inl e \<Rightarrow>
             if is_not_found e then
               rename_dir H parent newparent name (node_key pn @ name @ ''/'') (node_key npn @ newname @ ''/'')
             else v_fail e) (\<lambda>_. vfs_ok)"
      using q [OF rename_dir_quiet] fil by (cases st) (auto intro: vhoare_fail)
  qed
  from vhoareD [OF this assms(2,1)] show ?thesis .
qed

lemma read_handle_ok:
  assumes "read_handle H ino fh offset sz v w = Some (r, v', w')" "vfs_ok v w"
  shows "vfs_ok v' w'"
proof (cases "vf_handles v fh")
  case None
  with assms(1) have "vfs_read H ino offset sz v w = Some (r, v', w')" by (simp add: read_handle_def)
  from quiet_ok [OF vfs_read_quiet this assms(2)] show ?thesis .
next
  case (Some f)
  show ?thesis
  proof (cases "of_kind f")
    case (ReadHandle rd)
    then obtain r1 where "v' = set_reader fh r1 v" "w' = w"
      using assms(1) Some by (auto simp: read_handle_def split: prod.splits)
    moreover have "handles_ok (vf_next_fh v) (set_reader fh r1 v) w"
      by (rule handles_ok_put [where v = v and fh = fh and h = "Some (f\<lparr>of_kind := ReadHandle r1\<rparr>)"])
        (use assms(2) Some in \<open>auto simp: vfs_ok_def handles_ok_def set_reader_def\<close>)
    ultimately show ?thesis by (simp add: vfs_ok_def set_reader_def)
  next
    case (WriteHandle wr)
    have "io_quiet (writer_read (h_env H) wr offset sz)"
      unfolding writer_read_def Let_def by auto
    then have "v_quiet (v_io (writer_read (h_env H) wr offset sz))" by auto
    moreover have "v_io (writer_read (h_env H) wr offset sz) v w = Some (r, v', w')"
      using assms(1) Some WriteHandle by (simp add: read_handle_def)
    ultimately show ?thesis using quiet_ok assms(2) by blast
  qed
qed

end
