(* ===== verification/Vfs_Files.thy ===== *)
theory Vfs_Files
  imports Vfs_Props
begin

text \<open>
  What an application sees of a file of the mount: the bytes behind a write handle, what a write
  and a later read of it do, and what the bucket holds once the handle is released.
\<close>

section \<open>A file being written\<close>

text \<open>The bytes behind a write handle, the abstract state its operations act on.\<close>

definition file_content :: "vfs \<Rightarrow> 's world \<Rightarrow> nat \<Rightarrow> string option" where
  "file_content v w fh = (case write_handle_of fh v of Inr (ino, wr) \<Rightarrow> w_files w (wr_path wr) | Inl _ \<Rightarrow> None)"

definition plain_bucket :: "string \<Rightarrow> bool" where
  "plain_bucket b \<longleftrightarrow> b \<noteq> [] \<and> CHR ''/'' \<notin> set b \<and> \<not> has_glob_character b"

lemma obj_url_Inr:
  assumes "obj_url H key v w = Some (Inr u, v', w')" "plain_bucket (vf_bucket v)"
  shows "url_loc u = (vf_bucket v, key) \<and> url_version_id u = [] \<and> url_scheme u = ''s3'' \<and> is_remote u \<and> v' = v \<and> w' = w"
proof -
  have p: "url_parse (h_regex H) (''s3://'' @ vf_bucket v @ ''/'' @ key) = Inr u" and vw: "v' = v" "w' = w"
    using assms(1) by (auto simp: obj_url_def split: sum.splits)
  have "split_once (''s3://'' @ vf_bucket v @ ''/'' @ key) ''://'' = Some (''s3'', vf_bucket v @ ''/'' @ key)"
    by (simp add: split_once_def)
  moreover have "split_once (vf_bucket v @ ''/'' @ key) ''/'' = Some (vf_bucket v, key)"
    using split_once_single [of "CHR ''/''" "vf_bucket v" key] assms(2) by (simp add: plain_bucket_def)
  ultimately have "set_prefix_and_filter (h_regex H) (remote_seed default_url_options (vf_bucket v) key) = Inr u"
    using p assms(2) by (simp add: url_parse_def url_new_def plain_bucket_def remote_seed_def)
  from set_prefix_and_filter_frame [OF this] vw show ?thesis
    by (simp add: url_loc_def remote_seed_def default_url_options_def is_remote_def)
qed

lemma write_content:
  assumes "write_handle H fh offset data v w = Some (Inr n, v', w')" "vfs_ok v w" "data \<noteq> []" "offset + length data < u64_lim"
  obtains ino wr wr1 f where "write_handle_of fh v = Inr (ino, wr)" "w_files w (wr_path wr) = Some f"
    "write_handle_of fh v' = Inr (ino, wr1)" "wr_path wr1 = wr_path wr" "wr_dst wr1 = wr_dst wr" "wr_dirty wr1"
    "w_files w' = (w_files w)(wr_path wr \<mapsto> file_write_at offset data f)" "w_s3 w' = w_s3 w" "n = length data"
    "vfs_core v' = vfs_core (set_writer fh wr1 v)"
proof -
  obtain ino wr where h: "write_handle_of fh v = Inr (ino, wr)"
    using assms(1) by (cases "write_handle_of fh v")
      (auto simp: write_handle_def v_bind_def v_match_def v_get_def v_result_def v_fail_def)
  obtain f where f: "w_files w (wr_path wr) = Some f" using vfs_ok_writer(2) [OF assms(2) h] by (auto simp: writer_ok_def)
  obtain m wr1 where ww: "writer_write (h_env H) wr offset data w = (Inr (m, wr1), w')"
    and v': "v' = note_size H ino (wr_size wr1) (set_writer fh wr1 v)" and n: "n = length data"
    using assms(1) h
    by (auto simp: write_handle_def v_seq_def v_bind_def v_match_def v_get_def v_result_def v_io_def v_modify_def v_return_def v_fail_def
        split: option.splits sum.splits prod.splits)
  note WW = writer_write_ok [OF ww vfs_ok_writer(2) [OF assms(2) h] disjI1 [OF assms(3)] assms(4)]
  have core: "vfs_core v' = vfs_core (set_writer fh wr1 v)" by (simp add: v')
  then have "vf_handles v' = vf_handles (set_writer fh wr1 v)" by (simp add: vfs_core_def)
  then have "write_handle_of fh v' = Inr (ino, wr1)"
    using h by (auto simp: write_handle_of_Inr set_writer_def)
  with that [OF h f] WW f n core show ?thesis by simp
qed

text \<open>
  C22. A write to a file open for writing puts the data at its offset, fills a gap before it with
  zero bytes and leaves every other byte of the file, and the file of every other handle, as it
  was; the next read of any range, through the same handle, sees it.
\<close>

theorem write_then_read:
  assumes ok: "vfs_ok v w" and wr: "write_handle H fh offset data v w = Some (Inr n, v1, w1)"
    and d: "data \<noteq> []" "offset + length data < u64_lim"
  shows "n = length data \<and>
    (\<exists>f. file_content v w fh = Some f \<and> file_content v1 w1 fh = Some (file_write_at offset data f)) \<and>
    (\<forall>g. g \<noteq> fh \<longrightarrow> file_content v1 w1 g = file_content v w g) \<and>
    (\<forall>ino pos sz out v2 w2. read_handle H2 ino fh pos sz v1 w1 = Some (Inr out, v2, w2) \<longrightarrow>
       Some out = map_option (\<lambda>f. take sz (drop pos f)) (file_content v1 w1 fh))"
proof -
  obtain ino x x1 f where h: "write_handle_of fh v = Inr (ino, x)" and f: "w_files w (wr_path x) = Some f"
    and h1: "write_handle_of fh v1 = Inr (ino, x1)" and p: "wr_path x1 = wr_path x"
    and fl: "w_files w1 = (w_files w)(wr_path x \<mapsto> file_write_at offset data f)" and n: "n = length data"
    and core: "vfs_core v1 = vfs_core (set_writer fh x1 v)"
    using write_content [OF wr ok d] by metis
  have ok1: "vfs_ok v1 w1" using write_ok [OF wr ok d] .
  have c: "file_content v w fh = Some f" "file_content v1 w1 fh = Some (file_write_at offset data f)"
    using h h1 f p fl by (simp_all add: file_content_def)
  have others: "file_content v1 w1 g = file_content v w g" if "g \<noteq> fh" for g
  proof -
    have g: "write_handle_of g v1 = write_handle_of g v"
      using core that by (simp add: write_handle_of_def vfs_core_def set_writer_def)
    show ?thesis
    proof (cases "write_handle_of g v")
      case (Inr y)
      obtain gi gx where y: "y = (gi, gx)" by (cases y)
      have "wr_path gx \<noteq> wr_path x"
        using vfs_ok_writer(1) [OF ok Inr [unfolded y]] vfs_ok_writer(1) [OF ok h] that by simp
      with Inr y g fl show ?thesis by (simp add: file_content_def)
    qed (simp add: file_content_def g)
  qed
  have rd: "Some out = map_option (\<lambda>f. take sz (drop pos f)) (file_content v1 w1 fh)"
    if "read_handle H2 i fh pos sz v1 w1 = Some (Inr out, v2, w2)" for i pos sz out v2 w2
  proof -
    have "writer_read (h_env H2) x1 pos sz w1 = (Inr out, w2)"
      using that h1 by (auto simp: read_handle_def write_handle_of_Inr v_io_def split: prod.splits)
    moreover have "w_files w1 (wr_path x1) = Some (file_write_at offset data f)" using fl p by simp
    ultimately have "out = take sz (drop pos (file_write_at offset data f))"
      using writer_read_ok(1) [OF _ vfs_ok_writer(2) [OF ok1 h1]] by blast
    then show ?thesis using c by simp
  qed
  show ?thesis using n c others rd by blast
qed

section \<open>From creation to the bucket\<close>

lemma vio_Ok:
  "v_bind m f v w = Some (Inr y, v', w') \<longleftrightarrow> (\<exists>x v1 w1. m v w = Some (Inr x, v1, w1) \<and> f x v1 w1 = Some (Inr y, v', w'))"
  "v_seq m0 k v w = Some (Inr y, v', w') \<longleftrightarrow> (\<exists>x v1 w1. m0 v w = Some (Inr x, v1, w1) \<and> k v1 w1 = Some (Inr y, v', w'))"
  "v_return z v w = Some (Inr y, v', w') \<longleftrightarrow> y = z \<and> v' = v \<and> w' = w"
  "v_get g v w = Some (Inr y, v', w') \<longleftrightarrow> y = g v \<and> v' = v \<and> w' = w"
  "v_modify h v w = Some (Inr u, v', w') \<longleftrightarrow> v' = h v \<and> w' = w"
  "v_io act v w = Some (Inr y, v', w') \<longleftrightarrow> act w = (Inr y, w') \<and> v' = v"
  "vfs_s3 sact v w = Some (Inr y, v', w') \<longleftrightarrow> sact (vf_s3 v) w = (Inr y, w') \<and> v' = v"
  "v_fail e v w = Some (Inr y, v', w') \<longleftrightarrow> False"
  by (auto simp: v_bind_def v_seq_def v_match_def v_return_def v_get_def v_modify_def v_io_def vfs_s3_def v_fail_def
      split: option.splits sum.splits prod.splits)

lemma vfs_core_simps:
  "vfs_core v' = vfs_core v \<Longrightarrow> vf_s3 v' = vf_s3 v \<and> vf_bucket v' = vf_bucket v \<and> vf_cache_dir v' = vf_cache_dir v \<and>
     vf_handles v' = vf_handles v \<and> vf_next_fh v' = vf_next_fh v"
  by (simp add: vfs_core_def)

text \<open>A created file has an empty cache file that goes to the key of its name.\<close>

lemma create_content:
  assumes "vfs_create H parent name v w = Some (Inr (ino, fh, a), v', w')" "vfs_node parent v w = Some (Inr p, v, w)"
    "plain_bucket (vf_bucket v)"
  obtains wr where "write_handle_of fh v' = Inr (ino, wr)" "wr_path wr = cache_path (vf_cache_dir v) (CHR ''h'') fh"
    "url_loc (wr_dst wr) = (vf_bucket v, node_key p @ name)" "wr_dirty wr" "wr_size wr = 0"
    "w_files w' = (w_files w)(wr_path wr \<mapsto> [])" "w_s3 w' = w_s3 w" "vf_s3 v' = vf_s3 v" "vf_bucket v' = vf_bucket v"
    "fh = u64_add (vf_next_fh v) 1" "vf_handles v' = (vf_handles v)(fh \<mapsto> \<lparr>of_ino = ino, of_kind = WriteHandle wr\<rparr>)"
    "vf_cache_dir v' = vf_cache_dir v"
proof -
  let ?p = "cache_path (vf_cache_dir v) (CHR ''h'') fh"
  obtain t dst w1 where fh: "fh = u64_add (vf_next_fh v) 1"
    and o: "open_cache_file (h_env H) ?p True w = (Inr (), w1)"
    and d: "obj_url H (node_key p @ name) (v\<lparr>vf_inodes := t, vf_next_fh := fh\<rparr>) w1 = Some (Inr dst, v\<lparr>vf_inodes := t, vf_next_fh := fh\<rparr>, w1)"
    and w1: "w' = w1" and v': "v' = invalidate_dir parent (note_size H ino 0
        (insert_handle fh ino (WriteHandle (writer_new ?p dst 0 True)) (v\<lparr>vf_inodes := t, vf_next_fh := fh\<rparr>)))"
    using assms(1,2)
    by (auto simp: vfs_create_def Let_def vio_Ok vfs_intern_def alloc_fh_def obj_url_def split: prod.splits if_splits sum.splits)
  have "url_loc dst = (vf_bucket v, node_key p @ name)" using obj_url_Inr [OF d] assms(3) by simp
  moreover have "w_files w1 = (w_files w)(?p \<mapsto> [])" "w_s3 w1 = w_s3 w"
    using o by (auto simp: open_cache_file_def os_call_Ok)
  ultimately show ?thesis
    using fh by (intro that [of "writer_new ?p dst 0 True"])
      (simp_all add: v' w1 write_handle_of_def writer_new_def invalidate_dir_def note_size_def store_attr_def
        set_dirty_size_def insert_handle_def)
qed

text \<open>A run of writes through one handle.\<close>

definition write_all :: "'s host \<Rightarrow> nat \<Rightarrow> (nat \<times> string) list \<Rightarrow> ('s, unit) vio" where
  "write_all H fh = v_each (\<lambda>(offset, data). v_seq (write_handle H fh offset data) (v_return ()))"

definition write_fits :: "nat \<times> string \<Rightarrow> bool" where
  "write_fits x \<longleftrightarrow> snd x \<noteq> [] \<and> fst x + length (snd x) < u64_lim"

definition written :: "(nat \<times> string) list \<Rightarrow> string \<Rightarrow> string" where
  "written = fold (\<lambda>(offset, data). file_write_at offset data)"

lemma write_all_content:
  assumes "write_all H fh ws v w = Some (Inr x, v', w')" "vfs_ok v w" "list_all write_fits ws"
    "write_handle_of fh v = Inr (ino, wr)" "w_files w (wr_path wr) = Some f" "wr_dirty wr"
  shows "\<exists>wr1. write_handle_of fh v' = Inr (ino, wr1) \<and> wr_path wr1 = wr_path wr \<and> wr_dst wr1 = wr_dst wr \<and> wr_dirty wr1 \<and>
    w_files w' = (w_files w)(wr_path wr \<mapsto> written ws f) \<and> w_s3 w' = w_s3 w \<and> vfs_ok v' w' \<and>
    vf_s3 v' = vf_s3 v \<and> vf_handles v' = (vf_handles v)(fh := vf_handles v' fh)"
  using assms
proof (induction ws arbitrary: v w wr f)
  case Nil
  then show ?case by (auto simp: write_all_def written_def vio_Ok fun_upd_idem)
next
  case (Cons y ws)
  obtain offset data where y: "y = (offset, data)" by (cases y)
  from Cons.prems(1) y obtain n v1 w1 where w1: "write_handle H fh offset data v w = Some (Inr n, v1, w1)"
    and rest: "write_all H fh ws v1 w1 = Some (Inr x, v', w')"
    by (auto simp: write_all_def vio_Ok)
  have fits: "data \<noteq> []" "offset + length data < u64_lim" using Cons.prems(3) y by (simp_all add: write_fits_def)
  obtain wr1 where h1: "write_handle_of fh v1 = Inr (ino, wr1)" "wr_path wr1 = wr_path wr" "wr_dst wr1 = wr_dst wr"
    and d: "wr_dirty wr1" and fl: "w_files w1 = (w_files w)(wr_path wr \<mapsto> file_write_at offset data f)"
    and s3: "w_s3 w1 = w_s3 w" and core: "vfs_core v1 = vfs_core (set_writer fh wr1 v)"
    using write_content [OF w1 Cons.prems(2) fits] Cons.prems(4,5) by (metis Inr_inject Pair_inject option.inject)
  from core have v1: "vf_s3 v1 = vf_s3 v" "vf_handles v1 = (vf_handles v)(fh := vf_handles v1 fh)"
    by (auto simp: vfs_core_def set_writer_def)
  have ok1: "vfs_ok v1 w1" using write_ok [OF w1 Cons.prems(2) fits] .
  have f1: "w_files w1 (wr_path wr1) = Some (file_write_at offset data f)" using fl h1(2) by simp
  from Cons.IH [OF rest ok1 _ h1(1) f1 d] Cons.prems(3)
  obtain wr2 where IH: "write_handle_of fh v' = Inr (ino, wr2)" "wr_path wr2 = wr_path wr1" "wr_dst wr2 = wr_dst wr1"
    "wr_dirty wr2" "w_files w' = (w_files w1)(wr_path wr1 \<mapsto> written ws (file_write_at offset data f))"
    "w_s3 w' = w_s3 w1" "vfs_ok v' w'" "vf_s3 v' = vf_s3 v1" "vf_handles v' = (vf_handles v1)(fh := vf_handles v' fh)"
    by (metis list.pred_inject(2))
  have "w_files w' = (w_files w)(wr_path wr \<mapsto> written (y # ws) f)"
    using IH(5) h1(2) fl y by (simp add: written_def)
  moreover have "vf_handles v' = (vf_handles v)(fh := vf_handles v' fh)"
    using IH(9) v1(2) by (metis fun_upd_upd)
  ultimately show ?case using IH h1 s3 v1(1) by auto
qed

text \<open>The last step: what a release uploads and leaves behind.\<close>

context s3_service
begin

lemma release_stores:
  assumes rel: "vfs_release H fh v w = Some (Inr x, v', w')" and H: "h_sdk H = C"
    and h: "write_handle_of fh v = Inr (ino, wr)" "wr_dirty wr" and f: "w_files w (wr_path wr) = Some f"
    and s: "\<not> s3_dry_run (vf_s3 v)" "0 < s3_part_size (vf_s3 v)" "length f < u64_lim"
      "div_ceil (length f) (s3_part_size (vf_s3 v)) < 2 ^ 31" "\<And>xs. mset (h_sched H xs) = mset xs"
  shows "contents (w_s3 w') = (contents (w_s3 w))(url_loc (wr_dst wr) \<mapsto> f)"
    "vf_handles v' = (vf_handles v)(fh := None)" "\<And>q. q \<noteq> wr_path wr \<Longrightarrow> w_files w' q = w_files w q"
    "env_io (h_env H) ''remove_file'' (wr_path wr) = None \<Longrightarrow> w_files w' (wr_path wr) = None"
proof -
  from h obtain o_f where o_f: "vf_handles v fh = Some o_f" "of_kind o_f = WriteHandle wr" by (auto simp: write_handle_of_Inr)
  obtain wr1 w1 where fl: "writer_flush C (h_env H) (h_sched H) (vf_s3 v) wr w = (Inr wr1, w1)"
    and w': "w' = writer_drop (h_env H) wr1 w1" and v': "vf_handles v' = (vf_handles v)(fh := None)"
    using rel o_f H by (auto simp: vfs_release_def vio_Ok Let_def invalidate_dir_def store_attr_def clear_dirty_size_def)
  note F = writer_flush_ok [OF fl s(1) h(2) f s(2-5)]
  show "vf_handles v' = (vf_handles v)(fh := None)" by (rule v')
  have w'': "w' = snd (os_remove (h_env H) (wr_path wr) w1)" using w' F(3) by (simp add: writer_drop_def)
  show "w_files w' q = w_files w q" if "q \<noteq> wr_path wr" for q
    unfolding w'' F(2) [symmetric] using that
    by (intro io_onlyD [OF _ prod.collapse [symmetric]]) (rule io_only_basic)
  have "w_s3 w' = w_s3 w1" unfolding w'' by (auto simp: os_remove_def os_call_def split: option.splits)
  then show "contents (w_s3 w') = (contents (w_s3 w))(url_loc (wr_dst wr) \<mapsto> f)" using F(1) by simp
  show "w_files w' (wr_path wr) = None" if "env_io (h_env H) ''remove_file'' (wr_path wr) = None"
    unfolding w'' using that F(2) f by (simp add: os_remove_def os_call_def)
qed

end

text \<open>
  C5. A file created on the mount, written to any number of times at any offsets and closed is, in
  the bucket, the object under its parent's key and its name with exactly the bytes of those writes
  over an empty file (later writes over earlier ones, gaps as zeros); no other object changes, the
  handle and its cache file are gone, and no other local file is touched.
\<close>

theorem created_file_is_stored:
  assumes "s3_service (h_sdk H3) contents uploads" "vfs_ok v w" "vf_next_fh v < u64_max" "plain_bucket (vf_bucket v)"
    and p: "vfs_node parent v w = Some (Inr p, v, w)"
    and cr: "vfs_create H1 parent name v w = Some (Inr (ino, fh, a), v1, w1)"
    and wr: "write_all H2 fh ws v1 w1 = Some (Inr x, v2, w2)" and fits: "list_all write_fits ws"
    and rel: "vfs_release H3 fh v2 w2 = Some (Inr y, v3, w3)"
    and s: "\<not> s3_dry_run (vf_s3 v)" "0 < s3_part_size (vf_s3 v)" "length (written ws []) < u64_lim"
      "div_ceil (length (written ws [])) (s3_part_size (vf_s3 v)) < 2 ^ 31" "\<And>xs. mset (h_sched H3 xs) = mset xs"
    and rm: "\<And>q. env_io (h_env H3) ''remove_file'' q = None"
  shows "contents (w_s3 w3) = (contents (w_s3 w))((vf_bucket v, node_key p @ name) \<mapsto> written ws []) \<and>
    vf_handles v3 = (vf_handles v)(fh := None) \<and>
    w_files w3 = (w_files w)(cache_path (vf_cache_dir v) (CHR ''h'') fh := None)"
proof -
  obtain x0 where h: "write_handle_of fh v1 = Inr (ino, x0)" and d: "wr_dirty x0"
    and path: "wr_path x0 = cache_path (vf_cache_dir v) (CHR ''h'') fh" and dst: "url_loc (wr_dst x0) = (vf_bucket v, node_key p @ name)"
    and f1: "w_files w1 = (w_files w)(wr_path x0 \<mapsto> [])" and s1: "w_s3 w1 = w_s3 w" "vf_s3 v1 = vf_s3 v"
    and hs: "vf_handles v1 = (vf_handles v)(fh \<mapsto> \<lparr>of_ino = ino, of_kind = WriteHandle x0\<rparr>)"
    using create_content [OF cr p assms(4)] by metis
  have ok1: "vfs_ok v1 w1"
    by (rule vhoareD [OF create_ok [OF assms(3)] _ cr]) (simp add: ready_def assms(2))
  have e1: "w_files w1 (wr_path x0) = Some []" using f1 by simp
  from write_all_content [OF wr ok1 fits h e1 d]
  obtain x1 where h2: "write_handle_of fh v2 = Inr (ino, x1)" and eq: "wr_path x1 = wr_path x0" "wr_dst x1 = wr_dst x0"
    and d2: "wr_dirty x1" and f2: "w_files w2 = (w_files w1)(wr_path x0 \<mapsto> written ws [])"
    and s2: "w_s3 w2 = w_s3 w1" "vf_s3 v2 = vf_s3 v1" and hs2: "vf_handles v2 = (vf_handles v1)(fh := vf_handles v2 fh)"
    by blast
  have e2: "w_files w2 (wr_path x1) = Some (written ws [])" using f2 eq by simp
  note R = s3_service.release_stores [OF assms(1) rel refl h2 d2 e2]
  have "contents (w_s3 w3) = (contents (w_s3 w))((vf_bucket v, node_key p @ name) \<mapsto> written ws [])"
    using R(1) s s1 s2 eq dst by simp
  moreover have "vf_handles v3 = (vf_handles v)(fh := None)"
    using R(2) s s1 s2 hs hs2 by (metis fun_upd_upd)
  moreover have "w_files w3 q = ((w_files w)(cache_path (vf_cache_dir v) (CHR ''h'') fh := None)) q" for q
    using R(3) [of q] R(4) s s1 s2 rm f1 f2 eq path by (cases "q = wr_path x1") simp_all
  ultimately show ?thesis by blast
qed

section \<open>Examples\<close>

definition demo_host :: "memstore host" where
  "demo_host = \<lparr>h_sdk = memory_sdk, h_regex = reference_engine, h_env = demo_env, h_sched = rev, h_now = 0,
     h_handles = [1, 2, 3], h_nodes = [1, 2, 3]\<rparr>"

definition demo_mount :: vfs where
  "demo_mount = vfs_new (demo_s3 4) ''b'' [] ''c''
     \<lparr>vc_attr_ttl = 60, vc_dir_ttl = 60, vc_uid = 0, vc_gid = 0, vc_chunk_size = 4, vc_buffer_size = 8, vc_concurrency = 2\<rparr> 0"

definition demo_session :: "(memstore, unit) vio" where
  "demo_session = v_bind (vfs_create demo_host 1 ''k'') (\<lambda>(ino, fh, a).
     v_seq (write_all demo_host fh [(6, ''world''), (0, ''hello '')]) (vfs_release demo_host fh))"

lemmas vio_eval = v_bind_def v_seq_def v_match_def v_return_def v_fail_def v_result_def v_get_def v_modify_def v_io_def
  vfs_s3_def

lemma demo_parse: "url_parse reference_engine ''s3://b/k'' = Inr (demo_url ''s3://b/k'')"
  by (simp add: demo_url_def url_eval Let_def)

lemma demo_mount_ok: "vfs_ok demo_mount w"
  by (simp add: vfs_ok_def handles_ok_def demo_mount_def vfs_new_def)

lemma demo_cache_path: "cache_path ''c'' (CHR ''h'') (Suc 0) = ''c/h1.tmp''"
  by (simp add: cache_path_def path_push_def ends_with_def show_nat.simps char_of_def bit_0)

lemmas vfs_ops = vfs_create_def vfs_node_def vfs_intern_def alloc_fh_def obj_url_def open_cache_file_def
  insert_handle_def note_size_def store_attr_def set_dirty_size_def invalidate_dir_def invalidate_attr_def clear_dirty_size_def
  write_all_def write_handle_def write_handle_of_def writer_write_def set_writer_def vfs_release_def writer_flush_def
  writer_new_def writer_drop_def os_remove_def inode_get_def inode_new_def intern_def parent_of_def file_attr_def

lemmas demo_vfs = demo_host_def demo_mount_def vfs_new_def demo_parse demo_cache_path

lemma demo_session_runs: "\<exists>v w. demo_session demo_mount (demo_world [] Map.empty) = Some (Inr (), v, w)"
  by (simp add: demo_session_def vio_eval vfs_ops demo_vfs demo_url_parts s3_ops s3_demo s3_arith Let_def
      file_write_at_def u64_sat_add_def is_dir_def)

theorem created_file_is_stored_witness:
  "\<exists>v w. demo_session demo_mount (demo_world [] Map.empty) = Some (Inr (), v, w) \<and>
     mem_contents (w_s3 w) (''b'', ''k'') = Some ''hello world'' \<and> vf_handles v = Map.empty \<and> w_files w = Map.empty"
proof -
  let ?w = "demo_world [] Map.empty"
  obtain v3 w3 where r: "demo_session demo_mount ?w = Some (Inr (), v3, w3)" using demo_session_runs by blast
  then obtain ino fh a v1 w1 x v2 w2 where c: "vfs_create demo_host 1 ''k'' demo_mount ?w = Some (Inr (ino, fh, a), v1, w1)"
    and wr: "write_all demo_host fh [(6, ''world''), (0, ''hello '')] v1 w1 = Some (Inr x, v2, w2)"
    and rel: "vfs_release demo_host fh v2 w2 = Some (Inr (), v3, w3)"
    by (auto simp: demo_session_def vio_Ok)
  have S: "s3_service (h_sdk demo_host) mem_contents mem_uploads" by (simp add: demo_host_def mem.s3_service_axioms)
  have n: "vf_next_fh demo_mount < u64_max" "plain_bucket (vf_bucket demo_mount)"
    by (simp_all add: demo_mount_def vfs_new_def plain_bucket_def has_glob_character_def glob_char_def)
  have p: "vfs_node 1 demo_mount ?w = Some (Inr \<lparr>node_key = [], node_kind = Dir, node_parent = 1\<rparr>, demo_mount, ?w)"
    by (simp add: vfs_node_def demo_mount_def vfs_new_def inode_get_def inode_new_def)
  have wd: "written [(6, ''world''), (0, ''hello '')] [] = ''hello world''"
    by (simp add: written_def file_write_at_def)
  have sd: "\<And>xs. mset (h_sched demo_host xs) = mset xs" by (simp add: demo_host_def)
  have fits: "list_all write_fits [(6, ''world''), (0, ''hello '')]" by (simp add: write_fits_def)
  note T = created_file_is_stored [OF S demo_mount_ok n p c wr fits rel _ _ _ _ sd, unfolded wd]
  from T r show ?thesis by (simp add: demo_mount_def vfs_new_def demo_s3_def div_ceil_def demo_host_def demo_env_def demo_world_def)
qed

definition demo_edit :: "(memstore, string) vio" where
  "demo_edit = v_bind (vfs_create demo_host 1 ''k'') (\<lambda>(ino, fh, a).
     v_seq (write_handle demo_host fh 2 ''abc'') (read_handle demo_host ino fh 1 3))"

theorem write_then_read_witness:
  "\<exists>v w. demo_edit demo_mount (demo_world [] Map.empty) = Some (Inr [CHR 0x00, CHR ''a'', CHR ''b''], v, w)"
proof -
  let ?w = "demo_world [] Map.empty"
  have "\<exists>v w out. demo_edit demo_mount ?w = Some (Inr out, v, w)"
    by (simp add: demo_edit_def vio_eval vfs_ops demo_vfs demo_url_parts s3_ops s3_demo s3_arith Let_def
      file_write_at_def u64_sat_add_def is_dir_def read_handle_def writer_read_def)
  then obtain ino fh a v1 w1 n v2 w2 out v3 w3
    where c: "vfs_create demo_host 1 ''k'' demo_mount ?w = Some (Inr (ino, fh, a), v1, w1)"
    and wr: "write_handle demo_host fh 2 ''abc'' v1 w1 = Some (Inr n, v2, w2)"
    and rd: "read_handle demo_host ino fh 1 3 v2 w2 = Some (Inr out, v3, w3)"
    and r: "demo_edit demo_mount ?w = Some (Inr out, v3, w3)"
    by (fastforce simp: demo_edit_def vio_Ok)
  have ok: "vfs_ok v1 w1"
    by (rule vhoareD [OF create_ok _ c, of 0 "''c''"]) (simp_all add: ready_def demo_mount_ok, simp_all add: demo_mount_def vfs_new_def)
  have p: "vfs_node 1 demo_mount ?w = Some (Inr \<lparr>node_key = [], node_kind = Dir, node_parent = 1\<rparr>, demo_mount, ?w)"
    by (simp add: vfs_node_def demo_mount_def vfs_new_def inode_get_def inode_new_def)
  have "plain_bucket (vf_bucket demo_mount)"
    by (simp add: demo_mount_def vfs_new_def plain_bucket_def has_glob_character_def glob_char_def)
  from create_content [OF c p this] have e: "file_content v1 w1 fh = Some []" by (metis file_content_def fun_upd_same old.prod.case sum.case(2))
  have "out = take 3 (drop 1 (file_write_at 2 ''abc'' []))"
    using write_then_read [OF ok wr, of demo_host] rd e by fastforce
  with r show ?thesis by (simp add: file_write_at_def zeros_def numeral_2_eq_2)
qed

end
