(* ===== verification/Vfs_Names.thy ===== *)
theory Vfs_Names
  imports Vfs_Files
begin

text \<open>
  The name space of the mount: what removing and renaming do to the objects of the bucket, to the
  inode table and to a file that is open for writing at that time.
\<close>

section \<open>Removing a file that is open\<close>

text \<open>
  Removing a file of the mount while it is open for writing does not remove it for good: the
  handle still points at the object, and closing it uploads the cache file to the name that was
  removed.
\<close>

theorem unlinked_open_file_comes_back:
  assumes "s3_service (h_sdk H2) contents uploads"
    and h: "write_handle_of fh v = Inr (ino, wr)" "wr_dirty wr" and f: "w_files w (wr_path wr) = Some f"
    and ul: "vfs_unlink H1 parent name v w = Some (Inr x, v1, w1)"
    and rel: "vfs_release H2 fh v1 w1 = Some (Inr y, v2, w2)"
    and s: "\<not> s3_dry_run (vf_s3 v)" "0 < s3_part_size (vf_s3 v)" "length f < u64_lim"
      "div_ceil (length f) (s3_part_size (vf_s3 v)) < 2 ^ 31" "\<And>xs. mset (h_sched H2 xs) = mset xs"
  shows "contents (w_s3 w2) (url_loc (wr_dst wr)) = Some f"
proof -
  have q: "vfs_core v1 = vfs_core v" "w_files w1 = w_files w" using v_quietD [OF unlink_quiet ul] by simp_all
  then have h1: "write_handle_of fh v1 = Inr (ino, wr)" "w_files w1 (wr_path wr) = Some f" "vf_s3 v1 = vf_s3 v"
    using h(1) f by (simp_all add: vfs_core_def write_handle_of_def)
  from s3_service.release_stores(1) [OF assms(1) rel refl h1(1) h(2) h1(2)] s h1(3) show ?thesis by simp
qed

section \<open>Renaming a file\<close>

lemma find_write_handle_core: "vf_handles v' = vf_handles v \<Longrightarrow> find_write_handle H ino fh v' = find_write_handle H ino fh v"
  by (simp add: find_write_handle_def)

text \<open>The tables after a rename: the inode keeps its number under the new key, and its writer follows.\<close>

lemma rename_forget_dest_other:
  assumes "inode_inv (vf_inodes v)" "old \<noteq> new"
  shows "inode_inv (vf_inodes (rename_forget_dest new v))" "lookup_key (vf_inodes (rename_forget_dest new v)) new = None"
    "lookup_key (vf_inodes (rename_forget_dest new v)) old = lookup_key (vf_inodes v) old"
    "vfs_core (rename_forget_dest new v) = vfs_core v"
proof -
  show "vfs_core (rename_forget_dest new v) = vfs_core v" by (simp add: rename_forget_dest_def split: option.splits)
  show "inode_inv (vf_inodes (rename_forget_dest new v))"
    using assms(1) inode_inv_forget by (simp add: rename_forget_dest_def invalidate_attr_def split: option.splits)
  show "lookup_key (vf_inodes (rename_forget_dest new v)) new = None"
    "lookup_key (vf_inodes (rename_forget_dest new v)) old = lookup_key (vf_inodes v) old"
    using assms(2) inode_inv_key [OF assms(1), of new]
    by (cases "it_by_key (vf_inodes v) new"; force simp: rename_forget_dest_def invalidate_attr_def lookup_key_def forget_def)+
qed

lemma rename_rekey_tables:
  assumes "inode_inv (vf_inodes v)" "old \<noteq> new" "lookup_key (vf_inodes v) new = None" "lookup_key (vf_inodes v) old = Some ino"
  shows "inode_inv (vf_inodes (rename_rekey H old new v))" "lookup_key (vf_inodes (rename_rekey H old new v)) new = Some ino"
    "lookup_key (vf_inodes (rename_rekey H old new v)) old = None"
proof -
  have t: "vf_inodes (rename_rekey H old new v) = rekey (vf_inodes v) ino new"
    using assms(4) by (simp add: rename_rekey_def Let_def invalidate_attr_def set_writer_def split: option.splits sum.splits prod.splits)
  show "inode_inv (vf_inodes (rename_rekey H old new v))"
    unfolding t using assms by (intro inode_inv_rekey) (simp_all add: lookup_key_def)
  obtain n where "it_nodes (vf_inodes v) ino = Some n" "node_key n = old"
    using inode_inv_key [OF assms(1)] assms(4) by (auto simp: lookup_key_def)
  then show "lookup_key (vf_inodes (rename_rekey H old new v)) new = Some ino"
    "lookup_key (vf_inodes (rename_rekey H old new v)) old = None"
    unfolding t using assms(2) by (simp_all add: lookup_key_def rekey_def)
qed

lemma rename_rekey_writer:
  assumes "lookup_key (vf_inodes v) old = Some ino" "find_write_handle H ino None v = Some fh"
    "write_handle_of fh v = Inr (ino, wr)" "url_parse (h_regex H) (''s3://'' @ vf_bucket v @ ''/'' @ new) = Inr u"
  shows "write_handle_of fh (rename_rekey H old new v) = Inr (ino, wr\<lparr>wr_dst := u\<rparr>)"
proof -
  define v1 where "v1 = invalidate_attr ino (v\<lparr>vf_inodes := rekey (vf_inodes v) ino new\<rparr>)"
  have c: "vf_handles v1 = vf_handles v" "vf_bucket v1 = vf_bucket v" by (simp_all add: v1_def invalidate_attr_def)
  then have h1: "write_handle_of fh v1 = Inr (ino, wr)" using assms(3) by (simp add: write_handle_of_def)
  have "rename_rekey H old new v = set_writer fh (writer_set_dst wr u) v1"
    using assms(1,2,4) h1 c by (simp add: rename_rekey_def v1_def [symmetric] find_write_handle_core [OF c(1)])
  then show ?thesis using h1 by (auto simp: write_handle_of_Inr set_writer_def writer_set_dst_def)
qed

context deleting_service
begin

lemma rename_file_ok:
  assumes rn: "rename_file H parent newparent old new v w = Some (Inr x, v', w')" and H: "h_sdk H = C"
    and b: "plain_bucket (vf_bucket v)" and s: "\<not> s3_dry_run (vf_s3 v)" "0 < s3_part_size (vf_s3 v)"
    and lim: "\<And>f. contents (w_s3 w) (vf_bucket v, old) = Some f \<Longrightarrow> length f < 2 ^ 63"
    and perm: "\<And>xs. mset (h_sched H xs) = mset xs"
  obtains obj u where "contents (w_s3 w) (vf_bucket v, old) = Some obj"
    "contents (w_s3 w') = (contents (w_s3 w))((vf_bucket v, new) \<mapsto> obj, (vf_bucket v, old) := None)"
    "w_files w' = w_files w" "url_parse (h_regex H) (''s3://'' @ vf_bucket v @ ''/'' @ new) = Inr u"
    "url_loc u = (vf_bucket v, new)"
    "v' = invalidate_dir newparent (invalidate_dir parent (rename_rekey H old new (rename_forget_dest new v)))"
proof -
  obtain src dst where so: "obj_url H old v w = Some (Inr src, v, w)" and ds: "obj_url H new v w = Some (Inr dst, v, w)"
    and rest: "v_seq (vfs_copy_obj H src dst) (v_seq (vfs_delete_obj H src)
         (v_modify (\<lambda>v. invalidate_dir newparent (invalidate_dir parent
            (rename_rekey H old new (rename_forget_dest new v)))))) v w = Some (Inr x, v', w')"
    using rn by (auto simp: rename_file_def vio_Ok obj_url_def split: sum.splits)
  obtain y z w1 where cp: "s3_copy C (h_sched H) (vf_s3 v) src dst default_metadata w = (Inr y, w1)"
    and dl: "s3_delete C (vf_s3 v) src w1 = (Inr z, w')"
    and v': "v' = invalidate_dir newparent (invalidate_dir parent (rename_rekey H old new (rename_forget_dest new v)))"
    using rest H by (auto simp: vio_Ok vfs_copy_obj_def vfs_delete_obj_def)
  note S = obj_url_Inr [OF so b] and D = obj_url_Inr [OF ds b]
  have cs: "copy_source_ok src" using S b by (auto simp: copy_source_ok_def plain_bucket_def url_loc_def)
  obtain obj where o: "contents (w_s3 w) (url_loc src) = Some obj"
    "contents (w_s3 w1) = (contents (w_s3 w))(url_loc dst \<mapsto> obj)" "w_files w1 = w_files w"
    using copy_exact [OF cp s(1) cs s(2) _ perm] lim S by auto
  have "w_files w' = w_files w1" using io_quietD [OF delete_quiet dl] .
  moreover have "contents (w_s3 w') = (contents (w_s3 w1))(url_loc src := None)" using delete_ok [OF dl s(1)] S by simp
  moreover have "url_parse (h_regex H) (''s3://'' @ vf_bucket v @ ''/'' @ new) = Inr dst"
    using ds by (auto simp: obj_url_def split: sum.splits)
  ultimately show ?thesis using o S D v' by (intro that [of obj dst]) auto
qed

end

text \<open>
  C11. Renaming a file moves its object: the new name holds the bytes the old name held, the old
  name is gone and no other object changes. The inode of the file keeps its number under the new
  name, and when the file is open for writing its handle follows: closing it stores the cache file
  under the new name, and the old name does not come back.
\<close>

theorem rename_moves_file_and_writer:
  assumes S: "deleting_service (h_sdk H) contents uploads"
    and rn: "rename_file H parent newparent old new v w = Some (Inr x, v1, w1)"
    and b: "plain_bucket (vf_bucket v)" and s: "\<not> s3_dry_run (vf_s3 v)" "0 < s3_part_size (vf_s3 v)"
    and lim: "\<And>f. contents (w_s3 w) (vf_bucket v, old) = Some f \<Longrightarrow> length f < 2 ^ 63"
    and perm: "\<And>xs. mset (h_sched H xs) = mset xs"
    and inv: "inode_inv (vf_inodes v)" "old \<noteq> new" "lookup_key (vf_inodes v) old = Some ino"
    and h: "find_write_handle H ino None v = Some fh" "write_handle_of fh v = Inr (ino, wr)" "wr_dirty wr"
    and f: "w_files w (wr_path wr) = Some f" "length f < u64_lim" "div_ceil (length f) (s3_part_size (vf_s3 v)) < 2 ^ 31"
    and rel: "vfs_release H fh v1 w1 = Some (Inr y, v2, w2)"
  shows "(\<exists>obj. contents (w_s3 w) (vf_bucket v, old) = Some obj \<and>
      contents (w_s3 w1) = (contents (w_s3 w))((vf_bucket v, new) \<mapsto> obj, (vf_bucket v, old) := None)) \<and>
    inode_inv (vf_inodes v1) \<and> lookup_key (vf_inodes v1) new = Some ino \<and> lookup_key (vf_inodes v1) old = None \<and>
    contents (w_s3 w2) = (contents (w_s3 w1))((vf_bucket v, new) \<mapsto> f)"
proof -
  from deleting_service.rename_file_ok [OF S rn refl b s lim perm]
  obtain obj u where o: "contents (w_s3 w) (vf_bucket v, old) = Some obj"
      "contents (w_s3 w1) = (contents (w_s3 w))((vf_bucket v, new) \<mapsto> obj, (vf_bucket v, old) := None)"
    and fl: "w_files w1 = w_files w" and u: "url_parse (h_regex H) (''s3://'' @ vf_bucket v @ ''/'' @ new) = Inr u"
      "url_loc u = (vf_bucket v, new)"
    and v1: "v1 = invalidate_dir newparent (invalidate_dir parent (rename_rekey H old new (rename_forget_dest new v)))"
    by metis
  let ?v = "rename_forget_dest new v"
  note F = rename_forget_dest_other [OF inv(1,2)]
  note C = vfs_core_simps [OF F(4)]
  have lk: "lookup_key (vf_inodes ?v) old = Some ino" using F(3) inv(3) by simp
  note T = rename_rekey_tables [OF F(1) inv(2) F(2) lk, of H]
  have wv: "write_handle_of fh ?v = Inr (ino, wr)" using h(2) C by (simp add: write_handle_of_def)
  have fv: "find_write_handle H ino None ?v = Some fh" using h(1) C find_write_handle_core by metis
  have "write_handle_of fh (rename_rekey H old new ?v) = Inr (ino, wr\<lparr>wr_dst := u\<rparr>)"
    by (rule rename_rekey_writer [OF lk fv wv]) (use u C in simp)
  then have w1: "write_handle_of fh v1 = Inr (ino, wr\<lparr>wr_dst := u\<rparr>)"
    by (simp add: v1 write_handle_of_def invalidate_dir_def)
  have s3: "vf_s3 v1 = vf_s3 v"
    using C by (simp add: v1 invalidate_dir_def rename_rekey_def Let_def invalidate_attr_def set_writer_def
        split: option.splits sum.splits prod.splits)
  have f1: "w_files w1 (wr_path (wr\<lparr>wr_dst := u\<rparr>)) = Some f" using f(1) fl by simp
  have S1: "s3_service (h_sdk H) contents uploads" using S by (rule deleting_service.axioms)
  have "contents (w_s3 w2) = (contents (w_s3 w1))((vf_bucket v, new) \<mapsto> f)"
    using s3_service.release_stores(1) [OF S1 rel refl w1 _ f1 _ _ _ _ perm] h(3) s f s3 u by simp
  then show ?thesis using o T by (auto simp: v1 invalidate_dir_def)
qed

section \<open>Examples\<close>

definition demo_opened :: "(memstore, nat) vio" where
  "demo_opened = v_bind (vfs_create demo_host 1 ''k'') (\<lambda>(ino, fh, a). write_handle demo_host fh 0 ''new'')"

definition demo_rename :: "(memstore, unit) vio" where
  "demo_rename = v_seq demo_opened (v_seq (rename_file demo_host 1 1 ''k'' ''l'') (vfs_release demo_host 1))"

definition demo_old :: "memstore world" where
  "demo_old = demo_world [((''b'', ''k''), ''old'')] Map.empty"

lemma demo_parse_new: "url_parse reference_engine ''s3://b/l'' = Inr (demo_url ''s3://b/l'')"
  by (simp add: demo_url_def url_eval Let_def)

lemma demo_rename_runs: "\<exists>v w. demo_rename demo_mount demo_old = Some (Inr (), v, w)"
  by (simp add: demo_rename_def demo_opened_def demo_old_def vio_eval vfs_ops demo_vfs demo_url_parts s3_ops s3_demo s3_arith Let_def
      file_write_at_def u64_sat_add_def is_dir_def rename_file_def vfs_copy_obj_def vfs_delete_obj_def s3_delete_def
      demo_parse_new rename_rekey_def rename_forget_dest_def find_write_handle_def lookup_key_def forget_def rekey_def
      demo_copy_source is_writer_def writer_set_dst_def mem_delete_def)

lemma demo_opened_state:
  assumes "demo_opened demo_mount demo_old = Some (Inr n, v, w)"
  shows "write_handle_of 1 v = Inr (2, \<lparr>wr_path = ''c/h1.tmp'', wr_dst = demo_url ''s3://b/k'', wr_size = 3, wr_dirty = True\<rparr>)"
    "find_write_handle demo_host 2 None v = Some 1" "lookup_key (vf_inodes v) ''k'' = Some 2"
    "w_files w = [''c/h1.tmp'' \<mapsto> ''new'']" "vf_s3 v = demo_s3 4" "vf_bucket v = ''b''"
    "mem_contents (w_s3 w) = [(''b'', ''k'') \<mapsto> ''old'']"
  using assms
  by (auto simp add: demo_opened_def demo_old_def vio_eval vfs_ops demo_vfs s3_ops s3_demo u64_add_def Let_def
      file_write_at_def u64_sat_add_def is_dir_def find_write_handle_def lookup_key_def is_writer_def fun_eq_iff)

lemma demo_opened_inv: "demo_opened demo_mount demo_old = Some (Inr n, v, w) \<Longrightarrow> inode_inv (vf_inodes v)"
proof -
  assume "demo_opened demo_mount demo_old = Some (Inr n, v, w)"
  then have "vf_inodes v = snd (intern (inode_new []) ''k'' File 1)"
    by (simp add: demo_opened_def demo_old_def vio_eval vfs_ops demo_vfs s3_ops s3_demo Let_def u64_add_def
       is_dir_def) auto
  moreover have "it_next (inode_new []) < u64_max" by (simp add: inode_new_def)
  ultimately show ?thesis using inode_inv_intern [OF inode_inv_new] by simp
qed

lemma demo_host_parts: "s3_service (h_sdk demo_host) mem_contents mem_uploads" "deleting_service (h_sdk demo_host) mem_contents mem_uploads"
  "mset (h_sched demo_host xs) = mset xs"
  by (simp_all add: demo_host_def mem.s3_service_axioms mem_deleting.deleting_service_axioms)

theorem rename_moves_file_and_writer_witness:
  "\<exists>v w. demo_rename demo_mount demo_old = Some (Inr (), v, w) \<and> mem_contents (w_s3 w) = [(''b'', ''l'') \<mapsto> ''new'']"
proof -
  obtain v2 w2 where r: "demo_rename demo_mount demo_old = Some (Inr (), v2, w2)" using demo_rename_runs by blast
  then obtain n v w x v1 w1 where o: "demo_opened demo_mount demo_old = Some (Inr n, v, w)"
    and rn: "rename_file demo_host 1 1 ''k'' ''l'' v w = Some (Inr x, v1, w1)"
    and rel: "vfs_release demo_host 1 v1 w1 = Some (Inr (), v2, w2)"
    by (auto simp: demo_rename_def vio_Ok)
  note D = demo_opened_state [OF o]
  have pb: "plain_bucket (vf_bucket v)" using D by (simp add: plain_bucket_def has_glob_character_def glob_char_def)
  from rename_moves_file_and_writer [OF demo_host_parts(2) rn pb _ _ _ demo_host_parts(3) demo_opened_inv [OF o] _ D(3) D(2) D(1) _ _ _ _ rel, of "''new''"] D
  have "mem_contents (w_s3 w1) = [(''b'', ''l'') \<mapsto> ''old'']" "mem_contents (w_s3 w2) = (mem_contents (w_s3 w1))((''b'', ''l'') \<mapsto> ''new'')"
    by (auto simp: demo_s3_def div_ceil_def fun_eq_iff)
  with r show ?thesis by simp
qed

definition demo_unlink :: "(memstore, unit) vio" where
  "demo_unlink = v_seq demo_opened (v_seq (vfs_unlink demo_host 1 ''k'') (vfs_release demo_host 1))"

theorem unlinked_open_file_comes_back_witness:
  "\<exists>v w. demo_unlink demo_mount demo_old = Some (Inr (), v, w) \<and> mem_contents (w_s3 w) (''b'', ''k'') = Some ''new''"
proof -
  have "\<exists>v w. demo_unlink demo_mount demo_old = Some (Inr (), v, w)"
    by (simp add: demo_unlink_def demo_opened_def demo_old_def vio_eval vfs_ops demo_vfs demo_url_parts s3_ops s3_demo s3_arith Let_def
      file_write_at_def u64_sat_add_def is_dir_def vfs_unlink_def vfs_delete_obj_def s3_delete_def
      lookup_key_def forget_def mem_delete_def)
  then obtain v2 w2 where r: "demo_unlink demo_mount demo_old = Some (Inr (), v2, w2)" by blast
  then obtain n v w x v1 w1 where o: "demo_opened demo_mount demo_old = Some (Inr n, v, w)"
    and ul: "vfs_unlink demo_host 1 ''k'' v w = Some (Inr x, v1, w1)"
    and rel: "vfs_release demo_host 1 v1 w1 = Some (Inr (), v2, w2)"
    by (auto simp: demo_unlink_def vio_Ok)
  note D = demo_opened_state [OF o]
  from unlinked_open_file_comes_back [OF demo_host_parts(1) D(1) _ _ ul rel _ _ _ _ demo_host_parts(3), of "''new''"] D r
  show ?thesis by (simp add: demo_s3_def div_ceil_def url_loc_def demo_url_parts)
qed

end
