(* ===== verification/Fuse.thy ===== *)
theory Fuse
  imports Vfs_Names
begin

text \<open>
  The FUSE adapter (\<^verbatim>\<open>src/mount/fs.rs\<close>) and the set-up of a mount (\<^verbatim>\<open>src/mount/mod.rs\<close>): requests of
  the kernel as a datatype, the replies, the mapping of errors to error numbers, and the read-only
  checks, over the operations of the file system core. The kernel side and the session of the fuse3
  crate are not modelled: \<open>serve\<close> answers one request.
\<close>

section \<open>Replies\<close>

datatype file_type = Directory | RegularFile

record fuse_attr =
  fa_ino :: nat
  fa_size :: nat
  fa_blocks :: nat
  fa_atime :: int
  fa_mtime :: int
  fa_ctime :: int
  fa_kind :: file_type
  fa_perm :: nat
  fa_nlink :: nat
  fa_uid :: nat
  fa_gid :: nat
  fa_rdev :: nat
  fa_blksize :: nat

record s3_fuse =
  fu_ttl :: int
  fu_read_only :: bool
  fu_uid :: nat
  fu_gid :: nat

definition s3_fuse_new :: "vfs_config \<Rightarrow> int \<Rightarrow> bool \<Rightarrow> s3_fuse" where
  "s3_fuse_new cfg ttl read_only =
     \<lparr>fu_ttl = ttl, fu_read_only = read_only, fu_uid = vc_uid cfg, fu_gid = vc_gid cfg\<rparr>"

definition fuse_kind :: "node_kind \<Rightarrow> file_type" where
  "fuse_kind k = (case k of Dir \<Rightarrow> Directory | File \<Rightarrow> RegularFile)"

definition to_file_attr :: "s3_fuse \<Rightarrow> attr \<Rightarrow> fuse_attr" where
  "to_file_attr F a =
     (case (case at_kind a of Dir \<Rightarrow> (Directory, 493, 2) | File \<Rightarrow> (RegularFile, 420, 1)) of
        (kind, perm, nlink) \<Rightarrow>
          \<lparr>fa_ino = at_ino a, fa_size = at_size a, fa_blocks = div_ceil (at_size a) 512,
           fa_atime = at_mtime a, fa_mtime = at_mtime a, fa_ctime = at_mtime a, fa_kind = kind, fa_perm = perm,
           fa_nlink = nlink, fa_uid = fu_uid F, fa_gid = fu_gid F, fa_rdev = 0, fa_blksize = 512\<rparr>)"

record dirent =
  dn_inode :: nat
  dn_kind :: file_type
  dn_name :: string
  dn_offset :: int

datatype reply =
    ReplyInit nat
  | ReplyEntry int fuse_attr nat
  | ReplyAttr int fuse_attr
  | ReplyOpen nat nat
  | ReplyDirectory "dirent list"
  | ReplyDirectoryPlus "(dirent \<times> nat \<times> fuse_attr \<times> int \<times> int) list"
  | ReplyData string
  | ReplyCreated int fuse_attr nat nat nat
  | ReplyWrite nat
  | ReplyUnit

section \<open>Error numbers\<close>

definition ENOENT :: nat where "ENOENT = 2"
definition EIO :: nat where "EIO = 5"
definition EEXIST :: nat where "EEXIST = 17"
definition EINVAL :: nat where "EINVAL = 22"
definition EROFS :: nat where "EROFS = 30"
definition ENOTEMPTY :: nat where "ENOTEMPTY = 39"

definition errno :: "error \<Rightarrow> nat" where
  "errno e = (case e of ObjectNotFound _ \<Rightarrow> ENOENT | NoObjectFound \<Rightarrow> ENOENT | DirNotEmpty \<Rightarrow> ENOTEMPTY
     | AlreadyExists \<Rightarrow> EEXIST | _ \<Rightarrow> EIO)"

section \<open>Requests\<close>

datatype request =
    Init
  | Destroy
  | Lookup nat string
  | GetAttr nat
  | OpenDir nat
  | ReadDir nat int
  | ReadDirPlus nat nat
  | Open nat "32 word"
  | Read nat nat nat nat
  | Release nat
  | ReleaseDir
  | Flush nat
  | Fsync nat
  | Create nat string
  | Write nat nat string
  | SetAttr nat "nat option" "nat option"
  | Unlink nat string
  | Mkdir nat string
  | Rmdir nat string
  | Rename nat string nat string

type_synonym ('s, 'a) fio = "vfs \<Rightarrow> 's world \<Rightarrow> ((nat, 'a) result \<times> vfs \<times> 's world) option"

definition f_reply :: "('a \<Rightarrow> 'b) \<Rightarrow> ('s, 'a) vio \<Rightarrow> ('s, 'b) fio" where
  "f_reply g m v w =
     (case m v w of
        None \<Rightarrow> None
      | Some (Inl e, v1, w1) \<Rightarrow> Some (Err (errno e), v1, w1)
      | Some (Inr x, v1, w1) \<Rightarrow> Some (Ok (g x), v1, w1))"

definition f_return :: "'a \<Rightarrow> ('s, 'a) fio" where
  "f_return x v w = Some (Ok x, v, w)"

definition f_fail :: "nat \<Rightarrow> ('s, 'a) fio" where
  "f_fail e v w = Some (Err e, v, w)"

text \<open>\<^verbatim>\<open>OsStr::to_str\<close> gives a name only if it is well-formed UTF-8.\<close>

definition with_name :: "string \<Rightarrow> ('s, 'a) fio \<Rightarrow> ('s, 'a) fio" where
  "with_name name m = (if utf8_valid name then m else f_fail EINVAL)"

definition unless_read_only :: "s3_fuse \<Rightarrow> ('s, 'a) fio \<Rightarrow> ('s, 'a) fio" where
  "unless_read_only F m = (if fu_read_only F then f_fail EROFS else m)"

definition dir_entries :: "'s host \<Rightarrow> nat \<Rightarrow> ('s, (nat \<times> string \<times> node_kind) list) vio" where
  "dir_entries H ino =
     v_bind (readdir H ino) (\<lambda>children.
     v_bind (v_get (parent_of ino)) (\<lambda>parent.
       v_return ((ino, ''.'', Dir) # (parent, ''..'', Dir) # map (\<lambda>c. (de_ino c, de_name c, de_kind c)) children)))"

definition enumerate_from :: "nat \<Rightarrow> 'a list \<Rightarrow> (nat \<times> 'a) list" where
  "enumerate_from n xs = zip [n..<n + length xs] xs"

definition readdir_page :: "int \<Rightarrow> (nat \<times> string \<times> node_kind) list \<Rightarrow> dirent list" where
  "readdir_page offset all =
     map (\<lambda>(i, (ino, name, kind)). \<lparr>dn_inode = ino, dn_kind = fuse_kind kind, dn_name = name, dn_offset = int i + 1\<rparr>)
       (filter (\<lambda>(i, _). \<not> int i < offset) (enumerate_from 0 all))"

fun readdirplus_loop ::
  "s3_fuse \<Rightarrow> 's host \<Rightarrow> nat \<Rightarrow> (nat \<times> nat \<times> string \<times> node_kind) list
     \<Rightarrow> ('s, (dirent \<times> nat \<times> fuse_attr \<times> int \<times> int) list) vio" where
  "readdirplus_loop F H offset [] = v_return []"
| "readdirplus_loop F H offset ((i, (ino, name, kind)) # es) =
     (if i < offset then readdirplus_loop F H offset es
      else
        v_bind (getattr H ino) (\<lambda>a.
        v_bind (readdirplus_loop F H offset es) (\<lambda>out.
          v_return ((\<lparr>dn_inode = ino, dn_kind = fuse_kind (at_kind a), dn_name = name, dn_offset = int i + 1\<rparr>,
                     0, to_file_attr F a, fu_ttl F, fu_ttl F) # out))))"

definition fuse_init :: "s3_fuse \<Rightarrow> 's host \<Rightarrow> ('s, reply) fio" where
  "fuse_init F H = f_return (ReplyInit (128 * 1024))"

definition fuse_destroy :: "s3_fuse \<Rightarrow> 's host \<Rightarrow> ('s, reply) fio" where
  "fuse_destroy F H = f_return ReplyUnit"

definition fuse_lookup :: "s3_fuse \<Rightarrow> 's host \<Rightarrow> nat \<Rightarrow> string \<Rightarrow> ('s, reply) fio" where
  "fuse_lookup F H parent name =
     with_name name (f_reply (\<lambda>a. ReplyEntry (fu_ttl F) (to_file_attr F a) 0) (vfs_lookup H parent name))"

definition fuse_getattr :: "s3_fuse \<Rightarrow> 's host \<Rightarrow> nat \<Rightarrow> ('s, reply) fio" where
  "fuse_getattr F H ino = f_reply (\<lambda>a. ReplyAttr (fu_ttl F) (to_file_attr F a)) (getattr H ino)"

definition fuse_opendir :: "s3_fuse \<Rightarrow> 's host \<Rightarrow> nat \<Rightarrow> ('s, reply) fio" where
  "fuse_opendir F H ino = f_return (ReplyOpen 0 0)"

definition fuse_readdir :: "s3_fuse \<Rightarrow> 's host \<Rightarrow> nat \<Rightarrow> int \<Rightarrow> ('s, reply) fio" where
  "fuse_readdir F H parent offset = f_reply (\<lambda>all. ReplyDirectory (readdir_page offset all)) (dir_entries H parent)"

definition fuse_readdirplus :: "s3_fuse \<Rightarrow> 's host \<Rightarrow> nat \<Rightarrow> nat \<Rightarrow> ('s, reply) fio" where
  "fuse_readdirplus F H parent offset =
     f_reply ReplyDirectoryPlus
       (v_bind (dir_entries H parent) (\<lambda>all. readdirplus_loop F H offset (enumerate_from 0 all)))"

definition fuse_open :: "s3_fuse \<Rightarrow> 's host \<Rightarrow> nat \<Rightarrow> 32 word \<Rightarrow> ('s, reply) fio" where
  "fuse_open F H ino flags =
     (if fu_read_only F \<and> and flags O_ACCMODE \<noteq> O_RDONLY then f_fail EROFS
      else f_reply (\<lambda>fh. ReplyOpen fh 0) (vfs_open H ino flags))"

definition fuse_read :: "s3_fuse \<Rightarrow> 's host \<Rightarrow> nat \<Rightarrow> nat \<Rightarrow> nat \<Rightarrow> nat \<Rightarrow> ('s, reply) fio" where
  "fuse_read F H ino fh offset sz = f_reply ReplyData (read_handle H ino fh offset sz)"

definition fuse_release :: "s3_fuse \<Rightarrow> 's host \<Rightarrow> nat \<Rightarrow> ('s, reply) fio" where
  "fuse_release F H fh = f_reply (\<lambda>_. ReplyUnit) (vfs_release H fh)"

definition fuse_releasedir :: "s3_fuse \<Rightarrow> 's host \<Rightarrow> ('s, reply) fio" where
  "fuse_releasedir F H = f_return ReplyUnit"

definition fuse_flush :: "s3_fuse \<Rightarrow> 's host \<Rightarrow> nat \<Rightarrow> ('s, reply) fio" where
  "fuse_flush F H fh = f_reply (\<lambda>_. ReplyUnit) (flush_handle H fh)"

definition fuse_fsync :: "s3_fuse \<Rightarrow> 's host \<Rightarrow> nat \<Rightarrow> ('s, reply) fio" where
  "fuse_fsync F H fh = f_reply (\<lambda>_. ReplyUnit) (flush_handle H fh)"

definition fuse_create :: "s3_fuse \<Rightarrow> 's host \<Rightarrow> nat \<Rightarrow> string \<Rightarrow> ('s, reply) fio" where
  "fuse_create F H parent name =
     unless_read_only F (with_name name
       (f_reply (\<lambda>(_, fh, a). ReplyCreated (fu_ttl F) (to_file_attr F a) 0 fh 0) (vfs_create H parent name)))"

definition fuse_write :: "s3_fuse \<Rightarrow> 's host \<Rightarrow> nat \<Rightarrow> nat \<Rightarrow> string \<Rightarrow> ('s, reply) fio" where
  "fuse_write F H fh offset data = unless_read_only F (f_reply ReplyWrite (write_handle H fh offset data))"

definition fuse_setattr :: "s3_fuse \<Rightarrow> 's host \<Rightarrow> nat \<Rightarrow> nat option \<Rightarrow> nat option \<Rightarrow> ('s, reply) fio" where
  "fuse_setattr F H ino fh sz =
     (if fu_read_only F \<and> sz \<noteq> None then f_fail EROFS
      else f_reply (\<lambda>a. ReplyAttr (fu_ttl F) (to_file_attr F a)) (vfs_setattr H ino sz fh))"

definition fuse_unlink :: "s3_fuse \<Rightarrow> 's host \<Rightarrow> nat \<Rightarrow> string \<Rightarrow> ('s, reply) fio" where
  "fuse_unlink F H parent name = unless_read_only F (with_name name (f_reply (\<lambda>_. ReplyUnit) (vfs_unlink H parent name)))"

definition fuse_mkdir :: "s3_fuse \<Rightarrow> 's host \<Rightarrow> nat \<Rightarrow> string \<Rightarrow> ('s, reply) fio" where
  "fuse_mkdir F H parent name =
     unless_read_only F (with_name name
       (f_reply (\<lambda>a. ReplyEntry (fu_ttl F) (to_file_attr F a) 0) (vfs_mkdir H parent name)))"

definition fuse_rmdir :: "s3_fuse \<Rightarrow> 's host \<Rightarrow> nat \<Rightarrow> string \<Rightarrow> ('s, reply) fio" where
  "fuse_rmdir F H parent name = unless_read_only F (with_name name (f_reply (\<lambda>_. ReplyUnit) (vfs_rmdir H parent name)))"

definition fuse_rename :: "s3_fuse \<Rightarrow> 's host \<Rightarrow> nat \<Rightarrow> string \<Rightarrow> nat \<Rightarrow> string \<Rightarrow> ('s, reply) fio" where
  "fuse_rename F H parent name newparent newname =
     unless_read_only F (with_name name (with_name newname
       (f_reply (\<lambda>_. ReplyUnit) (vfs_rename H parent name newparent newname))))"

text \<open>One request, answered by its handler.\<close>

fun serve :: "s3_fuse \<Rightarrow> 's host \<Rightarrow> request \<Rightarrow> ('s, reply) fio" where
  "serve F H Init = fuse_init F H"
| "serve F H Destroy = fuse_destroy F H"
| "serve F H (Lookup parent name) = fuse_lookup F H parent name"
| "serve F H (GetAttr ino) = fuse_getattr F H ino"
| "serve F H (OpenDir ino) = fuse_opendir F H ino"
| "serve F H (ReadDir parent offset) = fuse_readdir F H parent offset"
| "serve F H (ReadDirPlus parent offset) = fuse_readdirplus F H parent offset"
| "serve F H (Open ino flags) = fuse_open F H ino flags"
| "serve F H (Read ino fh offset sz) = fuse_read F H ino fh offset sz"
| "serve F H (Release fh) = fuse_release F H fh"
| "serve F H ReleaseDir = fuse_releasedir F H"
| "serve F H (Flush fh) = fuse_flush F H fh"
| "serve F H (Fsync fh) = fuse_fsync F H fh"
| "serve F H (Create parent name) = fuse_create F H parent name"
| "serve F H (Write fh offset data) = fuse_write F H fh offset data"
| "serve F H (SetAttr ino fh sz) = fuse_setattr F H ino fh sz"
| "serve F H (Unlink parent name) = fuse_unlink F H parent name"
| "serve F H (Mkdir parent name) = fuse_mkdir F H parent name"
| "serve F H (Rmdir parent name) = fuse_rmdir F H parent name"
| "serve F H (Rename parent name newparent newname) = fuse_rename F H parent name newparent newname"

lemmas fuse_defs = fuse_init_def fuse_destroy_def fuse_lookup_def fuse_getattr_def fuse_opendir_def fuse_readdir_def fuse_readdirplus_def fuse_open_def fuse_read_def fuse_release_def fuse_releasedir_def fuse_flush_def fuse_fsync_def fuse_create_def fuse_write_def fuse_setattr_def fuse_unlink_def fuse_mkdir_def fuse_rmdir_def fuse_rename_def

end
