(* ===== verification/Listed.thy ===== *)
theory Listed
  imports Vfs_Props
begin

text \<open>
  What a listing can contain, and the interface of a service whose listings change nothing: shared
  by the mount and by the commands that act on listed objects.
\<close>

section \<open>What a listing can contain\<close>

definition listed_url :: "regex_lib \<Rightarrow> url \<Rightarrow> url \<Rightarrow> bool" where
  "listed_url L u v \<longleftrightarrow> (\<exists>k vid. matching L u k \<and> v = (matched_url L u k)\<lparr>url_version_id := vid\<rparr>
     \<and> (is_versioned u \<or> vid = url_version_id u))"

definition listed_ok :: "regex_lib \<Rightarrow> url \<Rightarrow> object list \<Rightarrow> bool" where
  "listed_ok L u os \<longleftrightarrow> (\<forall>ob \<in> set os. \<forall>v. ob_url ob = Some v \<longrightarrow> listed_url L u v)"

definition same_listing :: "url \<Rightarrow> url \<Rightarrow> bool" where
  "same_listing u v \<longleftrightarrow> (\<exists>r. v = u\<lparr>url_relative_path := r\<rparr>)"

lemma same_listing_refl: "same_listing u u"
  unfolding same_listing_def by (rule exI [of _ "url_relative_path u"]) simp

lemma matches_same:
  assumes "same_listing u v"
  shows "fst (url_matches L v k) = matching L u k"
    "fst (url_matches L v k) \<Longrightarrow> (snd (url_matches L v k))\<lparr>url_path := k\<rparr> = matched_url L u k"
    "same_listing u (snd (url_matches L v k))"
proof -
  obtain r where v: "v = u\<lparr>url_relative_path := r\<rparr>" using assms by (auto simp: same_listing_def)
  show "fst (url_matches L v k) = matching L u k" unfolding v by (rule url_matches_relative(1))
  show "fst (url_matches L v k) \<Longrightarrow> (snd (url_matches L v k))\<lparr>url_path := k\<rparr> = matched_url L u k"
    unfolding v url_matches_relative(1) by (rule url_matches_relative(2))
  show "same_listing u (snd (url_matches L v k))"
    unfolding v same_listing_def by (rule url_matches_relative(3))
qed

lemma emit_listed:
  assumes "\<And>x v ob. mk x v = Some ob \<Longrightarrow> \<exists>vid. ob_url ob = Some (v\<lparr>url_version_id := vid\<rparr>)
      \<and> (is_versioned u \<or> vid = url_version_id v)"
  shows "same_listing u src \<Longrightarrow> emit L key mk xs src = (os, src') \<Longrightarrow> listed_ok L u os \<and> same_listing u src'"
proof (induction xs arbitrary: src os src')
  case (Cons x xs)
  show ?case
  proof (cases "key x")
    case None
    then show ?thesis using Cons by simp
  next
    case (Some e)
    let ?k = "percent_decode e"
    obtain b src1 where m: "url_matches L src ?k = (b, src1)" by fastforce
    obtain os1 src2 where e1: "emit L key mk xs src1 = (os1, src2)" by fastforce
    have s1: "same_listing u src1" using matches_same(3) [OF Cons.prems(1), of L ?k] m by simp
    note IH = Cons.IH [OF s1 e1]
    show ?thesis
    proof (cases b)
      case True
      have "matching L u ?k" "src1\<lparr>url_path := ?k\<rparr> = matched_url L u ?k"
        using matches_same(1,2) [OF Cons.prems(1), of L ?k] m True by simp_all
      note M = this
      have V: "url_version_id (src1\<lparr>url_path := ?k\<rparr>) = url_version_id u" using s1 by (auto simp: same_listing_def)
      have "listed_url L u v" if mk: "mk x (src1\<lparr>url_path := ?k\<rparr>) = Some ob" "ob_url ob = Some v" for ob v
      proof -
        obtain vid where "v = (src1\<lparr>url_path := ?k\<rparr>)\<lparr>url_version_id := vid\<rparr>"
          "is_versioned u \<or> vid = url_version_id (src1\<lparr>url_path := ?k\<rparr>)"
          using assms [OF mk(1)] mk(2) by auto
        with M V have "matching L u ?k \<and> v = (matched_url L u ?k)\<lparr>url_version_id := vid\<rparr>
            \<and> (is_versioned u \<or> vid = url_version_id u)" by simp
        then show ?thesis unfolding listed_url_def by blast
      qed
      then show ?thesis using IH Cons.prems(2) Some m True e1
        by (auto simp: listed_ok_def Let_def split: option.splits)
    qed (use IH Cons.prems(2) Some m e1 in \<open>auto simp: Let_def\<close>)
  qed
qed (simp add: listed_ok_def)

lemma url_version_exists: "\<exists>vid. v = v\<lparr>url_version_id := vid\<rparr> \<and> (is_versioned u \<or> vid = url_version_id v)"
  by (rule exI [of _ "url_version_id v"]) simp

lemma listed_ok_append [simp]: "listed_ok L u (xs @ ys) \<longleftrightarrow> listed_ok L u xs \<and> listed_ok L u ys"
  by (auto simp: listed_ok_def)

lemma emit_page_listed:
  "same_listing u src \<Longrightarrow> emit_page L page src = (os, src') \<Longrightarrow> listed_ok L u os \<and> same_listing u src'"
  "is_versioned u \<Longrightarrow> same_listing u src \<Longrightarrow> emit_version_page L page src = (os, src') \<Longrightarrow> listed_ok L u os \<and> same_listing u src'"
proof -
  have pre: "same_listing u src \<Longrightarrow> emit_prefixes L xs src = (os, src') \<Longrightarrow> listed_ok L u os \<and> same_listing u src'" for xs src os src'
    unfolding emit_prefixes_def by (rule emit_listed) (auto simp: dir_object_def intro: url_version_exists)
  have con: "same_listing u src \<Longrightarrow> emit_contents L xs src = (os, src') \<Longrightarrow> listed_ok L u os \<and> same_listing u src'" for xs src os src'
    unfolding emit_contents_def by (rule emit_listed) (auto simp: file_object_def intro: url_version_exists)
  have ver: "same_listing u src \<Longrightarrow> emit_versions L mk xs src = (os, src') \<Longrightarrow> listed_ok L u os \<and> same_listing u src'"
    if "is_versioned u" "\<And>x v. ob_url (mk x v) = Some v" for mk xs src os src'
    unfolding emit_versions_def by (rule emit_listed) (auto simp: that Let_def split: if_splits)
  show "same_listing u src \<Longrightarrow> emit_page L page src = (os, src') \<Longrightarrow> listed_ok L u os \<and> same_listing u src'"
  proof -
    assume s: "same_listing u src" and e: "emit_page L page src = (os, src')"
    obtain os1 s1 where 1: "emit_prefixes L (lp_common_prefixes page) src = (os1, s1)" by fastforce
    obtain os2 s2 where 2: "emit_contents L (lp_contents page) s1 = (os2, s2)" by fastforce
    note p1 = pre [OF s 1] and p2 = con [OF _ 2]
    show ?thesis using e 1 2 p1 p2 by (auto simp: emit_page_def)
  qed
  show "is_versioned u \<Longrightarrow> same_listing u src \<Longrightarrow> emit_version_page L page src = (os, src') \<Longrightarrow> listed_ok L u os \<and> same_listing u src'"
  proof -
    assume v: "is_versioned u" and s: "same_listing u src" and e: "emit_version_page L page src = (os, src')"
    obtain os1 s1 where 1: "emit_prefixes L (lp_common_prefixes page) src = (os1, s1)" by fastforce
    obtain os2 s2 where 2: "emit_versions L file_object (lp_contents page) s1 = (os2, s2)" by fastforce
    obtain os3 s3 where 3: "emit_versions L marker_object (lp_delete_markers page) s2 = (os3, s3)" by fastforce
    have f: "ob_url (file_object x v) = Some v" "ob_url (marker_object x v) = Some v" for x v
      by (simp_all add: file_object_def marker_object_def)
    note p1 = pre [OF s 1] and p2 = ver [OF v f(1) _ 2] and p3 = ver [OF v f(2) _ 3]
    show ?thesis using e 1 2 3 p1 p2 p3 by (auto simp: emit_version_page_def)
  qed
qed

lemma finish_listed: "listed_ok L u os \<Longrightarrow> listed_ok L u (finish_listing src os)"
  by (auto simp: finish_listing_def listed_ok_def object_with_error_def default_object_def)

lemma listed_ok_error [simp]: "listed_ok L u [object_with_error e]"
  by (simp add: listed_ok_def object_with_error_def default_object_def)

lemma emit_pages_listed: "same_listing u src \<Longrightarrow> listed_ok L u sent \<Longrightarrow> listed_ok L u (emit_pages L pages src sent)"
proof (induction L pages src sent rule: emit_pages.induct)
  case (3 L page pages src sent)
  obtain os src1 where e: "emit_page L page src = (os, src1)" by fastforce
  with 3 emit_page_listed(1) [OF 3(2) e] show ?case by simp
qed (simp_all add: finish_listed)

lemma v1_loop_listed:
  "v1_loop C L m u sent w = Some res \<Longrightarrow> same_listing u0 u \<longrightarrow> listed_ok L u0 sent \<longrightarrow> listed_ok L u0 (fst res)"
proof (erule v1_loop.raw_induct [rotated])
  fix loop :: "'s sdk \<Rightarrow> regex_lib \<Rightarrow> string option \<Rightarrow> url \<Rightarrow> object list \<Rightarrow> 's world \<Rightarrow> (object list \<times> 's world) option"
  fix C L m u sent w res
  assume 1: "\<And>C L m u sent w res. loop C L m u sent w = Some res \<Longrightarrow> same_listing u0 u \<longrightarrow> listed_ok L u0 sent \<longrightarrow> listed_ok L u0 (fst res)"
    "(case send (sdk_list_v1 C ((list_request_for u)\<lparr>lq_marker := m\<rparr>)) w of
        (Inl e, w1) \<Rightarrow> Some (sent @ [object_with_error (SdkError e)], w1)
      | (Inr page, w1) \<Rightarrow>
          (case emit_page L page u of
             (os, src1) \<Rightarrow>
               if \<not> unwrap_or False (lp_is_truncated page) then Some (finish_listing src1 (sent @ os), w1)
               else
                 (case or_else (map_option percent_decode (lp_next_marker page)) (last_key page) of
                    None \<Rightarrow> Some (finish_listing src1 (sent @ os), w1)
                  | Some m \<Rightarrow> loop C L (Some m) src1 (sent @ os) w1))) = Some res"
  show "same_listing u0 u \<longrightarrow> listed_ok L u0 sent \<longrightarrow> listed_ok L u0 (fst res)"
  proof (intro impI)
    assume s: "same_listing u0 u" "listed_ok L u0 sent"
    obtain r w1 where q: "send (sdk_list_v1 C ((list_request_for u)\<lparr>lq_marker := m\<rparr>)) w = (r, w1)" by fastforce
    show "listed_ok L u0 (fst res)"
    proof (cases r)
      case (Inr page)
      obtain os u1 where e: "emit_page L page u = (os, u1)" by fastforce
      have o: "listed_ok L u0 (sent @ os)" "same_listing u0 u1" using emit_page_listed(1) [OF s(1) e] s(2) by simp_all
      note d = finish_listed [OF o(1), of u1] and l = 1(1) [of C L _ u1 "sent @ os" w1]
      show ?thesis using 1(2) q Inr e d l o by (auto split: if_splits option.splits)
    qed (use 1(2) q s in auto)
  qed
qed

lemma versions_loop_listed:
  "versions_loop C L m vm u sent w = Some res \<Longrightarrow> is_versioned u0 \<longrightarrow> same_listing u0 u \<longrightarrow> listed_ok L u0 sent \<longrightarrow> listed_ok L u0 (fst res)"
proof (erule versions_loop.raw_induct [rotated])
  fix loop :: "'s sdk \<Rightarrow> regex_lib \<Rightarrow> string option \<Rightarrow> string option \<Rightarrow> url \<Rightarrow> object list \<Rightarrow> 's world \<Rightarrow> (object list \<times> 's world) option"
  fix C L m vm u sent w res
  assume 1: "\<And>C L m vm u sent w res. loop C L m vm u sent w = Some res \<Longrightarrow> is_versioned u0 \<longrightarrow> same_listing u0 u \<longrightarrow> listed_ok L u0 sent \<longrightarrow> listed_ok L u0 (fst res)"
    "(case send (sdk_list_versions C ((list_request_for u)\<lparr>lq_marker := m, lq_version_marker := vm\<rparr>)) w of
        (Inl e, w1) \<Rightarrow> Some (sent @ [object_with_error (SdkError e)], w1)
      | (Inr page, w1) \<Rightarrow>
          (case emit_version_page L page u of
             (os, src1) \<Rightarrow>
               if \<not> unwrap_or False (lp_is_truncated page) then Some (finish_listing src1 (sent @ os), w1)
               else
                 let km = map_option percent_decode (lp_next_marker page);
                     vm = map_option percent_decode (lp_next_version_marker page)
                 in if km = None \<and> vm = None then Some (finish_listing src1 (sent @ os), w1)
                    else loop C L km vm src1 (sent @ os) w1)) = Some res"
  show "is_versioned u0 \<longrightarrow> same_listing u0 u \<longrightarrow> listed_ok L u0 sent \<longrightarrow> listed_ok L u0 (fst res)"
  proof (intro impI)
    assume v: "is_versioned u0" and s: "same_listing u0 u" "listed_ok L u0 sent"
    obtain r w1 where q: "send (sdk_list_versions C ((list_request_for u)\<lparr>lq_marker := m, lq_version_marker := vm\<rparr>)) w = (r, w1)" by fastforce
    show "listed_ok L u0 (fst res)"
    proof (cases r)
      case (Inr page)
      obtain os u1 where e: "emit_version_page L page u = (os, u1)" by fastforce
      have o: "listed_ok L u0 (sent @ os)" "same_listing u0 u1" using emit_page_listed(2) [OF v s(1) e] s(2) by simp_all
      note d = finish_listed [OF o(1), of u1] and l = 1(1) [of C L _ _ u1 "sent @ os" w1]
      show ?thesis using 1(2) q Inr e d l o v by (auto simp: Let_def split: if_splits)
    qed (use 1(2) q s in auto)
  qed
qed

text \<open>Every object a listing sends, whichever request it uses, carries a URL that matches the source.\<close>

lemma s3_list_listed:
  assumes "s3_list C L s u w = Some (os, w')"
  shows "listed_ok L u os"
proof -
  have e: "listed_ok L u []" by (simp add: listed_ok_def)
  have "listed_ok L u (fst (list_v2 C L s u w))"
    using emit_pages_listed [OF same_listing_refl e] by (auto simp: list_v2_def Let_def split: prod.splits)
  with assms v1_loop_listed [of C L None u "[]" w "(os, w')" u] versions_loop_listed [of C L None None u "[]" w "(os, w')" u] e
  show ?thesis
    by (auto simp: s3_list_def list_object_versions_def list_objects_v1_def same_listing_refl split: if_splits)
qed

section \<open>A service whose listings change no object\<close>

locale reading_service = s3_service +
  assumes list_v1_keeps: "sdk_list_v1 C q s = (r, s') \<Longrightarrow> contents s' = contents s"
    and list_v2_keeps: "sdk_list_v2 C q payer s = (rs, s') \<Longrightarrow> contents s' = contents s"
    and list_versions_keeps: "sdk_list_versions C q s = (r, s') \<Longrightarrow> contents s' = contents s"
begin

lemma list_same:
  assumes "s3_list C L st u w = Some (os, w')"
  shows "contents (w_s3 w') = contents (w_s3 w)"
proof (rule list_keeps [OF assms])
  show "list_frame C (\<lambda>w. contents (w_s3 w))"
    using list_v1_keeps list_v2_keeps list_versions_keeps
    by (auto simp: list_frame_def send_def split: prod.splits) (metis prod.collapse)+
qed

end

interpretation mem_reading: reading_service memory_sdk mem_contents mem_uploads
  by unfold_locales (auto simp: memory_sdk_def)

end
