(* ===== verification/Mount.thy ===== *)
theory Mount
  imports Fuse Listed
begin

text \<open>
  The invariants of a mount over all the requests it can serve, and the safety of a read-only mount.
\<close>

section \<open>The states of a mount\<close>

text \<open>
  A mount starts with empty tables and serves requests one after the other, each with its own
  circumstances; between two requests anything may happen to the bucket. The kernel sends no empty
  write and no write beyond the largest offset.
\<close>

definition request_ok :: "request \<Rightarrow> bool" where
  "request_ok q = (case q of Write fh offset data \<Rightarrow> write_fits (offset, data) | _ \<Rightarrow> True)"

inductive mount_reach :: "s3_fuse \<Rightarrow> vfs \<Rightarrow> 's world \<Rightarrow> bool" for F where
  mount_new: "mount_reach F (vfs_new s bucket prefix dir cfg now) w"
| mount_serve: "mount_reach F v w \<Longrightarrow> serve F H q v w = Some (r, v', w') \<Longrightarrow> request_ok q \<Longrightarrow> fstat_ok H \<Longrightarrow>
    vf_next_fh v < u64_max \<Longrightarrow> mount_reach F v' w'"
| mount_outside: "mount_reach F v w \<Longrightarrow> mount_reach F v (w\<lparr>w_s3 := s'\<rparr>)"

lemma vfs_ok_new: "vfs_ok (vfs_new s bucket prefix dir cfg now) w"
  by (simp add: vfs_ok_def handles_ok_def vfs_new_def)

lemma f_reply_Some: "f_reply g m v w = Some (r, v', w') \<Longrightarrow> \<exists>r'. m v w = Some (r', v', w')"
  by (auto simp: f_reply_def split: option.splits sum.splits)

lemma f_guards_Some:
  "with_name name m v w = Some (r, v', w') \<Longrightarrow> m v w = Some (r, v', w') \<or> v' = v \<and> w' = w"
  "unless_read_only F m v w = Some (r, v', w') \<Longrightarrow> \<not> fu_read_only F \<and> m v w = Some (r, v', w') \<or> v' = v \<and> w' = w"
  by (auto simp: with_name_def unless_read_only_def f_fail_def split: if_splits)

lemma readdirplus_loop_quiet: "v_quiet (readdirplus_loop F H offset es)"
  by (induction F H offset es rule: readdirplus_loop.induct) auto

lemma dir_entries_quiet: "v_quiet (dir_entries H ino)"
  unfolding dir_entries_def by auto

lemma serve_ok:
  assumes sv: "serve F H q v w = Some (r, v', w')" and ok: "vfs_ok v w" and q: "request_ok q" and H: "fstat_ok H"
    and n: "vf_next_fh v < u64_max"
  shows "vfs_ok v' w'"
proof -
  have rd: "ready (vf_cache_dir v) (vf_next_fh v) v w" using ok by (simp add: ready_def)
  have done1: "vfs_open H i fl v w = Some (x, v', w') \<Longrightarrow> vfs_ok v' w'" for i fl x
    by (rule vhoareD [OF open_ok [OF n H] rd])
  have done2: "vfs_create H i nm v w = Some (y, v', w') \<Longrightarrow> vfs_ok v' w'" for i nm y
    by (rule vhoareD [OF create_ok [OF n] rd])
  have done3: "vfs_mkdir H i nm v w = Some (z, v', w') \<Longrightarrow> vfs_ok v' w'" for i nm z
    by (rule vhoareD [OF mkdir_ok [OF n] rd])
  have quiet: "v_quiet m \<Longrightarrow> m v w = Some (x, v', w') \<Longrightarrow> vfs_ok v' w'" for m :: "('a, 'c) vio" and x
    using quiet_ok ok by blast
  have plus: "v_quiet (v_bind (dir_entries H i) (\<lambda>all. readdirplus_loop F H offset (enumerate_from 0 all)))" for i offset
    using dir_entries_quiet readdirplus_loop_quiet by blast
  show ?thesis
  proof (cases q)
    case (Write fh offset data)
    with sv q ok show ?thesis
      by (auto simp: fuse_write_def request_ok_def write_fits_def dest!: f_guards_Some f_reply_Some intro: write_ok)
  next
    case (Open ino flags)
    with sv ok show ?thesis
      by (auto simp: fuse_open_def f_fail_def split: if_splits dest!: f_reply_Some intro: done1)
  next
    case (SetAttr ino fh sz)
    with sv ok n show ?thesis
      by (auto simp: fuse_setattr_def f_fail_def split: if_splits dest!: f_reply_Some intro: setattr_ok)
  next
    case (ReadDirPlus ino offset)
    with sv show ?thesis by (auto simp: fuse_readdirplus_def dest!: f_reply_Some intro: quiet [OF plus])
  next
    case (ReadDir ino offset)
    with sv show ?thesis by (auto simp: fuse_readdir_def dest!: f_reply_Some intro: quiet [OF dir_entries_quiet])
  qed (use sv ok in \<open>auto simp: fuse_defs f_return_def dest!: f_reply_Some f_guards_Some
        intro: done2 done3 quiet [OF lookup_quiet] quiet [OF getattr_quiet] quiet [OF unlink_quiet] quiet [OF rmdir_quiet]
          read_handle_ok release_ok flush_ok rename_ok\<close>)
qed

lemma mount_reach_ok: "mount_reach F v w \<Longrightarrow> vfs_ok v w"
proof (induction rule: mount_reach.induct)
  case (mount_serve v w H q r v' w')
  then show ?case using serve_ok by blast
qed (simp_all add: vfs_ok_new, simp add: vfs_ok_def handles_ok_def)


lemma fstat_ok_demo: "fstat_ok demo_host"
  by (simp add: fstat_ok_def demo_host_def demo_env_def)


section \<open>Reading leaves the bucket alone\<close>

definition v_keeps :: "('s \<Rightarrow> 'o) \<Rightarrow> ('s, 'a) vio \<Rightarrow> bool" where
  "v_keeps obs m \<longleftrightarrow> (\<forall>v w r v' w'. m v w = Some (r, v', w') \<longrightarrow> obs (w_s3 w') = obs (w_s3 w))"

lemma v_keepsD: "v_keeps obs m \<Longrightarrow> m v w = Some (r, v', w') \<Longrightarrow> obs (w_s3 w') = obs (w_s3 w)"
  by (auto simp: v_keeps_def)

lemma v_keeps_basic [intro!]:
  "v_keeps obs (v_return x)" "v_keeps obs (v_fail e)" "v_keeps obs (v_result res)" "v_keeps obs (v_get f)" "v_keeps obs (v_modify g)"
  "v_keeps obs alloc_fh" "v_keeps obs (vfs_node ino)" "v_keeps obs (vfs_intern key kind parent)" "v_keeps obs (obj_url H key)"
  "v_keeps obs (list_url H key)"
  by (auto simp: v_keeps_def v_return_def v_fail_def v_result_def v_get_def v_modify_def alloc_fh_def vfs_node_def vfs_intern_def
      obj_url_def list_url_def split: prod.splits)

lemma v_keeps_match [intro!]: "v_keeps obs m \<Longrightarrow> (\<And>r. v_keeps obs (f r)) \<Longrightarrow> v_keeps obs (v_match m f)"
  by (auto simp: v_keeps_def v_match_def split: option.splits)

lemma v_keeps_bind [intro!]: "v_keeps obs m \<Longrightarrow> (\<And>x. v_keeps obs (f x)) \<Longrightarrow> v_keeps obs (v_bind m f)"
  unfolding v_bind_def by (auto split: sum.splits)

lemma v_keeps_seq [intro!]: "v_keeps obs m \<Longrightarrow> v_keeps obs k \<Longrightarrow> v_keeps obs (v_seq m k)"
  unfolding v_seq_def by auto

context reading_service
begin

lemma stat_keeps: "v_keeps contents (vfs_stat H u)" if "h_sdk H = C"
  using that head_ok by (auto simp: v_keeps_def vfs_stat_def vfs_s3_def v_io_def s3_stat_def send_def split: prod.splits sum.splits)

lemma listing_keeps: "v_keeps contents (vfs_list H u)" if "h_sdk H = C"
  using that list_same by (fastforce simp: v_keeps_def vfs_list_def split: option.splits)

lemma range_keeps: "v_keeps contents (vfs_s3 (\<lambda>s. read_range C s u offset len))"
  using get_frame by (auto simp: v_keeps_def vfs_s3_def v_io_def read_range_def send_def collect_body_def io_bind_def io_return_def
      split: prod.splits sum.splits option.splits if_splits)

lemma getattr_keeps: "v_keeps contents (getattr H ino)" if "h_sdk H = C"
  unfolding getattr_def by (auto intro!: stat_keeps [OF that] split: node_kind.splits option.splits)

lemma prefix_exists_keeps: "v_keeps contents (prefix_exists H key)" if "h_sdk H = C"
  unfolding prefix_exists_def by (auto intro!: listing_keeps [OF that] split: list.splits option.splits)

lemma lookup_keeps: "v_keeps contents (vfs_lookup H parent name)" if "h_sdk H = C"
  unfolding vfs_lookup_def lookup_probe_def Let_def
  by (auto intro!: getattr_keeps [OF that] stat_keeps [OF that] prefix_exists_keeps [OF that]
      split: option.splits sum.splits)

lemma readdir_keeps: "v_keeps contents (readdir H ino)" if "h_sdk H = C"
  unfolding readdir_def
proof (intro v_keeps_bind v_keeps_basic)
  fix n
  have "v_keeps contents (\<lambda>v w. case readdir_loop ino (node_key n) os sc0 v of
                   (Inl e, v1) \<Rightarrow> Some (Err e, v1, w)
                 | (Inr sc, v1) \<Rightarrow>
                     let sc1 = merge_dirty (dirty_children H ino v1) sc;
                         v2 = store_dir H ino (ds_entries sc1) (fold (store_attr H) (ds_attrs sc1) v1)
                     in Some (Ok (ds_entries sc1), v2, w))" for os sc0
    by (auto simp: v_keeps_def Let_def split: prod.splits sum.splits)
  then show "v_keeps contents (if \<not> is_dir (node_kind n) then v_fail (ObjectNotFound (''inode '' @ show_nat ino))
       else
         v_bind (v_get (cached_dir H ino)) (\<lambda>c.
           case c of
             Some es \<Rightarrow> v_return es
           | None \<Rightarrow>
               v_bind (list_url H (node_key n)) (\<lambda>u.
               v_bind (vfs_list H u) (\<lambda>os v w.
                 case readdir_loop ino (node_key n) os \<lparr>ds_entries = [], ds_attrs = [], ds_seen = []\<rparr> v of
                   (Inl e, v1) \<Rightarrow> Some (Err e, v1, w)
                 | (Inr sc, v1) \<Rightarrow>
                     let sc1 = merge_dirty (dirty_children H ino v1) sc;
                         v2 = store_dir H ino (ds_entries sc1) (fold (store_attr H) (ds_attrs sc1) v1)
                     in Some (Ok (ds_entries sc1), v2, w)))))"
    by (auto intro!: listing_keeps [OF that] split: option.splits)
qed

lemma read_keeps: "v_keeps contents (vfs_read H ino offset sz)" if "h_sdk H = C"
  unfolding vfs_read_def that by (auto intro!: getattr_keeps [OF that] range_keeps)

lemma dir_entries_keeps: "v_keeps contents (dir_entries H ino)" if "h_sdk H = C"
  unfolding dir_entries_def by (auto intro: readdir_keeps [OF that])

lemma readdirplus_keeps: "v_keeps contents (readdirplus_loop F H offset es)" if "h_sdk H = C"
  using that by (induction F H offset es rule: readdirplus_loop.induct) (auto intro: getattr_keeps)

lemma plus_keeps: "v_keeps contents (v_bind (dir_entries H ino) (\<lambda>all. readdirplus_loop F H offset (enumerate_from 0 all)))"
  if "h_sdk H = C"
  by (intro v_keeps_bind dir_entries_keeps [OF that] readdirplus_keeps [OF that])

end

section \<open>Read-only mounts\<close>

definition no_writers :: "vfs \<Rightarrow> bool" where
  "no_writers v \<longleftrightarrow> (\<forall>fh f. vf_handles v fh = Some f \<longrightarrow> \<not> is_writer f)"

definition truncating_open :: "request \<Rightarrow> bool" where
  "truncating_open q = (case q of Open ino flags \<Rightarrow> and flags O_TRUNC \<noteq> 0 | _ \<Rightarrow> False)"

lemma no_writers_handle: "no_writers v \<Longrightarrow> write_handle_of fh v \<noteq> Inr x"
  by (cases x) (fastforce simp: no_writers_def write_handle_of_Inr is_writer_def)

lemma no_writers_core: "vfs_core v' = vfs_core v \<Longrightarrow> no_writers v' = no_writers v"
  by (simp add: no_writers_def vfs_core_def)

lemma read_handle_read_only:
  assumes "reading_service (h_sdk H) contents uploads" "no_writers v" "read_handle H ino fh offset sz v w = Some (r, v', w')"
  shows "contents (w_s3 w') = contents (w_s3 w) \<and> no_writers v' \<and> w_files w' = w_files w"
proof (cases "vf_handles v fh")
  case None
  then have r: "vfs_read H ino offset sz v w = Some (r, v', w')" using assms(3) by (simp add: read_handle_def)
  from v_keepsD [OF reading_service.read_keeps [OF assms(1) refl] r] v_quietD [OF vfs_read_quiet r] no_writers_core [of v' v] assms(2)
  show ?thesis by simp
next
  case (Some f)
  then have "\<not> is_writer f" using assms(2) by (simp add: no_writers_def)
  then obtain rd where "of_kind f = ReadHandle rd" by (cases "of_kind f") (simp_all add: is_writer_def)
  with assms(2,3) Some show ?thesis
    by (auto simp: read_handle_def no_writers_def set_reader_def is_writer_def split: prod.splits if_splits)
qed

lemma open_read_only:
  assumes "reading_service (h_sdk H) contents uploads" "no_writers v" "\<not> opens_for_writing flags"
    "vfs_open H ino flags v w = Some (r, v', w')"
  shows "contents (w_s3 w') = contents (w_s3 w) \<and> no_writers v' \<and> w_files w' = w_files w"
proof -
  have "v_keeps contents (vfs_open H ino flags)"
    unfolding vfs_open_def using assms(3)
    by (auto intro!: reading_service.getattr_keeps [OF assms(1) refl])
  moreover have "no_writers v' \<and> w_files w' = w_files w"
  proof -
    let ?P = "\<lambda>v x. no_writers v \<and> w_files x = w_files w"
    have q: "v_quiet m \<Longrightarrow> vhoare ?P m (\<lambda>_. ?P)" for m :: "('a, 'b) vio"
      unfolding vhoare_def by (metis no_writers_core v_quietD)
    have al: "vhoare ?P alloc_fh (\<lambda>_. ?P)" by (auto simp: vhoare_def alloc_fh_def no_writers_def)
    have put: "vhoare ?P (v_modify (insert_handle fh i (ReadHandle rd))) (\<lambda>_. ?P)" for fh i rd
      by (auto simp: vhoare_def v_modify_def no_writers_def insert_handle_def is_writer_def split: if_splits)
    have "vhoare ?P (vfs_open H ino flags) (\<lambda>_. ?P)"
      unfolding vfs_open_def using assms(3)
      by (auto intro!: vhoare_bind [OF q] v_quiet_basic vhoare_bind [OF al] vhoare_fail vhoare_seq [OF put] vhoare_return getattr_quiet)
    from vhoareD [OF this _ assms(4)] assms(2) show ?thesis by simp
  qed
  ultimately show ?thesis using v_keepsD assms(4) by blast
qed

fun serve_all :: "s3_fuse \<Rightarrow> ('s host \<times> request) list \<Rightarrow> vfs \<Rightarrow> 's world \<Rightarrow> ((nat, reply) result list \<times> vfs \<times> 's world) option" where
  "serve_all F [] v w = Some ([], v, w)"
| "serve_all F ((H, q) # qs) v w =
     (case serve F H q v w of
        None \<Rightarrow> None
      | Some (r, v1, w1) \<Rightarrow> map_option (\<lambda>(rs, x). (r # rs, x)) (serve_all F qs v1 w1))"

lemma serve_read_only:
  assumes S: "reading_service (h_sdk H) contents uploads" and nw: "no_writers v" and ro: "fu_read_only F"
    and q: "\<not> truncating_open q" and sv: "serve F H q v w = Some (r, v', w')"
  shows "contents (w_s3 w') = contents (w_s3 w) \<and> no_writers v' \<and> w_files w' = w_files w"
proof -
  have k: "contents (w_s3 w') = contents (w_s3 w) \<and> no_writers v' \<and> w_files w' = w_files w"
    if "v_keeps contents m" "v_quiet m" "m v w = Some (x, v', w')" for m :: "('a, 'b) vio" and x
    using v_keepsD [OF that(1,3)] v_quietD [OF that(2,3)] no_writers_core nw by metis
  note K = reading_service.getattr_keeps [OF S refl] reading_service.lookup_keeps [OF S refl]
    reading_service.dir_entries_keeps [OF S refl] reading_service.plus_keeps [OF S refl]
  have plus: "v_quiet (v_bind (dir_entries H i) (\<lambda>all. readdirplus_loop F H offset (enumerate_from 0 all)))" for i offset
    using dir_entries_quiet readdirplus_loop_quiet by blast
  show ?thesis
  proof (cases q)
    case (Lookup parent name)
    with sv nw show ?thesis
      by (auto simp: fuse_lookup_def dest!: f_guards_Some f_reply_Some dest: k [OF K(2) lookup_quiet])
  next
    case (GetAttr ino)
    with sv show ?thesis by (auto simp: fuse_getattr_def dest!: f_reply_Some k [OF K(1) getattr_quiet])
  next
    case (ReadDir ino offset)
    with sv show ?thesis by (auto simp: fuse_readdir_def dest!: f_reply_Some k [OF K(3) dir_entries_quiet])
  next
    case (ReadDirPlus ino offset)
    with sv show ?thesis by (auto simp: fuse_readdirplus_def dest!: f_reply_Some k [OF K(4) plus])
  next
    case (Open ino flags)
    show ?thesis
    proof (cases "and flags O_ACCMODE = O_RDONLY")
      case True
      then have "\<not> opens_for_writing flags" using q Open by (simp add: opens_for_writing_def truncating_open_def)
      with True sv Open show ?thesis by (auto simp: fuse_open_def dest!: f_reply_Some open_read_only [OF S nw])
    qed (use sv Open ro nw in \<open>simp add: fuse_open_def f_fail_def\<close>)
  next
    case (Read ino fh offset sz)
    with sv show ?thesis by (auto simp: fuse_read_def dest!: f_reply_Some read_handle_read_only [OF S nw])
  next
    case (SetAttr ino fh sz)
    show ?thesis
    proof (cases sz)
      case None
      have "vfs_setattr H ino None fh = getattr H ino"
        by (simp add: vfs_setattr_def vio_eval fun_eq_iff)
      with sv SetAttr None show ?thesis by (auto simp: fuse_setattr_def dest!: f_reply_Some k [OF K(1) getattr_quiet])
    qed (use sv SetAttr ro nw in \<open>simp add: fuse_setattr_def f_fail_def\<close>)
  next
    case (Flush fh)
    with sv nw no_writers_handle [OF nw] show ?thesis
      by (auto simp: fuse_flush_def flush_handle_def vio_eval split: sum.splits dest!: f_reply_Some)
  next
    case (Fsync fh)
    with sv nw no_writers_handle [OF nw] show ?thesis
      by (auto simp: fuse_fsync_def flush_handle_def vio_eval split: sum.splits dest!: f_reply_Some)
  next
    case (Release fh)
    have "vfs_release H fh v w = Some (Inr (), v\<lparr>vf_handles := (vf_handles v)(fh := None)\<rparr>, w)"
      using nw by (auto simp: vfs_release_def vio_eval no_writers_def is_writer_def split: option.splits handle_kind.splits)
    with sv Release nw show ?thesis
      by (auto simp: fuse_release_def f_reply_def no_writers_def split: if_splits)
  qed (use sv nw ro in \<open>auto simp: fuse_defs f_return_def f_fail_def unless_read_only_def\<close>)
qed

text \<open>
  C13. A read-only mount changes nothing: however many requests it serves, of whatever kind, it leaves
  every object of the bucket and every local file as it found them. The one request the adapter
  lets through is an open for reading that asks for truncation.
\<close>

theorem read_only_mount_changes_nothing:
  assumes "fu_read_only F" "no_writers v"
    and "\<forall>x \<in> set qs. reading_service (h_sdk (fst x)) contents uploads \<and> \<not> truncating_open (snd x)"
    and "serve_all F qs v w = Some (rs, v', w')"
  shows "contents (w_s3 w') = contents (w_s3 w) \<and> w_files w' = w_files w \<and> length rs = length qs"
  using assms
proof (induction F qs v w arbitrary: rs rule: serve_all.induct)
  case (2 F H q qs v w)
  from 2(5) obtain r v1 w1 rs1 where s: "serve F H q v w = Some (r, v1, w1)" and rs: "serve_all F qs v1 w1 = Some (rs1, v', w')" "rs = r # rs1"
    by (auto split: option.splits)
  have 3: "contents (w_s3 w1) = contents (w_s3 w) \<and> no_writers v1 \<and> w_files w1 = w_files w"
    by (rule serve_read_only [OF _ 2(3,2) _ s, where uploads = uploads]) (use 2(4) in simp_all)
  from 2(1) [OF s _ _ 2(2) _ _ rs(1)] 3 2(4) rs(2) show ?case by auto
qed simp

definition demo_fuse :: s3_fuse where
  "demo_fuse = s3_fuse_new (vf_cfg demo_mount) 1 True"

definition demo_requests :: "request list" where
  "demo_requests = [Lookup 1 ''k'', Open 2 0, Write 1 0 ''x'', Release 1, Unlink 1 ''k'']"

lemmas serve_eval = demo_fuse_def s3_fuse_new_def fuse_defs unless_read_only_def with_name_def f_fail_def f_reply_def
  utf8_valid_ascii byte_of_def O_ACCMODE_def O_RDONLY_def O_TRUNC_def
  demo_old_def vio_eval vfs_ops demo_vfs demo_url_parts s3_ops s3_demo s3_arith Let_def is_dir_def vfs_lookup_def lookup_probe_def
  lookup_key_def cached_dir_def vfs_stat_def s3_stat_def obj_attr_def epoch_time_def vfs_open_def opens_for_writing_def getattr_def
  dirty_entry_def cached_attr_def unwrap_or_def default_object_def

lemma demo_requests_served:
  "\<exists>rs v w. serve_all demo_fuse (map (Pair demo_host) demo_requests) demo_mount demo_old = Some (rs, v, w)"
  by (simp add: demo_requests_def serve_eval)


theorem read_only_mount_changes_nothing_witness:
  "\<exists>rs v w. serve_all demo_fuse (map (Pair demo_host) demo_requests) demo_mount demo_old = Some (rs, v, w) \<and>
     mem_contents (w_s3 w) = mem_contents (w_s3 demo_old) \<and> length rs = 5"
proof -
  obtain rs v w where s: "serve_all demo_fuse (map (Pair demo_host) demo_requests) demo_mount demo_old = Some (rs, v, w)"
    using demo_requests_served by blast
  have ro: "fu_read_only demo_fuse" by (simp add: demo_fuse_def s3_fuse_new_def)
  have nw: "no_writers demo_mount" by (simp add: no_writers_def demo_mount_def vfs_new_def)
  have "\<forall>x \<in> set (map (Pair demo_host) demo_requests).
      reading_service (h_sdk (fst x)) mem_contents mem_uploads \<and> \<not> truncating_open (snd x)"
    by (auto simp: demo_host_def mem_reading.reading_service_axioms demo_requests_def truncating_open_def)
  from read_only_mount_changes_nothing [OF ro nw this s] s show ?thesis by (simp add: demo_requests_def)
qed

text \<open>
  The exception is real: the adapter of a read-only mount looks at the access mode alone, so
  that an open for reading with truncation reaches the core, which opens the file for writing;
  closing it replaces the object with an empty one.
\<close>

theorem read_only_open_truncates:
  "\<exists>rs v w. serve_all demo_fuse [(demo_host, Lookup 1 ''k''), (demo_host, Open 2 O_TRUNC), (demo_host, Release 1)]
       demo_mount demo_old = Some (rs, v, w) \<and>
     mem_contents (w_s3 demo_old) (''b'', ''k'') = Some ''old'' \<and> mem_contents (w_s3 w) (''b'', ''k'') = Some []"
  by (simp add: serve_eval open_empty_cache_def apply_put_metadata_def plain_put_def)

section \<open>Setting a mount up and taking it down\<close>

record mount_args =
  ma_source :: string
  ma_mountpoint :: string
  ma_read_only :: bool
  ma_cache_dir :: "string option"
  ma_vfs_read_chunk_size :: nat
  ma_buffer_size :: nat
  ma_dir_cache_time :: int
  ma_attr_timeout :: int
  ma_part_size :: nat
  ma_concurrency :: nat
  ma_allow_other :: bool
  ma_uid :: "nat option"
  ma_gid :: "nat option"

definition root_prefix :: "url \<Rightarrow> string" where
  "root_prefix src = (if url_path src \<noteq> [] \<and> \<not> ends_with (url_path src) ''/'' then url_path src @ ''/'' else url_path src)"

definition default_cache_dir :: "env \<Rightarrow> string" where
  "default_cache_dir E =
     (case non_empty (env_var E ''XDG_CACHE_HOME'') of
        Some x \<Rightarrow> path_push (path_push x ''rs5cmd'') ''mount''
      | None \<Rightarrow>
          (case non_empty (env_var E ''HOME'') of
             Some h \<Rightarrow> path_push (path_push (path_push h ''.cache'') ''rs5cmd'') ''mount''
           | None \<Rightarrow> path_push (unwrap_or ''/tmp'' (env_var E ''TMPDIR'')) ''rs5cmd-mount''))"

definition mount_cache_dir :: "env \<Rightarrow> nat \<Rightarrow> mount_args \<Rightarrow> string" where
  "mount_cache_dir E pid args =
     path_push (unwrap_or (default_cache_dir E) (ma_cache_dir args)) (''mount-'' @ show_nat pid)"

text \<open>
  \<open>uid\<close>, \<open>gid\<close> and \<open>pid\<close> are those of the process, \<open>is_dir_path\<close> tells whether a path is a directory;
  the arguments before the options are those of the client's constructor.
\<close>

definition mount_start ::
  "regex_lib \<Rightarrow> env \<Rightarrow> (string \<Rightarrow> bool) \<Rightarrow> nat \<Rightarrow> nat \<Rightarrow> nat \<Rightarrow> int \<Rightarrow> string option
     \<Rightarrow> (string \<Rightarrow> (error, 'p) result) \<Rightarrow> (string \<Rightarrow> (error, unit) result) \<Rightarrow> options \<Rightarrow> mount_args
     \<Rightarrow> ('s, vfs \<times> s3_fuse) io" where
  "mount_start L E is_dir_path uid gid pid now shared_region parse_proxy ca_ok global args =
     (let cfg = \<lparr>vc_attr_ttl = ma_attr_timeout args, vc_dir_ttl = ma_dir_cache_time args, vc_uid = unwrap_or uid (ma_uid args),
                 vc_gid = unwrap_or gid (ma_gid args), vc_chunk_size = ma_vfs_read_chunk_size args,
                 vc_buffer_size = ma_buffer_size args, vc_concurrency = max (ma_concurrency args) 1\<rparr>;
          opts = global\<lparr>op_part_size := u64_mul (u64_mul (max (ma_part_size args) 5) 1024) 1024,
                        op_concurrency := max (ma_concurrency args) 1\<rparr>;
          dir = mount_cache_dir E pid args
      in if \<not> is_dir_path (ma_mountpoint args) then
           Pair (Err (Message (''mountpoint '' @ ma_mountpoint args @ '' is not a directory'')))
         else
           (case url_parse L (ma_source args) of
              Inl e \<Rightarrow> Pair (Err (Message e))
            | Inr src \<Rightarrow>
                if \<not> is_remote src then Pair (Err (Message (''mount source must be an s3:// URL, got '' @ ma_source args)))
                else
                  (case s3_new E shared_region parse_proxy ca_ok opts of
                     Inl e \<Rightarrow> Pair (Err e)
                   | Inr (s3, _) \<Rightarrow>
                       io_bind (os_call E ''create_dir_all'' dir (io_return ())) (\<lambda>_.
                         io_return (vfs_new s3 (url_bucket src) (root_prefix src) dir cfg now,
                                    s3_fuse_new cfg (ma_attr_timeout args) (ma_read_only args))))))"

text \<open>\<^verbatim>\<open>remove_dir_all\<close> of the cache directory when the session ends, its error ignored.\<close>

definition mount_finish :: "env \<Rightarrow> string \<Rightarrow> 's world \<Rightarrow> 's world" where
  "mount_finish E dir w =
     snd (os_call E ''remove_dir_all'' dir (\<lambda>w.
       (Ok (), w\<lparr>w_files := (\<lambda>p. if starts_with p (dir @ ''/'') then None else w_files w p)\<rparr>)) w)"

lemma mount_start_reach:
  assumes "mount_start L E dirs uid gid pid now reg pp ca global args w = (Inr (v, F), w')"
  shows "mount_reach F v w'" "fu_read_only F = ma_read_only args" "no_writers v"
    "vf_cache_dir v = mount_cache_dir E pid args"
proof -
  obtain s b pre cfg where v: "v = vfs_new s b pre (mount_cache_dir E pid args) cfg now"
    and F: "fu_read_only F = ma_read_only args"
    using assms by (auto simp: mount_start_def io_bind_Ok os_call_Ok Let_def s3_fuse_new_def split: if_splits sum.splits prod.splits)
  show "mount_reach F v w'" unfolding v by (rule mount_new)
  show "fu_read_only F = ma_read_only args" by (rule F)
  show "no_writers v" "vf_cache_dir v = mount_cache_dir E pid args" by (simp_all add: v vfs_new_def no_writers_def)
qed

lemma cache_path_below: "starts_with (cache_path (mount_cache_dir E pid args) c fh) (mount_cache_dir E pid args @ ''/'')"
proof -
  have d: "show_nat pid \<noteq> []" "list_all is_digit (show_nat pid)" using show_nat_digits by blast+
  then have "is_digit (last (show_nat pid))" by (simp add: list_all_iff)
  then have "last (show_nat pid) \<noteq> CHR ''/''" by (auto simp: is_digit_def byte_of_def)
  moreover have "last (mount_cache_dir E pid args) = last (show_nat pid)" "mount_cache_dir E pid args \<noteq> []"
    using d(1) by (simp_all add: mount_cache_dir_def path_push_def)
  ultimately have "\<not> ends_with (mount_cache_dir E pid args) ''/''" "mount_cache_dir E pid args \<noteq> []"
    by (cases "mount_cache_dir E pid args" rule: rev_cases; auto simp: ends_with_def)+
  then show ?thesis by (simp add: cache_path_def path_push_def starts_with_iff)
qed

text \<open>
  When the upload of a file fails at its release, the cache file with the unsaved bytes is kept,
  as the writer means it to; but the end of the mount removes the cache directory with everything
  in it, the kept file included.
\<close>

theorem unmount_discards_retained_data:
  assumes st: "mount_start L E dirs uid gid pid now reg pp ca global args w0 = (Inr (v0, F), w1)"
    and ok: "vfs_ok v w" "vf_cache_dir v = vf_cache_dir v0"
    and h: "write_handle_of fh v = Inr (ino, wr)" "w_files w (wr_path wr) = Some f"
    and rel: "vfs_release H fh v w = Some (Inl e, v', w')"
    and rm: "env_io E ''remove_dir_all'' (vf_cache_dir v0) = None"
  shows "w_files w' (wr_path wr) = Some f \<and> w_files (mount_finish E (vf_cache_dir v0) w') (wr_path wr) = None"
proof -
  from h obtain o_f where o_f: "vf_handles v fh = Some o_f" "of_kind o_f = WriteHandle wr" by (auto simp: write_handle_of_Inr)
  have "writer_flush (h_sdk H) (h_env H) (h_sched H) (vf_s3 v) wr w = (Inl e, w')"
    using rel o_f by (auto simp: vfs_release_def vio_eval Let_def split: prod.splits sum.splits)
  then have "w_files w' = w_files w" using io_quietD [OF flush_quiet] by blast
  moreover have "wr_path wr = cache_path (mount_cache_dir E pid args) (CHR ''h'') fh"
    using vfs_ok_writer(1) [OF ok(1) h(1)] ok(2) mount_start_reach(4) [OF st] by simp
  ultimately show ?thesis
    using h(2) rm cache_path_below [of E pid args "CHR ''h''" fh] mount_start_reach(4) [OF st]
    by (simp add: mount_finish_def os_call_def)
qed

definition demo_args :: mount_args where
  "demo_args = \<lparr>ma_source = ''s3://b'', ma_mountpoint = ''m'', ma_read_only = False, ma_cache_dir = Some ''c'',
     ma_vfs_read_chunk_size = 4, ma_buffer_size = 8, ma_dir_cache_time = 300, ma_attr_timeout = 1, ma_part_size = 8,
     ma_concurrency = 8, ma_allow_other = False, ma_uid = None, ma_gid = None\<rparr>"

definition demo_start :: "(memstore, vfs \<times> s3_fuse) io" where
  "demo_start = mount_start reference_engine demo_env (\<lambda>_. True) 0 0 7 0 None (\<lambda>_. Ok ()) (\<lambda>_. Ok ()) default_options demo_args"

definition demo_failing_host :: "memstore host" where
  "demo_failing_host = demo_host\<lparr>h_sdk := memory_sdk\<lparr>sdk_put := (\<lambda>_ s. (Err (sdk_failure ''AccessDenied'' False), s))\<rparr>\<rparr>"

lemma demo_dir: "mount_cache_dir demo_env 7 demo_args = ''c/mount-7''"
  by (simp add: mount_cache_dir_def demo_args_def unwrap_or_def path_push_def ends_with_def show_nat.simps char_of_def bit_0)

lemma demo_start_runs: "\<exists>v F w. demo_start demo_old = (Inr (v, F), w)"
  by (simp add: demo_start_def mount_start_def demo_dir demo_args_def url_eval Let_def s3_new_def effective_proxy_def
      default_options_def env_any_def demo_env_def os_call_def io_bind_def io_return_def
      non_empty_def)

lemma demo_lost_path: "cache_path ''c/mount-7'' (CHR ''h'') (Suc 0) = ''c/mount-7/h1.tmp''"
  by (simp add: cache_path_def path_push_def ends_with_def show_nat.simps char_of_def bit_0)

lemma demo_lost:
  "\<exists>v0 F w1 a v w e v' w'. demo_start demo_old = (Inr (v0, F), w1) \<and> vfs_create demo_host 1 ''k'' v0 w1 = Some (Inr (2, 1, a), v, w) \<and>
     vfs_release demo_failing_host 1 v w = Some (Inl e, v', w')"
  by (simp add: demo_start_def mount_start_def demo_dir demo_args_def url_eval Let_def s3_new_def effective_proxy_def
      default_options_def env_any_def s3_ops non_empty_def vfs_new_def root_prefix_def demo_failing_host_def
      demo_old_def vio_eval vfs_ops demo_host_def demo_parse demo_lost_path demo_url_parts s3_demo s3_arith is_dir_def unwrap_or_def)

theorem unmount_discards_retained_data_witness:
  "\<exists>v0 F w1 a v w e v' w'. demo_start demo_old = (Inr (v0, F), w1) \<and> vfs_create demo_host 1 ''k'' v0 w1 = Some (Inr (2, 1, a), v, w) \<and>
     vfs_release demo_failing_host 1 v w = Some (Inl e, v', w') \<and> w_files w' ''c/mount-7/h1.tmp'' = Some [] \<and>
     w_files (mount_finish demo_env (vf_cache_dir v0) w') ''c/mount-7/h1.tmp'' = None"
proof -
  obtain v0 F w1 a v w e v' w' where st: "demo_start demo_old = (Inr (v0, F), w1)"
    and c: "vfs_create demo_host 1 ''k'' v0 w1 = Some (Inr (2, 1, a), v, w)"
    and rel: "vfs_release demo_failing_host 1 v w = Some (Inl e, v', w')" using demo_lost by blast
  note R = mount_start_reach [OF st [unfolded demo_start_def]]
  obtain s cfg where v0: "v0 = vfs_new s ''b'' [] ''c/mount-7'' cfg 0"
    using st by (auto simp: demo_start_def mount_start_def demo_dir [unfolded demo_args_def] demo_args_def url_eval Let_def io_bind_Ok os_call_Ok root_prefix_def
        split: sum.splits)
  have ok: "vfs_ok v w"
    by (rule vhoareD [OF create_ok _ c, of 0 "''c/mount-7''"]) (simp_all add: ready_def mount_reach_ok [OF R(1)], simp_all add: v0 vfs_new_def)
  have p: "vfs_node 1 v0 w1 = Some (Inr \<lparr>node_key = [], node_kind = Dir, node_parent = 1\<rparr>, v0, w1)"
    by (simp add: vfs_node_def v0 vfs_new_def inode_get_def inode_new_def)
  have b: "plain_bucket (vf_bucket v0)" by (simp add: v0 vfs_new_def plain_bucket_def has_glob_character_def glob_char_def)
  have n: "vf_cache_dir v0 = ''c/mount-7''" by (simp add: v0 vfs_new_def)
  obtain wr where h: "write_handle_of 1 v = Inr (2, wr)" "wr_path wr = ''c/mount-7/h1.tmp''" "w_files w (wr_path wr) = Some []"
    and cd: "vf_cache_dir v = vf_cache_dir v0"
    using create_content [OF c p b, unfolded n] demo_lost_path n by (metis One_nat_def fun_upd_same)
  from unmount_discards_retained_data [OF st [unfolded demo_start_def] ok cd h(1,3) rel] h(2) st c rel
  show ?thesis by (auto simp: demo_env_def)
qed

end
