(* ===== verification/Local_Fs.thy ===== *)
theory Local_Fs
  imports Filters S3_Listing
begin

text \<open>
  The local file system as a storage back end (\<^verbatim>\<open>src/storage/fs.rs\<close>) and the choice between the
  two back ends (\<^verbatim>\<open>new_client\<close> of \<^verbatim>\<open>src/storage/mod.rs\<close>). What the operating system and the crates
  \<^verbatim>\<open>walkdir\<close> and \<^verbatim>\<open>glob\<close> report of the directory tree is the record \<open>local_view\<close>, with the Debug text of
  a string, which depends on Unicode tables; the content of files is that of the world.
\<close>

section \<open>What the operating system reports\<close>

datatype file_kind = RegularKind | DirKind | SymlinkKind | OtherKind

record file_meta =
  fm_kind :: file_kind
  fm_len :: nat
  fm_modified :: "int option"

datatype stat_error = NotFoundKind | OtherKindError error

datatype walk_item =
    WalkError "string option" string
  | WalkEntry string file_kind

record local_view =
  lv_symlink_metadata :: "string \<Rightarrow> (stat_error, file_meta) result"
  lv_metadata :: "string \<Rightarrow> (stat_error, file_meta) result"
  lv_walk :: "string \<Rightarrow> bool \<Rightarrow> walk_item list"
  lv_glob :: "string \<Rightarrow> (string, (string, string) result list) result"
  lv_debug :: "string \<Rightarrow> string"

definition as_i64 :: "nat \<Rightarrow> int" where
  "as_i64 n = (int n + 2 ^ 63) mod 2 ^ 64 - 2 ^ 63"

section \<open>Stat and listing\<close>

definition stat_sync :: "local_view \<Rightarrow> url \<Rightarrow> (error, object) result" where
  "stat_sync V u =
     (let abs = absolute u in
      case lv_symlink_metadata V abs of
        Inl NotFoundKind \<Rightarrow> Err (ObjectNotFound abs)
      | Inl (OtherKindError e) \<Rightarrow> Err e
      | Inr meta \<Rightarrow>
          let typ = (case fm_kind meta of SymlinkKind \<Rightarrow> SymlinkType | DirKind \<Rightarrow> DirType | _ \<Rightarrow> FileType);
              followed = (case lv_metadata V abs of Inr m \<Rightarrow> m | Inl _ \<Rightarrow> meta)
          in Ok (default_object\<lparr>ob_url := Some u, ob_typ := typ, ob_size := as_i64 (fm_len followed),
                   ob_mod_time := fm_modified followed\<rparr>))"

definition should_process_url :: "local_view \<Rightarrow> string \<Rightarrow> bool \<Rightarrow> bool" where
  "should_process_url V path follow \<longleftrightarrow>
     (if follow then True
      else case lv_symlink_metadata V path of Inr m \<Rightarrow> fm_kind m \<noteq> SymlinkKind | Inl _ \<Rightarrow> False)"

fun walk_items :: "regex_lib \<Rightarrow> local_view \<Rightarrow> url \<Rightarrow> bool \<Rightarrow> walk_item list \<Rightarrow> object list" where
  "walk_items L V src follow [] = []"
| "walk_items L V src follow (WalkError p msg # es) =
     object_with_error (Message (''skipping broken symlink or unreadable path ''
       @ unwrap_or (absolute src) p @ '': '' @ msg)) # walk_items L V src follow es"
| "walk_items L V src follow (WalkEntry path kind # es) =
     (if kind = DirKind then walk_items L V src follow es
      else if kind \<noteq> RegularKind then walk_items L V src follow es
      else
        (case url_new L (utf8_lossy path) default_url_options of
           Inl e \<Rightarrow> object_with_error (Message (''skipping '' @ path @ '': could not build url: '' @ e))
                      # walk_items L V src follow es
         | Inr u \<Rightarrow>
             let fileurl = set_relative u src in
             if \<not> should_process_url V path follow then walk_items L V src follow es
             else
               (case stat_sync V fileurl of
                  Inr ob \<Rightarrow> ob # walk_items L V src follow es
                | Inl e \<Rightarrow> [object_with_error e])))"

definition walk_dir :: "regex_lib \<Rightarrow> local_view \<Rightarrow> url \<Rightarrow> bool \<Rightarrow> object list" where
  "walk_dir L V src follow =
     (if \<not> should_process_url V (absolute src) follow then []
      else walk_items L V src follow (lv_walk V (absolute src) follow))"

text \<open>The matches of a pattern; \<open>found\<close> tells whether one has been seen.\<close>

fun glob_entries :: "regex_lib \<Rightarrow> local_view \<Rightarrow> url \<Rightarrow> bool \<Rightarrow> bool \<Rightarrow> (string, string) result list \<Rightarrow> object list" where
  "glob_entries L V src follow found [] =
     (if found then []
      else [object_with_error (Message (''no match found for '' @ lv_debug V (absolute src)))])"
| "glob_entries L V src follow found (Inl e # es) = [object_with_error (Message e)]"
| "glob_entries L V src follow found (Inr path # es) =
     (case url_new L (utf8_lossy path) default_url_options of
        Inl e \<Rightarrow> [object_with_error (Message e)]
      | Inr u \<Rightarrow>
          let fileurl = set_relative u src in
          (case stat_sync V fileurl of
             Inl e \<Rightarrow> [object_with_error e]
           | Inr ob \<Rightarrow>
               (if \<not> type_is_dir (ob_typ ob) then [ob] else walk_dir L V fileurl follow)
                 @ glob_entries L V src follow True es))"

definition expand_glob :: "regex_lib \<Rightarrow> local_view \<Rightarrow> url \<Rightarrow> bool \<Rightarrow> object list" where
  "expand_glob L V src follow =
     (case lv_glob V (absolute src) of
        Inl e \<Rightarrow> [object_with_error (Message e)]
      | Inr matches \<Rightarrow> glob_entries L V src follow False matches)"

definition fs_list :: "regex_lib \<Rightarrow> local_view \<Rightarrow> url \<Rightarrow> bool \<Rightarrow> object list" where
  "fs_list L V src follow =
     (if is_wildcard src then expand_glob L V src follow
      else
        (case stat_sync V src of
           Inr ob \<Rightarrow> if type_is_dir (ob_typ ob) then walk_dir L V src follow else [ob]
         | Inl e \<Rightarrow> [object_with_error e]))"

section \<open>Deleting and copying\<close>

definition fs_delete :: "env \<Rightarrow> bool \<Rightarrow> url \<Rightarrow> ('s, unit) io" where
  "fs_delete E dry_run src = (if dry_run then io_return () else os_remove E (absolute src))"

text \<open>
  \<^verbatim>\<open>std::fs::copy\<close>: the source is opened, the destination is opened and truncated, and only then are
  the bytes copied.
\<close>

definition os_copy :: "env \<Rightarrow> string \<Rightarrow> string \<Rightarrow> ('s, unit) io" where
  "os_copy E src dst =
     io_bind (os_read E src) (\<lambda>_.
     io_bind (os_open_truncate E dst) (\<lambda>_.
     io_bind (os_read E src) (\<lambda>data.
       os_update E ''write'' dst (\<lambda>_. data))))"

definition fs_copy :: "env \<Rightarrow> bool \<Rightarrow> url \<Rightarrow> url \<Rightarrow> metadata \<Rightarrow> ('s, unit) io" where
  "fs_copy E dry_run src dst md =
     (if dry_run then io_return ()
      else
        let dir = url_dir dst in
        io_bind (if dir \<noteq> [] \<and> dir \<noteq> ''.'' then os_call E ''create_dir_all'' dir (io_return ()) else io_return ()) (\<lambda>_.
          os_copy E (absolute src) (absolute dst)))"

section \<open>The two back ends\<close>

datatype 's client =
    S3Client "'s sdk" s3
  | FsClient bool

text \<open>
  The surroundings of a command: the constructor of the S3 client (with the requests of the endpoint
  it talks to), the regex crate, the operating system, the view of the directory tree, the
  completion order of concurrent requests.
\<close>

record 's cmd_env =
  ce_new_s3 :: "options \<Rightarrow> (error, 's sdk \<times> s3) result"
  ce_regex :: regex_lib
  ce_os :: env
  ce_view :: "'s world \<Rightarrow> local_view"
  ce_sched :: "nat list \<Rightarrow> nat list"
  ce_md5 :: "string \<Rightarrow> string"
  ce_tmp :: string

definition new_client :: "'s cmd_env \<Rightarrow> url \<Rightarrow> options \<Rightarrow> (error, 's client) result" where
  "new_client X u opts =
     (if is_remote u then and_then (ce_new_s3 X opts) (\<lambda>(C, s). Ok (S3Client C s))
      else Ok (FsClient (op_dry_run opts)))"

definition client_stat :: "'s cmd_env \<Rightarrow> 's client \<Rightarrow> url \<Rightarrow> ('s, object) io" where
  "client_stat X c u w =
     (case c of S3Client C s \<Rightarrow> s3_stat C s u w | FsClient _ \<Rightarrow> (stat_sync (ce_view X w) u, w))"

definition client_list :: "'s cmd_env \<Rightarrow> 's client \<Rightarrow> url \<Rightarrow> bool \<Rightarrow> 's world \<Rightarrow> (object list \<times> 's world) option" where
  "client_list X c u follow w =
     (case c of
        S3Client C s \<Rightarrow> s3_list C (ce_regex X) s u w
      | FsClient _ \<Rightarrow> Some (fs_list (ce_regex X) (ce_view X w) u follow, w))"

definition client_delete :: "'s cmd_env \<Rightarrow> 's client \<Rightarrow> url \<Rightarrow> ('s, unit) io" where
  "client_delete X c u = (case c of S3Client C s \<Rightarrow> s3_delete C s u | FsClient dry \<Rightarrow> fs_delete (ce_os X) dry u)"

definition storage_copy :: "'s cmd_env \<Rightarrow> 's client \<Rightarrow> url \<Rightarrow> url \<Rightarrow> metadata \<Rightarrow> ('s, unit) io" where
  "storage_copy X c src dst md =
     (case c of
        S3Client C s \<Rightarrow> s3_copy C (ce_sched X) s src dst md
      | FsClient dry \<Rightarrow> fs_copy (ce_os X) dry src dst md)"

section \<open>Shared by the commands\<close>

type_synonym 's s3_handle = "('s sdk \<times> s3) option"

text \<open>\<^verbatim>\<open>expect\<close> on a missing client would be a panic; the clients of a run are never missing.\<close>

definition need_client :: "'s s3_handle \<Rightarrow> ('s sdk \<Rightarrow> s3 \<Rightarrow> ('s, unit) io) \<Rightarrow> ('s, unit) io" where
  "need_client h act = (case h of Some (C, s) \<Rightarrow> act C s | None \<Rightarrow> (\<lambda>w. (Err (Message ''no S3 client''), w)))"

definition read_text :: "'s cmd_env \<Rightarrow> 's world \<Rightarrow> string \<Rightarrow> (string, string) result" where
  "read_text X w f =
     (case os_read (ce_os X) f w of
        (Inr c, _) \<Rightarrow> if utf8_valid c then Ok c else Err ''stream did not contain valid UTF-8''
      | (Inl e, _) \<Rightarrow> Err (error_chain e))"

definition message_of :: "(string, 'a) result \<Rightarrow> (error, 'a) result" where
  "message_of r = (case r of Inl e \<Rightarrow> Err (Message e) | Inr x \<Rightarrow> Ok x)"

section \<open>A local copy\<close>

lemma os_copy_Ok:
  assumes "os_copy E src dst w = (Inr x, w')"
  shows "\<exists>f. w_files w src = Some f \<and> w_files w' = (w_files w)(dst \<mapsto> (if src = dst then [] else f)) \<and> w_s3 w' = w_s3 w"
  using assms
  by (auto simp: os_copy_def io_bind_Ok os_open_truncate_def os_call_Ok dest!: os_read_Ok os_update_Ok split: if_splits)

section \<open>An example environment\<close>

definition demo_env_cmd :: "memstore cmd_env" where
  "demo_env_cmd = \<lparr>ce_new_s3 = (\<lambda>_. Ok (memory_sdk, demo_s3 4)), ce_regex = reference_engine, ce_os = demo_env,
     ce_view = (\<lambda>_. \<lparr>lv_symlink_metadata = (\<lambda>_. Inl NotFoundKind), lv_metadata = (\<lambda>_. Inl NotFoundKind), lv_walk = (\<lambda>_ _. []),
       lv_glob = (\<lambda>_. Inr []), lv_debug = id\<rparr>), ce_sched = rev, ce_md5 = id, ce_tmp = ''f''\<rparr>"

end
