(* ===== verification/Pool.thy ===== *)
theory Pool
  imports Prelude
begin

text \<open>
  The bounded worker pool of \<^verbatim>\<open>cp\<close>, \<^verbatim>\<open>sync\<close> and \<^verbatim>\<open>run\<close> (the loops around a \<^verbatim>\<open>JoinSet\<close> in \<^verbatim>\<open>src/command/cp.rs\<close> and
  \<^verbatim>\<open>src/command/sync.rs\<close>): tasks are spawned in order while fewer than the maximum are in flight,
  finish in any order, and their results are reported as they finish; when a report asks for it, no
  further task is spawned and those in flight are drained. A task takes its effect when it
  finishes. \<open>pick n\<close> tells which of the tasks in flight is the \<open>n\<close>-th to finish.
\<close>

record ('i, 'a, 'w) pool =
  pl_flight :: "'i list"
  pl_acc :: 'a
  pl_world :: 'w
  pl_joined :: nat

definition take_nth :: "nat \<Rightarrow> 'a list \<Rightarrow> 'a \<times> 'a list" where
  "take_nth n xs = (let i = n mod length xs in (xs ! i, take i xs @ drop (Suc i) xs))"

definition join_next ::
  "('i \<Rightarrow> 'w \<Rightarrow> 'r \<times> 'w) \<Rightarrow> ('i \<Rightarrow> 'r \<Rightarrow> 'a \<Rightarrow> 'a) \<Rightarrow> (nat \<Rightarrow> nat) \<Rightarrow> ('i, 'a, 'w) pool \<Rightarrow> ('i, 'a, 'w) pool" where
  "join_next exec rep pick p =
     (case take_nth (pick (pl_joined p)) (pl_flight p) of
        (i, rest) \<Rightarrow>
          (case exec i (pl_world p) of
             (r, w1) \<Rightarrow> \<lparr>pl_flight = rest, pl_acc = rep i r (pl_acc p), pl_world = w1, pl_joined = Suc (pl_joined p)\<rparr>))"

lemma length_take_nth: "xs \<noteq> [] \<Longrightarrow> length (snd (take_nth n xs)) = length xs - 1"
proof -
  assume "xs \<noteq> []"
  then have "n mod length xs < length xs" by simp
  then show ?thesis by (simp add: take_nth_def Let_def)
qed

lemma join_next_shrinks: "pl_flight p \<noteq> [] \<Longrightarrow> length (pl_flight (join_next exec rep pick p)) < length (pl_flight p)"
  using length_take_nth [of "pl_flight p" "pick (pl_joined p)"]
  by (cases "pl_flight p") (auto simp: join_next_def split: prod.splits)

text \<open>Waiting for a free slot, and draining what is left.\<close>

function wait_slot ::
  "('i \<Rightarrow> 'w \<Rightarrow> 'r \<times> 'w) \<Rightarrow> ('i \<Rightarrow> 'r \<Rightarrow> 'a \<Rightarrow> 'a) \<Rightarrow> (nat \<Rightarrow> nat) \<Rightarrow> ('a \<Rightarrow> bool) \<Rightarrow> nat
     \<Rightarrow> ('i, 'a, 'w) pool \<Rightarrow> ('i, 'a, 'w) pool" where
  "wait_slot exec rep pick stop workers p =
     (if pl_flight p = [] \<or> length (pl_flight p) < workers then p
      else
        let p1 = join_next exec rep pick p
        in if stop (pl_acc p1) then p1 else wait_slot exec rep pick stop workers p1)"
  by pat_completeness auto
termination
  by (relation "measure (\<lambda>(_, _, _, _, _, p). length (pl_flight p))") (auto simp: join_next_shrinks)

function drain_pool ::
  "('i \<Rightarrow> 'w \<Rightarrow> 'r \<times> 'w) \<Rightarrow> ('i \<Rightarrow> 'r \<Rightarrow> 'a \<Rightarrow> 'a) \<Rightarrow> (nat \<Rightarrow> nat) \<Rightarrow> ('i, 'a, 'w) pool \<Rightarrow> ('i, 'a, 'w) pool" where
  "drain_pool exec rep pick p =
     (if pl_flight p = [] then p else drain_pool exec rep pick (join_next exec rep pick p))"
  by pat_completeness auto
termination
  by (relation "measure (\<lambda>(_, _, _, p). length (pl_flight p))") (auto simp: join_next_shrinks)

declare wait_slot.simps [simp del] drain_pool.simps [simp del]

fun spawn_all ::
  "('i \<Rightarrow> 'w \<Rightarrow> 'r \<times> 'w) \<Rightarrow> ('i \<Rightarrow> 'r \<Rightarrow> 'a \<Rightarrow> 'a) \<Rightarrow> (nat \<Rightarrow> nat) \<Rightarrow> ('a \<Rightarrow> bool) \<Rightarrow> nat
     \<Rightarrow> 'i list \<Rightarrow> ('i, 'a, 'w) pool \<Rightarrow> ('i, 'a, 'w) pool" where
  "spawn_all exec rep pick stop workers [] p = p"
| "spawn_all exec rep pick stop workers (x # xs) p =
     (let p1 = wait_slot exec rep pick stop workers p
      in if stop (pl_acc p1) then p1
         else spawn_all exec rep pick stop workers xs (p1\<lparr>pl_flight := pl_flight p1 @ [x]\<rparr>))"

definition pool_run ::
  "('i \<Rightarrow> 'w \<Rightarrow> 'r \<times> 'w) \<Rightarrow> ('i \<Rightarrow> 'r \<Rightarrow> 'a \<Rightarrow> 'a) \<Rightarrow> (nat \<Rightarrow> nat) \<Rightarrow> ('a \<Rightarrow> bool) \<Rightarrow> nat
     \<Rightarrow> 'i list \<Rightarrow> 'a \<Rightarrow> 'w \<Rightarrow> 'a \<times> 'w" where
  "pool_run exec rep pick stop workers xs a w =
     (let p = drain_pool exec rep pick (spawn_all exec rep pick stop workers xs
                \<lparr>pl_flight = [], pl_acc = a, pl_world = w, pl_joined = 0\<rparr>)
      in (pl_acc p, pl_world p))"

section \<open>What a run comes to\<close>

text \<open>The reference: tasks one after the other.\<close>

fun seq_run :: "('i \<Rightarrow> 'w \<Rightarrow> 'r \<times> 'w) \<Rightarrow> ('i \<Rightarrow> 'r \<Rightarrow> 'a \<Rightarrow> 'a) \<Rightarrow> 'i list \<Rightarrow> 'a \<Rightarrow> 'w \<Rightarrow> 'a \<times> 'w" where
  "seq_run exec rep [] a w = (a, w)"
| "seq_run exec rep (x # xs) a w = (case exec x w of (r, w1) \<Rightarrow> seq_run exec rep xs (rep x r a) w1)"

lemma seq_run_append:
  "seq_run exec rep (xs @ ys) a w = (case seq_run exec rep xs a w of (a1, w1) \<Rightarrow> seq_run exec rep ys a1 w1)"
  by (induction xs arbitrary: a w) (auto split: prod.splits)

text \<open>What the pool has done so far is a run, in sequence, of the tasks joined.\<close>

definition pool_did ::
  "('i \<Rightarrow> 'w \<Rightarrow> 'r \<times> 'w) \<Rightarrow> ('i \<Rightarrow> 'r \<Rightarrow> 'a \<Rightarrow> 'a) \<Rightarrow> 'a \<Rightarrow> 'w \<Rightarrow> 'i list \<Rightarrow> ('i, 'a, 'w) pool \<Rightarrow> bool" where
  "pool_did exec rep a w js p \<longleftrightarrow> (pl_acc p, pl_world p) = seq_run exec rep js a w"

lemma mset_take_nth: "xs \<noteq> [] \<Longrightarrow> take_nth n xs = (i, rest) \<Longrightarrow> mset xs = add_mset i (mset rest)"
proof -
  assume t: "xs \<noteq> []" "take_nth n xs = (i, rest)"
  let ?k = "n mod length xs"
  have "mset xs = mset (take ?k xs @ xs ! ?k # drop (Suc ?k) xs)"
    using id_take_nth_drop [of ?k xs] t(1) by simp
  with t(2) show ?thesis by (auto simp: take_nth_def Let_def)
qed

lemma join_next_did:
  assumes "pool_did exec rep a w js p" "pl_flight p \<noteq> []"
  shows "\<exists>i. pool_did exec rep a w (js @ [i]) (join_next exec rep pick p) \<and>
    mset (pl_flight p) = add_mset i (mset (pl_flight (join_next exec rep pick p)))"
proof -
  obtain i rest where t: "take_nth (pick (pl_joined p)) (pl_flight p) = (i, rest)" by fastforce
  obtain r w1 where e: "exec i (pl_world p) = (r, w1)" by fastforce
  from mset_take_nth [OF assms(2) t] assms(1) t e show ?thesis
    by (auto simp: join_next_def pool_did_def seq_run_append split: prod.splits)
qed

lemma wait_slot_did:
  "pool_did exec rep a w js p \<Longrightarrow> \<exists>ks. pool_did exec rep a w (js @ ks) (wait_slot exec rep pick stop workers p) \<and>
     mset (pl_flight p) = mset ks + mset (pl_flight (wait_slot exec rep pick stop workers p))"
proof (induction exec rep pick stop workers p arbitrary: js rule: wait_slot.induct)
  case (1 exec rep pick stop workers p)
  show ?case
  proof (cases "pl_flight p = [] \<or> length (pl_flight p) < workers")
    case True
    with 1 show ?thesis by (simp add: wait_slot.simps [of _ _ _ _ _ p])
  next
    case False
    let ?p = "join_next exec rep pick p"
    from join_next_did [OF "1.prems"] False obtain i where i: "pool_did exec rep a w (js @ [i]) ?p"
      "mset (pl_flight p) = add_mset i (mset (pl_flight ?p))" by metis
    show ?thesis
    proof (cases "stop (pl_acc ?p)")
      case True
      then have e: "wait_slot exec rep pick stop workers p = ?p" using False by (simp add: wait_slot.simps [of _ _ _ _ _ p])
      show ?thesis unfolding e by (rule exI [of _ "[i]"]) (use i in simp)
    next
      case go: False
      then have e: "wait_slot exec rep pick stop workers p = wait_slot exec rep pick stop workers ?p"
        using False by (simp add: wait_slot.simps [of _ _ _ _ _ p])
      from "1.IH" [OF False refl go i(1)] obtain ks where "pool_did exec rep a w ((js @ [i]) @ ks) (wait_slot exec rep pick stop workers ?p)"
        "mset (pl_flight ?p) = mset ks + mset (pl_flight (wait_slot exec rep pick stop workers ?p))" by blast
      with i(2) show ?thesis unfolding e by (intro exI [of _ "i # ks"]) simp
    qed
  qed
qed

lemma drain_pool_did:
  "pool_did exec rep a w js p \<Longrightarrow> \<exists>ks. pool_did exec rep a w (js @ ks) (drain_pool exec rep pick p) \<and> mset (pl_flight p) = mset ks"
proof (induction exec rep pick p arbitrary: js rule: drain_pool.induct)
  case (1 exec rep pick p)
  show ?case
  proof (cases "pl_flight p = []")
    case True
    with 1 show ?thesis by (simp add: drain_pool.simps [of _ _ _ p])
  next
    case False
    let ?p = "join_next exec rep pick p"
    from join_next_did [OF "1.prems" False] obtain i where i: "pool_did exec rep a w (js @ [i]) ?p"
      "mset (pl_flight p) = add_mset i (mset (pl_flight ?p))" by metis
    have e: "drain_pool exec rep pick p = drain_pool exec rep pick ?p" using False by (simp add: drain_pool.simps [of _ _ _ p])
    from "1.IH" [OF False i(1)] obtain ks where "pool_did exec rep a w ((js @ [i]) @ ks) (drain_pool exec rep pick ?p)"
      "mset (pl_flight ?p) = mset ks" by blast
    with i(2) show ?thesis unfolding e by (intro exI [of _ "i # ks"]) simp
  qed
qed

lemma wait_slot_room:
  "0 < workers \<Longrightarrow> \<not> stop (pl_acc (wait_slot exec rep pick stop workers p)) \<Longrightarrow>
     length (pl_flight (wait_slot exec rep pick stop workers p)) < workers"
proof (induction exec rep pick stop workers p rule: wait_slot.induct)
  case (1 exec rep pick stop workers p)
  then show ?case
    by (cases "pl_flight p = [] \<or> length (pl_flight p) < workers")
      (auto simp: wait_slot.simps [of _ _ _ _ _ p] Let_def split: if_splits)
qed

lemma spawn_all_did:
  assumes "pool_did exec rep a w js p"
  shows "\<exists>n ks. pool_did exec rep a w (js @ ks) (spawn_all exec rep pick stop workers xs p) \<and>
    mset (pl_flight p) + mset (take n xs) = mset ks + mset (pl_flight (spawn_all exec rep pick stop workers xs p)) \<and>
    (stop (pl_acc (spawn_all exec rep pick stop workers xs p)) \<or> length xs \<le> n)"
  using assms
proof (induction xs arbitrary: p js)
  case Nil
  then show ?case by (intro exI [of _ 0] exI [of _ "[]"]) simp
next
  case (Cons x xs)
  let ?p = "wait_slot exec rep pick stop workers p"
  obtain ks where ks: "pool_did exec rep a w (js @ ks) ?p" "mset (pl_flight p) = mset ks + mset (pl_flight ?p)"
    using wait_slot_did [OF Cons.prems] by blast
  show ?case
  proof (cases "stop (pl_acc ?p)")
    case True
    with ks show ?thesis by (intro exI [of _ 0] exI [of _ ks]) simp
  next
    case False
    let ?q = "?p\<lparr>pl_flight := pl_flight ?p @ [x]\<rparr>"
    have "pool_did exec rep a w (js @ ks) ?q" using ks(1) by (simp add: pool_did_def)
    from Cons.IH [OF this] obtain n ls where ls: "pool_did exec rep a w ((js @ ks) @ ls) (spawn_all exec rep pick stop workers xs ?q)"
      "mset (pl_flight ?q) + mset (take n xs) = mset ls + mset (pl_flight (spawn_all exec rep pick stop workers xs ?q))"
      "stop (pl_acc (spawn_all exec rep pick stop workers xs ?q)) \<or> length xs \<le> n" by blast
    have e: "spawn_all exec rep pick stop workers (x # xs) p = spawn_all exec rep pick stop workers xs ?q"
      using False by (simp add: Let_def)
    have "mset (pl_flight p) + mset (take (Suc n) (x # xs)) =
        mset ks + (mset (pl_flight ?q) + mset (take n xs))" using ks(2) by simp
    also have "\<dots> = mset (ks @ ls) + mset (pl_flight (spawn_all exec rep pick stop workers xs ?q))"
      unfolding ls(2) by simp
    finally show ?thesis unfolding e using ls(1,3) by (intro exI [of _ "Suc n"] exI [of _ "ks @ ls"]) simp
  qed
qed

text \<open>
  A run of the pool is a run, in some order, of some first tasks of the list, and of all of them
  unless the report asked to stop; once it asks, it keeps asking.
\<close>

theorem pool_run_order:
  assumes "\<And>i r a. stop a \<Longrightarrow> stop (rep i r a)"
  shows "\<exists>n js. mset js = mset (take n xs) \<and> pool_run exec rep pick stop workers xs a w = seq_run exec rep js a w \<and>
    (\<not> stop (fst (pool_run exec rep pick stop workers xs a w)) \<longrightarrow> length xs \<le> n)"
proof -
  let ?p0 = "\<lparr>pl_flight = [], pl_acc = a, pl_world = w, pl_joined = 0\<rparr>"
  let ?p1 = "spawn_all exec rep pick stop workers xs ?p0"
  have "pool_did exec rep a w [] ?p0" by (simp add: pool_did_def)
  from spawn_all_did [OF this, of pick stop workers xs] obtain n ks where 1: "pool_did exec rep a w ks ?p1"
    "mset (take n xs) = mset ks + mset (pl_flight ?p1)" "stop (pl_acc ?p1) \<or> length xs \<le> n" by auto
  from drain_pool_did [OF 1(1), of pick] obtain ls where 2: "pool_did exec rep a w (ks @ ls) (drain_pool exec rep pick ?p1)"
    "mset (pl_flight ?p1) = mset ls" by blast
  have run: "pool_run exec rep pick stop workers xs a w = seq_run exec rep (ks @ ls) a w"
    using 2(1) by (simp add: pool_run_def pool_did_def Let_def)
  have keep: "stop b \<Longrightarrow> stop (fst (seq_run exec rep zs b v))" for zs b v
    using assms by (induction zs arbitrary: b v) (auto split: prod.splits)
  have "stop (fst (seq_run exec rep (ks @ ls) a w))" if st: "stop (pl_acc ?p1)"
  proof -
    have "seq_run exec rep ks a w = (pl_acc ?p1, pl_world ?p1)" using 1(1) by (simp add: pool_did_def)
    then show ?thesis using keep [OF st] by (simp add: seq_run_append)
  qed
  then have "\<not> stop (fst (seq_run exec rep (ks @ ls) a w)) \<longrightarrow> length xs \<le> n" using 1(3) by blast
  moreover have "mset (ks @ ls) = mset (take n xs)" using 1(2) 2(2) by simp
  ultimately show ?thesis unfolding run by blast
qed

end
