(* ===== verification/Sync.thy ===== *)
theory Sync
  imports Local_Fs Pool
begin

text \<open>
  The \<^verbatim>\<open>sync\<close> command (\<^verbatim>\<open>src/command/sync.rs\<close>, \<^verbatim>\<open>src/command/sync_strategy.rs\<close>): the two keyed
  listings, their partition into copies and deletions, the safety cap, and the two phases on the
  worker pool. A hash map is a list of its entries in some order; the order in which it is walked
  is the parameter \<open>iter\<close>. Progress bars and the lines printed are not modelled beyond the counts and
  the outcome of each operation.
\<close>

section \<open>Strategies\<close>

datatype sync_strategy = SizeOnly | SizeAndModification | Checksum

definition strategy_new :: "bool \<Rightarrow> bool \<Rightarrow> sync_strategy" where
  "strategy_new size_only checksum =
     (if checksum then Checksum else if size_only then SizeOnly else SizeAndModification)"

text \<open>Times are nanoseconds since the epoch, which also stands for an unknown one.\<close>

definition is_after :: "int option \<Rightarrow> int option \<Rightarrow> bool" where
  "is_after a b \<longleftrightarrow> unwrap_or 0 a > unwrap_or 0 b"

definition should_sync :: "sync_strategy \<Rightarrow> object \<Rightarrow> object \<Rightarrow> bool" where
  "should_sync st src dst =
     (case st of
        SizeOnly \<Rightarrow> ob_size src \<noteq> ob_size dst
      | SizeAndModification \<Rightarrow>
          if is_after (ob_mod_time src) (ob_mod_time dst) then True
          else if ob_size src \<noteq> ob_size dst then True
          else False
      | Checksum \<Rightarrow>
          let s = trim_quotes (ob_etag src); d = trim_quotes (ob_etag dst) in
          if s = [] \<or> d = [] \<or> contains_str s ''-'' \<or> contains_str d ''-'' then True else s \<noteq> d)"

section \<open>Arguments\<close>

record sync_args =
  sa_src :: string
  sa_dst :: string
  sa_delete :: bool
  sa_size_only :: bool
  sa_checksum :: bool
  sa_exact_timestamps :: bool
  sa_follow_symlinks :: bool
  sa_exclude :: "string list"
  sa_include :: "string list"
  sa_exclude_from :: "string list"
  sa_include_from :: "string list"
  sa_storage_class :: "string option"
  sa_acl :: "string option"
  sa_content_type :: "string option"
  sa_exit_on_error :: bool
  sa_force_glacier_transfer :: bool
  sa_max_delete :: "nat option"
  sa_preserve_timestamps :: bool

definition sync_metadata :: "sync_args \<Rightarrow> metadata" where
  "sync_metadata args =
     default_metadata\<lparr>md_storage_class := sa_storage_class args, md_acl := sa_acl args, md_content_type := sa_content_type args\<rparr>"

definition is_fatal :: "error \<Rightarrow> bool" where
  "is_fatal e =
     (let msg = to_ascii_lowercase (error_chain e)
      in contains_str msg ''accessdenied'' \<or> contains_str msg ''nosuchbucket'')"

definition skip_glacier :: "string \<Rightarrow> bool \<Rightarrow> bool" where
  "skip_glacier sc force \<longleftrightarrow> \<not> force \<and> is_glacier sc"

section \<open>The two listings\<close>

definition is_source_batch :: "'s cmd_env \<Rightarrow> url \<Rightarrow> options \<Rightarrow> ('s, bool) io" where
  "is_source_batch X src opts w =
     (if is_wildcard src then (Ok True, w)
      else if is_remote src then (Ok (is_bucket src \<or> is_prefix src), w)
      else
        (case new_client X src opts of
           Inl e \<Rightarrow> (Err e, w)
         | Inr c \<Rightarrow>
             (case client_stat X c src w of
                (Inr ob, w1) \<Rightarrow> (Ok (type_is_dir (ob_typ ob)), w1)
              | (Inl _, w1) \<Rightarrow> (Ok False, w1))))"

definition local_md5_hex :: "'s cmd_env \<Rightarrow> 's world \<Rightarrow> string \<Rightarrow> string option" where
  "local_md5_hex X w path =
     (case os_read (ce_os X) path w of (Inr f, _) \<Rightarrow> Some (ce_md5 X f) | (Inl _, _) \<Rightarrow> None)"

definition with_md5 :: "'s cmd_env \<Rightarrow> 's world \<Rightarrow> bool \<Rightarrow> url \<Rightarrow> object \<Rightarrow> object" where
  "with_md5 X w checksum u ob =
     (if checksum \<and> \<not> is_remote u then
        (case local_md5_hex X w (absolute u) of Some h \<Rightarrow> ob\<lparr>ob_etag := h\<rparr> | None \<Rightarrow> ob)
      else ob)"

type_synonym object_map = "(string \<times> object) list"

text \<open>The loop over a source listing; the world is the one after the listing.\<close>

fun source_loop ::
  "'s cmd_env \<Rightarrow> 's world \<Rightarrow> filters \<Rightarrow> bool \<Rightarrow> bool \<Rightarrow> url \<Rightarrow> object list \<Rightarrow> object_map \<Rightarrow> (error, object_map) result" where
  "source_loop X w fl checksum force src [] m = Ok m"
| "source_loop X w fl checksum force src (ob # os) m =
     (case ob_err ob of
        Some e \<Rightarrow>
          if is_fatal e then Err (Message (''cannot list source '' @ absolute src @ '': '' @ error_chain e)) else Err e
      | None \<Rightarrow>
          if type_is_dir (ob_typ ob) then source_loop X w fl checksum force src os m
          else if skip_glacier (ob_storage_class ob) force then source_loop X w fl checksum force src os m
          else
            (case ob_url ob of
               None \<Rightarrow> source_loop X w fl checksum force src os m
             | Some u \<Rightarrow>
                 let key = to_slash (relative u) in
                 if should_skip (ce_regex X) fl key then source_loop X w fl checksum force src os m
                 else source_loop X w fl checksum force src os (AList.update key (with_md5 X w checksum u ob) m)))"

definition collect_source_objects ::
  "'s cmd_env \<Rightarrow> url \<Rightarrow> options \<Rightarrow> bool \<Rightarrow> bool \<Rightarrow> filters \<Rightarrow> bool \<Rightarrow> bool
     \<Rightarrow> 's world \<Rightarrow> ((error, object_map) result \<times> 's world) option" where
  "collect_source_objects X src opts follow is_batch fl checksum force w =
     (case new_client X src opts of
        Inl e \<Rightarrow> Some (Err e, w)
      | Inr c \<Rightarrow>
          if \<not> is_batch then
            (case client_stat X c src w of
               (Inl e, w1) \<Rightarrow> Some (Err e, w1)
             | (Inr ob, w1) \<Rightarrow>
                 let key = url_base src in
                 if \<not> type_is_dir (ob_typ ob) \<and> \<not> should_skip (ce_regex X) fl key then
                   let ob1 = (if ob_url ob = None then ob\<lparr>ob_url := Some src\<rparr> else ob)
                   in Some (Ok [(key, with_md5 X w1 checksum src ob1)], w1)
                 else Some (Ok [], w1))
          else
            (case client_list X c src follow w of
               None \<Rightarrow> None
             | Some (os, w1) \<Rightarrow> Some (source_loop X w1 fl checksum force src os [], w1)))"

text \<open>The display text of an error, without its causes.\<close>

definition error_display :: "error \<Rightarrow> string" where
  "error_display e = (case e of SdkError s \<Rightarrow> se_display s | _ \<Rightarrow> error_chain e)"

fun dest_loop :: "'s cmd_env \<Rightarrow> filters \<Rightarrow> url \<Rightarrow> object list \<Rightarrow> object_map \<Rightarrow> (error, object_map) result" where
  "dest_loop X fl dst [] m = Ok m"
| "dest_loop X fl dst (ob # os) m =
     (case ob_err ob of
        Some e \<Rightarrow>
          let msg = error_display e; lower = to_ascii_lowercase msg in
          if contains_str msg ''no object found'' \<or> contains_str msg ''not found'' then dest_loop X fl dst os m
          else if contains_str lower ''accessdenied'' \<or> contains_str lower ''nosuchbucket'' then
            Err (Message (''cannot list destination '' @ absolute dst @ '': '' @ msg))
          else Err (Message msg)
      | None \<Rightarrow>
          if type_is_dir (ob_typ ob) then dest_loop X fl dst os m
          else
            (case ob_url ob of
               None \<Rightarrow> dest_loop X fl dst os m
             | Some u \<Rightarrow>
                 let key = to_slash (relative u) in
                 if should_skip (ce_regex X) fl key then dest_loop X fl dst os m
                 else dest_loop X fl dst os (AList.update key ob m)))"

definition listing_path :: "url \<Rightarrow> string" where
  "listing_path dst = (if ends_with (absolute dst) ''/'' then absolute dst @ ''*'' else absolute dst @ ''/*'')"

definition collect_dest_objects ::
  "'s cmd_env \<Rightarrow> url \<Rightarrow> options \<Rightarrow> filters \<Rightarrow> 's world \<Rightarrow> ((error, object_map) result \<times> 's world) option" where
  "collect_dest_objects X dst opts fl w =
     (case url_parse (ce_regex X) (listing_path dst) of
        Inl _ \<Rightarrow> Some (Ok [], w)
      | Inr u \<Rightarrow>
          (case new_client X u opts of
             Inl _ \<Rightarrow> Some (Ok [], w)
           | Inr c \<Rightarrow>
               (case client_list X c u False w of
                  None \<Rightarrow> None
                | Some (os, w1) \<Rightarrow> Some (dest_loop X fl dst os [], w1))))"

section \<open>The plan\<close>

definition generate_destination_url :: "url \<Rightarrow> url \<Rightarrow> bool \<Rightarrow> url" where
  "generate_destination_url src_url dst is_batch =
     (let objname = (if is_batch then relative src_url else url_base src_url) in
      if is_remote dst then
        (if is_prefix dst \<or> is_bucket dst then url_join dst objname else dst)
      else url_join dst objname)"

fun partition_loop ::
  "sync_strategy \<Rightarrow> url \<Rightarrow> bool \<Rightarrow> object_map \<Rightarrow> object_map \<Rightarrow> (url \<times> url) list \<times> object_map" where
  "partition_loop st dst is_batch [] dests = ([], dests)"
| "partition_loop st dst is_batch ((key, ob) # srcs) dests =
     (case ob_url ob of
        None \<Rightarrow> partition_loop st dst is_batch srcs dests
      | Some u \<Rightarrow>
          let pair = (u, generate_destination_url u dst is_batch) in
          (case map_of dests key of
             Some dob \<Rightarrow>
               (case partition_loop st dst is_batch srcs (AList.delete key dests) of
                  (cps, rest) \<Rightarrow> (if should_sync st ob dob then pair # cps else cps, rest))
           | None \<Rightarrow>
               (case partition_loop st dst is_batch srcs dests of (cps, rest) \<Rightarrow> (pair # cps, rest))))"

definition deletions :: "bool \<Rightarrow> object_map \<Rightarrow> url list" where
  "deletions enabled rest =
     (if enabled then concat (map (\<lambda>(_, ob). case ob_url ob of Some u \<Rightarrow> [u] | None \<Rightarrow> []) rest) else [])"

definition sync_plan ::
  "(object_map \<Rightarrow> object_map) \<Rightarrow> sync_strategy \<Rightarrow> bool \<Rightarrow> url \<Rightarrow> bool \<Rightarrow> object_map \<Rightarrow> object_map
     \<Rightarrow> (url \<times> url) list \<times> url list" where
  "sync_plan iter st del dst is_batch srcs dests =
     (case partition_loop st dst is_batch (iter srcs) dests of
        (to_copy, rest) \<Rightarrow> (to_copy, deletions del (iter rest)))"

section \<open>Transfers\<close>

definition sync_clients :: "'s cmd_env \<Rightarrow> url \<Rightarrow> url \<Rightarrow> options \<Rightarrow> (error, 's s3_handle \<times> 's s3_handle) result" where
  "sync_clients X src dst opts =
     (if is_remote src \<or> is_remote dst then
        if sides_differ opts then
          and_then (ce_new_s3 X (for_side opts Source)) (\<lambda>a.
          and_then (ce_new_s3 X (for_side opts Destination)) (\<lambda>b. Ok (Some a, Some b)))
        else and_then (ce_new_s3 X opts) (\<lambda>a. Ok (Some a, None))
      else Ok (None, None))"

definition sync_copy_one ::
  "'s cmd_env \<Rightarrow> 's s3_handle \<Rightarrow> 's s3_handle \<Rightarrow> options \<Rightarrow> metadata \<Rightarrow> url \<times> url \<Rightarrow> ('s, unit) io" where
  "sync_copy_one X s3 s3_dst opts md p =
     (case p of
        (src, dst) \<Rightarrow>
          if is_remote src \<and> is_remote dst then
            need_client s3 (\<lambda>C s.
              case s3_dst of
                Some (C2, s2) \<Rightarrow> client_copy_to C C2 (ce_os X) (ce_sched X) (ce_tmp X) s s2 src dst md
              | None \<Rightarrow> s3_copy C (ce_sched X) s src dst md)
          else if is_remote src then
            need_client s3 (\<lambda>C s. s3_download C (ce_os X) (ce_sched X) s src (absolute dst))
          else if is_remote dst then
            need_client (or_else s3_dst s3) (\<lambda>C s. s3_upload C (ce_os X) (ce_sched X) s (absolute src) dst md)
          else
            (case new_client X src opts of
               Inl e \<Rightarrow> (\<lambda>w. (Err e, w))
             | Inr c \<Rightarrow> storage_copy X c src dst md))"

definition sync_delete_one :: "'s cmd_env \<Rightarrow> 's s3_handle \<Rightarrow> options \<Rightarrow> url \<Rightarrow> ('s, unit) io" where
  "sync_delete_one X s3 opts u =
     (if is_remote u then need_client s3 (\<lambda>C s. s3_delete C s u)
      else (case new_client X u opts of Inl e \<Rightarrow> (\<lambda>w. (Err e, w)) | Inr c \<Rightarrow> client_delete X c u))"

section \<open>A run\<close>

record sync_state =
  ss_had_error :: bool
  ss_fatal :: bool
  ss_copied :: nat
  ss_deleted :: nat

definition report_copy :: "url \<times> url \<Rightarrow> (error, unit) result \<Rightarrow> sync_state \<Rightarrow> sync_state" where
  "report_copy p r a =
     (case r of
        Inr _ \<Rightarrow> a\<lparr>ss_copied := u64_add (ss_copied a) 1\<rparr>
      | Inl e \<Rightarrow> a\<lparr>ss_had_error := True, ss_fatal := (ss_fatal a \<or> is_fatal e)\<rparr>)"

definition report_rm :: "url \<Rightarrow> (error, unit) result \<Rightarrow> sync_state \<Rightarrow> sync_state" where
  "report_rm u r a =
     (case r of
        Inr _ \<Rightarrow> a\<lparr>ss_deleted := u64_add (ss_deleted a) 1\<rparr>
      | Inl e \<Rightarrow> a\<lparr>ss_had_error := True, ss_fatal := (ss_fatal a \<or> is_fatal e)\<rparr>)"

definition sync_stop :: "bool \<Rightarrow> sync_state \<Rightarrow> bool" where
  "sync_stop exit_on_error a \<longleftrightarrow> (exit_on_error \<and> ss_had_error a) \<or> ss_fatal a"

definition fatal_message :: error where
  "fatal_message = Message ''aborting sync: fatal error (access denied or missing bucket); see errors above''"

definition failed_message :: error where
  "failed_message = Message ''one or more sync operations failed''"

text \<open>The two phases: copies, then deletions unless the copies were stopped.\<close>

definition sync_execute ::
  "'s cmd_env \<Rightarrow> (nat \<Rightarrow> nat) \<Rightarrow> (nat \<Rightarrow> nat) \<Rightarrow> nat \<Rightarrow> bool \<Rightarrow> 's s3_handle \<Rightarrow> 's s3_handle \<Rightarrow> options \<Rightarrow> metadata
     \<Rightarrow> (url \<times> url) list \<Rightarrow> url list \<Rightarrow> 's world \<Rightarrow> (error, unit) result \<times> sync_state \<times> 's world" where
  "sync_execute X pick pick2 workers exit_on_error s3 s3_dst opts md to_copy to_delete w =
     (case pool_run (sync_copy_one X s3 s3_dst opts md) report_copy pick (sync_stop exit_on_error) workers to_copy
             \<lparr>ss_had_error = False, ss_fatal = False, ss_copied = 0, ss_deleted = 0\<rparr> w of
        (a, w1) \<Rightarrow>
          if ss_fatal a then (Err fatal_message, a, w1)
          else if exit_on_error \<and> ss_had_error a then (Err failed_message, a, w1)
          else
            (case pool_run (sync_delete_one X (or_else s3_dst s3) opts) report_rm pick2 (sync_stop exit_on_error) workers
                    to_delete a w1 of
               (b, w2) \<Rightarrow>
                 if ss_fatal b then (Err fatal_message, b, w2)
                 else if ss_had_error b then (Err failed_message, b, w2)
                 else (Ok (), b, w2)))"

definition sync_filters :: "'s cmd_env \<Rightarrow> sync_args \<Rightarrow> 's world \<Rightarrow> (error, filters) result" where
  "sync_filters X args w =
     message_of (and_then (patterns_with_files (read_text X w) (sa_include args) (sa_include_from args)) (\<lambda>inc.
                 and_then (patterns_with_files (read_text X w) (sa_exclude args) (sa_exclude_from args)) (\<lambda>exc.
                   filters_new (ce_regex X) inc exc)))"

definition too_many_deletions :: "nat option \<Rightarrow> url list \<Rightarrow> bool" where
  "too_many_deletions max_delete to_delete = (case max_delete of Some m \<Rightarrow> m < length to_delete | None \<Rightarrow> False)"

definition max_delete_message :: "nat \<Rightarrow> nat \<Rightarrow> error" where
  "max_delete_message n m =
     Message (''aborting sync: --delete would remove '' @ show_nat n @ '' objects, exceeding --max-delete '' @ show_nat m
       @ '' (nothing was copied or deleted)'')"

definition sync_empty :: sync_state where
  "sync_empty = \<lparr>ss_had_error = False, ss_fatal = False, ss_copied = 0, ss_deleted = 0\<rparr>"

definition sync_run ::
  "'s cmd_env \<Rightarrow> (object_map \<Rightarrow> object_map) \<Rightarrow> (nat \<Rightarrow> nat) \<Rightarrow> (nat \<Rightarrow> nat) \<Rightarrow> nat \<Rightarrow> options \<Rightarrow> sync_args
     \<Rightarrow> 's world \<Rightarrow> ((error, unit) result \<times> sync_state \<times> 's world) option" where
  "sync_run X iter pick pick2 numworkers global args w =
     (let opts = global\<lparr>op_preserve_timestamps := sa_preserve_timestamps args\<rparr>;
          prepared =
            and_then (message_of (url_parse (ce_regex X) (sa_src args))) (\<lambda>src.
            and_then (message_of (url_parse (ce_regex X) (sa_dst args))) (\<lambda>dst.
            and_then (sync_filters X args w) (\<lambda>fl. Ok (src, dst, fl))))
      in case prepared of
           Inl e \<Rightarrow> Some (Err e, sync_empty, w)
         | Inr (src, dst, fl) \<Rightarrow>
             (case is_source_batch X src (for_side opts Source) w of
                (Inl e, w1) \<Rightarrow> Some (Err e, sync_empty, w1)
              | (Inr is_batch, w1) \<Rightarrow>
                  (case collect_source_objects X src (for_side opts Source) (sa_follow_symlinks args) is_batch fl
                          (sa_checksum args) (sa_force_glacier_transfer args) w1 of
                     None \<Rightarrow> None
                   | Some (Inl e, w2) \<Rightarrow> Some (Err e, sync_empty, w2)
                   | Some (Inr srcs, w2) \<Rightarrow>
                       (case collect_dest_objects X dst (for_side opts Destination) fl w2 of
                          None \<Rightarrow> None
                        | Some (Inl e, w3) \<Rightarrow> Some (Err e, sync_empty, w3)
                        | Some (Inr dests, w3) \<Rightarrow>
                            (case sync_plan iter (strategy_new (sa_size_only args) (sa_checksum args)) (sa_delete args)
                                    dst is_batch srcs dests of
                               (to_copy, to_delete) \<Rightarrow>
                                 if too_many_deletions (sa_max_delete args) to_delete then
                                   Some (Err (max_delete_message (length to_delete) (the (sa_max_delete args))), sync_empty, w3)
                                 else
                                   (case sync_clients X src dst opts of
                                      Inl e \<Rightarrow> Some (Err e, sync_empty, w3)
                                    | Inr (s3, s3_dst) \<Rightarrow>
                                        Some (sync_execute X pick pick2 (max numworkers 1) (sa_exit_on_error args)
                                          s3 s3_dst opts (sync_metadata args) to_copy to_delete w3)))))))"

end
