(* ===== verification/Sync_Props.thy ===== *)
theory Sync_Props
  imports Sync Vfs_Props
begin

text \<open>
  What \<^verbatim>\<open>sync\<close> plans and what carrying the plan out does to the bucket.
\<close>

section \<open>The plan, declaratively\<close>

definition needs_copy :: "sync_strategy \<Rightarrow> object_map \<Rightarrow> string \<times> object \<Rightarrow> bool" where
  "needs_copy st dests e \<longleftrightarrow> ob_url (snd e) \<noteq> None \<and>
     (case map_of dests (fst e) of None \<Rightarrow> True | Some dob \<Rightarrow> should_sync st (snd e) dob)"

definition copy_pair :: "url \<Rightarrow> bool \<Rightarrow> string \<times> object \<Rightarrow> url \<times> url" where
  "copy_pair dst is_batch e =
     (let u = the (ob_url (snd e)) in (u, generate_destination_url u dst is_batch))"

definition named_keys :: "object_map \<Rightarrow> string set" where
  "named_keys m = fst ` set (filter (\<lambda>e. ob_url (snd e) \<noteq> None) m)"

lemma AList_delete_filter: "AList.delete k xs = filter (\<lambda>e. fst e \<noteq> k) xs"
  by (auto simp: AList.delete_eq intro!: filter_cong)

lemma partition_loop_eq:
  "distinct (map fst srcs) \<Longrightarrow>
   partition_loop st dst b srcs dests =
     (map (copy_pair dst b) (filter (needs_copy st dests) srcs), filter (\<lambda>e. fst e \<notin> named_keys srcs) dests)"
proof (induction srcs arbitrary: dests)
  case Nil
  then show ?case by (simp add: named_keys_def)
next
  case (Cons e srcs)
  obtain key ob where e: "e = (key, ob)" by (cases e)
  have dis: "distinct (map fst srcs)" "key \<notin> fst ` set srcs" using Cons.prems e by simp_all
  show ?case
  proof (cases "ob_url ob")
    case None
    then show ?thesis using Cons.IH [OF dis(1)] e by (simp add: needs_copy_def named_keys_def)
  next
    case (Some u)
    have keys: "named_keys (e # srcs) = insert key (named_keys srcs)" using e Some by (simp add: named_keys_def)
    show ?thesis
    proof (cases "map_of dests key")
      case None
      then have "fst x \<noteq> key" if "x \<in> set dests" for x
        using that by (metis image_eqI map_of_eq_None_iff)
      then have "filter (\<lambda>x. fst x \<notin> named_keys (e # srcs)) dests = filter (\<lambda>x. fst x \<notin> named_keys srcs) dests"
        unfolding keys by (intro filter_cong) auto
      with None Some e Cons.IH [OF dis(1)] show ?thesis by (simp add: needs_copy_def copy_pair_def Let_def)
    next
      case d: (Some dob)
      have same: "map_of (AList.delete key dests) (fst x) = map_of dests (fst x)" if "x \<in> set srcs" for x
        using dis(2) that by (auto simp: AList.delete_conv')
      have cp: "filter (needs_copy st (AList.delete key dests)) srcs = filter (needs_copy st dests) srcs"
        by (intro filter_cong) (auto simp: needs_copy_def same)
      have rest: "filter (\<lambda>x. fst x \<notin> named_keys srcs) (AList.delete key dests)
          = filter (\<lambda>x. fst x \<notin> named_keys (e # srcs)) dests"
        unfolding keys AList_delete_filter by (simp add: conj_commute)
      have hd: "needs_copy st dests e = should_sync st ob dob" "copy_pair dst b e = (u, generate_destination_url u dst b)"
        using d Some e by (simp_all add: needs_copy_def copy_pair_def)
      have IH: "partition_loop st dst b srcs (AList.delete key dests) =
          (map (copy_pair dst b) (filter (needs_copy st dests) srcs), filter (\<lambda>x. fst x \<notin> named_keys (e # srcs)) dests)"
        using Cons.IH [OF dis(1), of "AList.delete key dests"] unfolding cp rest .
      show ?thesis using d Some IH hd e by (simp add: Let_def)
    qed
  qed
qed

lemma AList_update_distinct: "distinct (map fst m) \<Longrightarrow> distinct (map fst (AList.update k v m))"
  by (simp add: distinct_update)

lemma source_loop_distinct:
  "source_loop X w fl ck force src os m = Inr m' \<Longrightarrow> distinct (map fst m) \<Longrightarrow> distinct (map fst m')"
  by (induction X w fl ck force src os m rule: source_loop.induct)
    (auto simp: Let_def distinct_update split: option.splits if_splits)

lemma dest_loop_distinct:
  "dest_loop X fl dst os m = Inr m' \<Longrightarrow> distinct (map fst m) \<Longrightarrow> distinct (map fst m')"
  by (induction X fl dst os m rule: dest_loop.induct)
    (auto simp: Let_def distinct_update split: option.splits if_splits)

lemma collect_distinct:
  "collect_source_objects X src opts follow b fl ck force w = Some (Inr m, w') \<Longrightarrow> distinct (map fst m)"
  "collect_dest_objects X dst opts fl w = Some (Inr n, w') \<Longrightarrow> distinct (map fst n)"
  using source_loop_distinct [where m = "[]"] dest_loop_distinct [where m = "[]"]
  by (fastforce simp: collect_source_objects_def collect_dest_objects_def Let_def
      split: sum.splits if_splits option.splits prod.splits)+

text \<open>
  C8. The plan of a sync, for a source map with distinct keys and any order of walking the maps: an
  object is copied exactly when the destination has no object under its key or the strategy tells
  the two apart; with \<^verbatim>\<open>--delete\<close> exactly the destination objects whose key no source object has are
  deleted, and without it none; each object is planned at most once, and no key is both copied and
  deleted.
\<close>

theorem sync_plan_exact:
  assumes "distinct (map fst srcs)" and perm: "\<And>m. mset (iter m) = mset m"
    and "sync_plan iter st del dst is_batch srcs dests = (to_copy, to_delete)"
  shows "mset to_copy = mset (map (copy_pair dst is_batch) (filter (needs_copy st dests) srcs)) \<and>
    mset to_delete = (if del then {#the (ob_url (snd e)). e \<in># mset (filter
        (\<lambda>e. ob_url (snd e) \<noteq> None \<and> fst e \<notin> named_keys srcs) dests)#} else {#})"
proof -
  have it: "distinct (map fst (iter m)) = distinct (map fst m)" for m
    using perm by (metis mset_eq_imp_distinct_iff mset_map)
  have nk: "named_keys (iter m) = named_keys m" for m
    using perm [of m] unfolding named_keys_def by (metis mset_eq_setD mset_filter)
  define rest where "rest = filter (\<lambda>e. fst e \<notin> named_keys srcs) dests"
  have plan: "to_copy = map (copy_pair dst is_batch) (filter (needs_copy st dests) (iter srcs))"
    "to_delete = deletions del (iter rest)"
    using assms(3) partition_loop_eq [of "iter srcs" st dst is_batch dests] it assms(1)
    by (simp_all add: sync_plan_def nk rest_def)
  have "concat (map (\<lambda>(_, ob). case ob_url ob of Some u \<Rightarrow> [u] | None \<Rightarrow> []) m)
      = map (\<lambda>e. the (ob_url (snd e))) (filter (\<lambda>e. ob_url (snd e) \<noteq> None) m)" for m :: object_map
    by (induction m) (auto split: option.splits)
  then have "mset to_delete = (if del then image_mset (\<lambda>e. the (ob_url (snd e))) (mset (filter (\<lambda>e. ob_url (snd e) \<noteq> None) rest)) else {#})"
    using perm [of rest] unfolding plan(2) deletions_def by simp
  moreover have "mset to_copy = mset (map (copy_pair dst is_batch) (filter (needs_copy st dests) srcs))"
    unfolding plan(1) using perm [of srcs] by simp
  ultimately show ?thesis by (simp add: rest_def conj_commute)
qed

section \<open>Carrying the plan out\<close>

definition copied_over :: "(url \<times> url) list \<Rightarrow> (location \<Rightarrow> string option) \<Rightarrow> location \<Rightarrow> string option" where
  "copied_over ps c l =
     (case map_of (map (\<lambda>(s, d). (url_loc d, url_loc s)) ps) l of Some sl \<Rightarrow> c sl | None \<Rightarrow> c l)"

lemma copied_over_perm:
  assumes "mset ps = mset qs" "distinct (map (url_loc \<circ> snd) qs)"
  shows "copied_over ps c = copied_over qs c"
proof -
  let ?f = "\<lambda>(s, d). (url_loc d, url_loc s)"
  have m: "mset (map ?f ps) = mset (map ?f qs)" using assms(1) by simp
  have q: "distinct (map fst (map ?f qs))" using assms(2) by (simp add: comp_def split_def)
  have "mset (map fst (map ?f ps)) = mset (map fst (map ?f qs))" using m unfolding mset_map by (rule arg_cong)
  from mset_eq_imp_distinct_iff [OF this] q have d: "distinct (map fst (map ?f ps))" by (rule iffD2)
  have "map_of (map ?f ps) = map_of (map ?f qs)"
    unfolding map_of_inject_set [OF d q] by (rule mset_eq_setD [OF m])
  then show ?thesis by (simp add: copied_over_def fun_eq_iff)
qed

lemma report_keeps_error:
  "ss_had_error a \<Longrightarrow> ss_had_error (report_copy p r a)" "ss_had_error a \<Longrightarrow> ss_had_error (report_rm u r a)"
  "sync_stop eoe a \<Longrightarrow> sync_stop eoe (report_copy p r a)" "sync_stop eoe a \<Longrightarrow> sync_stop eoe (report_rm u r a)"
  by (auto simp: report_copy_def report_rm_def sync_stop_def split: sum.splits)

lemma seq_run_error:
  "ss_had_error a \<Longrightarrow> ss_had_error (fst (seq_run exec report_copy js a w))"
  "ss_had_error a \<Longrightarrow> ss_had_error (fst (seq_run exec2 report_rm ks a w))"
  by (induction js arbitrary: a w, simp_all add: report_keeps_error split: prod.splits)
    (induction ks arbitrary: a w, simp_all add: report_keeps_error split: prod.splits)

text \<open>A pair that a server-side copy can take.\<close>

definition remote_pair :: "url \<times> url \<Rightarrow> bool" where
  "remote_pair p \<longleftrightarrow> copy_source_ok (fst p) \<and> is_remote (snd p)"

context deleting_service
begin

lemma seq_copies:
  assumes "seq_run (sync_copy_one X (Some (C, s)) None opts md) report_copy ps a w = (a', w')" "\<not> ss_had_error a'"
    and s: "\<not> s3_dry_run s" "0 < s3_part_size s" "\<And>xs. mset (ce_sched X xs) = mset xs"
    and ps: "list_all remote_pair ps" "distinct (map (url_loc \<circ> snd) ps)"
      "\<And>p q. p \<in> set ps \<Longrightarrow> q \<in> set ps \<Longrightarrow> url_loc (fst p) \<noteq> url_loc (snd q)"
      "\<And>p f. p \<in> set ps \<Longrightarrow> contents (w_s3 w) (url_loc (fst p)) = Some f \<Longrightarrow> length f < 2 ^ 63"
  shows "contents (w_s3 w') = copied_over ps (contents (w_s3 w)) \<and> w_files w' = w_files w \<and>
    (\<forall>p \<in> set ps. contents (w_s3 w) (url_loc (fst p)) \<noteq> None)"
  using assms(1,2) ps
proof (induction ps arbitrary: a w)
  case Nil
  then show ?case by (simp add: copied_over_def fun_eq_iff)
next
  case (Cons p ps)
  obtain src dst where p: "p = (src, dst)" by (cases p)
  obtain r w1 where e: "sync_copy_one X (Some (C, s)) None opts md p w = (r, w1)" by fastforce
  have rest: "seq_run (sync_copy_one X (Some (C, s)) None opts md) report_copy ps (report_copy p r a) w1 = (a', w')"
    using Cons.prems(1) e by simp
  have "\<not> ss_had_error (report_copy p r a)" using seq_run_error(1) rest Cons.prems(2) by (metis fst_conv)
  then obtain x where r: "r = Inr x" by (cases r) (auto simp: report_copy_def)
  have src: "copy_source_ok src" "is_remote src" "is_remote dst"
    using Cons.prems(3) p by (simp_all add: remote_pair_def copy_source_ok_def)
  have cp: "s3_copy C (ce_sched X) s src dst md w = (Inr x, w1)"
    using e r src(2,3) p by (simp add: sync_copy_one_def need_client_def)
  obtain obj where o: "contents (w_s3 w) (url_loc src) = Some obj"
    "contents (w_s3 w1) = (contents (w_s3 w))(url_loc dst \<mapsto> obj)" "w_files w1 = w_files w"
    using copy_exact [OF cp s(1) src(1) s(2) _ s(3)] Cons.prems(6) [of p] p by auto
  have same: "contents (w_s3 w1) (url_loc (fst q)) = contents (w_s3 w) (url_loc (fst q))" if "q \<in> set (p # ps)" for q
    using Cons.prems(5) [OF that, of p] p o(2) by simp
  have IH: "contents (w_s3 w') = copied_over ps (contents (w_s3 w1)) \<and> w_files w' = w_files w1 \<and>
      (\<forall>p \<in> set ps. contents (w_s3 w1) (url_loc (fst p)) \<noteq> None)"
  proof (rule Cons.IH [OF rest Cons.prems(2)])
    show "list_all remote_pair ps" "distinct (map (url_loc \<circ> snd) ps)" using Cons.prems(3,4) by (simp_all add: comp_def)
    show "url_loc (fst a) \<noteq> url_loc (snd q)" if "a \<in> set ps" "q \<in> set ps" for a q using Cons.prems(5) that by simp
    show "length f < 2 ^ 63" if "a \<in> set ps" "contents (w_s3 w1) (url_loc (fst a)) = Some f" for a f
      using Cons.prems(6) [of a f] that same [of a] by simp
  qed
  have "copied_over ps (contents (w_s3 w1)) l = copied_over (p # ps) (contents (w_s3 w)) l" for l
  proof (cases "map_of (map (\<lambda>(s, d). (url_loc d, url_loc s)) ps) l")
    case None
    then show ?thesis using o p by (simp add: copied_over_def)
  next
    case (Some sl)
    then obtain q where q: "q \<in> set ps" "l = url_loc (snd q)" "sl = url_loc (fst q)"
      by (auto dest!: map_of_SomeD)
    have "l \<noteq> url_loc dst" using Cons.prems(4) q(1,2) p by (metis (no_types, lifting) comp_apply distinct.simps(2) image_eqI list.set_map list.simps(9) snd_conv)
    moreover have "contents (w_s3 w1) sl = contents (w_s3 w) sl" using same q by simp
    ultimately show ?thesis using Some p by (simp add: copied_over_def)
  qed
  then have "copied_over ps (contents (w_s3 w1)) = copied_over (p # ps) (contents (w_s3 w))" by (rule ext)
  moreover have "contents (w_s3 w) (url_loc (fst q)) \<noteq> None" if "q \<in> set (p # ps)" for q
  proof (cases "q = p")
    case True
    then show ?thesis using o(1) p by simp
  next
    case False
    then have "contents (w_s3 w1) (url_loc (fst q)) \<noteq> None" using IH that by simp
    then show ?thesis unfolding same [OF that] .
  qed
  ultimately show ?case using IH o(3) by simp
qed

lemma seq_deletes:
  assumes "seq_run (sync_delete_one X (Some (C, s)) opts) report_rm us a w = (a', w')" "\<not> ss_had_error a'"
    and "\<not> s3_dry_run s" "\<And>u. u \<in> set us \<Longrightarrow> is_remote u \<and> url_version_id u = []"
  shows "contents (w_s3 w') = (\<lambda>l. if l \<in> url_loc ` set us then None else contents (w_s3 w) l) \<and> w_files w' = w_files w"
  using assms(1,2,4)
proof (induction us arbitrary: a w)
  case Nil
  then show ?case by (simp add: fun_eq_iff)
next
  case (Cons u us)
  obtain r w1 where e: "sync_delete_one X (Some (C, s)) opts u w = (r, w1)" by fastforce
  have rest: "seq_run (sync_delete_one X (Some (C, s)) opts) report_rm us (report_rm u r a) w1 = (a', w')"
    using Cons.prems(1) e by simp
  have "\<not> ss_had_error (report_rm u r a)" using seq_run_error(2) rest Cons.prems(2) by (metis fst_conv)
  then obtain x where "r = Inr x" by (cases r) (auto simp: report_rm_def)
  then have d: "s3_delete C s u w = (Inr x, w1)" using e Cons.prems(3) by (simp add: sync_delete_one_def need_client_def)
  have "w_files w1 = w_files w" using io_quietD [OF delete_quiet d] .
  moreover have "contents (w_s3 w1) = (contents (w_s3 w))(url_loc u := None)"
    using delete_ok [OF d assms(3)] Cons.prems(3) by simp
  moreover have "contents (w_s3 w') = (\<lambda>l. if l \<in> url_loc ` set us then None else contents (w_s3 w1) l) \<and> w_files w' = w_files w1"
    by (rule Cons.IH [OF rest Cons.prems(2)]) (use Cons.prems(3) in simp)
  ultimately show ?case by (simp add: fun_eq_iff) metis
qed

end

lemma sync_execute_Ok:
  assumes "sync_execute X pick pick2 workers eoe s3 s3_dst opts md to_copy to_delete w = (Inr x, a, w')"
  obtains cps dls b w1 where "mset cps = mset to_copy" "mset dls = mset to_delete"
    "seq_run (sync_copy_one X s3 s3_dst opts md) report_copy cps sync_empty w = (b, w1)" "\<not> ss_had_error b"
    "seq_run (sync_delete_one X (or_else s3_dst s3) opts) report_rm dls b w1 = (a, w')" "\<not> ss_had_error a"
proof -
  let ?cp = "sync_copy_one X s3 s3_dst opts md" and ?rm = "sync_delete_one X (or_else s3_dst s3) opts"
  obtain b w1 where c: "pool_run ?cp report_copy pick (sync_stop eoe) workers to_copy sync_empty w = (b, w1)" by fastforce
  obtain a2 w2 where d: "pool_run ?rm report_rm pick2 (sync_stop eoe) workers to_delete b w1 = (a2, w2)" by fastforce
  have ok: "\<not> ss_fatal b" "\<not> (eoe \<and> ss_had_error b)" "a2 = a" "w2 = w'" "\<not> ss_fatal a" "\<not> ss_had_error a"
    using assms c d by (auto simp: sync_execute_def sync_empty_def [symmetric] split: if_splits)
  obtain n cps where n: "mset cps = mset (take n to_copy)" "seq_run ?cp report_copy cps sync_empty w = (b, w1)"
    "\<not> sync_stop eoe b \<longrightarrow> length to_copy \<le> n"
    using pool_run_order [of "sync_stop eoe" report_copy to_copy ?cp pick workers sync_empty w, OF report_keeps_error(3), unfolded c]
    by (metis fst_conv)
  obtain m dls where m: "mset dls = mset (take m to_delete)" "seq_run ?rm report_rm dls b w1 = (a, w')"
    "\<not> sync_stop eoe a \<longrightarrow> length to_delete \<le> m"
    using pool_run_order [of "sync_stop eoe" report_rm to_delete ?rm pick2 workers b w1, OF report_keeps_error(4), unfolded d ok(3,4)]
    by (metis fst_conv)
  have "\<not> ss_had_error b" using seq_run_error(2) m(2) ok(6) by (metis fst_conv)
  moreover have "\<not> sync_stop eoe b" "\<not> sync_stop eoe a" using ok by (auto simp: sync_stop_def)
  ultimately show ?thesis using that [of cps dls b w1] n m ok(6) by simp
qed

text \<open>
  C9. A sync between two places of one S3 service that reports success has carried out its plan
  exactly, however the workers were scheduled: every planned destination holds the bytes its source
  had at the start, every planned deletion is gone, and every other object of the service is as it
  was. The plan must not copy an object onto the source or the destination of another copy.
\<close>

theorem sync_execute_mirrors:
  assumes S: "deleting_service C contents uploads"
    and run: "sync_execute X pick pick2 workers eoe (Some (C, s)) None opts md to_copy to_delete w = (Inr x, a, w')"
    and s: "\<not> s3_dry_run s" "0 < s3_part_size s" "\<And>xs. mset (ce_sched X xs) = mset xs"
    and ps: "list_all remote_pair to_copy" "distinct (map (url_loc \<circ> snd) to_copy)"
      "\<And>p q. p \<in> set to_copy \<Longrightarrow> q \<in> set to_copy \<Longrightarrow> url_loc (fst p) \<noteq> url_loc (snd q)"
      "\<And>p f. p \<in> set to_copy \<Longrightarrow> contents (w_s3 w) (url_loc (fst p)) = Some f \<Longrightarrow> length f < 2 ^ 63"
    and ds: "\<And>u. u \<in> set to_delete \<Longrightarrow> is_remote u \<and> url_version_id u = []"
  shows "contents (w_s3 w') =
      (\<lambda>l. if l \<in> url_loc ` set to_delete then None else copied_over to_copy (contents (w_s3 w)) l) \<and>
    w_files w' = w_files w \<and> (\<forall>p \<in> set to_copy. contents (w_s3 w) (url_loc (fst p)) \<noteq> None)"
proof -
  obtain cps dls b w1 where c: "mset cps = mset to_copy" and d: "mset dls = mset to_delete"
    and rc: "seq_run (sync_copy_one X (Some (C, s)) None opts md) report_copy cps sync_empty w = (b, w1)" "\<not> ss_had_error b"
    and rd: "seq_run (sync_delete_one X (or_else None (Some (C, s))) opts) report_rm dls b w1 = (a, w')" "\<not> ss_had_error a"
    using sync_execute_Ok [OF run] by metis
  note set_eq = mset_eq_setD [OF c] mset_eq_setD [OF d]
  have m: "mset (map (url_loc \<circ> snd) cps) = mset (map (url_loc \<circ> snd) to_copy)" using c by simp
  have "distinct (map (url_loc \<circ> snd) cps)" using mset_eq_imp_distinct_iff [OF m] ps(2) by (rule iffD2)
  then have 1: "contents (w_s3 w1) = copied_over cps (contents (w_s3 w)) \<and> w_files w1 = w_files w \<and>
      (\<forall>p \<in> set cps. contents (w_s3 w) (url_loc (fst p)) \<noteq> None)"
    by (intro deleting_service.seq_copies [OF S rc s]) (use ps set_eq in \<open>auto simp: list_all_iff\<close>)
  have 2: "contents (w_s3 w') = (\<lambda>l. if l \<in> url_loc ` set dls then None else contents (w_s3 w1) l) \<and> w_files w' = w_files w1"
    by (rule deleting_service.seq_deletes [OF S _ rd(2) s(1)]) (use rd(1) ds set_eq in auto)
  have 3: "contents (w_s3 w1) = copied_over to_copy (contents (w_s3 w))" using 1 copied_over_perm [OF c ps(2)] by simp
  show ?thesis using 1 2 set_eq unfolding 3 by simp
qed

section \<open>The cap on deletions\<close>

lemma seq_run_deleted:
  "seq_run exec report_copy ps a w = (a1, w1) \<Longrightarrow> ss_deleted a1 = ss_deleted a"
  "seq_run exec2 report_rm us a w = (a2, w2) \<Longrightarrow> ss_deleted a2 \<le> ss_deleted a + length us"
proof -
  show "seq_run exec report_copy ps a w = (a1, w1) \<Longrightarrow> ss_deleted a1 = ss_deleted a"
    by (induction ps arbitrary: a w) (auto simp: report_copy_def split: prod.splits sum.splits)
  show "seq_run exec2 report_rm us a w = (a2, w2) \<Longrightarrow> ss_deleted a2 \<le> ss_deleted a + length us"
  proof (induction us arbitrary: a w)
    case (Cons u us)
    obtain r w1 where e: "exec2 u w = (r, w1)" by fastforce
    have "ss_deleted (report_rm u r a) \<le> Suc (ss_deleted a)"
      by (auto simp: report_rm_def u64_add_def split: sum.splits intro: order_trans [OF mod_less_eq_dividend])
    moreover have "ss_deleted a2 \<le> ss_deleted (report_rm u r a) + length us"
      by (rule Cons.IH) (use Cons.prems e in simp)
    ultimately show ?case by simp
  qed simp
qed

lemma sync_execute_deleted:
  assumes "sync_execute X pick pick2 workers eoe s3 s3_dst opts md to_copy to_delete w = (r, a, w')"
  shows "ss_deleted a \<le> length to_delete"
proof -
  let ?cp = "sync_copy_one X s3 s3_dst opts md" and ?rm = "sync_delete_one X (or_else s3_dst s3) opts"
  obtain b w1 where c: "pool_run ?cp report_copy pick (sync_stop eoe) workers to_copy sync_empty w = (b, w1)" by fastforce
  obtain a2 w2 where d: "pool_run ?rm report_rm pick2 (sync_stop eoe) workers to_delete b w1 = (a2, w2)" by fastforce
  obtain cps where "seq_run ?cp report_copy cps sync_empty w = (b, w1)"
    using pool_run_order [of "sync_stop eoe" report_copy to_copy ?cp pick workers sync_empty w, OF report_keeps_error(3), unfolded c]
    by metis
  then have b: "ss_deleted b = 0" using seq_run_deleted(1) by (fastforce simp: sync_empty_def)
  obtain m dls where m: "mset dls = mset (take m to_delete)" "seq_run ?rm report_rm dls b w1 = (a2, w2)"
    using pool_run_order [of "sync_stop eoe" report_rm to_delete ?rm pick2 workers b w1, OF report_keeps_error(4), unfolded d]
    by metis
  have "length dls \<le> length to_delete" using mset_eq_length [OF m(1)] by simp
  then have "ss_deleted a2 \<le> length to_delete" using seq_run_deleted(2) [OF m(2)] b by simp
  moreover have "a = b \<or> a = a2" using assms c d by (auto simp: sync_execute_def sync_empty_def [symmetric] split: if_splits)
  ultimately show ?thesis using b by auto
qed

section \<open>Examples\<close>

definition demo_cmd :: "memstore cmd_env" where
  "demo_cmd = \<lparr>ce_new_s3 = (\<lambda>_. Ok (memory_sdk, demo_s3 4)), ce_regex = reference_engine, ce_os = demo_env,
     ce_view = (\<lambda>_. \<lparr>lv_symlink_metadata = (\<lambda>p. if p = ''e/x'' \<or> p = ''e/y'' then Inr \<lparr>fm_kind = RegularKind, fm_len = 1, fm_modified = None\<rparr>
         else if p = ''d/'' \<or> p = ''e/'' then Inr \<lparr>fm_kind = DirKind, fm_len = 0, fm_modified = None\<rparr> else Inl NotFoundKind),
       lv_metadata = (\<lambda>_. Inl NotFoundKind),
       lv_walk = (\<lambda>p _. if p = ''e/'' then [WalkEntry ''e/x'' RegularKind, WalkEntry ''e/y'' RegularKind] else []),
       lv_glob = (\<lambda>p. if p = ''e/*'' then Inr [Inr ''e/x'', Inr ''e/y''] else Inr []), lv_debug = id\<rparr>),
     ce_sched = rev, ce_md5 = id, ce_tmp = ''t''\<rparr>"

definition demo_pair :: "url \<times> url" where
  "demo_pair = (demo_url ''s3://b/k'', demo_url ''s3://b/l'')"

definition demo_objects :: "memstore world" where
  "demo_objects = demo_world [((''b'', ''k''), ''hello world''), ((''b'', ''m''), ''stale'')] Map.empty"

lemma demo_stale:
  "is_remote (demo_url ''s3://b/m'')" "url_version_id (demo_url ''s3://b/m'') = []"
  "url_loc (demo_url ''s3://b/m'') = (''b'', ''m'')" "is_remote (demo_url ''s3://b/l'')"
  "url_path (demo_url ''s3://b/m'') = ''m''" "url_bucket (demo_url ''s3://b/m'') = ''b''"
  by (simp_all add: demo_url_def url_eval Let_def url_loc_def)

lemma demo_sync_ok:
  "fst (sync_execute demo_cmd id id 2 False (Some (memory_sdk, demo_s3 4)) None default_options default_metadata
     [demo_pair] [demo_url ''s3://b/m''] demo_objects) = Inr ()"
  by (simp add: sync_execute_def pool_run_def wait_slot.simps drain_pool.simps join_next_def take_nth_def Let_def
      sync_copy_one_def sync_delete_one_def need_client_def demo_pair_def demo_objects_def demo_stale demo_cmd_def
      s3_ops s3_demo s3_arith demo_url_parts range_bounds_byte_range copy_part_size_def demo_copy_source
      s3_delete_def report_copy_def report_rm_def sync_stop_def or_else_def)

theorem sync_plan_exact_witness:
  "mset (fst (sync_plan rev SizeOnly True (demo_url ''s3://b/l'') False
      [(''k'', default_object\<lparr>ob_url := Some (demo_url ''s3://b/k''), ob_size := 3\<rparr>)]
      [(''k'', default_object\<lparr>ob_url := Some (demo_url ''s3://b/l''), ob_size := 4\<rparr>),
       (''m'', default_object\<lparr>ob_url := Some (demo_url ''s3://b/m'')\<rparr>)]))
    = {#copy_pair (demo_url ''s3://b/l'') False (''k'', default_object\<lparr>ob_url := Some (demo_url ''s3://b/k''), ob_size := 3\<rparr>)#}"
proof -
  let ?srcs = "[(''k'', default_object\<lparr>ob_url := Some (demo_url ''s3://b/k''), ob_size := 3\<rparr>)]"
  let ?dests = "[(''k'', default_object\<lparr>ob_url := Some (demo_url ''s3://b/l''), ob_size := 4\<rparr>),
       (''m'', default_object\<lparr>ob_url := Some (demo_url ''s3://b/m'')\<rparr>)]"
  obtain c d where p: "sync_plan rev SizeOnly True (demo_url ''s3://b/l'') False ?srcs ?dests = (c, d)" by fastforce
  from sync_plan_exact [OF _ _ p] show ?thesis unfolding p by (simp add: needs_copy_def should_sync_def)
qed

theorem sync_execute_mirrors_witness:
  "\<exists>a w. sync_execute demo_cmd id id 2 False (Some (memory_sdk, demo_s3 4)) None default_options default_metadata
     [demo_pair] [demo_url ''s3://b/m''] demo_objects = (Inr (), a, w) \<and>
    mem_contents (w_s3 w) (''b'', ''l'') = Some ''hello world'' \<and> mem_contents (w_s3 w) (''b'', ''m'') = None"
proof -
  obtain a w where r: "sync_execute demo_cmd id id 2 False (Some (memory_sdk, demo_s3 4)) None default_options default_metadata
     [demo_pair] [demo_url ''s3://b/m''] demo_objects = (Inr (), a, w)"
    using demo_sync_ok by (metis prod.collapse)
  have p: "remote_pair demo_pair" "url_loc (fst demo_pair) = (''b'', ''k'')" "url_loc (snd demo_pair) = (''b'', ''l'')"
    by (simp_all add: remote_pair_def demo_pair_def demo_copy_source demo_stale url_loc_def demo_url_parts)
  have c: "mem_contents (w_s3 demo_objects) (''b'', ''k'') = Some ''hello world''"
    by (simp add: demo_objects_def demo_world_def mem_contents_def)
  have env: "\<not> s3_dry_run (demo_s3 4)" "0 < s3_part_size (demo_s3 4)" "\<And>xs. mset (ce_sched demo_cmd xs) = mset xs"
    by (simp_all add: demo_s3_def demo_cmd_def)
  have "mem_contents (w_s3 w) = (\<lambda>l. if l \<in> url_loc ` set [demo_url ''s3://b/m''] then None
      else copied_over [demo_pair] (mem_contents (w_s3 demo_objects)) l) \<and> w_files w = w_files demo_objects \<and>
      (\<forall>p \<in> set [demo_pair]. mem_contents (w_s3 demo_objects) (url_loc (fst p)) \<noteq> None)"
    by (rule sync_execute_mirrors [OF mem_deleting.deleting_service_axioms r env]) (use p c in \<open>auto simp: demo_stale\<close>)
  then have "mem_contents (w_s3 w) (''b'', ''l'') = Some ''hello world''" "mem_contents (w_s3 w) (''b'', ''m'') = None"
    using p c by (simp_all add: demo_stale copied_over_def split_def)
  with r show ?thesis by blast
qed

definition demo_sync_args :: sync_args where
  "demo_sync_args = \<lparr>sa_src = ''d/'', sa_dst = ''e/'', sa_delete = True, sa_size_only = False, sa_checksum = False,
     sa_exact_timestamps = False, sa_follow_symlinks = False, sa_exclude = [], sa_include = [], sa_exclude_from = [],
     sa_include_from = [], sa_storage_class = None, sa_acl = None, sa_content_type = None, sa_exit_on_error = False,
     sa_force_glacier_transfer = False, sa_max_delete = Some 1, sa_preserve_timestamps = False\<rparr>"

lemma demo_files:
  "url_parse reference_engine ''d/'' = Inr (demo_url ''d/'')" "url_parse reference_engine ''e/'' = Inr (demo_url ''e/'')"
  "\<not> is_remote (demo_url ''d/'')" "\<not> is_remote (demo_url ''e/'')" "\<not> is_wildcard (demo_url ''d/'')" "\<not> is_wildcard (demo_url ''e/'')"
  "absolute (demo_url ''d/'') = ''d/''" "absolute (demo_url ''e/'') = ''e/''"
  "url_parse reference_engine ''e/*'' = Inr (demo_url ''e/*'')" "is_wildcard (demo_url ''e/*'')" "absolute (demo_url ''e/*'') = ''e/*''"
  "\<not> is_remote (demo_url ''e/*'')"
  by (simp_all add: demo_url_def url_eval Let_def)

lemma demo_source:
  "is_source_batch demo_cmd (demo_url ''d/'') opts w = (Ok True, w)"
  "collect_source_objects demo_cmd (demo_url ''d/'') opts follow True fl ck force w = Some (Ok [], w)"
  by (simp_all add: is_source_batch_def collect_source_objects_def new_client_def demo_files client_stat_def client_list_def
      stat_sync_def fs_list_def walk_dir_def should_process_url_def demo_cmd_def type_is_dir_def Let_def)

lemma demo_dest: "\<exists>r. collect_dest_objects demo_cmd (demo_url ''e/'') opts fl w = Some (r, w)"
  by (simp add: collect_dest_objects_def listing_path_def new_client_def demo_files client_list_def demo_cmd_def ends_with_def)

lemma demo_sync_run:
  "\<exists>r a w'. sync_run demo_cmd id id id 4 default_options demo_sync_args w = Some (r, a, w')"
proof -
  obtain d where "collect_dest_objects demo_cmd (demo_url ''e/'') (for_side (default_options\<lparr>op_preserve_timestamps := False\<rparr>) Destination)
      \<lparr>f_includes = [], f_excludes = []\<rparr> w = Some (d, w)" using demo_dest by blast
  moreover have re: "ce_regex demo_cmd = reference_engine" by (simp add: demo_cmd_def)
  ultimately show ?thesis
    by (cases d) (simp_all add: sync_run_def demo_sync_args_def re Let_def demo_files demo_source message_of_def
      sync_filters_def filters_new_def prod_eq_iff split: prod.splits sum.splits)
qed


section \<open>A local destination that does not exist yet\<close>

definition no_match_message :: "local_view \<Rightarrow> url \<Rightarrow> string" where
  "no_match_message V u = ''no match found for '' @ lv_debug V (absolute u)"


lemma demo_fresh:
  "url_parse reference_engine ''n/'' = Inr (demo_url ''n/'')" "absolute (demo_url ''n/'') = ''n/''"
  "url_parse reference_engine ''n/*'' = Inr (demo_url ''n/*'')" "is_wildcard (demo_url ''n/*'')" "absolute (demo_url ''n/*'') = ''n/*''"
  "\<not> is_remote (demo_url ''n/*'')"
  by (simp_all add: demo_url_def url_eval Let_def)


end
