(* ===== verification/Cp.thy ===== *)
theory Cp
  imports Local_Fs Pool "HOL-Library.Sublist"
begin

text \<open>
  The \<^verbatim>\<open>cp\<close> and \<^verbatim>\<open>mv\<close> commands (\<^verbatim>\<open>src/command/cp.rs\<close>): the expansion of the sources into pairs, the
  transfer of one pair in any direction, and the run on the worker pool, for the default build
  without the \<^verbatim>\<open>fast\<close> feature. Progress bars and printed lines are not modelled; the outcome of
  every pair is.
\<close>

section \<open>Arguments\<close>

record cp_args =
  ca_paths :: "string list"
  ca_follow_symlinks :: bool
  ca_storage_class :: "string option"
  ca_acl :: "string option"
  ca_content_type :: "string option"
  ca_fast :: bool
  ca_part_size :: nat
  ca_concurrency :: nat
  ca_version_id :: "string option"
  ca_all_versions :: bool
  ca_force_glacier_transfer :: bool
  ca_preserve_timestamps :: bool
  ca_client_copy :: bool
  ca_remove_empty_dirs :: bool
  ca_if_none_match :: bool
  ca_links :: bool
  ca_exclude :: "string list"
  ca_include :: "string list"
  ca_exclude_from :: "string list"
  ca_include_from :: "string list"

abbreviation LINK_SUFFIX :: string where
  "LINK_SUFFIX \<equiv> ''.s5cmdlink''"

definition cp_metadata :: "cp_args \<Rightarrow> metadata" where
  "cp_metadata args =
     default_metadata\<lparr>md_storage_class := ca_storage_class args, md_acl := ca_acl args,
       md_content_type := ca_content_type args, md_if_none_match := ca_if_none_match args\<rparr>"

definition cp_options :: "options \<Rightarrow> cp_args \<Rightarrow> options" where
  "cp_options global args =
     global\<lparr>op_part_size := min (max (ca_part_size args) 5 * (1024 * 1024)) u64_max,
       op_concurrency := max (ca_concurrency args) 1, op_preserve_timestamps := ca_preserve_timestamps args,
       op_client_copy := ca_client_copy args, op_remove_empty_dirs := ca_remove_empty_dirs args\<rparr>"

section \<open>Expanding a source\<close>

definition is_local_dir :: "local_view \<Rightarrow> string \<Rightarrow> bool" where
  "is_local_dir V p = (case lv_metadata V p of Inr m \<Rightarrow> fm_kind m = DirKind | Inl _ \<Rightarrow> False)"

definition dest_is_dir_like :: "local_view \<Rightarrow> url \<Rightarrow> bool" where
  "dest_is_dir_like V dst \<longleftrightarrow>
     (if is_remote dst then is_bucket dst \<or> ends_with (absolute dst) ''/''
      else ends_with (absolute dst) ''/'' \<or> is_local_dir V (absolute dst))"

definition resolve_single_dest :: "local_view \<Rightarrow> url \<Rightarrow> url \<Rightarrow> url" where
  "resolve_single_dest V src dst = (if dest_is_dir_like V dst then url_join dst (url_base src) else dst)"

definition versioned_dest :: "url \<Rightarrow> url \<Rightarrow> bool \<Rightarrow> url" where
  "versioned_dest src dst dst_is_dir =
     (if dst_is_dir then url_join dst (url_base src @ ''_'' @ url_version_id src)
      else dst\<lparr>url_path := url_path dst @ ''_'' @ url_version_id src\<rparr>)"

fun all_versions_loop :: "url \<Rightarrow> bool \<Rightarrow> object list \<Rightarrow> (url \<times> url) list" where
  "all_versions_loop dst dst_is_dir [] = []"
| "all_versions_loop dst dst_is_dir (ob # os) =
     (if ob_err ob \<noteq> None then all_versions_loop dst dst_is_dir os
      else if ob_is_delete_marker ob \<or> type_is_dir (ob_typ ob) then all_versions_loop dst dst_is_dir os
      else
        (case ob_url ob of
           None \<Rightarrow> all_versions_loop dst dst_is_dir os
         | Some u \<Rightarrow>
             if url_version_id u = [] then all_versions_loop dst dst_is_dir os
             else (u, versioned_dest u dst dst_is_dir) # all_versions_loop dst dst_is_dir os))"

definition expand_all_versions ::
  "'s cmd_env \<Rightarrow> 's client \<Rightarrow> url \<Rightarrow> url \<Rightarrow> bool \<Rightarrow> 's world \<Rightarrow> ((url \<times> url) list \<times> 's world) option" where
  "expand_all_versions X c src dst follow w =
     (let dst_is_dir = dest_is_dir_like (ce_view X w) dst in
      case client_list X c src follow w of
        None \<Rightarrow> None
      | Some (os, w1) \<Rightarrow> Some (all_versions_loop dst dst_is_dir os, w1))"

fun expand_loop :: "regex_lib \<Rightarrow> filters \<Rightarrow> url \<Rightarrow> object list \<Rightarrow> (url \<times> url) list" where
  "expand_loop L fl dst [] = []"
| "expand_loop L fl dst (ob # os) =
     (if ob_err ob \<noteq> None then expand_loop L fl dst os
      else
        (case ob_url ob of
           None \<Rightarrow> expand_loop L fl dst os
         | Some u \<Rightarrow>
             if type_is_dir (ob_typ ob) then expand_loop L fl dst os
             else if should_skip L fl (filter_key u) then expand_loop L fl dst os
             else (u, url_join dst (relative u)) # expand_loop L fl dst os))"

definition is_multi :: "local_view \<Rightarrow> url \<Rightarrow> bool" where
  "is_multi V src \<longleftrightarrow>
     (if is_wildcard src then True
      else if is_remote src then is_bucket src \<or> is_prefix src
      else is_local_dir V (absolute src))"

definition expand_sources ::
  "'s cmd_env \<Rightarrow> url \<Rightarrow> url \<Rightarrow> options \<Rightarrow> bool \<Rightarrow> filters \<Rightarrow> 's world
     \<Rightarrow> ((error, (url \<times> url) list) result \<times> 's world) option" where
  "expand_sources X src dst opts follow fl w =
     (case new_client X src opts of
        Inl e \<Rightarrow> Some (Err e, w)
      | Inr c \<Rightarrow>
          if is_remote src \<and> url_all_versions src \<and> \<not> is_wildcard src then
            (case expand_all_versions X c src dst follow w of
               None \<Rightarrow> None | Some (ps, w1) \<Rightarrow> Some (Ok ps, w1))
          else if \<not> is_multi (ce_view X w) src then
            Some (Ok [(src, resolve_single_dest (ce_view X w) src dst)], w)
          else
            (case client_list X c src follow w of
               None \<Rightarrow> None
             | Some (os, w1) \<Rightarrow> Some (Ok (expand_loop (ce_regex X) fl dst os), w1)))"

text \<open>The sources in turn; the first error ends the run.\<close>

fun expand_all ::
  "'s cmd_env \<Rightarrow> url_options \<Rightarrow> url \<Rightarrow> options \<Rightarrow> bool \<Rightarrow> filters \<Rightarrow> string list \<Rightarrow> 's world
     \<Rightarrow> ((error, (url \<times> url) list) result \<times> 's world) option" where
  "expand_all X uo dst opts follow fl [] w = Some (Ok [], w)"
| "expand_all X uo dst opts follow fl (raw # raws) w =
     (case url_new (ce_regex X) raw uo of
        Inl e \<Rightarrow> Some (Err (Message e), w)
      | Inr src \<Rightarrow>
          (case expand_sources X src dst opts follow fl w of
             None \<Rightarrow> None
           | Some (Inl e, w1) \<Rightarrow> Some (Err e, w1)
           | Some (Inr ps, w1) \<Rightarrow>
               (case expand_all X uo dst opts follow fl raws w1 of
                  None \<Rightarrow> None
                | Some (Inl e, w2) \<Rightarrow> Some (Err e, w2)
                | Some (Inr qs, w2) \<Rightarrow> Some (Ok (ps @ qs), w2))))"

section \<open>Paths of the local tree\<close>

lemma join_with_longer: "length x + length (join_with sep xs) \<le> length (join_with sep (x # xs))"
  by (cases xs) (simp_all add: join_with_Cons)

lemma length_join_append: "length (join_with sep xs) \<le> length (join_with sep (xs @ ys))"
proof (induction xs)
  case (Cons x xs)
  then show ?case by (cases xs) (use join_with_longer [of x sep ys] in \<open>auto simp: join_with_Cons\<close>)
qed simp

lemma length_join_prefix: "c \<noteq> [] \<Longrightarrow> length (join_with sep xs) < length (join_with sep (xs @ c # ys))"
proof (induction xs)
  case Nil
  then show ?case using join_with_longer [of c sep ys] by (cases c) auto
next
  case (Cons x xs)
  then show ?case
    by (cases xs) (use join_with_longer [of c sep ys] in \<open>auto simp: join_with_Cons simp flip: length_greater_0_conv\<close>)
qed

lemma rev_dropWhile_split: "\<exists>zs. xs = rev (dropWhile P (rev xs)) @ zs"
  using takeWhile_dropWhile_id [of P "rev xs"] by (metis rev_append rev_rev_ident)

lemma path_parent_shorter:
  assumes "path_parent p = Some d"
  shows "length d < length p"
proof (cases "path_split_last p")
  case None
  with assms show ?thesis by (auto simp: path_parent_def path_head_def split: if_splits)
next
  case (Some dc)
  let ?pre = "path_head p" and ?body = "drop (length (path_head p)) p"
  let ?xs = "split_on (CHR ''/'') ?body"
  obtain c rest where r: "dropWhile no_component (rev ?xs) = c # rest"
    and d: "d = ?pre @ join_with ''/'' (rev (dropWhile no_component rest))"
    using assms Some by (auto simp: path_parent_def path_split_last_def Let_def split: list.splits)
  have c: "c \<noteq> []" using hd_dropWhile [of no_component "rev ?xs"] r by (auto simp: no_component_def)
  obtain zs where "?xs = rev (c # rest) @ zs" using rev_dropWhile_split [of ?xs no_component] unfolding r by blast
  moreover obtain ys where "rev rest = rev (dropWhile no_component rest) @ ys"
    using rev_dropWhile_split [of "rev rest" no_component] by auto
  ultimately have "?xs = rev (dropWhile no_component rest) @ ys @ c # zs" by simp
  then have body: "?body = join_with ''/'' (rev (dropWhile no_component rest) @ ys @ c # zs)" by (metis join_split_on)
  have "length (join_with ''/'' (rev (dropWhile no_component rest))) < length ?body"
    using length_join_append [of "''/''" "rev (dropWhile no_component rest)" ys]
      length_join_prefix [OF c, of "''/''" "rev (dropWhile no_component rest) @ ys" zs]
    unfolding body by simp
  then show ?thesis using d by auto
qed

text \<open>\<^verbatim>\<open>Path::components\<close>: a root or a leading dot, then the names.\<close>

definition path_components :: "string \<Rightarrow> string list" where
  "path_components p =
     (if path_head p = [] then [] else [path_head p])
       @ filter (\<lambda>s. \<not> no_component s) (split_on (CHR ''/'') (drop (length (path_head p)) p))"

definition normal_components :: "string \<Rightarrow> nat" where
  "normal_components p = length (filter (\<lambda>s. s \<noteq> ''/'' \<and> s \<noteq> ''.'' \<and> s \<noteq> ''..'') (path_components p))"

text \<open>
  What the operating system does to links and directories, which the world does not hold: the
  target of a link, or an error text; the creation of a link; the removal of a link; whether the
  removal of a directory succeeded.
\<close>

record 's tree_ops =
  to_read_link :: "string \<Rightarrow> 's world \<Rightarrow> (string, string) result"
  to_symlink :: "string \<Rightarrow> string \<Rightarrow> 's world \<Rightarrow> (string, unit) result \<times> 's world"
  to_unlink :: "string \<Rightarrow> ('s, unit) io"
  to_remove_dir :: "string \<Rightarrow> 's world \<Rightarrow> bool \<times> 's world"

fun strip_components :: "nat \<Rightarrow> string \<Rightarrow> string option" where
  "strip_components 0 p = Some p"
| "strip_components (Suc n) p = (case path_parent p of Some d \<Rightarrow> strip_components n d | None \<Rightarrow> None)"

definition prune_stops :: "string \<Rightarrow> string \<Rightarrow> bool" where
  "prune_stops anchor dir \<longleftrightarrow>
     path_components dir = path_components anchor \<or> \<not> prefix (path_components anchor) (path_components dir)"

function prune_loop :: "'s tree_ops \<Rightarrow> string \<Rightarrow> string option \<Rightarrow> 's world \<Rightarrow> 's world" where
  "prune_loop T anchor cur w =
     (case cur of
        None \<Rightarrow> w
      | Some dir \<Rightarrow>
          if prune_stops anchor dir then w
          else (case to_remove_dir T dir w of
                  (True, w1) \<Rightarrow> prune_loop T anchor (path_parent dir) w1
                | (False, w1) \<Rightarrow> w1))"
  by pat_completeness auto
termination
  by (relation "measure (\<lambda>(_, _, cur, _). case cur of None \<Rightarrow> 0 | Some d \<Rightarrow> Suc (length d))")
    (auto dest: path_parent_shorter split: option.splits)

declare prune_loop.simps [simp del]

definition prune_empty_dirs :: "'s tree_ops \<Rightarrow> url \<Rightarrow> 's world \<Rightarrow> 's world" where
  "prune_empty_dirs T src w =
     (let abs = absolute src; n = normal_components (relative src) in
      if n \<le> 1 then w
      else
        (case strip_components n abs of
           None \<Rightarrow> w
         | Some anchor \<Rightarrow> prune_loop T anchor (path_parent abs) w))"

section \<open>Links\<close>

definition is_symlink_path :: "local_view \<Rightarrow> string \<Rightarrow> bool" where
  "is_symlink_path V p = (case lv_symlink_metadata V p of Inr m \<Rightarrow> fm_kind m = SymlinkKind | Inl _ \<Rightarrow> False)"

definition upload_symlink :: "'s tree_ops \<Rightarrow> 's sdk \<Rightarrow> s3 \<Rightarrow> url \<Rightarrow> url \<Rightarrow> options \<Rightarrow> ('s, unit) io" where
  "upload_symlink T C s src dst opts w =
     (case to_read_link T (absolute src) w of
        Inl e \<Rightarrow> (Err (Message (''reading symlink '' @ absolute src @ '': '' @ e)), w)
      | Inr target \<Rightarrow>
          let link_dst = dst\<lparr>url_path := url_path dst @ LINK_SUFFIX\<rparr> in
          if op_dry_run opts then (Ok (), w)
          else put_object_bytes C s link_dst (utf8_lossy target) w)"

definition download_symlink ::
  "'s cmd_env \<Rightarrow> 's tree_ops \<Rightarrow> 's sdk \<Rightarrow> s3 \<Rightarrow> url \<Rightarrow> url \<Rightarrow> options \<Rightarrow> ('s, unit) io" where
  "download_symlink X T C s src dst opts =
     io_bind (get_object_bytes C s src) (\<lambda>body.
       let target = utf8_lossy body;
           link_path = unwrap_or (absolute dst) (strip_suffix (absolute dst) LINK_SUFFIX)
       in if op_dry_run opts then io_return ()
          else
            io_bind (make_parent (ce_os X) link_path) (\<lambda>_ w.
              case to_symlink T target link_path (snd (to_unlink T link_path w)) of
                (Inr _, w1) \<Rightarrow> (Ok (), w1)
              | (Inl e, w1) \<Rightarrow> (Err (Message (''creating symlink '' @ link_path @ '' -> '' @ target @ '': '' @ e)), w1)))"

section \<open>One transfer\<close>

definition and_delete :: "bool \<Rightarrow> 's sdk \<Rightarrow> s3 \<Rightarrow> url \<Rightarrow> ('s, unit) io" where
  "and_delete is_move C s src = (if is_move then s3_delete C s src else io_return ())"

definition and_remove :: "bool \<Rightarrow> env \<Rightarrow> options \<Rightarrow> url \<Rightarrow> ('s, unit) io" where
  "and_remove is_move E opts src = (if is_move \<and> \<not> op_dry_run opts then os_remove E (absolute src) else io_return ())"

text \<open>The two shortcuts of \<^verbatim>\<open>--links\<close>; \<open>None\<close> when neither applies.\<close>

definition link_transfer ::
  "'s cmd_env \<Rightarrow> 's tree_ops \<Rightarrow> ('s sdk \<times> s3) option \<Rightarrow> ('s sdk \<times> s3) option \<Rightarrow> options \<Rightarrow> bool \<Rightarrow> url \<Rightarrow> url
     \<Rightarrow> 's world \<Rightarrow> ((error, unit) result \<times> 's world) option" where
  "link_transfer X T s3 s3_dst opts is_move src dst w =
     (if \<not> is_remote src \<and> is_remote dst \<and> is_symlink_path (ce_view X w) (absolute src) then
        Some (need_client (or_else s3_dst s3) (\<lambda>C s.
          io_bind (upload_symlink T C s src dst opts) (\<lambda>_.
            if is_move \<and> \<not> op_dry_run opts then to_unlink T (absolute src) else io_return ())) w)
      else if is_remote src \<and> \<not> is_remote dst \<and> ends_with (url_path src) LINK_SUFFIX then
        Some (need_client s3 (\<lambda>C s.
          io_bind (download_symlink X T C s src dst opts) (\<lambda>_. and_delete is_move C s src)) w)
      else None)"

definition remote_copy ::
  "'s cmd_env \<Rightarrow> 's sdk \<Rightarrow> s3 \<Rightarrow> ('s sdk \<times> s3) option \<Rightarrow> options \<Rightarrow> metadata \<Rightarrow> url \<Rightarrow> url \<Rightarrow> ('s, unit) io" where
  "remote_copy X C s s3_dst opts md src dst =
     (case s3_dst of
        Some (C2, s2) \<Rightarrow> client_copy_to C C2 (ce_os X) (ce_sched X) (ce_tmp X) s s2 src dst md
      | None \<Rightarrow>
          if op_client_copy opts then client_copy C (ce_os X) (ce_sched X) (ce_tmp X) s src dst md
          else s3_copy C (ce_sched X) s src dst md)"

definition cp_transfer ::
  "'s cmd_env \<Rightarrow> 's tree_ops \<Rightarrow> ('s sdk \<times> s3) option \<Rightarrow> ('s sdk \<times> s3) option \<Rightarrow> options \<Rightarrow> metadata \<Rightarrow> bool
     \<Rightarrow> url \<Rightarrow> url \<Rightarrow> ('s, unit) io" where
  "cp_transfer X T s3 s3_dst opts md is_move src dst =
     (if is_remote src then
        if is_remote dst then
          need_client s3 (\<lambda>C s.
            io_bind (remote_copy X C s s3_dst opts md src dst) (\<lambda>_. and_delete is_move C s src))
        else
          need_client s3 (\<lambda>C s.
            io_bind (s3_download C (ce_os X) (ce_sched X) s src (absolute dst)) (\<lambda>_. and_delete is_move C s src))
      else if is_remote dst then
        need_client (or_else s3_dst s3) (\<lambda>C s.
          io_bind (s3_upload C (ce_os X) (ce_sched X) s (absolute src) dst md) (\<lambda>_.
            if is_move \<and> \<not> op_dry_run opts then
              io_bind (os_remove (ce_os X) (absolute src)) (\<lambda>_ w.
                (Ok (), if op_remove_empty_dirs opts then prune_empty_dirs T src w else w))
            else io_return ()))
      else
        (\<lambda>w. case new_client X src opts of
               Inl e \<Rightarrow> (Err e, w)
             | Inr c \<Rightarrow>
                 io_bind (storage_copy X c src dst md) (\<lambda>_. and_remove is_move (ce_os X) opts src) w))"

definition cp_copy_one ::
  "'s cmd_env \<Rightarrow> 's tree_ops \<Rightarrow> ('s sdk \<times> s3) option \<Rightarrow> ('s sdk \<times> s3) option \<Rightarrow> options \<Rightarrow> metadata \<Rightarrow> bool \<Rightarrow> bool
     \<Rightarrow> url \<times> url \<Rightarrow> ('s, unit) io" where
  "cp_copy_one X T s3 s3_dst opts md is_move links p w =
     (case p of
        (src, dst) \<Rightarrow>
          (case if links then link_transfer X T s3 s3_dst opts is_move src dst w else None of
             Some r \<Rightarrow> r
           | None \<Rightarrow> cp_transfer X T s3 s3_dst opts md is_move src dst w))"

section \<open>A run\<close>

definition cp_report :: "url \<times> url \<Rightarrow> (error, unit) result \<Rightarrow> bool \<Rightarrow> bool" where
  "cp_report p r had_error =
     (case r of
        Inr _ \<Rightarrow> had_error
      | Inl e \<Rightarrow> (case e of PreconditionFailedError _ \<Rightarrow> had_error | _ \<Rightarrow> True))"

definition cp_clients ::
  "'s cmd_env \<Rightarrow> (url \<times> url) list \<Rightarrow> url \<Rightarrow> options \<Rightarrow> (error, ('s sdk \<times> s3) option \<times> ('s sdk \<times> s3) option) result" where
  "cp_clients X pairs dst opts =
     (if list_ex (\<lambda>(s, _). is_remote s) pairs \<or> is_remote dst then
        if sides_differ opts then
          and_then (ce_new_s3 X (for_side opts Source)) (\<lambda>a.
          and_then (ce_new_s3 X (for_side opts Destination)) (\<lambda>b. Ok (Some a, Some b)))
        else and_then (ce_new_s3 X opts) (\<lambda>a. Ok (Some a, None))
      else Ok (None, None))"

definition op_name :: "bool \<Rightarrow> string" where
  "op_name is_move = (if is_move then ''mv'' else ''cp'')"

definition cp_execute ::
  "'s cmd_env \<Rightarrow> 's tree_ops \<Rightarrow> (nat \<Rightarrow> nat) \<Rightarrow> nat \<Rightarrow> ('s sdk \<times> s3) option \<Rightarrow> ('s sdk \<times> s3) option \<Rightarrow> options \<Rightarrow> metadata
     \<Rightarrow> bool \<Rightarrow> bool \<Rightarrow> (url \<times> url) list \<Rightarrow> 's world \<Rightarrow> (error, unit) result \<times> 's world" where
  "cp_execute X T pick workers s3 s3_dst opts md is_move links pairs w =
     (case pool_run (cp_copy_one X T s3 s3_dst opts md is_move links) cp_report pick (\<lambda>_. False) workers pairs False w of
        (had_error, w1) \<Rightarrow>
          (if had_error then Err (Message (''one or more '' @ op_name is_move @ '' operations failed'')) else Ok (), w1))"

definition cp_filters :: "'s cmd_env \<Rightarrow> cp_args \<Rightarrow> 's world \<Rightarrow> (error, filters) result" where
  "cp_filters X args w =
     message_of (and_then (patterns_with_files (read_text X w) (ca_include args) (ca_include_from args)) (\<lambda>inc.
                 and_then (patterns_with_files (read_text X w) (ca_exclude args) (ca_exclude_from args)) (\<lambda>exc.
                   filters_new (ce_regex X) inc exc)))"

text \<open>What is checked before anything is listed.\<close>

definition cp_prepare :: "'s cmd_env \<Rightarrow> cp_args \<Rightarrow> bool \<Rightarrow> 's world \<Rightarrow> (error, url \<times> filters) result" where
  "cp_prepare X args is_move w =
     (if length (ca_paths args) < 2 then
        Err (Message (op_name is_move @ '' requires at least one source and a destination''))
      else
        let dst_raw = last (ca_paths args); src_raws = butlast (ca_paths args) in
        and_then (message_of (url_parse (ce_regex X) dst_raw)) (\<lambda>dst.
          if 1 < length src_raws \<and> \<not> dest_is_dir_like (ce_view X w) dst then
            Err (Message (op_name is_move @ '': destination '' @ dst_raw
              @ '' must be a directory or s3 prefix when copying multiple sources''))
          else if 1 < length src_raws \<and> (ca_version_id args \<noteq> None \<or> ca_all_versions args) then
            Err (Message ''--version-id/--all-versions require exactly one source'')
          else and_then (cp_filters X args w) (\<lambda>fl. Ok (dst, fl))))"

definition cp_run ::
  "'s cmd_env \<Rightarrow> 's tree_ops \<Rightarrow> (nat \<Rightarrow> nat) \<Rightarrow> nat \<Rightarrow> options \<Rightarrow> cp_args \<Rightarrow> bool \<Rightarrow> 's world
     \<Rightarrow> ((error, unit) result \<times> 's world) option" where
  "cp_run X T pick numworkers global args is_move w =
     (let opts = cp_options global args;
          uo = default_url_options\<lparr>uo_version_id := ca_version_id args, uo_all_versions := ca_all_versions args\<rparr>
      in case cp_prepare X args is_move w of
           Inl e \<Rightarrow> Some (Err e, w)
         | Inr (dst, fl) \<Rightarrow>
             (case expand_all X uo dst opts (ca_follow_symlinks args) fl (butlast (ca_paths args)) w of
                None \<Rightarrow> None
              | Some (Inl e, w1) \<Rightarrow> Some (Err e, w1)
              | Some (Inr pairs, w1) \<Rightarrow>
                  (case cp_clients X pairs dst opts of
                     Inl e \<Rightarrow> Some (Err e, w1)
                   | Inr (s3, s3_dst) \<Rightarrow>
                       Some (cp_execute X T pick (max numworkers 1) s3 s3_dst opts (cp_metadata args) is_move
                         (ca_links args) pairs w1))))"

end
