(* ===== verification/Cp_Props.thy ===== *)
theory Cp_Props
  imports Cp Vfs_Props
begin

text \<open>
  What \<^verbatim>\<open>cp\<close> and \<^verbatim>\<open>mv\<close> do to objects and files: whatever fails and whenever, a move leaves the bytes in
  one of the two places; the moves that lose them; the directories a move may remove.
\<close>

section \<open>Operations that leave an observation alone\<close>

definition io_keeps :: "('s world \<Rightarrow> 'o) \<Rightarrow> ('s, 'a) io \<Rightarrow> bool" where
  "io_keeps obs m \<longleftrightarrow> (\<forall>w r w'. m w = (r, w') \<longrightarrow> obs w' = obs w)"

lemma io_keepsD: "io_keeps obs m \<Longrightarrow> m w = (r, w') \<Longrightarrow> obs w' = obs w"
  unfolding io_keeps_def by blast

lemma io_keeps_basic [intro!]: "io_keeps obs (io_return x)" "io_keeps obs (\<lambda>w. (r, w))" "io_keeps obs (need_upload_id u)"
  by (auto simp: io_keeps_def io_return_def need_upload_id_def split: option.splits)

lemma io_keeps_bind [intro!]: "io_keeps obs m \<Longrightarrow> (\<And>x. io_keeps obs (f x)) \<Longrightarrow> io_keeps obs (io_bind m f)"
  unfolding io_keeps_def io_bind_def by (fastforce split: prod.splits sum.splits)

lemma io_keeps_if [intro!]: "io_keeps obs m \<Longrightarrow> io_keeps obs k \<Longrightarrow> io_keeps obs (if b then m else k)"
  by simp

lemma io_keeps_if_world [intro!]: "io_keeps obs m \<Longrightarrow> io_keeps obs k \<Longrightarrow> io_keeps obs (\<lambda>w. if b then m w else k w)"
  by (cases b) simp_all

lemma io_keeps_call [intro!]: "io_keeps obs act \<Longrightarrow> io_keeps obs (os_call E op p act)"
  by (auto simp: io_keeps_def os_call_def split: option.splits)

lemma io_keeps_join_all [intro!]:
  assumes "\<And>t. t \<in> set ts \<Longrightarrow> io_keeps obs t"
  shows "io_keeps obs (join_all ts)"
proof -
  have "obs w' = obs w" if "run_tasks ts w = (rs, w')" for rs w w'
    using that assms
  proof (induction ts arbitrary: w rs)
    case (Cons t ts)
    obtain r w1 rs1 where "t w = (r, w1)" "run_tasks ts w1 = (rs1, w')"
      using Cons.prems(1) by (auto split: prod.splits)
    with Cons.IH [of w1 rs1] Cons.prems(2) show ?case by (metis io_keepsD list.set_intros)
  qed simp
  then show ?thesis by (auto simp: io_keeps_def join_all_def split: prod.splits)
qed

text \<open>Observations of the service are not changed by the local operations.\<close>

lemma io_keeps_local [intro!]:
  fixes obs :: "'s \<Rightarrow> 'o"
  shows "io_keeps (\<lambda>w. obs (w_s3 w)) (os_read E p)" "io_keeps (\<lambda>w. obs (w_s3 w)) (os_len E p)"
    "io_keeps (\<lambda>w. obs (w_s3 w)) (os_update E op p f)" "io_keeps (\<lambda>w. obs (w_s3 w)) (os_open_truncate E p)"
    "io_keeps (\<lambda>w. obs (w_s3 w)) (os_remove E p)" "io_keeps (\<lambda>w. obs (w_s3 w)) (make_parent E p)"
    "io_keeps (\<lambda>w. obs (w_s3 w)) (os_copy E p q)" "io_keeps (\<lambda>w. obs (w_s3 w)) (os_read_exact E p i n)"
  by (auto simp: os_read_def os_len_def os_update_def os_open_truncate_def os_remove_def make_parent_def os_copy_def
      os_read_exact_def io_keeps_def os_call_def io_bind_def io_return_def split: option.splits prod.splits sum.splits if_splits)

lemma io_keeps_send:
  fixes obs :: "'s \<Rightarrow> 'o"
  assumes "\<And>s r s'. req s = (r, s') \<Longrightarrow> obs s' = obs s"
  shows "io_keeps (\<lambda>w. obs (w_s3 w)) (send_try req)"
  using assms by (auto simp: io_keeps_def send_try_def send_def split: prod.splits sum.splits)

lemma io_keeps_conditional:
  fixes obs :: "'s \<Rightarrow> 'o"
  assumes "\<And>s r s'. req s = (r, s') \<Longrightarrow> obs s' = obs s"
  shows "io_keeps (\<lambda>w. obs (w_s3 w)) (conditional_send req dst)"
  using assms by (auto simp: io_keeps_def conditional_send_def send_def split: prod.splits sum.splits)

lemma io_keeps_case_send:
  fixes obs :: "'s \<Rightarrow> 'o"
  assumes "\<And>s r s'. req s = (r, s') \<Longrightarrow> obs s' = obs s"
    and "\<And>e. io_keeps (\<lambda>w. obs (w_s3 w)) (g e)" "\<And>x. io_keeps (\<lambda>w. obs (w_s3 w)) (h x)"
  shows "io_keeps (\<lambda>w. obs (w_s3 w)) (\<lambda>w. case send req w of (Inl e, w1) \<Rightarrow> g e w1 | (Inr x, w1) \<Rightarrow> h x w1)"
  using assms by (fastforce simp: io_keeps_def send_def split: prod.splits sum.splits)

lemma io_keeps_multipart:
  fixes obs :: "'s \<Rightarrow> 'o"
  assumes "\<And>s r s'. sdk_abort_mpu C (dst_ref st dst) uid s = (r, s') \<Longrightarrow> obs s' = obs s"
    and "io_keeps (\<lambda>w. obs (w_s3 w)) fill" "\<And>ps. io_keeps (\<lambda>w. obs (w_s3 w)) (complete ps)"
  shows "io_keeps (\<lambda>w. obs (w_s3 w)) (finish_multipart C st dst uid fill complete)"
proof -
  have "obs (w_s3 w') = obs (w_s3 w)" if f: "finish_multipart C st dst uid fill complete w = (r, w')" for w r w'
  proof -
    obtain r1 w1 where 1: "fill w = (r1, w1)" by fastforce
    obtain r2 s2 where 2: "sdk_abort_mpu C (dst_ref st dst) uid (w_s3 w1) = (r2, s2)" by fastforce
    show ?thesis
      using f 1 2 io_keepsD [OF assms(2) 1] io_keepsD [OF assms(3)] assms(1) [OF 2]
      by (auto simp: finish_multipart_def send_def split: sum.splits)
  qed
  then show ?thesis unfolding io_keeps_def by blast
qed

section \<open>A service whose requests touch the object they name\<close>

locale framed_service = deleting_service +
  assumes put_frame: "sdk_put C req s = (pr, s') \<Longrightarrow> l \<noteq> loc (pr_ref req) \<Longrightarrow> contents s' l = contents s l"
    and create_frame: "sdk_create_mpu C creq s = (cr, s') \<Longrightarrow> contents s' = contents s"
    and part_copy_frame: "sdk_upload_part_copy C r uid n source h s = (cr, s') \<Longrightarrow> contents s' = contents s"
    and complete_frame: "sdk_complete_mpu C r uid parts cond s = (pr, s') \<Longrightarrow> l \<noteq> loc r \<Longrightarrow> contents s' l = contents s l"
    and abort_frame: "sdk_abort_mpu C r uid s = (pr, s') \<Longrightarrow> contents s' = contents s"
    and copy_frame: "sdk_copy C yreq s = (pr, s') \<Longrightarrow> l \<noteq> loc (cy_ref yreq) \<Longrightarrow> contents s' l = contents s l"
    and delete_frame: "sdk_delete C r s = (pr, s') \<Longrightarrow> l \<noteq> loc r \<Longrightarrow> contents s' l = contents s l"
begin

lemma head_keeps:
  "io_keeps (\<lambda>w. contents (w_s3 w)) (head_size C st u)" "io_keeps (\<lambda>w. contents (w_s3 w)) (head_content_type C st u)"
  unfolding head_size_def head_content_type_def
  by (auto intro!: io_keeps_send dest: head_ok)

lemma download_keeps: "io_keeps (\<lambda>w. contents (w_s3 w)) (s3_download C E sched st src p)"
proof -
  let ?k = "\<lambda>w. contents (w_s3 w)"
  have get: "io_keeps ?k (send_try (sdk_get C r h))" for r h
    by (rule io_keeps_send) (use get_frame in blast)
  have part: "io_keeps ?k (download_part C E st src p tot ps i)" for tot ps i
    unfolding download_part_def Let_def using get by (auto split: sum.splits)
  have rest: "io_keeps ?k (download_remaining_parts C E sched st src p tot ps)" for tot ps
    unfolding download_remaining_parts_def Let_def using part by auto
  have single: "io_keeps ?k (download_single C E st src p)"
    unfolding download_single_def s3_read_def using get by (auto split: option.splits)
  have mt: "io_keeps ?k (\<lambda>w2. case x of None \<Rightarrow> (Ok (), w2) | Some v \<Rightarrow> (Ok (), snd (set_file_mtime_from_value E p v w2)))" for x
    by (auto simp: io_keeps_def set_mtime_frame split: option.splits)
  have tail: "io_keeps ?k (store_download C E sched st src p tot first x)" for tot first x
    unfolding store_download_def using rest mt by auto
  have "io_keeps ?k (\<lambda>w. case y of Inl e \<Rightarrow> (Err (SdkError e), w) | Inr f \<Rightarrow> store_download C E sched st src p tot f x w)" for y tot x
    by (cases y) (use tail in auto)
  then show ?thesis
    unfolding s3_download_def Let_def using single
    by (auto intro!: io_keeps_case_send dest: get_frame)
qed

lemma multipart_requests_keep:
  fixes l :: location
  defines "k \<equiv> \<lambda>w. contents (w_s3 w) l"
  shows "io_keeps k (send_try (sdk_create_mpu C creq))" "io_keeps k (send_try (sdk_upload_part C r uid n body))"
    "io_keeps k (send_try (sdk_upload_part_copy C r uid n source h))"
  unfolding k_def
  by (rule io_keeps_send; use create_frame part_frame part_copy_frame in metis)+

lemma loc_dst_ref: "loc (dst_ref st u) = url_loc u" "loc (src_ref st u) = url_loc u"
  by (simp_all add: dst_ref_def src_ref_def loc_def url_loc_def)

lemma finish_keeps:
  assumes "io_keeps (\<lambda>w. contents (w_s3 w) l) fill" "\<And>ps. io_keeps (\<lambda>w. contents (w_s3 w) l) (complete ps)"
  shows "io_keeps (\<lambda>w. contents (w_s3 w) l) (finish_multipart C st dst uid fill complete)"
  by (rule io_keeps_multipart [OF _ assms]) (use abort_frame in metis)

lemma complete_keeps:
  assumes "l \<noteq> url_loc dst"
  shows "io_keeps (\<lambda>w. contents (w_s3 w) l) (send_try (sdk_complete_mpu C (dst_ref st dst) uid ps b))"
    "io_keeps (\<lambda>w. contents (w_s3 w) l) (conditional_send (sdk_complete_mpu C (dst_ref st dst) uid ps b) dst')"
proof -
  have f: "contents s' l = contents s l" if "sdk_complete_mpu C (dst_ref st dst) uid ps b s = (r, s')" for s r s'
    using complete_frame [OF that] assms by (simp add: loc_dst_ref)
  show "io_keeps (\<lambda>w. contents (w_s3 w) l) (send_try (sdk_complete_mpu C (dst_ref st dst) uid ps b))"
    "io_keeps (\<lambda>w. contents (w_s3 w) l) (conditional_send (sdk_complete_mpu C (dst_ref st dst) uid ps b) dst')"
    by (rule io_keeps_send [OF f], assumption, rule io_keeps_conditional [OF f])
qed

lemma upload_keeps:
  assumes "l \<noteq> url_loc dst"
  shows "io_keeps (\<lambda>w. contents (w_s3 w) l) (s3_upload C E sched st src dst md)"
proof -
  let ?k = "\<lambda>w. contents (w_s3 w) l"
  have ref: "pr_ref (apply_put_metadata md q\<lparr>pr_if_none_match := b\<rparr>) = pr_ref q" for q b md
    by (simp add: apply_put_metadata_def)
  have single: "io_keeps ?k (upload_single C E st src dst md)" for md
    unfolding upload_single_def Let_def
    by (auto intro!: io_keeps_conditional put_frame simp: ref plain_put_def loc_dst_ref assms)
  have part: "io_keeps ?k (upload_one_part C E st src dst uid sz ps i)" for uid sz ps i
    unfolding upload_one_part_def Let_def using multipart_requests_keep(2) [of l] by auto
  have parts: "io_keeps ?k (upload_parts C E sched st src dst uid sz)" for uid sz
    unfolding upload_parts_def Let_def using part by auto
  have multi: "io_keeps ?k (upload_multipart C E sched st src dst md sz)" for md sz
    unfolding upload_multipart_def Let_def using parts multipart_requests_keep(1) [of l] complete_keeps(2) [OF assms]
    by (auto intro!: finish_keeps)
  have "io_keeps ?k (\<lambda>w. (if sz \<le> ps then upload_single C E st src dst (g w) else upload_multipart C E sched st src dst (g w) sz) w)"
    for g :: "_ \<Rightarrow> metadata" and sz ps
    using single multi unfolding io_keeps_def by (auto split: if_splits)
  then show ?thesis unfolding s3_upload_def Let_def by auto
qed

lemma copy_keeps:
  assumes "l \<noteq> url_loc dst"
  shows "io_keeps (\<lambda>w. contents (w_s3 w) l) (s3_copy C sched st src dst md)"
proof -
  let ?k = "\<lambda>w. contents (w_s3 w) l"
  have hk: "contents (w_s3 w1) = contents (w_s3 w)" if "head_size C st u w = (r, w1)" for u w r w1
    using io_keepsD [OF head_keeps(1) that] .
  have ck: "contents (w_s3 w1) = contents (w_s3 w)" if "head_content_type C st u w = (r, w1)" for u w r w1
    using io_keepsD [OF head_keeps(2) that] .
  have head: "io_keeps ?k (head_size C st src)" using hk by (auto simp: io_keeps_def)
  have send: "io_keeps ?k (send_try (sdk_copy C q))" if "cy_ref q = dst_ref st dst" for q
    by (intro io_keeps_send copy_frame) (auto simp: that loc_dst_ref assms)
  have single: "io_keeps ?k (copy_object_single C st src dst md)"
  proof -
    have "?k w' = ?k w" if c: "copy_object_single C st src dst md w = (r, w')" for w r w'
    proof -
      obtain h w1 where h: "head_size C st dst w = (h, w1)" by fastforce
      show ?thesis
        using c h hk [OF h] by (auto simp: copy_object_single_def Let_def dest!: io_keepsD [OF send, rotated] split: if_splits)
    qed
    then show ?thesis unfolding io_keeps_def by blast
  qed
  have part: "io_keeps ?k (copy_one_part C st cs dst uid sz ps i)" for cs uid sz ps i
    unfolding copy_one_part_def Let_def using multipart_requests_keep(3) [of l] by auto
  have parts: "io_keeps ?k (copy_parts C sched st cs dst uid sz)" for cs uid sz
    unfolding copy_parts_def Let_def using part by auto
  have body: "io_keeps ?k (io_bind (send_try (sdk_create_mpu C q)) (\<lambda>created. io_bind (need_upload_id created) (\<lambda>uid.
      finish_multipart C st dst uid (copy_parts C sched st cs dst uid sz)
        (\<lambda>ps. send_try (sdk_complete_mpu C (dst_ref st dst) uid ps False)))))" for q cs sz
    using parts multipart_requests_keep(1) [of l] complete_keeps(1) [OF assms]
    by (auto intro!: finish_keeps)
  have multi: "io_keeps ?k (copy_multipart C sched st src dst md sz)" for sz
    unfolding copy_multipart_def io_keeps_def Let_def
    by (auto dest!: io_keepsD [OF body] ck split: option.splits prod.splits sum.splits)
  have fall: "io_keeps ?k (copy_falling_back C sched st src dst md)"
    unfolding copy_falling_back_def io_keeps_def
  proof (intro allI impI)
    fix w r w'
    assume a: "(case copy_object_single C st src dst md w of (Inl e, w1) \<Rightarrow>
        if is_copy_source_too_large e then io_bind (head_size C st src) (copy_multipart C sched st src dst md) w1 else (Err e, w1)
      | (Inr _, w1) \<Rightarrow> (Ok (), w1)) = (r, w')"
    obtain r1 w1 where 1: "copy_object_single C st src dst md w = (r1, w1)" by fastforce
    have "io_keeps ?k (io_bind (head_size C st src) (copy_multipart C sched st src dst md))" using head multi by auto
    from io_keepsD [OF this] io_keepsD [OF single 1] a 1 show "?k w' = ?k w" by (auto split: sum.splits if_splits)
  qed
  show ?thesis unfolding s3_copy_def using fall multi head by (auto simp: io_keeps_def [of _ "\<lambda>w. (_, w)"])
qed

lemma delete_keeps: "l \<noteq> url_loc u \<Longrightarrow> io_keeps (\<lambda>w. contents (w_s3 w) l) (s3_delete C st u)"
  unfolding s3_delete_def by (auto intro!: io_keeps_send delete_frame simp: loc_dst_ref)

end

interpretation mem_framed: framed_service memory_sdk mem_contents mem_uploads
  by unfold_locales (auto simp: mem_defs mem_delete_def mem_contents_def delete_conv' update_conv' Let_def
      split: option.splits prod.splits if_splits)

section \<open>Moves\<close>

text \<open>Where a URL points, and what is there.\<close>

definition place :: "url \<Rightarrow> location + string" where
  "place u = (if is_remote u then Inl (url_loc u) else Inr (absolute u))"

definition held :: "('s \<Rightarrow> location \<Rightarrow> string option) \<Rightarrow> 's world \<Rightarrow> location + string \<Rightarrow> string option" where
  "held contents w p = (case p of Inl l \<Rightarrow> contents (w_s3 w) l | Inr f \<Rightarrow> w_files w f)"

lemma held_simps [simp]: "held contents w (Inl l) = contents (w_s3 w) l" "held contents w (Inr f) = w_files w f"
  by (simp_all add: held_def)

text \<open>The bytes are in one of the two places, and after a success in the second alone.\<close>

definition moved ::
  "('s \<Rightarrow> location \<Rightarrow> string option) \<Rightarrow> location + string \<Rightarrow> location + string \<Rightarrow> string \<Rightarrow> (error, unit) result \<Rightarrow> 's world \<Rightarrow> bool" where
  "moved contents p q obj r w \<longleftrightarrow> (held contents w p = Some obj \<or> held contents w q = Some obj) \<and>
     (r = Inr () \<longrightarrow> held contents w q = Some obj \<and> held contents w p = None)"

lemma io_bind_cases:
  assumes "io_bind m f w = (r, w')"
  obtains e where "m w = (Inl e, w')" "r = Inl e" | x w1 where "m w = (Inr x, w1)" "f x w1 = (r, w')"
  using assms by (auto simp: io_bind_def split: prod.splits sum.splits)

lemma os_remove_cases:
  assumes "os_remove E f w = (r, w')"
  shows "w_s3 w' = w_s3 w \<and> (\<forall>g. g \<noteq> f \<longrightarrow> w_files w' g = w_files w g) \<and> (r = Inr () \<longrightarrow> w_files w' f = None) \<and>
    (r \<noteq> Inr () \<longrightarrow> w' = w)"
  using assms by (auto simp: os_remove_def os_call_def split: option.splits)

lemma moved_local:
  assumes run: "io_bind act (\<lambda>_. os_remove E f) w = (r, w')" and keep: "\<And>r1 w1. act w = (r1, w1) \<Longrightarrow> w_files w1 f = w_files w f"
    and ok: "\<And>x w1. act w = (Inr x, w1) \<Longrightarrow> held contents w1 q = Some obj" and q: "q \<noteq> Inr f" and f: "w_files w f = Some obj"
  shows "moved contents (Inr f) q obj r w'"
  using run
proof (cases rule: io_bind_cases)
  case (1 e)
  then show ?thesis using keep f by (simp add: moved_def)
next
  case (2 x w1)
  have "held contents w' q = held contents w1 q"
    using os_remove_cases [OF 2(2)] q by (auto simp: held_def split: sum.splits)
  then show ?thesis using ok [OF 2(1)] os_remove_cases [OF 2(2)] by (simp add: moved_def)
qed

text \<open>Removing an empty directory changes no file and no object.\<close>

definition dir_removal_ok :: "'s tree_ops \<Rightarrow> bool" where
  "dir_removal_ok T \<longleftrightarrow> (\<forall>d w. w_s3 (snd (to_remove_dir T d w)) = w_s3 w \<and> w_files (snd (to_remove_dir T d w)) = w_files w)"

lemma prune_loop_frame:
  "dir_removal_ok T \<Longrightarrow> w_s3 (prune_loop T a cur w) = w_s3 w \<and> w_files (prune_loop T a cur w) = w_files w"
proof (induction T a cur w rule: prune_loop.induct)
  case (1 T a cur w)
  show ?case
  proof (cases cur)
    case None
    then show ?thesis by (simp add: prune_loop.simps)
  next
    case (Some d)
    obtain ok w1 where r: "to_remove_dir T d w = (ok, w1)" by fastforce
    have "w_s3 w1 = w_s3 w \<and> w_files w1 = w_files w" using "1.prems" r unfolding dir_removal_ok_def by (metis snd_conv)
    with 1 Some r show ?thesis by (cases ok) (simp_all add: prune_loop.simps [of T a "Some d"])
  qed
qed

lemma prune_frame:
  "dir_removal_ok T \<Longrightarrow> w_s3 (prune_empty_dirs T u w) = w_s3 w \<and> w_files (prune_empty_dirs T u w) = w_files w"
  by (simp add: prune_empty_dirs_def Let_def prune_loop_frame split: option.splits)

lemma upload_meta_for_frame:
  "upload_meta_for C st src md w = (md1, w1) \<Longrightarrow> w_files w1 = w_files w"
  by (auto simp: upload_meta_for_def dest: io_quietD [OF head_quiet(2)] split: if_splits sum.splits prod.splits)

context framed_service
begin

lemma moved_remote:
  assumes run: "io_bind act (\<lambda>_. s3_delete C st src) w = (r, w')" and st: "\<not> s3_dry_run st" "url_version_id src = []"
    and keep: "\<And>r1 w1. act w = (r1, w1) \<Longrightarrow> contents (w_s3 w1) (url_loc src) = contents (w_s3 w) (url_loc src)"
    and ok: "\<And>x w1. act w = (Inr x, w1) \<Longrightarrow> held contents w1 q = Some obj" and q: "q \<noteq> Inl (url_loc src)"
    and obj: "contents (w_s3 w) (url_loc src) = Some obj"
  shows "moved contents (Inl (url_loc src)) q obj r w'"
  using run
proof (cases rule: io_bind_cases)
  case (1 e)
  then show ?thesis using keep obj by (simp add: moved_def)
next
  case (2 x w1)
  have "held contents w' q = held contents w1 q"
    using io_quietD [OF delete_quiet 2(2)] io_keepsD [OF delete_keeps 2(2)] q by (auto simp: held_def split: sum.splits)
  moreover have "contents (w_s3 w') (url_loc src) = None" if "r = Inr ()"
    using delete_ok [OF _ st] 2(2) that by simp
  ultimately show ?thesis using ok [OF 2(1)] by (simp add: moved_def)
qed

lemma upload_meta_for_keeps: "upload_meta_for C st src md w = (md1, w1) \<Longrightarrow> contents (w_s3 w1) = contents (w_s3 w)"
  by (auto simp: upload_meta_for_def dest: io_keepsD [OF head_keeps(2)] split: if_splits sum.splits prod.splits)

lemma client_copy_keeps:
  assumes "client_copy C E sched tmp st src dst md w = (r, w')" "l \<noteq> url_loc dst"
  shows "contents (w_s3 w') l = contents (w_s3 w) l"
proof (cases "s3_dry_run st")
  case False
  obtain r1 w1 where d: "s3_download C E sched st src tmp w = (r1, w1)" by fastforce
  obtain md2 w2 where m: "upload_meta_for C st src md w1 = (md2, w2)" by fastforce
  obtain r3 w3 where u: "s3_upload C E sched st tmp dst md2 w2 = (r3, w3)" by fastforce
  have "w_s3 (snd (os_remove E tmp w3)) = w_s3 w3" using os_remove_cases [of E tmp w3] by (metis prod.collapse)
  with assms(1) False d m u io_keepsD [OF download_keeps d] upload_meta_for_keeps [OF m] io_keepsD [OF upload_keeps [OF assms(2)] u]
  show ?thesis by (auto simp: client_copy_def io_bind_def split: sum.splits)
qed (use assms in \<open>simp add: client_copy_def\<close>)

lemma client_copy_ok:
  assumes cp: "client_copy C E sched tmp st src dst md w = (Inr x, w')" and st: "\<not> s3_dry_run st" "url_version_id src = []" "0 < s3_part_size st"
    and perm: "\<And>xs. mset (sched xs) = mset xs"
    and lim: "\<And>f. contents (w_s3 w) (url_loc src) = Some f \<Longrightarrow> length f + s3_part_size st < u64_lim \<and> div_ceil (length f) (s3_part_size st) < 2 ^ 31"
  shows "\<exists>obj. contents (w_s3 w) (url_loc src) = Some obj \<and> contents (w_s3 w') = (contents (w_s3 w))(url_loc dst \<mapsto> obj)"
proof -
  obtain y w1 where d: "s3_download C E sched st src tmp w = (Inr y, w1)"
    and rest: "(case upload_meta_for C st src md w1 of (md2, w2) \<Rightarrow>
      case s3_upload C E sched st tmp dst md2 w2 of (r, w3) \<Rightarrow> (r, snd (os_remove E tmp w3))) = (Inr x, w')"
    using cp st(1) by (auto simp: client_copy_def io_bind_Ok)
  obtain md2 w2 where m: "upload_meta_for C st src md w1 = (md2, w2)" by fastforce
  obtain w3 where u: "s3_upload C E sched st tmp dst md2 w2 = (Inr x, w3)" and w': "w' = snd (os_remove E tmp w3)"
    using rest m by (auto split: prod.splits)
  obtain obj where o: "contents (w_s3 w) (url_loc src) = Some obj" "w_files w1 = (w_files w)(tmp \<mapsto> obj)"
    "contents (w_s3 w1) = contents (w_s3 w)"
    using download_ok [OF d st perm] lim by blast
  have f: "w_files w2 tmp = Some obj" "contents (w_s3 w2) = contents (w_s3 w)"
    using upload_meta_for_frame [OF m] upload_meta_for_keeps [OF m] o by simp_all
  have "contents (w_s3 w3) = (contents (w_s3 w))(url_loc dst \<mapsto> obj)"
    using upload_ok [OF u st(1) f(1) st(3) _ _ perm] lim [OF o(1)] f(2) by simp
  moreover have "w_s3 w' = w_s3 w3" unfolding w' using os_remove_cases [of E tmp w3] by (metis prod.collapse)
  ultimately show ?thesis using o(1) by simp
qed

end

lemma os_copy_frame: "os_copy E p q w = (r, w') \<Longrightarrow> f \<noteq> q \<Longrightarrow> w_files w' f = w_files w f"
  by (auto simp: os_copy_def io_bind_def os_read_def os_open_truncate_def os_update_def os_call_def
      split: option.splits prod.splits sum.splits)

lemma fs_copy_frame: "fs_copy E dry src dst md w = (r, w') \<Longrightarrow> f \<noteq> absolute dst \<Longrightarrow> w_files w' f = w_files w f"
  by (auto simp: fs_copy_def Let_def io_bind_def os_call_def io_return_def dest: os_copy_frame
      split: if_splits option.splits prod.splits sum.splits)

lemma fs_copy_ok:
  "fs_copy E False src dst md w = (Inr x, w') \<Longrightarrow> \<exists>f. w_files w (absolute src) = Some f \<and>
     w_files w' = (w_files w)(absolute dst \<mapsto> (if absolute src = absolute dst then [] else f)) \<and> w_s3 w' = w_s3 w"
  by (auto simp: fs_copy_def Let_def io_bind_Ok os_call_Ok dest!: os_copy_Ok split: if_splits)

text \<open>The sizes a transfer of \<open>obj\<close> can handle.\<close>

definition transferable :: "s3 \<Rightarrow> string \<Rightarrow> bool" where
  "transferable s obj \<longleftrightarrow> length obj < 2 ^ 63 \<and> length obj + s3_part_size s < u64_lim \<and>
     div_ceil (length obj) (s3_part_size s) < 2 ^ 31"

definition move_source_ok :: "url \<Rightarrow> bool" where
  "move_source_ok u \<longleftrightarrow> is_remote u \<longrightarrow> copy_source_ok u"

context framed_service
begin

lemma move_remote_remote:
  assumes run: "io_bind (remote_copy X C st None opts md src dst) (\<lambda>_. s3_delete C st src) w = (r, w')"
    and st: "\<not> s3_dry_run st" "0 < s3_part_size st" "\<And>xs. mset (ce_sched X xs) = mset xs"
    and src: "copy_source_ok src" and ne: "url_loc src \<noteq> url_loc dst"
    and obj: "contents (w_s3 w) (url_loc src) = Some obj" "transferable st obj"
  shows "moved contents (Inl (url_loc src)) (Inl (url_loc dst)) obj r w'"
proof (rule moved_remote [OF run st(1) _ _ _ _ obj(1)])
  show v: "url_version_id src = []" using src by (simp add: copy_source_ok_def)
  show "contents (w_s3 w1) (url_loc src) = contents (w_s3 w) (url_loc src)" if "remote_copy X C st None opts md src dst w = (r1, w1)" for r1 w1
    using that io_keepsD [OF copy_keeps [OF ne]] client_copy_keeps [OF _ ne] by (auto simp: remote_copy_def split: if_splits)
  show "held contents w1 (Inl (url_loc dst)) = Some obj" if "remote_copy X C st None opts md src dst w = (Inr x, w1)" for x w1
  proof (cases "op_client_copy opts")
    case True
    with that have "client_copy C (ce_os X) (ce_sched X) (ce_tmp X) st src dst md w = (Inr x, w1)" by (simp add: remote_copy_def)
    from client_copy_ok [OF this st(1) v st(2,3)] obj show ?thesis by (auto simp: transferable_def)
  next
    case False
    with that have "s3_copy C (ce_sched X) st src dst md w = (Inr x, w1)" by (simp add: remote_copy_def)
    from copy_exact [OF this st(1) src st(2) _ st(3)] obj show ?thesis by (auto simp: transferable_def)
  qed
qed (use ne in simp)

lemma move_download:
  assumes run: "io_bind (s3_download C E sched st src f) (\<lambda>_. s3_delete C st src) w = (r, w')"
    and st: "\<not> s3_dry_run st" "0 < s3_part_size st" "\<And>xs. mset (sched xs) = mset xs" and v: "url_version_id src = []"
    and obj: "contents (w_s3 w) (url_loc src) = Some obj" "transferable st obj"
  shows "moved contents (Inl (url_loc src)) (Inr f) obj r w'"
proof (rule moved_remote [OF run st(1) v _ _ _ obj(1)])
  show "contents (w_s3 w1) (url_loc src) = contents (w_s3 w) (url_loc src)" if "s3_download C E sched st src f w = (r1, w1)" for r1 w1
    using io_keepsD [OF download_keeps that] by simp
  show "held contents w1 (Inr f) = Some obj" if "s3_download C E sched st src f w = (Inr x, w1)" for x w1
    using download_ok [OF that st(1) v st(2,3)] obj by (auto simp: transferable_def)
qed simp

lemma move_upload:
  assumes run: "io_bind (s3_upload C E sched st f dst md) (\<lambda>_. os_remove E f) w = (r, w')"
    and st: "\<not> s3_dry_run st" "0 < s3_part_size st" "\<And>xs. mset (sched xs) = mset xs"
    and obj: "w_files w f = Some obj" "transferable st obj"
  shows "moved contents (Inr f) (Inl (url_loc dst)) obj r w'"
proof (rule moved_local [OF run _ _ _ obj(1)])
  show "w_files w1 f = w_files w f" if "s3_upload C E sched st f dst md w = (r1, w1)" for r1 w1
    using io_quietD [OF upload_quiet that] by simp
  show "held contents w1 (Inl (url_loc dst)) = Some obj" if "s3_upload C E sched st f dst md w = (Inr x, w1)" for x w1
    using upload_ok [OF that st(1) obj(1) st(2) _ _ st(3)] obj(2) by (simp add: transferable_def)
qed simp

end

lemma move_local:
  assumes run: "io_bind (fs_copy E False src dst md) (\<lambda>_. os_remove E (absolute src)) w = (r, w')"
    and ne: "absolute src \<noteq> absolute dst" and obj: "w_files w (absolute src) = Some obj"
  shows "moved contents (Inr (absolute src)) (Inr (absolute dst)) obj r w'"
proof (rule moved_local [OF run _ _ _ obj])
  show "w_files w1 (absolute src) = w_files w (absolute src)" if "fs_copy E False src dst md w = (r1, w1)" for r1 w1
    using fs_copy_frame [OF that] ne by simp
  show "held contents w1 (Inr (absolute dst)) = Some obj" if "fs_copy E False src dst md w = (Inr x, w1)" for x w1
    using fs_copy_ok [OF that] ne obj by auto
qed (use ne in simp)

lemma moved_same_world: "moved contents p q obj r w \<Longrightarrow> w_s3 w' = w_s3 w \<Longrightarrow> w_files w' = w_files w \<Longrightarrow> moved contents p q obj r w'"
proof -
  assume a: "moved contents p q obj r w" and w: "w_s3 w' = w_s3 w" "w_files w' = w_files w"
  have "held contents w' x = held contents w x" for x by (cases x) (simp_all add: w)
  with a show ?thesis by (simp add: moved_def)
qed

text \<open>The removal with its pruning: the same as the removal, in another directory tree.\<close>

lemma pruned_run:
  assumes "io_bind act (\<lambda>_. io_bind (os_remove E f) (\<lambda>_ w. (Ok (), if b then prune_empty_dirs T u w else w))) w = (r, w')" "dir_removal_ok T"
  shows "\<exists>w2. io_bind act (\<lambda>_. os_remove E f) w = (r, w2) \<and> w_s3 w' = w_s3 w2 \<and> w_files w' = w_files w2"
  using assms(1) prune_frame [OF assms(2)] by (auto simp: io_bind_def split: prod.splits sum.splits if_splits)

text \<open>
  C3. A move never loses the bytes: whatever request, read or write of it fails, and whether the
  two places are objects or local files, afterwards the bytes of the source are still at the
  source or already at the destination; and after a success they are at the destination and the
  source is gone. The two places must be different.
\<close>

theorem mv_never_loses_bytes:
  assumes S: "framed_service C contents uploads"
    and run: "cp_copy_one X T (Some (C, s)) None opts md True False (src, dst) w = (r, w')"
    and s: "\<not> s3_dry_run s" "\<not> op_dry_run opts" "0 < s3_part_size s" "\<And>xs. mset (ce_sched X xs) = mset xs" "dir_removal_ok T"
    and src: "move_source_ok src" and ne: "place src \<noteq> place dst"
    and obj: "held contents w (place src) = Some obj" "transferable s obj"
  shows "moved contents (place src) (place dst) obj r w'"
proof -
  have run: "cp_transfer X T (Some (C, s)) None opts md True src dst w = (r, w')" using run by (simp add: cp_copy_one_def)
  have v: "url_version_id src = []" "copy_source_ok src" if "is_remote src"
    using src that by (simp_all add: move_source_ok_def copy_source_ok_def)
  consider (rr) "is_remote src" "is_remote dst" | (rl) "is_remote src" "\<not> is_remote dst"
    | (lr) "\<not> is_remote src" "is_remote dst" | (ll) "\<not> is_remote src" "\<not> is_remote dst" by blast
  then show ?thesis
  proof cases
    case rr
    with run ne obj s v show ?thesis
      by (auto simp: cp_transfer_def need_client_def and_delete_def place_def intro!: framed_service.move_remote_remote [OF S])
  next
    case rl
    with run ne obj s v show ?thesis
      by (auto simp: cp_transfer_def need_client_def and_delete_def place_def intro!: framed_service.move_download [OF S])
  next
    case lr
    with run s(2) have up: "io_bind (s3_upload C (ce_os X) (ce_sched X) s (absolute src) dst md) (\<lambda>_. io_bind (os_remove (ce_os X) (absolute src))
        (\<lambda>_ w. (Ok (), if op_remove_empty_dirs opts then prune_empty_dirs T src w else w))) w = (r, w')"
      by (simp add: cp_transfer_def need_client_def)
    from pruned_run [OF up s(5)] obtain w2 where 2: "io_bind (s3_upload C (ce_os X) (ce_sched X) s (absolute src) dst md) (\<lambda>_. os_remove (ce_os X) (absolute src)) w = (r, w2)"
      "w_s3 w' = w_s3 w2" "w_files w' = w_files w2"
      by blast
    from framed_service.move_upload [OF S 2(1) s(1,3,4)] lr obj have "moved contents (place src) (place dst) obj r w2"
      by (simp add: place_def)
    then show ?thesis by (rule moved_same_world [OF _ 2(2,3)])
  next
    case ll
    with run s(2) have "io_bind (fs_copy (ce_os X) False src dst md) (\<lambda>_. os_remove (ce_os X) (absolute src)) w = (r, w')"
      by (simp add: cp_transfer_def new_client_def storage_copy_def and_remove_def)
    from move_local [OF this] ll ne obj show ?thesis by (simp add: place_def)
  qed
qed


section \<open>Examples\<close>

definition demo_tree :: "memstore tree_ops" where
  "demo_tree = \<lparr>to_read_link = (\<lambda>_ _. Inl []), to_symlink = (\<lambda>_ _ w. (Inl [], w)), to_unlink = (\<lambda>_. io_return ()),
     to_remove_dir = (\<lambda>_ w. (False, w))\<rparr>"

definition demo_move :: "nat \<Rightarrow> options \<Rightarrow> url \<Rightarrow> (error, unit) result \<times> memstore world" where
  "demo_move n opts dst = cp_copy_one demo_env_cmd demo_tree (Some (memory_sdk, demo_s3 n)) None opts default_metadata True False
     (demo_url ''s3://b/k'', dst) (demo_world [((''b'', ''k''), ''hello world'')] Map.empty)"

lemma demo_l: "is_remote (demo_url ''s3://b/l'')" "place (demo_url ''s3://b/l'') = Inl (''b'', ''l'')" "place (demo_url ''s3://b/k'') = Inl (''b'', ''k'')"
  by (simp_all add: demo_url_def url_eval Let_def place_def url_loc_def)

lemmas cp_eval = cp_copy_one_def cp_transfer_def remote_copy_def need_client_def and_delete_def s3_delete_def

lemma demo_move_ok: "fst (demo_move 4 default_options (demo_url ''s3://b/l'')) = Inr ()"
  by (simp add: demo_move_def cp_eval demo_env_cmd_def demo_l default_options_def s3_ops s3_demo s3_arith demo_url_parts Let_def
      range_bounds_byte_range copy_part_size_def demo_copy_source)

lemma demo_self_download:
  "s3_download memory_sdk demo_env rev (demo_s3 16) (demo_url ''s3://b/k'') ''f'' (demo_world [((''b'', ''k''), ''hello world'')] Map.empty) =
     (Inr (), demo_world [((''b'', ''k''), ''hello world'')] [''f'' \<mapsto> ''hello world''])"
  by (simp add: s3_ops s3_demo s3_arith demo_url_parts Let_def range_bounds_byte_range parse_content_range
      demo_parent [unfolded demo_env_def make_parent_def] file_set_len_def file_write_at_def)

lemma demo_self_upload:
  "s3_upload memory_sdk demo_env rev (demo_s3 16) ''f'' (demo_url ''s3://b/k'') md (demo_world [((''b'', ''k''), ''hello world'')] [''f'' \<mapsto> ''hello world'']) =
     (Inr (), demo_world [((''b'', ''k''), ''hello world'')] [''f'' \<mapsto> ''hello world''])" if "\<not> md_if_none_match md"
  using that by (simp add: s3_ops s3_demo s3_arith demo_url_parts Let_def plain_put_def apply_put_metadata_def)

lemma demo_self_meta:
  "\<exists>md. upload_meta_for memory_sdk (demo_s3 16) (demo_url ''s3://b/k'') default_metadata w = (md, w) \<and> \<not> md_if_none_match md"
  by (simp add: upload_meta_for_def s3_ops mem_defs default_metadata_def split: option.splits)

lemma demo_self_move_ok: "fst (demo_move 16 (default_options\<lparr>op_client_copy := True\<rparr>) (demo_url ''s3://b/k'')) = Inr ()"
proof -
  let ?w = "demo_world [((''b'', ''k''), ''hello world'')]"
  obtain md where m: "upload_meta_for memory_sdk (demo_s3 16) (demo_url ''s3://b/k'') default_metadata (?w [''f'' \<mapsto> ''hello world''])
      = (md, ?w [''f'' \<mapsto> ''hello world''])" "\<not> md_if_none_match md" using demo_self_meta by blast
  have d: "\<not> s3_dry_run (demo_s3 16)" by (simp add: demo_s3_def)
  obtain w where c: "client_copy memory_sdk demo_env rev ''f'' (demo_s3 16) (demo_url ''s3://b/k'') (demo_url ''s3://b/k'') default_metadata (?w Map.empty)
      = (Inr (), w)"
    by (simp add: client_copy_def d io_bind_def demo_self_download m(1) demo_self_upload [OF m(2)])
  have "fst (s3_delete memory_sdk (demo_s3 16) (demo_url ''s3://b/k'') w) = Inr ()"
    using d by (simp add: s3_delete_def send_try_def send_def memory_sdk_def)
  with c show ?thesis
    by (simp add: demo_move_def cp_copy_one_def cp_transfer_def remote_copy_def need_client_def and_delete_def demo_env_cmd_def
        io_bind_def demo_url_parts)
qed

theorem mv_never_loses_bytes_witness:
  "held mem_contents (snd (demo_move 4 default_options (demo_url ''s3://b/l''))) (Inl (''b'', ''l'')) = Some ''hello world''"
proof -
  let ?m = "demo_move 4 default_options (demo_url ''s3://b/l'')"
  have run: "cp_copy_one demo_env_cmd demo_tree (Some (memory_sdk, demo_s3 4)) None default_options default_metadata True False
     (demo_url ''s3://b/k'', demo_url ''s3://b/l'') (demo_world [((''b'', ''k''), ''hello world'')] Map.empty) = (Inr (), snd ?m)"
    using demo_move_ok unfolding demo_move_def by (metis prod.collapse)
  have "moved mem_contents (place (demo_url ''s3://b/k'')) (place (demo_url ''s3://b/l'')) ''hello world'' (Inr ()) (snd ?m)"
    by (rule mv_never_loses_bytes [OF mem_framed.framed_service_axioms run])
      (simp_all add: demo_l demo_s3_def default_options_def demo_env_cmd_def dir_removal_ok_def demo_tree_def move_source_ok_def
        demo_copy_source demo_world_def mem_contents_def transferable_def div_ceil_def)
  then show ?thesis by (simp add: moved_def demo_l)
qed


section \<open>What a move may remove\<close>

lemma prune_loop_below:
  "(\<forall>d. strict_prefix (path_components a) (path_components d) \<longrightarrow> to_remove_dir T d = to_remove_dir T' d) \<Longrightarrow>
   prune_loop T a cur w = prune_loop T' a cur w"
proof (induction T a cur w rule: prune_loop.induct)
  case (1 T a cur w)
  show ?case
  proof (cases cur)
    case (Some d)
    show ?thesis
    proof (cases "prune_stops a d")
      case False
      then have "to_remove_dir T d = to_remove_dir T' d" using "1.prems" by (auto simp: prune_stops_def strict_prefix_def)
      with 1 Some False show ?thesis
        by (auto simp: prune_loop.simps [of _ a "Some d"] split: prod.splits bool.splits)
    qed (simp add: Some prune_loop.simps)
  qed (simp add: prune_loop.simps)
qed

text \<open>
  C28. The pruning of emptied directories never removes, nor tries to remove, a directory that is
  not strictly below the root of the move: the result does not depend on what the operating system
  would do with any other directory.
\<close>

theorem prune_stays_below_root:
  assumes "strip_components (normal_components (relative src)) (absolute src) = Some root"
    and "\<And>d. strict_prefix (path_components root) (path_components d) \<Longrightarrow> to_remove_dir T d = to_remove_dir T' d"
  shows "prune_empty_dirs T src w = prune_empty_dirs T' src w"
  using assms prune_loop_below [of root T T'] by (simp add: prune_empty_dirs_def Let_def)

definition demo_moved :: url where
  "demo_moved = (demo_url ''r/s/t/f'')\<lparr>url_relative_path := ''s/t/f''\<rparr>"

lemma demo_moved_parts:
  "absolute demo_moved = ''r/s/t/f''" "relative demo_moved = ''s/t/f''"
  by (simp_all add: demo_moved_def demo_url_def url_eval Let_def relative_def)

lemma demo_moved_root: "strip_components (normal_components (relative demo_moved)) (absolute demo_moved) = Some ''r''"
  unfolding demo_moved_parts by code_simp

text \<open>A system that would remove every directory, and one that refuses to remove the root.\<close>

theorem prune_stays_below_root_witness:
  "prune_empty_dirs (demo_tree\<lparr>to_remove_dir := (\<lambda>d w. (True, w\<lparr>w_files := (w_files w)(d := None)\<rparr>))\<rparr>) demo_moved (demo_world [] Map.empty)
    = prune_empty_dirs (demo_tree\<lparr>to_remove_dir := (\<lambda>d w. if d = ''r'' then (False, w) else (True, w\<lparr>w_files := (w_files w)(d := None)\<rparr>))\<rparr>) demo_moved (demo_world [] Map.empty)"
proof -
  have "path_components ''r'' = [''r'']" by code_simp
  then show ?thesis
    by (intro prune_stays_below_root [OF demo_moved_root]) (auto simp: fun_eq_iff)
qed

section \<open>Listing errors\<close>

lemma pool_run_Nil: "pool_run exec rep pick stop n [] acc v = (acc, v)"
  by (simp add: pool_run_def drain_pool.simps)

text \<open>
  A listing that fails is not an error of \<^verbatim>\<open>cp\<close> or \<^verbatim>\<open>mv\<close>: when listing the source yields nothing but errors
  (no such bucket, access denied, nothing found), the source expands to no pair, so the command
  transfers nothing and succeeds.
\<close>

theorem cp_failed_listing_succeeds:
  assumes "cp_prepare X args is_move w = Inr (dst, fl)" "ca_paths args = [raw, dst_raw]"
    and "url_new (ce_regex X) raw (default_url_options\<lparr>uo_version_id := ca_version_id args, uo_all_versions := ca_all_versions args\<rparr>) = Inr src"
    and "new_client X src (cp_options global args) = Inr c" "is_wildcard src"
    and "client_list X c src (ca_follow_symlinks args) w = Some (os, w1)" "list_all (\<lambda>ob. ob_err ob \<noteq> None) os"
    and cl: "cp_clients X [] dst (cp_options global args) = Inr (a, b)"
  shows "cp_run X T pick workers global args is_move w = Some (Ok (), w1)"
proof -
  have e: "expand_loop (ce_regex X) fl dst os = []" using assms(7) by (induction os) auto
  have "expand_sources X src dst (cp_options global args) (ca_follow_symlinks args) fl w = Some (Ok [], w1)"
    using assms(4,5,6) e by (simp add: expand_sources_def is_multi_def)
  then have p: "expand_all X (default_url_options\<lparr>uo_version_id := ca_version_id args, uo_all_versions := ca_all_versions args\<rparr>) dst
      (cp_options global args) (ca_follow_symlinks args) fl (butlast (ca_paths args)) w = Some (Ok [], w1)"
    using assms(2,3) by simp
  with cl assms(1) show ?thesis by (simp add: cp_run_def Let_def cp_execute_def pool_run_Nil)
qed

definition demo_cp_args :: cp_args where
  "demo_cp_args = \<lparr>ca_paths = [''s3://b/*'', ''d/''], ca_follow_symlinks = True, ca_storage_class = None, ca_acl = None, ca_content_type = None,
     ca_fast = False, ca_part_size = 8, ca_concurrency = 8, ca_version_id = None, ca_all_versions = False, ca_force_glacier_transfer = False,
     ca_preserve_timestamps = False, ca_client_copy = False, ca_remove_empty_dirs = False, ca_if_none_match = False, ca_links = False,
     ca_exclude = [], ca_include = [], ca_exclude_from = [], ca_include_from = []\<rparr>"

lemma demo_glob: "\<not> is_versioned (demo_url ''s3://b/*'')" "\<not> is_bucket (demo_url ''s3://b/*'')"
  by (simp_all add: is_versioned_def is_bucket_def demo_url_def url_eval Let_def)

lemma demo_listed:
  "\<exists>os. client_list demo_env_cmd (S3Client memory_sdk (demo_s3 4)) (demo_url ''s3://b/*'') follow (demo_world [] Map.empty) = Some (os, demo_world [] Map.empty)
    \<and> list_all (\<lambda>ob. ob_err ob \<noteq> None) os"
  by (simp add: client_list_def s3_list_def demo_glob demo_bucket list_v2_def demo_s3_def demo_env_cmd_def demo_world_def
      memory_sdk_def mem_list_def mem_page_def mem_keys_def Let_def list_request_for_def emit_page_def emit_prefixes_def emit_contents_def
      finish_listing_def object_with_error_def)

theorem cp_failed_listing_succeeds_witness:
  "cp_run demo_env_cmd demo_tree id 4 default_options demo_cp_args False (demo_world [] Map.empty) = Some (Ok (), demo_world [] Map.empty)"
proof -
  let ?w = "demo_world [] Map.empty" and ?u = "demo_url ''s3://b/*''"
  obtain os where os: "client_list demo_env_cmd (S3Client memory_sdk (demo_s3 4)) ?u (ca_follow_symlinks demo_cp_args) ?w = Some (os, ?w)"
    "list_all (\<lambda>ob. ob_err ob \<noteq> None) os" using demo_listed by blast
  have p: "cp_prepare demo_env_cmd demo_cp_args False ?w = Inr (demo_url ''d/'', \<lparr>f_includes = [], f_excludes = []\<rparr>)"
    by (simp add: cp_prepare_def demo_cp_args_def demo_env_cmd_def message_of_def cp_filters_def filters_new_def demo_url_def url_eval Let_def)
  have u: "url_new (ce_regex demo_env_cmd) ''s3://b/*'' (default_url_options\<lparr>uo_version_id := ca_version_id demo_cp_args,
      uo_all_versions := ca_all_versions demo_cp_args\<rparr>) = Inr ?u"
    by (simp add: demo_cp_args_def demo_env_cmd_def demo_url_def url_eval Let_def)
  have c: "new_client demo_env_cmd ?u opts = Inr (S3Client memory_sdk (demo_s3 4))" for opts
    by (simp add: new_client_def demo_env_cmd_def demo_url_def url_eval Let_def)
  have cl: "cp_clients demo_env_cmd [] (demo_url ''d/'') opts = Inr (None, None)" for opts
    by (simp add: cp_clients_def demo_url_def url_eval Let_def)
  show ?thesis
    by (rule cp_failed_listing_succeeds [OF p _ u c _ os cl]) (simp_all add: demo_cp_args_def demo_url_def url_eval Let_def)
qed

end
