(* ===== verification/Rm.thy ===== *)
theory Rm
  imports Local_Fs Listed
begin

text \<open>
  The \<^verbatim>\<open>rm\<close> command (\<^verbatim>\<open>src/command/rm.rs\<close>). The task that feeds listed objects to the batched deletion
  runs beside it; here the listing is complete before the first batch is sent, which a listing in key
  order whose continuation lies behind the deleted keys cannot tell apart. Printed lines are not
  modelled; whether one of them was an error is.
\<close>

record rm_args =
  ra_targets :: "string list"
  ra_version_id :: "string option"
  ra_raw :: bool
  ra_exclude :: "string list"
  ra_include :: "string list"
  ra_exclude_from :: "string list"
  ra_include_from :: "string list"

definition rm_expands :: "url \<Rightarrow> bool" where
  "rm_expands u \<longleftrightarrow> \<not> is_raw u \<and> (is_wildcard u \<or> (is_remote u \<and> is_prefix u))"

text \<open>What the feeder forwards: every object with a URL that the filters let through.\<close>

definition rm_feed :: "regex_lib \<Rightarrow> filters \<Rightarrow> object list \<Rightarrow> url list" where
  "rm_feed L fl os =
     concat (map (\<lambda>ob. case ob_url ob of
       None \<Rightarrow> [] | Some u \<Rightarrow> if should_skip L fl (filter_key u) then [] else [u]) os)"

fun rm_local :: "'s cmd_env \<Rightarrow> 's client \<Rightarrow> filters \<Rightarrow> object list \<Rightarrow> bool \<Rightarrow> 's world \<Rightarrow> bool \<times> 's world" where
  "rm_local X c fl [] had_error w = (had_error, w)"
| "rm_local X c fl (ob # os) had_error w =
     (case ob_err ob of
        Some _ \<Rightarrow> rm_local X c fl os True w
      | None \<Rightarrow>
          (case ob_url ob of
             None \<Rightarrow> rm_local X c fl os had_error w
           | Some u \<Rightarrow>
               if should_skip (ce_regex X) fl (filter_key u) then rm_local X c fl os had_error w
               else
                 (case client_delete X c u w of
                    (Inr _, w1) \<Rightarrow> rm_local X c fl os had_error w1
                  | (Inl _, w1) \<Rightarrow> rm_local X c fl os True w1)))"

definition rm_target ::
  "'s cmd_env \<Rightarrow> options \<Rightarrow> filters \<Rightarrow> url \<Rightarrow> bool \<Rightarrow> 's world \<Rightarrow> ((error, bool) result \<times> 's world) option" where
  "rm_target X opts fl u had_error w =
     (case new_client X u opts of
        Inl e \<Rightarrow> Some (Err e, w)
      | Inr c \<Rightarrow>
          if \<not> rm_expands u then
            (case client_delete X c u w of
               (Inr _, w1) \<Rightarrow> Some (Ok had_error, w1)
             | (Inl _, w1) \<Rightarrow> Some (Ok True, w1))
          else
            (case client_list X c u True w of
               None \<Rightarrow> None
             | Some (os, w1) \<Rightarrow>
                 if is_remote u then
                   (case ce_new_s3 X opts of
                      Inl e \<Rightarrow> Some (Err e, w1)
                    | Inr (C, s) \<Rightarrow>
                        (case multi_delete C (ce_regex X) s (rm_feed (ce_regex X) fl os) w1 of
                           (res, w2) \<Rightarrow> Some (Ok (had_error \<or> list_ex (\<lambda>ob. ob_err ob \<noteq> None) res), w2)))
                 else (case rm_local X c fl os had_error w1 of (b, w2) \<Rightarrow> Some (Ok b, w2))))"

fun rm_targets ::
  "'s cmd_env \<Rightarrow> options \<Rightarrow> filters \<Rightarrow> url_options \<Rightarrow> string list \<Rightarrow> bool \<Rightarrow> 's world \<Rightarrow> ((error, bool) result \<times> 's world) option" where
  "rm_targets X opts fl uo [] had_error w = Some (Ok had_error, w)"
| "rm_targets X opts fl uo (t # ts) had_error w =
     (case url_new (ce_regex X) t uo of
        Inl e \<Rightarrow> Some (Err (Message e), w)
      | Inr u \<Rightarrow>
          (case rm_target X opts fl u had_error w of
             None \<Rightarrow> None
           | Some (Inl e, w1) \<Rightarrow> Some (Err e, w1)
           | Some (Inr b, w1) \<Rightarrow> rm_targets X opts fl uo ts b w1))"

definition rm_filters :: "'s cmd_env \<Rightarrow> rm_args \<Rightarrow> 's world \<Rightarrow> (error, filters) result" where
  "rm_filters X args w =
     message_of (and_then (patterns_with_files (read_text X w) (ra_include args) (ra_include_from args)) (\<lambda>inc.
                 and_then (patterns_with_files (read_text X w) (ra_exclude args) (ra_exclude_from args)) (\<lambda>exc.
                   filters_new (ce_regex X) inc exc)))"

definition rm_run :: "'s cmd_env \<Rightarrow> options \<Rightarrow> rm_args \<Rightarrow> 's world \<Rightarrow> ((error, unit) result \<times> 's world) option" where
  "rm_run X opts args w =
     (case rm_filters X args w of
        Inl e \<Rightarrow> Some (Err e, w)
      | Inr fl \<Rightarrow>
          (case rm_targets X opts fl (default_url_options\<lparr>uo_raw := ra_raw args, uo_version_id := ra_version_id args\<rparr>)
                  (ra_targets args) False w of
             None \<Rightarrow> None
           | Some (Inl e, w1) \<Rightarrow> Some (Err e, w1)
           | Some (Inr had_error, w1) \<Rightarrow>
               Some (if had_error then Err (Message ''one or more rm operations failed'') else Ok (), w1)))"

section \<open>What is removed\<close>

text \<open>A service on which a batched deletion touches the keys it names, whatever it answers.\<close>

locale removing_service = deleting_service + reading_service +
  assumes delete_many_frame: "sdk_delete_objects C b keys payer s = (dres, s') \<Longrightarrow>
    \<not> (fst l = b \<and> snd l \<in> set keys) \<Longrightarrow> contents s' l = contents s l"
begin

lemma delete_chunk_frame:
  assumes "delete_chunk C L st urls w = (os, w')" "\<forall>u \<in> set urls. url_bucket u = b" "\<not> (fst l = b \<and> snd l \<in> url_path ` set urls)"
  shows "contents (w_s3 w') l = contents (w_s3 w) l"
proof (cases urls)
  case (Cons u us)
  obtain r s' where r: "sdk_delete_objects C (url_bucket u) (map url_path urls) (request_payer st) (w_s3 w) = (r, s')" by fastforce
  have "contents s' l = contents (w_s3 w) l" using delete_many_frame [OF r, of l] assms(2,3) Cons by auto
  with assms(1) Cons r show ?thesis
    by (auto simp: delete_chunk_def Let_def send_def split: if_splits sum.splits)
qed (use assms in \<open>simp add: delete_chunk_def\<close>)

lemma delete_batches_frame:
  assumes "delete_batches C L st bs w = (os, w')" "\<forall>u \<in> set (concat bs). url_bucket u = b"
    "\<not> (fst l = b \<and> snd l \<in> url_path ` set (concat bs))"
  shows "contents (w_s3 w') l = contents (w_s3 w) l"
  using assms
proof (induction bs arbitrary: w os)
  case (Cons us bs)
  obtain os1 w1 where 1: "delete_chunk C L st us w = (os1, w1)" by fastforce
  obtain os2 where 2: "delete_batches C L st bs w1 = (os2, w')" using Cons.prems(1) 1 by (auto split: prod.splits)
  have "contents (w_s3 w1) l = contents (w_s3 w) l" by (rule delete_chunk_frame [OF 1]) (use Cons.prems in auto)
  moreover have "contents (w_s3 w') l = contents (w_s3 w1) l" by (rule Cons.IH [OF 2]) (use Cons.prems in auto)
  ultimately show ?case by simp
qed simp

lemma multi_delete_frame:
  assumes "multi_delete C L st urls w = (os, w')" "\<forall>u \<in> set urls. url_bucket u = b" "\<not> (fst l = b \<and> snd l \<in> url_path ` set urls)"
  shows "contents (w_s3 w') l = contents (w_s3 w) l"
proof -
  obtain bs where "concat bs = urls" "delete_batches C L st bs w = (os, w')"
    using multi_delete_loop_batches [of "[]" urls C L st w] assms(1) by (auto simp: multi_delete_def)
  with delete_batches_frame assms(2,3) show ?thesis by blast
qed

end

interpretation mem_removing: removing_service memory_sdk mem_contents mem_uploads
proof unfold_locales
  fix b keys payer s dres s' l
  assume "sdk_delete_objects memory_sdk b keys payer s = (dres, s')" "\<not> (fst l = b \<and> snd l \<in> set keys)"
  then show "mem_contents s' l = mem_contents s l" using fold_mem_delete by (auto simp: memory_sdk_def)
qed

text \<open>The objects a target selects: those that match it and that the filters let through.\<close>

definition selected :: "regex_lib \<Rightarrow> filters \<Rightarrow> url \<Rightarrow> string \<Rightarrow> bool" where
  "selected L fl u k \<longleftrightarrow> matching L u k \<and> \<not> should_skip L fl (filter_key (matched_url L u k))"

lemma rm_feed_selected:
  assumes "listed_ok L u os" "v \<in> set (rm_feed L fl os)"
  shows "url_bucket v = url_bucket u \<and> selected L fl u (url_path v)"
proof -
  obtain ob where ob: "ob \<in> set os" "ob_url ob = Some v" "\<not> should_skip L fl (filter_key v)"
    using assms(2) by (auto simp: rm_feed_def split: option.splits if_splits)
  then obtain k vid where k: "matching L u k" "v = (matched_url L u k)\<lparr>url_version_id := vid\<rparr>"
    using assms(1) unfolding listed_ok_def listed_url_def by blast
  have "filter_key v = filter_key (matched_url L u k)"
    unfolding k(2) by (simp add: filter_key_def to_slash_def relative_def absolute_def is_remote_def remote_url_def)
  moreover have "url_path v = k" "url_bucket v = url_bucket u"
    unfolding k(2) by (simp_all add: matched_url_def url_matches_def Let_def split: option.splits)
  ultimately show ?thesis using k(1) ob(3) by (simp add: selected_def)
qed

text \<open>
  C14. Removing through a wildcard or a prefix never touches an object that does not match the
  target or that the filters reject, whatever the listing, the service's answers and the errors;
  and when it reports no error, the selected objects of the listing are gone.
\<close>

theorem rm_removes_selected_only:
  assumes S: "removing_service C contents uploads"
    and run: "rm_target X opts fl u False w = Some (Inr had_error, w')"
    and u: "is_remote u" "rm_expands u" and X: "ce_new_s3 X opts = Inr (C, s)"
  shows "(\<forall>b k. contents (w_s3 w') (b, k) \<noteq> contents (w_s3 w) (b, k) \<longrightarrow> b = url_bucket u \<and> selected (ce_regex X) fl u k) \<and>
    (\<exists>os w1. s3_list C (ce_regex X) s u w = Some (os, w1) \<and>
      (\<not> had_error \<longrightarrow> \<not> s3_dry_run s \<longrightarrow>
        (\<forall>v \<in> set (rm_feed (ce_regex X) fl os). contents (w_s3 w') (url_loc v) = None)))"
proof -
  let ?L = "ce_regex X"
  obtain os w1 res where l: "s3_list C ?L s u w = Some (os, w1)"
    and d: "multi_delete C ?L s (rm_feed ?L fl os) w1 = (res, w')" and h: "had_error = list_ex (\<lambda>ob. ob_err ob \<noteq> None) res"
    using run u X by (auto simp: rm_target_def new_client_def client_list_def split: option.splits prod.splits)
  note sel = rm_feed_selected [OF s3_list_listed [OF l], of _ fl]
  have same: "contents (w_s3 w1) = contents (w_s3 w)"
    using reading_service.list_same [OF removing_service.axioms(2) [OF S] l] .
  have b: "\<forall>v \<in> set (rm_feed ?L fl os). url_bucket v = url_bucket u" using sel by blast
  have "b' = url_bucket u \<and> selected ?L fl u k" if "contents (w_s3 w') (b', k) \<noteq> contents (w_s3 w) (b', k)" for b' k
    using removing_service.multi_delete_frame [OF S d b, of "(b', k)"] that same sel by auto
  moreover have "contents (w_s3 w') (url_loc v) = None" if "\<not> had_error" "\<not> s3_dry_run s" "v \<in> set (rm_feed ?L fl os)" for v
    using multi_delete_removes_exactly [OF removing_service.axioms(1) [OF S] d that(2), of "url_bucket u"] that b h
    by (auto simp: url_loc_def list_all_iff list_ex_iff)
  ultimately show ?thesis using l by blast
qed

lemma demo_rm_runs:
  "\<exists>b w. rm_target demo_env_cmd default_options \<lparr>f_includes = [], f_excludes = []\<rparr> (demo_url ''s3://b/*'') False demo_store = Some (Inr b, w)"
proof -
  have u: "is_remote (demo_url ''s3://b/*'')" "\<not> is_versioned (demo_url ''s3://b/*'')" "rm_expands (demo_url ''s3://b/*'')"
    by (simp_all add: demo_url_def url_eval Let_def is_versioned_def rm_expands_def is_raw_def)
  have s: "\<not> s3_use_list_objects_v1 (demo_s3 4)" by (simp add: demo_s3_def)
  show ?thesis
    using u s by (auto simp: rm_target_def new_client_def demo_env_cmd_def client_list_def s3_list_def split: prod.splits)
qed

theorem rm_removes_selected_only_witness:
  "\<exists>b w. rm_target demo_env_cmd default_options \<lparr>f_includes = [], f_excludes = []\<rparr> (demo_url ''s3://b/*'') False demo_store = Some (Inr b, w) \<and>
    mem_contents (w_s3 w) (''c'', ''x'') = mem_contents (w_s3 demo_store) (''c'', ''x'')"
proof -
  obtain b w where r: "rm_target demo_env_cmd default_options \<lparr>f_includes = [], f_excludes = []\<rparr> (demo_url ''s3://b/*'') False demo_store
      = Some (Inr b, w)" using demo_rm_runs by blast
  have u: "is_remote (demo_url ''s3://b/*'')" "rm_expands (demo_url ''s3://b/*'')"
    by (simp_all add: demo_url_def url_eval Let_def rm_expands_def is_raw_def)
  have x: "ce_new_s3 demo_env_cmd default_options = Inr (memory_sdk, demo_s3 4)" by (simp add: demo_env_cmd_def)
  show ?thesis using rm_removes_selected_only [OF mem_removing.removing_service_axioms r u x] r demo_bucket(2) by fastforce
qed

end
