(* ===== verification/S3cfg.thy ===== *)
theory S3cfg
  imports Local_Fs
begin

text \<open>
  Configuration files: the translation of an s3cmd configuration and the dotfile of the program
  (\<^verbatim>\<open>src/s3cfg.rs\<close>), and the import command that writes the dotfile and the AWS credentials
  (\<^verbatim>\<open>src/command/import_s3cfg.rs\<close>). The \<^verbatim>\<open>bytesize\<close> crate and the Debug text of a string are parameters.
\<close>

record translated =
  tr_access_key :: "string option"
  tr_secret_key :: "string option"
  tr_session_token :: "string option"
  tr_endpoint_url :: "string option"
  tr_addressing_style :: "string option"
  tr_region :: "string option"
  tr_no_verify_ssl :: bool
  tr_ca_certs_file :: "string option"
  tr_proxy :: "string option"
  tr_retry_count :: "nat option"
  tr_limitrate :: "nat option"
  tr_request_payer :: "string option"
  tr_warnings :: "string list"

definition default_translated :: translated where
  "default_translated =
     \<lparr>tr_access_key = None, tr_secret_key = None, tr_session_token = None, tr_endpoint_url = None,
      tr_addressing_style = None, tr_region = None, tr_no_verify_ssl = False, tr_ca_certs_file = None,
      tr_proxy = None, tr_retry_count = None, tr_limitrate = None, tr_request_payer = None, tr_warnings = []\<rparr>"

section \<open>Writing the dotfile\<close>

definition ini_kv :: "string \<Rightarrow> string \<Rightarrow> string" where
  "ini_kv k v = k @ '' = '' @ v @ [CHR 0x0A]"

definition ini_opt :: "string \<Rightarrow> string option \<Rightarrow> string" where
  "ini_opt k v = (case v of None \<Rightarrow> [] | Some x \<Rightarrow> ini_kv k x)"

definition to_rs5cmd_ini :: "translated \<Rightarrow> string" where
  "to_rs5cmd_ini t =
     ''# rs5cmd config (generated by `import-s3cfg`)'' @ [CHR 0x0A] @ ''[rs5cmd]'' @ [CHR 0x0A]
       @ ini_opt ''endpoint_url'' (tr_endpoint_url t)
       @ ini_opt ''region'' (tr_region t)
       @ ini_opt ''addressing_style'' (tr_addressing_style t)
       @ (if tr_no_verify_ssl t then ini_kv ''no_verify_ssl'' ''true'' else [])
       @ ini_opt ''ca_certs_file'' (tr_ca_certs_file t)
       @ ini_opt ''proxy'' (tr_proxy t)
       @ ini_opt ''retry_count'' (map_option show_nat (tr_retry_count t))
       @ ini_opt ''limitrate'' (map_option show_nat (tr_limitrate t))
       @ ini_opt ''request_payer'' (tr_request_payer t)"

section \<open>Reading\<close>

type_synonym ini_map = "string \<Rightarrow> string option"

definition ini_line :: "ini_map \<Rightarrow> string \<Rightarrow> ini_map" where
  "ini_line m raw =
     (let line = str_trim raw in
      if line = [] \<or> starts_with line ''#'' \<or> starts_with line '';'' then m
      else if starts_with line ''['' then m
      else
        (case split_once line ''='' of
           Some (k, v) \<Rightarrow> m(to_ascii_lowercase (str_trim k) \<mapsto> str_trim v)
         | None \<Rightarrow> m))"

definition parse_ini :: "string \<Rightarrow> ini_map" where
  "parse_ini txt = foldl ini_line (\<lambda>_. None) (str_lines txt)"

text \<open>The crate \<^verbatim>\<open>bytesize\<close> (a size, or an error text) and the Debug text of a string.\<close>

record size_lib =
  sl_parse :: "string \<Rightarrow> (string, nat) result"
  sl_debug :: "string \<Rightarrow> string"

definition parse_byte_rate :: "size_lib \<Rightarrow> string \<Rightarrow> (string, nat) result" where
  "parse_byte_rate B s0 =
     (let s = str_trim s0 in
      case parse_unsigned u64_max s of
        Some n \<Rightarrow> Ok n
      | None \<Rightarrow>
          (case sl_parse B s of
             Inr b \<Rightarrow> Ok b
           | Inl e \<Rightarrow> Err (''invalid byte rate '' @ sl_debug B s @ '': '' @ e)))"

definition parse_bool :: "string \<Rightarrow> bool option" where
  "parse_bool s0 =
     (let s = to_ascii_lowercase (str_trim s0) in
      if s = ''true'' \<or> s = ''1'' \<or> s = ''yes'' \<or> s = ''on'' then Some True
      else if s = ''false'' \<or> s = ''0'' \<or> s = ''no'' \<or> s = ''off'' then Some False
      else None)"

definition ini_nonempty :: "ini_map \<Rightarrow> string \<Rightarrow> string option" where
  "ini_nonempty m key =
     (case m key of
        None \<Rightarrow> None
      | Some s \<Rightarrow> if str_trim s = [] then None else Some (str_trim s))"

definition ini_bool :: "ini_map \<Rightarrow> string \<Rightarrow> bool option" where
  "ini_bool m key = (case m key of None \<Rightarrow> None | Some v \<Rightarrow> parse_bool v)"

definition normalize_region :: "string \<Rightarrow> string" where
  "normalize_region s =
     (let l = str_trim s in
      if l = ''US'' \<or> l = ''us'' then ''us-east-1''
      else if l = ''EU'' \<or> l = ''eu'' then ''eu-west-1''
      else l)"

definition s3cfg_endpoint :: "ini_map \<Rightarrow> string option" where
  "s3cfg_endpoint m =
     (case ini_nonempty m ''host_base'' of
        None \<Rightarrow> None
      | Some h \<Rightarrow>
          let host = trim_end_matches (CHR ''/'') h; lower = to_ascii_lowercase host in
          if starts_with lower ''http://'' \<or> starts_with lower ''https://'' then Some host
          else Some ((if unwrap_or True (ini_bool m ''use_https'') then ''https'' else ''http'') @ ''://'' @ host))"

definition trim_start :: "string \<Rightarrow> string" where
  "trim_start s = concat (dropWhile is_white (chars s))"

definition s3cfg_addressing :: "ini_map \<Rightarrow> string option" where
  "s3cfg_addressing m =
     (case ini_nonempty m ''host_bucket'' of
        None \<Rightarrow> None
      | Some hb \<Rightarrow> Some (if starts_with (trim_start hb) ''%(bucket)s'' then ''virtual'' else ''path''))"

definition s3cfg_proxy :: "ini_map \<Rightarrow> string option" where
  "s3cfg_proxy m =
     (case ini_nonempty m ''proxy_host'' of
        None \<Rightarrow> None
      | Some ph \<Rightarrow>
          let lower = to_ascii_lowercase ph in
          if starts_with lower ''http://'' \<or> starts_with lower ''https://'' \<or> starts_with lower ''socks5'' then Some ph
          else
            let port = unwrap_or 3128 (case m ''proxy_port'' of None \<Rightarrow> None | Some p \<Rightarrow> parse_unsigned 65535 (str_trim p))
            in Some (''http://'' @ ph @ '':'' @ show_nat port))"

definition s3cfg_limitrate :: "size_lib \<Rightarrow> ini_map \<Rightarrow> nat option \<times> string list" where
  "s3cfg_limitrate B m =
     (case ini_nonempty m ''limitrate'' of
        None \<Rightarrow> (None, [])
      | Some raw \<Rightarrow>
          (case parse_byte_rate B raw of
             Inr n \<Rightarrow> (if n > 0 then Some n else None, [])
           | Inl e \<Rightarrow> (None, [''ignoring limitrate: '' @ e])))"

definition s3cfg_warnings :: "ini_map \<Rightarrow> string list" where
  "s3cfg_warnings m =
     (if ini_bool m ''signature_v2'' = Some True
      then [''signature_v2 is not supported (rs5cmd signs with SigV4 only); ignoring''] else [])
     @ (if ini_nonempty m ''storage_class'' \<noteq> None
        then [''storage_class is not applied globally; pass --storage-class per command''] else [])
     @ (if ini_bool m ''server_side_encryption'' = Some True \<or> ini_nonempty m ''kms_key'' \<noteq> None
        then [''server-side encryption is not applied globally; pass --sse/--sse-kms-key-id per command''] else [])
     @ (if ini_bool m ''encrypt'' = Some True
        then [''client-side GPG encryption (encrypt) is not supported; ignoring''] else [])"

definition translate_s3cfg :: "size_lib \<Rightarrow> ini_map \<Rightarrow> translated" where
  "translate_s3cfg B m =
     (case s3cfg_limitrate B m of
        (rate, warn) \<Rightarrow>
          \<lparr>tr_access_key = ini_nonempty m ''access_key'', tr_secret_key = ini_nonempty m ''secret_key'',
           tr_session_token = ini_nonempty m ''access_token'', tr_endpoint_url = s3cfg_endpoint m,
           tr_addressing_style = s3cfg_addressing m,
           tr_region = map_option normalize_region (or_else (ini_nonempty m ''region'') (ini_nonempty m ''bucket_location'')),
           tr_no_verify_ssl = (ini_bool m ''check_ssl_certificate'' = Some False \<or> ini_bool m ''check_ssl_hostname'' = Some False),
           tr_ca_certs_file = ini_nonempty m ''ca_certs_file'', tr_proxy = s3cfg_proxy m,
           tr_retry_count = (case m ''max_retries'' of None \<Rightarrow> None | Some v \<Rightarrow> parse_unsigned 4294967295 (str_trim v)),
           tr_limitrate = rate,
           tr_request_payer = (if ini_bool m ''requester_pays'' = Some True then Some ''requester'' else None),
           tr_warnings = warn @ s3cfg_warnings m\<rparr>)"

definition from_rs5cmd :: "size_lib \<Rightarrow> ini_map \<Rightarrow> translated" where
  "from_rs5cmd B m =
     \<lparr>tr_access_key = ini_nonempty m ''access_key'', tr_secret_key = ini_nonempty m ''secret_key'',
      tr_session_token = ini_nonempty m ''session_token'', tr_endpoint_url = ini_nonempty m ''endpoint_url'',
      tr_addressing_style = ini_nonempty m ''addressing_style'', tr_region = ini_nonempty m ''region'',
      tr_no_verify_ssl = unwrap_or False (ini_bool m ''no_verify_ssl''),
      tr_ca_certs_file = ini_nonempty m ''ca_certs_file'', tr_proxy = ini_nonempty m ''proxy'',
      tr_retry_count = (case m ''retry_count'' of None \<Rightarrow> None | Some v \<Rightarrow> parse_unsigned 4294967295 (str_trim v)),
      tr_limitrate = (case ini_nonempty m ''limitrate'' of
                        None \<Rightarrow> None
                      | Some v \<Rightarrow> (case parse_byte_rate B v of Inr n \<Rightarrow> Some n | Inl _ \<Rightarrow> None)),
      tr_request_payer = ini_nonempty m ''request_payer'', tr_warnings = []\<rparr>"

section \<open>The import\<close>

text \<open>The loop over the lines: the text so far, whether the section is being skipped and was replaced.\<close>

record ini_scan =
  is_out :: string
  is_skipping :: bool
  is_replaced :: bool

definition with_newline :: "string \<Rightarrow> string" where
  "with_newline s = (if ends_with s [CHR 0x0A] then s else s @ [CHR 0x0A])"

definition replace_line :: "string \<Rightarrow> string \<Rightarrow> ini_scan \<Rightarrow> string \<Rightarrow> ini_scan" where
  "replace_line name replacement st line =
     (let t = str_trim line in
      if starts_with t ''['' \<and> ends_with t '']'' \<and> t = ''['' @ name @ '']'' then
        st\<lparr>is_out := is_out st @ with_newline replacement, is_skipping := True, is_replaced := True\<rparr>
      else
        let skipping = (if starts_with t ''['' \<and> ends_with t '']'' then False else is_skipping st) in
        st\<lparr>is_skipping := skipping, is_out := (if skipping then is_out st else is_out st @ line @ [CHR 0x0A])\<rparr>)"

definition replace_ini_section :: "string \<Rightarrow> string \<Rightarrow> string \<Rightarrow> string" where
  "replace_ini_section txt name replacement =
     (let st = foldl (replace_line name replacement) \<lparr>is_out = [], is_skipping = False, is_replaced = False\<rparr> (str_lines txt)
      in if is_replaced st then is_out st
         else (if is_out st \<noteq> [] \<and> \<not> ends_with (is_out st) [CHR 0x0A] then is_out st @ [CHR 0x0A] else is_out st)
                @ with_newline replacement)"

definition credentials_section :: "string \<Rightarrow> string \<Rightarrow> string \<Rightarrow> string option \<Rightarrow> string" where
  "credentials_section profile access_key secret_key session_token =
     ''['' @ profile @ '']'' @ [CHR 0x0A] @ ini_kv ''aws_access_key_id'' access_key @ ini_kv ''aws_secret_access_key'' secret_key
       @ ini_opt ''aws_session_token'' session_token"

record import_args =
  ia_path :: string
  ia_out :: "string option"
  ia_profile :: string
  ia_no_credentials :: bool

definition home_dir :: "env \<Rightarrow> (error, string) result" where
  "home_dir E = (case env_var E ''HOME'' of Some h \<Rightarrow> Ok h | None \<Rightarrow> Err (Message ''HOME is not set''))"

definition write_aws_credentials :: "'s cmd_env \<Rightarrow> string \<Rightarrow> string \<Rightarrow> string \<Rightarrow> string option \<Rightarrow> ('s, string) io" where
  "write_aws_credentials X profile access_key secret_key session_token w =
     (case home_dir (ce_os X) of
        Inl e \<Rightarrow> (Err e, w)
      | Inr h \<Rightarrow>
          let dir = path_push h ''.aws''; path = path_push dir ''credentials'' in
          io_bind (os_call (ce_os X) ''create_dir_all'' dir (io_return ())) (\<lambda>_ w.
            let existing = (case read_text X w path of Inr t \<Rightarrow> t | Inl _ \<Rightarrow> []);
                merged = replace_ini_section existing profile
                  (credentials_section profile access_key secret_key session_token)
            in io_bind (os_open_truncate (ce_os X) path) (\<lambda>_.
               io_bind (os_update (ce_os X) ''write'' path (\<lambda>f. f @ merged)) (\<lambda>_.
               io_bind (os_call (ce_os X) ''set_permissions'' path (io_return ())) (\<lambda>_. io_return path))) w) w)"

definition import_run :: "'s cmd_env \<Rightarrow> size_lib \<Rightarrow> import_args \<Rightarrow> ('s, unit) io" where
  "import_run X B args w =
     (case read_text X w (ia_path args) of
        Inl e \<Rightarrow> (Err (Message (''reading '' @ ia_path args @ '': '' @ e)), w)
      | Inr txt \<Rightarrow>
          let t = translate_s3cfg B (parse_ini txt) in
          (case (case ia_out args of
                   Some p \<Rightarrow> Ok p | None \<Rightarrow> and_then (home_dir (ce_os X)) (\<lambda>h. Ok (path_push h ''.rs5cmd''))) of
             Inl e \<Rightarrow> (Err e, w)
           | Inr out \<Rightarrow>
               (case os_write_file (ce_os X) out (to_rs5cmd_ini t) w of
                  (Inl e, w1) \<Rightarrow> (Err (Message (''writing '' @ out @ '': '' @ error_chain e)), w1)
                | (Inr _, w1) \<Rightarrow>
                    if ia_no_credentials args then (Ok (), w1)
                    else
                      (case (tr_access_key t, tr_secret_key t) of
                         (Some ak, Some sk) \<Rightarrow>
                           io_bind (write_aws_credentials X (ia_profile args) ak sk (tr_session_token t)) (\<lambda>_. io_return ()) w1
                       | _ \<Rightarrow> (Ok (), w1)))))"

section \<open>Lines\<close>

definition plain_line :: "string \<Rightarrow> bool" where
  "plain_line l \<longleftrightarrow> CHR 0x0A \<notin> set l \<and> CHR 0x0D \<notin> set l"

definition unlines :: "string list \<Rightarrow> string" where
  "unlines ls = concat (map (\<lambda>l. l @ [CHR 0x0A]) ls)"

lemma chop_cr_plain: "plain_line l \<Longrightarrow> chop_cr l = l"
  by (auto simp: plain_line_def chop_cr_def strip_suffix_def ends_with_iff)

lemma split_unlines: "list_all plain_line ls \<Longrightarrow> split_on (CHR 0x0A) (unlines ls) = ls @ [[]]"
proof (induction ls)
  case (Cons l ls)
  then show ?case by (simp add: unlines_def plain_line_def split_on_append)
qed (simp add: unlines_def)

lemma str_lines_unlines: "list_all plain_line ls \<Longrightarrow> str_lines (unlines ls) = ls"
  by (simp add: str_lines_def split_unlines Let_def butlast_append) (simp add: list_all_iff chop_cr_plain map_idI)

lemma unlines_append [simp]: "unlines (xs @ ys) = unlines xs @ unlines ys" "unlines [] = []"
  by (simp_all add: unlines_def)

section \<open>The dotfile read back\<close>

definition trimmed :: "string \<Rightarrow> bool" where
  "trimmed v \<longleftrightarrow> v \<noteq> [] \<and> \<not> starts_cont v \<and> \<not> is_white (hd (chars v)) \<and> \<not> is_white (last (chars v))"

definition clean_value :: "string \<Rightarrow> bool" where
  "clean_value v \<longleftrightarrow> trimmed v \<and> CHR 0x0A \<notin> set v \<and> CHR 0x0D \<notin> set v"

definition key_char :: "char \<Rightarrow> bool" where
  "key_char c \<longleftrightarrow> (97 \<le> byte_of c \<and> byte_of c \<le> 122) \<or> byte_of c = 95 \<or> (48 \<le> byte_of c \<and> byte_of c \<le> 57)"

lemma str_trim_between:
  assumes "chars s = w1 @ us @ w2" "list_all is_white w1" "list_all is_white w2"
    and "us \<noteq> []" "\<not> is_white (hd us)" "\<not> is_white (last us)"
  shows "str_trim s = concat us"
proof -
  have "dropWhile is_white (chars s) = us @ w2"
    using assms by (cases us) (simp_all add: dropWhile_append1 dropWhile_append2 list_all_iff)
  moreover have "dropWhile is_white (rev (us @ w2)) = rev us"
  proof -
    have "dropWhile is_white (rev w2 @ rev us) = dropWhile is_white (rev us)"
      by (rule dropWhile_append2) (use assms(3) in \<open>simp add: list_all_iff\<close>)
    then show ?thesis using assms(4,6) by (cases us rule: rev_cases) simp_all
  qed
  ultimately show ?thesis by (simp add: str_trim_def)
qed

lemma trimmed_trim: "trimmed v \<Longrightarrow> str_trim v = v"
  using str_trim_between [of v "[]" "chars v" "[]"] by (simp add: trimmed_def)

lemma trim_space_before: "trimmed v \<Longrightarrow> str_trim (CHR 0x20 # v) = v"
proof -
  assume v: "trimmed v"
  then have "chars (CHR 0x20 # v) = [[CHR 0x20]] @ chars v @ []"
    using chars_append [of v "[CHR 0x20]"] by (simp add: trimmed_def is_cont_def byte_of_def)
  then show ?thesis
    using v str_trim_between [of "CHR 0x20 # v" "[[CHR 0x20]]" "chars v" "[]"]
    by (simp add: trimmed_def is_white_def byte_of_def)
qed

lemma key_chars: "list_all key_char k \<Longrightarrow> chars k = map (\<lambda>c. [c]) k"
proof (induction k)
  case (Cons c k)
  then have "takeWhile is_cont k = []" "dropWhile is_cont k = k"
    by (cases k; auto simp: key_char_def is_cont_def)+
  with Cons show ?case by simp
qed simp

lemma key_not_white: "key_char c \<Longrightarrow> \<not> is_white [c]"
  by (auto simp: key_char_def is_white_def)

lemma key_not_cont: "key_char c \<Longrightarrow> \<not> is_cont c"
  by (auto simp: key_char_def is_cont_def)

lemma key_trimmed: "list_all key_char k \<Longrightarrow> k \<noteq> [] \<Longrightarrow> trimmed k"
proof -
  assume k: "list_all key_char k" "k \<noteq> []"
  then have "key_char (hd k)" "key_char (last k)" by (simp_all add: list_all_iff)
  with k show ?thesis
    by (simp add: trimmed_def key_chars hd_map last_map key_not_white starts_cont_def key_not_cont list.case_eq_if)
qed

lemma trim_space_after: "trimmed k \<Longrightarrow> str_trim (k @ [CHR 0x20]) = k"
proof -
  assume k: "trimmed k"
  have "chars (k @ [CHR 0x20]) = [] @ chars k @ [[CHR 0x20]]"
    by (simp add: chars_append starts_cont_def is_cont_def byte_of_def)
  then show ?thesis
    using k str_trim_between [of "k @ [CHR 0x20]" "[]" "chars k" "[[CHR 0x20]]"]
    by (simp add: trimmed_def is_white_def byte_of_def)
qed

lemma trimmed_join: "trimmed k \<Longrightarrow> trimmed v \<Longrightarrow> trimmed (k @ '' = '' @ v)"
proof -
  assume k: "trimmed k" and v: "trimmed v"
  have "chars (k @ '' = '' @ v) = chars k @ chars ('' = '' @ v)"
    by (rule chars_append) (simp add: starts_cont_def is_cont_def byte_of_def)
  also have "chars ('' = '' @ v) = chars '' = '' @ chars v"
    using v by (intro chars_append) (simp add: trimmed_def)
  finally show ?thesis
    using k v by (cases k) (simp_all add: trimmed_def starts_cont_def)
qed

lemma key_lower: "list_all key_char k \<Longrightarrow> to_ascii_lowercase k = k"
  by (auto simp: to_ascii_lowercase_def ascii_lower_def key_char_def byte_of_def list_all_iff intro!: map_idI)

lemma ini_line_kv:
  assumes k: "list_all key_char k" "k \<noteq> []" and v: "clean_value v"
  shows "ini_line m (k @ '' = '' @ v) = m(k \<mapsto> v)"
proof -
  have tk: "trimmed k" and tv: "trimmed v" using k v by (simp_all add: key_trimmed clean_value_def)
  obtain c cs where c: "k = c # cs" using k by (cases k) auto
  have no: "CHR ''='' \<notin> set (k @ '' '')" using k by (auto simp: list_all_iff key_char_def byte_of_def)
  have "split_once (k @ '' = '' @ v) ''='' = Some (k @ '' '', '' '' @ v)"
    using split_once_single [OF no, of "'' '' @ v"] by simp
  moreover have "c \<noteq> CHR ''#''" "c \<noteq> CHR '';''" "c \<noteq> CHR ''[''"
    using k c by (auto simp: key_char_def byte_of_def)
  ultimately show ?thesis
    using c k(1) trim_space_before [OF tv] trim_space_after [OF tk]
    by (simp add: ini_line_def Let_def trimmed_trim [OF trimmed_join [OF tk tv], unfolded c, simplified] key_lower [unfolded c])
qed

definition ini_pairs :: "translated \<Rightarrow> (string \<times> string option) list" where
  "ini_pairs t =
     [(''endpoint_url'', tr_endpoint_url t), (''region'', tr_region t), (''addressing_style'', tr_addressing_style t),
      (''no_verify_ssl'', if tr_no_verify_ssl t then Some ''true'' else None),
      (''ca_certs_file'', tr_ca_certs_file t), (''proxy'', tr_proxy t),
      (''retry_count'', map_option show_nat (tr_retry_count t)),
      (''limitrate'', map_option show_nat (tr_limitrate t)), (''request_payer'', tr_request_payer t)]"

definition pair_lines :: "string \<times> string option \<Rightarrow> string list" where
  "pair_lines p = (case snd p of None \<Rightarrow> [] | Some v \<Rightarrow> [fst p @ '' = '' @ v])"

definition ini_put :: "ini_map \<Rightarrow> string \<times> string option \<Rightarrow> ini_map" where
  "ini_put m p = (case snd p of None \<Rightarrow> m | Some v \<Rightarrow> m(fst p \<mapsto> v))"

lemma ini_put_apply: "ini_put m p j = (if j = fst p then case snd p of None \<Rightarrow> m j | Some v \<Rightarrow> Some v else m j)"
  by (simp add: ini_put_def split: option.split)

lemma key_clean: "list_all key_char k \<Longrightarrow> k \<noteq> [] \<Longrightarrow> clean_value k"
  by (auto simp: clean_value_def key_trimmed list_all_iff key_char_def byte_of_def)

definition clean_pair :: "string \<times> string option \<Rightarrow> bool" where
  "clean_pair p \<longleftrightarrow> list_all key_char (fst p) \<and> fst p \<noteq> [] \<and> pred_option clean_value (snd p)"

lemma to_rs5cmd_ini_lines:
  "to_rs5cmd_ini t =
     unlines ([''# rs5cmd config (generated by `import-s3cfg`)'', ''[rs5cmd]''] @ concat (map pair_lines (ini_pairs t)))"
  by (simp add: to_rs5cmd_ini_def ini_pairs_def pair_lines_def ini_opt_def ini_kv_def unlines_def split: option.splits)

lemma pair_lines_plain: "clean_pair p \<Longrightarrow> list_all plain_line (pair_lines p)"
  using key_clean [of "fst p"]
  by (cases "snd p") (simp_all add: clean_pair_def pair_lines_def plain_line_def clean_value_def)

lemma pair_lines_read:
  "clean_pair p \<Longrightarrow> foldl ini_line m (pair_lines p) = ini_put m p"
  by (cases "snd p") (simp_all add: ini_put_def clean_pair_def pair_lines_def ini_line_kv del: append.simps)

lemma pairs_read:
  "list_all clean_pair ps \<Longrightarrow>
   foldl ini_line m (concat (map pair_lines ps)) = foldl ini_put m ps"
  by (induction ps arbitrary: m) (simp_all add: pair_lines_read)

lemma parse_to_rs5cmd_ini:
  assumes "list_all clean_pair (ini_pairs t)"
  shows "parse_ini (to_rs5cmd_ini t) =
           foldl ini_put (\<lambda>_. None) (ini_pairs t)"
proof -
  have plain: "list_all plain_line ([''# rs5cmd config (generated by `import-s3cfg`)'', ''[rs5cmd]'']
      @ concat (map pair_lines (ini_pairs t)))"
    using assms pair_lines_plain by (fastforce simp: list_all_iff plain_line_def)
  have head: "ini_line (ini_line (\<lambda>_. None) ''# rs5cmd config (generated by `import-s3cfg`)'') ''[rs5cmd]'' = (\<lambda>_. None)"
  proof -
    have "str_trim ''# rs5cmd config (generated by `import-s3cfg`)'' = ''# rs5cmd config (generated by `import-s3cfg`)''"
      "str_trim ''[rs5cmd]'' = ''[rs5cmd]''" by code_simp+
    then show ?thesis by (simp add: ini_line_def)
  qed
  show ?thesis
    unfolding parse_ini_def to_rs5cmd_ini_lines str_lines_unlines [OF plain]
    using head pairs_read [OF assms] by (simp del: concat.simps)
qed

definition dotfile_ok :: "translated \<Rightarrow> bool" where
  "dotfile_ok t \<longleftrightarrow>
     list_all (pred_option clean_value)
       [tr_endpoint_url t, tr_region t, tr_addressing_style t, tr_ca_certs_file t, tr_proxy t, tr_request_payer t]
     \<and> pred_option (\<lambda>n. n \<le> 4294967295) (tr_retry_count t) \<and> pred_option (\<lambda>n. n \<le> u64_max) (tr_limitrate t)"

lemma show_nat_key: "list_all key_char (show_nat n)"
  using show_nat_digits [of n] by (auto simp: list_all_iff is_digit_def key_char_def)

lemma show_nat_clean: "clean_value (show_nat n)"
  using show_nat_digits [of n] by (simp add: key_clean show_nat_key)

lemma dotfile_pairs: "dotfile_ok t \<Longrightarrow> list_all clean_pair (ini_pairs t)"
  by (simp add: dotfile_ok_def ini_pairs_def clean_pair_def show_nat_clean key_char_def byte_of_def
      option.pred_map comp_def key_clean option.pred_True)

lemma clean_trim: "clean_value v \<Longrightarrow> str_trim v = v \<and> v \<noteq> []"
  by (auto simp: clean_value_def trimmed_trim trimmed_def)

text \<open>
  C31. The dotfile written by the import is read back exactly: for settings whose values have no
  surrounding blanks and no line break, parsing the text of \<^verbatim>\<open>to_rs5cmd_ini\<close> and reading the map
  with \<^verbatim>\<open>from_rs5cmd\<close> gives the same settings, less the credentials and the warnings, which are
  never written to it.
\<close>

theorem rs5cmd_ini_round_trip:
  assumes "dotfile_ok t"
  shows "from_rs5cmd B (parse_ini (to_rs5cmd_ini t)) =
           t\<lparr>tr_access_key := None, tr_secret_key := None, tr_session_token := None, tr_warnings := []\<rparr>"
proof -
  have v: "\<And>v. tr_endpoint_url t = Some v \<Longrightarrow> str_trim v = v \<and> v \<noteq> []"
    "\<And>v. tr_region t = Some v \<Longrightarrow> str_trim v = v \<and> v \<noteq> []"
    "\<And>v. tr_addressing_style t = Some v \<Longrightarrow> str_trim v = v \<and> v \<noteq> []"
    "\<And>v. tr_ca_certs_file t = Some v \<Longrightarrow> str_trim v = v \<and> v \<noteq> []"
    "\<And>v. tr_proxy t = Some v \<Longrightarrow> str_trim v = v \<and> v \<noteq> []"
    "\<And>v. tr_request_payer t = Some v \<Longrightarrow> str_trim v = v \<and> v \<noteq> []"
    using assms by (auto simp: dotfile_ok_def clean_trim)
  have n: "\<And>n. str_trim (show_nat n) = show_nat n" "\<And>n. show_nat n \<noteq> []"
    using clean_trim [OF show_nat_clean] by auto
  have u: "tr_retry_count t = Some k \<Longrightarrow> parse_unsigned 4294967295 (show_nat k) = Some k"
    "tr_limitrate t = Some l \<Longrightarrow> parse_unsigned u64_max (show_nat l) = Some l" for k l
    using assms by (simp_all add: dotfile_ok_def parse_show_unsigned)
  have b: "parse_bool ''true'' = Some True" by code_simp
  show ?thesis
    unfolding parse_to_rs5cmd_ini [OF dotfile_pairs [OF assms]]
    by (rule translated.equality)
       (simp_all add: from_rs5cmd_def ini_pairs_def ini_nonempty_def ini_bool_def ini_put_apply parse_byte_rate_def b u n
         split: option.split, auto dest!: v simp: Let_def n u)
qed

definition demo_translated :: translated where
  "demo_translated = default_translated
     \<lparr>tr_access_key := Some ''AK'', tr_endpoint_url := Some ''https://h:9000'', tr_no_verify_ssl := True,
      tr_retry_count := Some 7, tr_limitrate := Some 1048576\<rparr>"

theorem rs5cmd_ini_round_trip_witness:
  "from_rs5cmd \<lparr>sl_parse = (\<lambda>_. Err []), sl_debug = (\<lambda>s. s)\<rparr> (parse_ini (to_rs5cmd_ini demo_translated))
     = demo_translated\<lparr>tr_access_key := None\<rparr> \<and> dotfile_ok demo_translated"
proof -
  have "clean_value ''https://h:9000''" by code_simp
  then have ok: "dotfile_ok demo_translated"
    by (simp add: dotfile_ok_def demo_translated_def default_translated_def)
  show ?thesis
    using rs5cmd_ini_round_trip [OF ok, of "\<lparr>sl_parse = (\<lambda>_. Err []), sl_debug = (\<lambda>s. s)\<rparr>"] ok
    by (simp add: demo_translated_def default_translated_def)
qed

section \<open>Profiles of the credentials file\<close>

definition is_header :: "string \<Rightarrow> bool" where
  "is_header l \<longleftrightarrow> starts_with (str_trim l) ''['' \<and> ends_with (str_trim l) '']''"

text \<open>The lines under the headers \<^verbatim>\<open>h\<close>, given the header in force.\<close>

fun section_lines :: "string \<Rightarrow> string \<Rightarrow> string list \<Rightarrow> string list" where
  "section_lines h cur [] = []"
| "section_lines h cur (l # ls) =
     (if is_header l then section_lines h (str_trim l) ls
      else (if cur = h then [l] else []) @ section_lines h cur ls)"

text \<open>What the loop writes, as lines.\<close>

fun replaced_lines :: "string \<Rightarrow> string list \<Rightarrow> bool \<Rightarrow> string list \<Rightarrow> string list" where
  "replaced_lines h new skip [] = []"
| "replaced_lines h new skip (l # ls) =
     (if is_header l then if str_trim l = h then new @ replaced_lines h new True ls else l # replaced_lines h new False ls
      else (if skip then [] else [l]) @ replaced_lines h new skip ls)"

lemma with_newline_unlines: "ls \<noteq> [] \<Longrightarrow> with_newline (unlines ls) = unlines ls"
  by (cases ls rule: rev_cases) (simp_all add: with_newline_def unlines_def ends_with_iff)

lemma replace_fold:
  assumes "new \<noteq> []"
  shows "is_out (foldl (replace_line name (unlines new)) st ls)
           = is_out st @ unlines (replaced_lines (''['' @ name @ '']'') new (is_skipping st) ls)
       \<and> (is_replaced (foldl (replace_line name (unlines new)) st ls)
           \<longleftrightarrow> is_replaced st \<or> (\<exists>l \<in> set ls. is_header l \<and> str_trim l = ''['' @ name @ '']''))"
proof (induction ls arbitrary: st)
  case (Cons l ls)
  show ?case
  proof (cases "is_header l")
    case True
    then have h: "starts_with (str_trim l) ''[''" "ends_with (str_trim l) '']''" by (simp_all add: is_header_def)
    show ?thesis
    proof (cases "str_trim l = ''['' @ name @ '']''")
      case t: True
      then have "replace_line name (unlines new) st l
          = st\<lparr>is_out := is_out st @ unlines new, is_skipping := True, is_replaced := True\<rparr>"
        using h by (simp add: replace_line_def with_newline_unlines [OF assms])
      with True t show ?thesis by (simp add: Cons)
    next
      case f: False
      then have "replace_line name (unlines new) st l = st\<lparr>is_skipping := False, is_out := is_out st @ unlines [l]\<rparr>"
        using h by (simp add: replace_line_def unlines_def)
      with True f show ?thesis by (simp add: Cons) (simp add: unlines_def)
    qed
  next
    case False
    then have "replace_line name (unlines new) st l
        = (if is_skipping st then st else st\<lparr>is_out := is_out st @ unlines [l]\<rparr>)"
      by (auto simp: is_header_def replace_line_def Let_def unlines_def)
    with False show ?thesis by (simp add: Cons)
  qed
qed simp

text \<open>The lines of the file after the replacement.\<close>

definition merged_lines :: "string \<Rightarrow> string list \<Rightarrow> string list \<Rightarrow> string list" where
  "merged_lines h new ls =
     replaced_lines h new False ls @ (if \<exists>l \<in> set ls. is_header l \<and> str_trim l = h then [] else new)"

lemma unlines_end: "unlines ls = [] \<or> ends_with (unlines ls) [CHR 0x0A]"
  by (cases ls rule: rev_cases) (simp_all add: unlines_def ends_with_iff)

lemma replace_ini_section_lines:
  assumes "new \<noteq> []"
  shows "replace_ini_section txt name (unlines new) = unlines (merged_lines (''['' @ name @ '']'') new (str_lines txt))"
  using replace_fold [OF assms, of name "\<lparr>is_out = [], is_skipping = False, is_replaced = False\<rparr>" "str_lines txt"]
    unlines_end [of "replaced_lines (''['' @ name @ '']'') new False (str_lines txt)"]
  by (auto simp: replace_ini_section_def Let_def merged_lines_def with_newline_unlines [OF assms])

lemma section_lines_append:
  "section_lines h cur (xs @ ys) = section_lines h cur xs @ section_lines h (foldl (\<lambda>c l. if is_header l then str_trim l else c) cur xs) ys"
  by (induction xs arbitrary: cur) simp_all

lemma section_lines_body: "list_all (\<lambda>l. \<not> is_header l) b \<Longrightarrow> section_lines h cur b = (if cur = h then b else [])"
  by (induction b) simp_all

lemma current_body: "list_all (\<lambda>l. \<not> is_header l) b \<Longrightarrow> foldl (\<lambda>c l. if is_header l then str_trim l else c) cur b = cur"
  by (induction b) simp_all

lemma replaced_lines_other:
  assumes "is_header hl" "str_trim hl = h" "list_all (\<lambda>l. \<not> is_header l) body" "p \<noteq> h"
    and "skip \<longleftrightarrow> cur = h"
  shows "section_lines p cur (replaced_lines h (hl # body) skip ls) = section_lines p cur ls"
  using assms(5)
proof (induction ls arbitrary: skip cur)
  case (Cons l ls)
  have h: "section_lines p h (replaced_lines h (hl # body) True ls) = section_lines p h ls"
    by (rule Cons.IH) simp
  have o: "section_lines p c (replaced_lines h (hl # body) False ls) = section_lines p c ls" if "c \<noteq> h" for c
    using that by (intro Cons.IH) simp
  show ?case
    using Cons.prems assms(1-4) h o
    by (cases "is_header l"; cases "cur = h"; cases "str_trim l = h")
       (simp_all add: section_lines_append section_lines_body current_body)
qed simp

lemma replaced_lines_own:
  assumes "is_header hl" "str_trim hl = h" "list_all (\<lambda>l. \<not> is_header l) body"
    and "skip \<longleftrightarrow> cur = h"
  shows "section_lines h cur (replaced_lines h (hl # body) skip ls)
           = concat (map (\<lambda>_. body) (filter (\<lambda>l. is_header l \<and> str_trim l = h) ls))"
  using assms(4)
proof (induction ls arbitrary: skip cur)
  case (Cons l ls)
  have h: "section_lines h h (replaced_lines h (hl # body) True ls)
      = concat (map (\<lambda>_. body) (filter (\<lambda>l. is_header l \<and> str_trim l = h) ls))"
    by (rule Cons.IH) simp
  have o: "section_lines h c (replaced_lines h (hl # body) False ls)
      = concat (map (\<lambda>_. body) (filter (\<lambda>l. is_header l \<and> str_trim l = h) ls))" if "c \<noteq> h" for c
    using that by (intro Cons.IH) simp
  show ?case
    using Cons.prems assms(1-3) h o
    by (cases "is_header l"; cases "cur = h"; cases "str_trim l = h")
       (simp_all add: section_lines_append section_lines_body current_body)
qed simp

lemma merged_lines_other:
  assumes "is_header hl" "str_trim hl = h" "list_all (\<lambda>l. \<not> is_header l) body" "p \<noteq> h" "h \<noteq> []"
  shows "section_lines p [] (merged_lines h (hl # body) ls) = section_lines p [] ls"
proof -
  have "section_lines p [] (replaced_lines h (hl # body) False ls) = section_lines p [] ls"
    using assms by (intro replaced_lines_other) simp_all
  then show ?thesis using assms by (simp add: merged_lines_def section_lines_append section_lines_body)
qed

lemma merged_lines_own:
  assumes "is_header hl" "str_trim hl = h" "list_all (\<lambda>l. \<not> is_header l) body" "h \<noteq> []"
    and "length (filter (\<lambda>l. is_header l \<and> str_trim l = h) ls) \<le> 1"
  shows "section_lines h [] (merged_lines h (hl # body) ls) = body"
proof -
  have own: "section_lines h [] (replaced_lines h (hl # body) False ls)
      = concat (map (\<lambda>_. body) (filter (\<lambda>l. is_header l \<and> str_trim l = h) ls))"
    using assms(1-4) by (intro replaced_lines_own) simp_all
  consider "filter (\<lambda>l. is_header l \<and> str_trim l = h) ls = []"
    | l where "filter (\<lambda>l. is_header l \<and> str_trim l = h) ls = [l]"
    using assms(5) by (cases "filter (\<lambda>l. is_header l \<and> str_trim l = h) ls") auto
  then show ?thesis
  proof cases
    case 1
    then have "(\<exists>l \<in> set ls. is_header l \<and> str_trim l = h) = False" by (auto simp: filter_empty_conv)
    with own 1 assms(1-4) show ?thesis by (simp only: merged_lines_def) (simp add: section_lines_append section_lines_body)
  next
    case 2
    then have "\<exists>l \<in> set ls. is_header l \<and> str_trim l = h" 
      using filter_eq_ConsD by fastforce
    with own 2 show ?thesis by (simp add: merged_lines_def)
  qed
qed

lemma set_split_on: "x \<in> set (split_on d s) \<Longrightarrow> set x \<subseteq> set s"
proof (induction s arbitrary: x)
  case (Cons c s)
  obtain a xs where a: "split_on d s = a # xs" by (cases "split_on d s") auto
  show ?case using Cons.prems Cons.IH [of a] Cons.IH [of x] a by (auto split: if_splits)
qed simp

lemma set_chop_cr: "set (chop_cr l) \<subseteq> set l"
  by (auto simp: chop_cr_def strip_suffix_def dest: in_set_takeD)

lemma plain_str_lines: "CHR 0x0D \<notin> set s \<Longrightarrow> list_all plain_line (str_lines s)"
proof -
  assume cr: "CHR 0x0D \<notin> set s"
  have "plain_line x" if "x \<in> set (split_on (CHR 0x0A) s)" for x
    using that cr set_split_on [of x _ s] split_on_no_sep [of x _ s] by (auto simp: plain_line_def)
  then show ?thesis
    by (auto simp: str_lines_def Let_def list_all_iff chop_cr_plain dest: in_set_butlastD)
qed

lemma plain_replaced: "list_all plain_line new \<Longrightarrow> list_all plain_line ls \<Longrightarrow> list_all plain_line (replaced_lines h new skip ls)"
  by (induction ls arbitrary: skip) simp_all

lemma plain_merged: "list_all plain_line new \<Longrightarrow> list_all plain_line ls \<Longrightarrow> list_all plain_line (merged_lines h new ls)"
  by (simp add: merged_lines_def plain_replaced)

lemma kv_not_header:
  assumes "list_all key_char k" "k \<noteq> []" "clean_value v"
  shows "\<not> is_header (k @ '' = '' @ v) \<and> plain_line (k @ '' = '' @ v)"
proof -
  have "str_trim (k @ '' = '' @ v) = k @ '' = '' @ v"
    using assms by (intro trimmed_trim trimmed_join) (simp_all add: clean_value_def key_trimmed)
  moreover have "\<not> starts_with (k @ '' = '' @ v) ''[''"
    using assms by (cases k) (auto simp: key_char_def byte_of_def)
  ultimately show ?thesis
    using assms(3) key_clean [OF assms(1,2)] by (simp add: is_header_def plain_line_def clean_value_def)
qed

definition credential_lines :: "string \<Rightarrow> string \<Rightarrow> string option \<Rightarrow> string list" where
  "credential_lines ak sk tok =
     [''aws_access_key_id = '' @ ak, ''aws_secret_access_key = '' @ sk]
     @ (case tok of None \<Rightarrow> [] | Some t \<Rightarrow> [''aws_session_token = '' @ t])"

lemma credential_lines_ok:
  assumes "clean_value ak" "clean_value sk" "pred_option clean_value tok"
  shows "list_all (\<lambda>l. \<not> is_header l \<and> plain_line l) (credential_lines ak sk tok)"
  using kv_not_header [of "''aws_access_key_id''" ak] kv_not_header [of "''aws_secret_access_key''" sk]
    kv_not_header [of "''aws_session_token''"] assms
  by (auto simp: credential_lines_def key_char_def byte_of_def split: option.split)

lemma credentials_section_lines:
  "credentials_section profile ak sk tok = unlines ((''['' @ profile @ '']'') # credential_lines ak sk tok)"
  by (simp add: credentials_section_def credential_lines_def ini_kv_def ini_opt_def unlines_def split: option.split)

lemma header_line:
  assumes "\<not> starts_cont profile" "plain_line profile"
  shows "is_header (''['' @ profile @ '']'') \<and> str_trim (''['' @ profile @ '']'') = ''['' @ profile @ '']''
           \<and> plain_line (''['' @ profile @ '']'')"
proof -
  have "chars (''['' @ profile @ '']'') = chars ''['' @ chars profile @ chars '']''"
    using assms(1) by (subst chars_append; simp add: chars_append starts_cont_def is_cont_def byte_of_def split: list.splits)+
  then have "trimmed (''['' @ profile @ '']'')"
    by (simp add: trimmed_def is_white_def starts_cont_def is_cont_def byte_of_def)
  with assms(2) show ?thesis by (simp add: is_header_def trimmed_trim plain_line_def ends_with_def)
qed

text \<open>
  Writing credentials under a profile keeps every other profile of the credentials file: for a
  file without carriage returns, every other header keeps exactly its lines, and the profile named
  holds exactly the new keys when the file had its header at most once.
\<close>

theorem credentials_keep_other_profiles:
  assumes "CHR 0x0D \<notin> set txt" "\<not> starts_cont profile" "plain_line profile"
    and "clean_value ak" "clean_value sk" "pred_option clean_value tok"
    and "h = ''['' @ profile @ '']''"
    and "out = replace_ini_section txt profile (credentials_section profile ak sk tok)"
  shows "(\<forall>p. p \<noteq> h \<longrightarrow> section_lines p [] (str_lines out) = section_lines p [] (str_lines txt))
       \<and> (length (filter (\<lambda>l. is_header l \<and> str_trim l = h) (str_lines txt)) \<le> 1
            \<longrightarrow> section_lines h [] (str_lines out) = credential_lines ak sk tok)"
proof -
  have hd: "is_header h" "str_trim h = h" "plain_line h" "h \<noteq> []"
    using header_line assms(2,3,7) by auto
  have body: "list_all (\<lambda>l. \<not> is_header l) (credential_lines ak sk tok)" "list_all plain_line (credential_lines ak sk tok)"
    using credential_lines_ok assms(4-6) by (auto simp: list_all_iff)
  have "out = unlines (merged_lines h (h # credential_lines ak sk tok) (str_lines txt))"
    using assms(7,8) by (simp only: credentials_section_lines replace_ini_section_lines list.simps simp_thms not_False_eq_True)
  then have "str_lines out = merged_lines h (h # credential_lines ak sk tok) (str_lines txt)"
    using hd body plain_str_lines [OF assms(1)] by (simp add: str_lines_unlines plain_merged)
  then show ?thesis
    using merged_lines_other [OF hd(1,2) body(1)] merged_lines_own [OF hd(1,2) body(1)] hd(4) by simp
qed

definition demo_credentials :: string where
  "demo_credentials = unlines [''[other]'', ''k = v'', ''[default]'', ''aws_access_key_id = OLD'']"

theorem credentials_keep_other_profiles_witness:
  "section_lines ''[other]'' [] (str_lines (replace_ini_section demo_credentials ''default''
      (credentials_section ''default'' ''AK'' ''SK'' None))) = [''k = v'']
   \<and> section_lines ''[default]'' [] (str_lines (replace_ini_section demo_credentials ''default''
      (credentials_section ''default'' ''AK'' ''SK'' None)))
     = [''aws_access_key_id = AK'', ''aws_secret_access_key = SK'']"
proof -
  let ?out = "replace_ini_section demo_credentials ''default'' (credentials_section ''default'' ''AK'' ''SK'' None)"
  have p: "CHR 0x0D \<notin> set demo_credentials" "\<not> starts_cont ''default''" "plain_line ''default''"
    by (simp_all add: demo_credentials_def unlines_def starts_cont_def is_cont_def byte_of_def plain_line_def)
  have v: "clean_value ''AK''" "clean_value ''SK''" by code_simp+
  have l: "section_lines ''[other]'' [] (str_lines demo_credentials) = [''k = v'']"
    "length (filter (\<lambda>l. is_header l \<and> str_trim l = ''[default]'') (str_lines demo_credentials)) = 1"
    by code_simp+
  note main = credentials_keep_other_profiles [OF p v _ refl refl, of None]
  show ?thesis using main l by (simp add: credential_lines_def)
qed

end
