(* ===== verification/Console.thy ===== *)
theory Console
  imports Local_Fs
begin

text \<open>
  What the commands share of the terminal (\<^verbatim>\<open>src/output.rs\<close>): standard output as the bytes written so
  far, with the write that fails given by the operating system; the output mode, which the program
  keeps in process-wide flags set once at start; and the texts that come from outside the repository
  (the Debug form of strings and URLs, \<^verbatim>\<open>humansize\<close>, \<^verbatim>\<open>serde_json\<close>, the formatting and parsing of times by
  the \<^verbatim>\<open>time\<close> crate). A JSON object is the list of its members; a line printed by \<^verbatim>\<open>println\<close> always
  succeeds, since a failure ends the process.
\<close>

datatype json = JString string | JInt int | JBool bool | JObject "(string \<times> json) list"

record console =
  co_write :: "nat \<Rightarrow> error option"
  co_flush :: "nat \<Rightarrow> error option"
  co_debug :: "string \<Rightarrow> string"
  co_debug_url :: "url \<Rightarrow> string"
  co_humansize :: "nat \<Rightarrow> string"
  co_format_time :: "bool \<Rightarrow> int \<Rightarrow> string"
  co_json :: "json \<Rightarrow> string"
  co_rfc3339 :: "string \<Rightarrow> (string, int) result"

text \<open>The process-wide flags.\<close>

record out_mode =
  om_json :: bool
  om_dry_run :: bool
  om_color :: bool

datatype color_choice = AutoColor | AlwaysColor | NeverColor

definition set_color :: "env \<Rightarrow> bool \<Rightarrow> color_choice \<Rightarrow> out_mode \<Rightarrow> out_mode" where
  "set_color E is_terminal choice m =
     (let no_color = (case env_var E ''NO_COLOR'' of Some v \<Rightarrow> v \<noteq> [] | None \<Rightarrow> False);
          enabled = (case choice of NeverColor \<Rightarrow> False | AlwaysColor \<Rightarrow> True | AutoColor \<Rightarrow> is_terminal \<and> \<not> no_color)
      in m\<lparr>om_color := enabled \<and> \<not> om_json m\<rparr>)"

definition paint :: "string \<Rightarrow> out_mode \<Rightarrow> string \<Rightarrow> string" where
  "paint code m s = (if om_color m then [CHR 0x1B] @ ''['' @ code @ ''m'' @ s @ [CHR 0x1B] @ ''[0m'' else s)"

definition paint_dir :: "out_mode \<Rightarrow> string \<Rightarrow> string" where
  "paint_dir = paint ''34''"

definition paint_object :: "out_mode \<Rightarrow> string \<Rightarrow> string" where
  "paint_object = paint ''32''"

definition paint_error :: "out_mode \<Rightarrow> string \<Rightarrow> string" where
  "paint_error = paint ''31''"

text \<open>The two streams of a process; \<^verbatim>\<open>println\<close> and \<^verbatim>\<open>eprintln\<close>.\<close>

record streams =
  st_out :: string
  st_err :: string

definition println :: "string \<Rightarrow> streams \<Rightarrow> streams" where
  "println line st = st\<lparr>st_out := st_out st @ line @ [CHR 0x0A]\<rparr>"

definition eprintln :: "string \<Rightarrow> streams \<Rightarrow> streams" where
  "eprintln line st = st\<lparr>st_err := st_err st @ line @ [CHR 0x0A]\<rparr>"

definition op_success :: "console \<Rightarrow> out_mode \<Rightarrow> string \<Rightarrow> string \<Rightarrow> string option \<Rightarrow> streams \<Rightarrow> streams" where
  "op_success K m op src dst =
     (if om_json m then
        println (co_json K (JObject ([(''operation'', JString op), (''success'', JBool True), (''source'', JString src)]
          @ (case dst of Some d \<Rightarrow> [(''destination'', JString d)] | None \<Rightarrow> [])
          @ (if om_dry_run m then [(''dryRun'', JBool True)] else []))))
      else
        let marker = (if om_dry_run m then ''(dry-run) '' else []) in
        println (marker @ op @ '' '' @ src @ (case dst of Some d \<Rightarrow> '' '' @ d | None \<Rightarrow> [])))"

definition op_error :: "console \<Rightarrow> out_mode \<Rightarrow> string \<Rightarrow> string \<Rightarrow> string option \<Rightarrow> string \<Rightarrow> streams \<Rightarrow> streams" where
  "op_error K m op src dst err =
     (if om_json m then
        println (co_json K (JObject ([(''operation'', JString op), (''success'', JBool False), (''source'', JString src),
          (''error'', JString err)] @ (case dst of Some d \<Rightarrow> [(''destination'', JString d)] | None \<Rightarrow> []))))
      else eprintln (paint_error m ''ERROR'' @ '' '' @ op @ '' '' @ src @ (case dst of Some d \<Rightarrow> '' '' @ d | None \<Rightarrow> []) @ '': '' @ err))"

definition json_line :: "console \<Rightarrow> json \<Rightarrow> streams \<Rightarrow> streams" where
  "json_line K v = println (co_json K v)"

definition show_int :: "int \<Rightarrow> string" where
  "show_int n = (if n < 0 then ''-'' @ show_nat (nat (- n)) else show_nat (nat n))"

text \<open>Padding counts characters.\<close>

definition pad_left :: "nat \<Rightarrow> string \<Rightarrow> string" where
  "pad_left n s = replicate (n - length (chars s)) (CHR 0x20) @ s"

definition pad_right :: "nat \<Rightarrow> string \<Rightarrow> string" where
  "pad_right n s = s @ replicate (n - length (chars s)) (CHR 0x20)"

text \<open>\<^verbatim>\<open>i64\<close> addition, which wraps in a release build.\<close>

definition i64_add :: "int \<Rightarrow> int \<Rightarrow> int" where
  "i64_add a b = (a + b + 2 ^ 63) mod 2 ^ 64 - 2 ^ 63"

text \<open>\<^verbatim>\<open>write_all\<close> on standard output.\<close>

definition write_out :: "console \<Rightarrow> string \<Rightarrow> string \<Rightarrow> (error, unit) result \<times> string" where
  "write_out K out data = (case co_write K (length out) of Some e \<Rightarrow> (Err e, out) | None \<Rightarrow> (Ok (), out @ data))"

fun write_chunks :: "console \<Rightarrow> string list \<Rightarrow> string \<Rightarrow> (error, unit) result \<times> string" where
  "write_chunks K [] out = (Ok (), out)"
| "write_chunks K (c # cs) out =
     (case write_out K out c of (Inl e, o1) \<Rightarrow> (Err e, o1) | (Inr _, o1) \<Rightarrow> write_chunks K cs o1)"

definition flush_out :: "console \<Rightarrow> string \<Rightarrow> (error, unit) result" where
  "flush_out K out = (case co_flush K (length out) of Some e \<Rightarrow> Err e | None \<Rightarrow> Ok ())"

lemma write_chunks_Ok: "write_chunks K cs out = (Inr x, o1) \<Longrightarrow> o1 = out @ concat cs"
proof (induction cs arbitrary: out)
  case (Cons c cs)
  then have "write_chunks K cs (out @ c) = (Inr x, o1)" by (auto simp: write_out_def split: option.splits)
  from Cons.IH [OF this] show ?case by simp
qed simp

lemma write_chunks_prefix: "write_chunks K cs out = (r, o1) \<Longrightarrow> \<exists>d e. o1 = out @ d \<and> concat cs = d @ e"
proof (induction cs arbitrary: out)
  case (Cons c cs)
  then show ?case
    by (cases "co_write K (length out)") (auto simp: write_out_def dest!: Cons.IH)
qed simp

definition demo_console :: console where
  "demo_console = \<lparr>co_write = (\<lambda>_. None), co_flush = (\<lambda>_. None), co_debug = id, co_debug_url = absolute, co_humansize = show_nat,
     co_format_time = (\<lambda>_ t. show_nat (nat t)),
     co_json = (\<lambda>_. ''{}''), co_rfc3339 = (\<lambda>_. Err ''unknown format'')\<rparr>"

end
