(* ===== verification/Pipe.thy ===== *)
theory Pipe
  imports Console
begin

text \<open>
  The \<^verbatim>\<open>pipe\<close> command (\<^verbatim>\<open>src/command/pipe.rs\<close>): standard input is read in parts and stored with one
  request or a multipart upload. Standard input is the list of what its reads report, chunks of
  bytes or errors; a read of a given size returns at most that many bytes of the first chunk. The
  semaphore only bounds how many parts are in memory. When a read fails, the part uploads spawned
  before are dropped; \<open>dropped\<close> says which of them had been performed by then, in which order.
\<close>

abbreviation MIN_PART_SIZE_MIB :: nat where
  "MIN_PART_SIZE_MIB \<equiv> 5"

abbreviation DEFAULT_PART_SIZE_MIB :: nat where
  "DEFAULT_PART_SIZE_MIB \<equiv> 8"

section \<open>Reading parts\<close>

type_synonym stdin = "(error, string) result list"

definition read_some :: "nat \<Rightarrow> stdin \<Rightarrow> (error, string) result \<times> stdin" where
  "read_some space ins =
     (case ins of
        [] \<Rightarrow> (Ok [], [])
      | Inl e # rest \<Rightarrow> (Err e, rest)
      | Inr c # rest \<Rightarrow> if length c \<le> space then (Ok c, rest) else (Ok (take space c), Inr (drop space c) # rest))"

function read_loop :: "nat \<Rightarrow> string \<Rightarrow> stdin \<Rightarrow> (error, string) result \<times> stdin" where
  "read_loop cap buf ins =
     (if length buf < cap then
        (case read_some (cap - length buf) ins of
           (Inl e, rest) \<Rightarrow> (Err e, rest)
         | (Inr d, rest) \<Rightarrow> if d = [] then (Ok buf, rest) else read_loop cap (buf @ d) rest)
      else (Ok buf, ins))"
  by auto
termination by (relation "measure (\<lambda>(cap, buf, ins). cap - length buf)") (auto simp flip: length_greater_0_conv)

declare read_loop.simps [simp del]

definition read_part :: "nat \<Rightarrow> stdin \<Rightarrow> (error, string) result \<times> stdin" where
  "read_part cap ins = read_loop cap [] ins"

fun stdin_bytes :: "stdin \<Rightarrow> nat" where
  "stdin_bytes [] = 0"
| "stdin_bytes (Inl e # ins) = stdin_bytes ins"
| "stdin_bytes (Inr c # ins) = length c + stdin_bytes ins"

lemma read_some_bytes: "read_some n ins = (Inr d, rest) \<Longrightarrow> length d + stdin_bytes rest = stdin_bytes ins \<and> length d \<le> n"
  by (auto simp: read_some_def split: list.splits sum.splits if_splits)

lemma read_loop_bytes:
  "read_loop cap buf ins = (Inr b, rest) \<Longrightarrow> length b + stdin_bytes rest = length buf + stdin_bytes ins"
proof (induction cap buf ins rule: read_loop.induct)
  case (1 cap buf ins)
  show ?case
  proof (cases "length buf < cap")
    case True
    obtain r rest1 where r: "read_some (cap - length buf) ins = (r, rest1)" by fastforce
    with 1 True show ?thesis
      by (cases r) (auto simp: read_loop.simps [of cap buf] dest!: read_some_bytes split: if_splits)
  qed (use 1 in \<open>simp add: read_loop.simps [of cap buf]\<close>)
qed

lemma read_part_bytes: "read_part cap ins = (Inr b, rest) \<Longrightarrow> length b + stdin_bytes rest = stdin_bytes ins"
  using read_loop_bytes [of cap "[]" ins b rest] by (simp add: read_part_def)

text \<open>The parts the upload loop hands to its tasks, and the error that ends it early.\<close>

function pipe_parts :: "nat \<Rightarrow> string \<Rightarrow> stdin \<Rightarrow> string list \<times> error option" where
  "pipe_parts part_size buf ins =
     (case read_part part_size ins of
        (Inl e, rest) \<Rightarrow> ([buf], Some e)
      | (Inr b, rest) \<Rightarrow>
          if b = [] then ([buf], None)
          else (case pipe_parts part_size b rest of (bs, e) \<Rightarrow> (buf # bs, e)))"
  by auto
termination
proof (relation "measure (\<lambda>(part_size, buf, ins). stdin_bytes ins)")
  fix part_size buf ins r rest b
  assume "(r, rest) = read_part part_size ins" "r = Inr b" "b \<noteq> []"
  then show "((part_size, b, rest), part_size, buf, ins) \<in> measure (\<lambda>(part_size, buf, ins). stdin_bytes ins)"
    using read_part_bytes [of part_size ins b rest] by (cases b) auto
qed simp

declare pipe_parts.simps [simp del]

section \<open>Uploading\<close>

definition put_reader :: "'s sdk \<Rightarrow> s3 \<Rightarrow> string \<Rightarrow> url \<Rightarrow> metadata \<Rightarrow> ('s, unit) io" where
  "put_reader C s body dst md w =
     (if s3_dry_run s then (Ok (), w)
      else
        let req = (plain_put (dst_ref s dst) body)
              \<lparr>pr_content_type := Some (unwrap_or octet_stream (md_content_type md)),
               pr_storage_class := non_empty (md_storage_class md), pr_acl := non_empty (md_acl md),
               pr_cache_control := non_empty (md_cache_control md),
               pr_content_encoding := non_empty (md_content_encoding md),
               pr_content_disposition := non_empty (md_content_disposition md),
               pr_sse := non_empty (md_encryption_method md), pr_kms_key_id := non_empty (md_encryption_key_id md),
               pr_metadata := md_user_defined md\<rparr>
        in send_try (sdk_put C req) w)"

definition pipe_part :: "'s sdk \<Rightarrow> s3 \<Rightarrow> url \<Rightarrow> string \<Rightarrow> string list \<Rightarrow> nat \<Rightarrow> ('s, completed_part) io" where
  "pipe_part C s dst upload_id bufs i =
     (let pn = as_i32 (i + 1) in
      io_bind (send_try (sdk_upload_part C (dst_ref s dst) upload_id pn (bufs ! i))) (\<lambda>etag.
        io_return \<lparr>cp_number = pn, cp_etag = etag\<rparr>))"

definition upload_parts_from_reader ::
  "'s sdk \<Rightarrow> (nat list \<Rightarrow> nat list) \<Rightarrow> (nat list \<Rightarrow> nat list) \<Rightarrow> s3 \<Rightarrow> stdin \<Rightarrow> string \<Rightarrow> url \<Rightarrow> string \<Rightarrow> nat
     \<Rightarrow> ('s, completed_part list) io" where
  "upload_parts_from_reader C sched dropped s ins first dst upload_id part_size w =
     (case pipe_parts part_size first ins of
        (bufs, None) \<Rightarrow>
          io_bind (join_all (map (pipe_part C s dst upload_id bufs) (sched [0..<length bufs]))) (\<lambda>parts.
            io_return (sort_key cp_number parts)) w
      | (bufs, Some e) \<Rightarrow>
          (Err e, snd (run_tasks (map (pipe_part C s dst upload_id bufs) (dropped [0..<length bufs])) w)))"

definition pipe_create :: "s3 \<Rightarrow> url \<Rightarrow> metadata \<Rightarrow> create_request" where
  "pipe_create s dst md =
     \<lparr>cq_ref = dst_ref s dst, cq_content_type = Some (unwrap_or octet_stream (md_content_type md)),
      cq_storage_class = non_empty (md_storage_class md), cq_acl = non_empty (md_acl md),
      cq_cache_control = non_empty (md_cache_control md), cq_content_encoding = non_empty (md_content_encoding md),
      cq_content_disposition = non_empty (md_content_disposition md), cq_sse = non_empty (md_encryption_method md),
      cq_kms_key_id = non_empty (md_encryption_key_id md), cq_metadata = md_user_defined md\<rparr>"

definition pipe_multipart ::
  "'s sdk \<Rightarrow> (nat list \<Rightarrow> nat list) \<Rightarrow> (nat list \<Rightarrow> nat list) \<Rightarrow> s3 \<Rightarrow> stdin \<Rightarrow> string \<Rightarrow> url \<Rightarrow> metadata \<Rightarrow> nat
     \<Rightarrow> ('s, unit) io" where
  "pipe_multipart C sched dropped s ins first dst md part_size =
     io_bind (send_try (sdk_create_mpu C (pipe_create s dst md))) (\<lambda>created.
     io_bind (need_upload_id created) (\<lambda>upload_id.
       finish_multipart C s dst upload_id
         (upload_parts_from_reader C sched dropped s ins first dst upload_id part_size)
         (\<lambda>parts. send_try (sdk_complete_mpu C (dst_ref s dst) upload_id parts False))))"

text \<open>\<^verbatim>\<open>tokio::io::copy\<close> into a sink.\<close>

fun drain_stdin :: "stdin \<Rightarrow> (error, unit) result" where
  "drain_stdin [] = Ok ()"
| "drain_stdin (Inl e # ins) = Err e"
| "drain_stdin (Inr c # ins) = (if c = [] then Ok () else drain_stdin ins)"

definition put_multipart_reader ::
  "'s sdk \<Rightarrow> (nat list \<Rightarrow> nat list) \<Rightarrow> (nat list \<Rightarrow> nat list) \<Rightarrow> s3 \<Rightarrow> stdin \<Rightarrow> url \<Rightarrow> metadata \<Rightarrow> nat \<Rightarrow> ('s, unit) io" where
  "put_multipart_reader C sched dropped s ins dst md part_size0 w =
     (let part_size = max part_size0 1 in
      case read_part part_size ins of
        (Inl e, rest) \<Rightarrow> (Err e, w)
      | (Inr first, rest) \<Rightarrow>
          if length first < part_size then put_reader C s first dst md w
          else if s3_dry_run s then (drain_stdin rest, w)
          else pipe_multipart C sched dropped s rest first dst md part_size w)"

section \<open>The command\<close>

record pipe_args =
  pa_dst :: string
  pa_storage_class :: "string option"
  pa_acl :: "string option"
  pa_content_type :: "string option"
  pa_content_encoding :: "string option"
  pa_content_disposition :: "string option"
  pa_cache_control :: "string option"
  pa_sse :: "string option"
  pa_sse_kms_key_id :: "string option"
  pa_part_size :: nat
  pa_concurrency :: nat

definition guess_content_type :: "url \<Rightarrow> string" where
  "guess_content_type dst =
     (let ext = last (split_on (CHR ''.'') (absolute dst)) in
      if CHR ''/'' \<in> set ext then octet_stream
      else
        let e = to_ascii_lowercase ext in
        if e = ''txt'' then ''text/plain''
        else if e = ''html'' \<or> e = ''htm'' then ''text/html''
        else if e = ''css'' then ''text/css''
        else if e = ''csv'' then ''text/csv''
        else if e = ''json'' then ''application/json''
        else if e = ''xml'' then ''application/xml''
        else if e = ''js'' then ''application/javascript''
        else if e = ''pdf'' then ''application/pdf''
        else if e = ''zip'' then ''application/zip''
        else if e = ''gz'' then ''application/gzip''
        else if e = ''tar'' then ''application/x-tar''
        else if e = ''png'' then ''image/png''
        else if e = ''jpg'' \<or> e = ''jpeg'' then ''image/jpeg''
        else if e = ''gif'' then ''image/gif''
        else if e = ''svg'' then ''image/svg+xml''
        else if e = ''webp'' then ''image/webp''
        else if e = ''mp4'' then ''video/mp4''
        else if e = ''mp3'' then ''audio/mpeg''
        else octet_stream)"

definition pipe_metadata :: "pipe_args \<Rightarrow> url \<Rightarrow> metadata" where
  "pipe_metadata args dst =
     default_metadata
       \<lparr>md_storage_class := pa_storage_class args, md_acl := pa_acl args,
        md_content_type := or_else (non_empty (pa_content_type args)) (Some (guess_content_type dst)),
        md_content_encoding := pa_content_encoding args, md_content_disposition := pa_content_disposition args,
        md_cache_control := pa_cache_control args, md_encryption_method := pa_sse args,
        md_encryption_key_id := pa_sse_kms_key_id args\<rparr>"

definition effective_part_size_bytes :: "nat \<Rightarrow> nat" where
  "effective_part_size_bytes part_size_mib =
     (let mib = (if part_size_mib = 0 then DEFAULT_PART_SIZE_MIB else max part_size_mib MIN_PART_SIZE_MIB)
      in u64_mul (u64_mul mib 1024) 1024)"

definition pipe_run ::
  "'s cmd_env \<Rightarrow> console \<Rightarrow> (nat list \<Rightarrow> nat list) \<Rightarrow> options \<Rightarrow> pipe_args \<Rightarrow> stdin \<Rightarrow> ('s, unit) io" where
  "pipe_run X K dropped opts args ins w =
     (case url_parse (ce_regex X) (pa_dst args) of
        Inl e \<Rightarrow> (Err (Message e), w)
      | Inr dst \<Rightarrow>
          if \<not> is_remote dst then (Err (Message ''destination must be a bucket''), w)
          else if is_bucket dst \<or> is_prefix dst then
            (Err (Message (''target '' @ co_debug_url K dst @ '' must be an object'')), w)
          else if is_wildcard dst then
            (Err (Message (''target '' @ co_debug K (pa_dst args) @ '' can not contain glob characters'')), w)
          else
            (case ce_new_s3 X opts of
               Inl e \<Rightarrow> (Err e, w)
             | Inr (C, s) \<Rightarrow>
                 put_multipart_reader C (ce_sched X) dropped s ins dst (pipe_metadata args dst)
                   (effective_part_size_bytes (pa_part_size args)) w))"

section \<open>What is stored\<close>

text \<open>The whole input, or its first error; an input ends at its last chunk only.\<close>

fun stdin_all :: "stdin \<Rightarrow> (error, string) result" where
  "stdin_all [] = Ok []"
| "stdin_all (Inl e # ins) = Err e"
| "stdin_all (Inr c # ins) = and_then (stdin_all ins) (\<lambda>d. Ok (c @ d))"

definition ends_once :: "stdin \<Rightarrow> bool" where
  "ends_once ins \<longleftrightarrow> Inr [] \<notin> set ins"

lemma read_some_all:
  assumes "ends_once ins" "0 < n"
  shows "(\<exists>e rest. read_some n ins = (Inl e, rest) \<and> stdin_all ins = Inl e)
       \<or> (\<exists>c rest. read_some n ins = (Inr c, rest) \<and> ends_once rest \<and> length c \<le> n
            \<and> stdin_all ins = and_then (stdin_all rest) (\<lambda>d. Ok (c @ d)) \<and> (c = [] \<longrightarrow> ins = []))"
proof (cases ins)
  case (Cons r rest)
  then show ?thesis
  proof (cases r)
    case (Inr c)
    show ?thesis
    proof (cases "length c \<le> n")
      case True
      then show ?thesis using assms Cons Inr by (auto simp: read_some_def ends_once_def)
    next
      case False
      then have "stdin_all ins = and_then (stdin_all (Inr (drop n c) # rest)) (\<lambda>d. Ok (take n c @ d))"
        by (cases "stdin_all rest") (simp_all add: Cons Inr)
      with False assms Cons Inr show ?thesis by (auto simp: read_some_def ends_once_def)
    qed
  qed (simp add: read_some_def)
qed (simp add: read_some_def ends_once_def)

lemma read_loop_all:
  assumes "ends_once ins" "length buf \<le> cap"
  shows "(\<exists>e rest. read_loop cap buf ins = (Inl e, rest) \<and> stdin_all ins = Inl e)
       \<or> (\<exists>b rest. read_loop cap buf ins = (Inr (buf @ b), rest) \<and> ends_once rest \<and> length (buf @ b) \<le> cap
            \<and> stdin_all ins = and_then (stdin_all rest) (\<lambda>d. Ok (b @ d))
            \<and> (length (buf @ b) < cap \<longrightarrow> rest = []))"
  using assms
proof (induction cap buf ins rule: read_loop.induct)
  case (1 cap buf ins)
  show ?case
  proof (cases "length buf < cap")
    case False
    then show ?thesis
      using 1(2,3) by (cases "stdin_all ins") (auto simp: read_loop.simps [of cap buf])
  next
    case True
    then have pos: "0 < cap - length buf" by simp
    from read_some_all [OF 1(2) pos] show ?thesis
    proof
      assume "\<exists>e rest. read_some (cap - length buf) ins = (Inl e, rest) \<and> stdin_all ins = Inl e"
      with True show ?thesis by (auto simp: read_loop.simps [of cap buf])
    next
      assume "\<exists>c rest. read_some (cap - length buf) ins = (Inr c, rest) \<and> ends_once rest \<and> length c \<le> cap - length buf
            \<and> stdin_all ins = and_then (stdin_all rest) (\<lambda>d. Ok (c @ d)) \<and> (c = [] \<longrightarrow> ins = [])"
      then obtain c rest where c: "read_some (cap - length buf) ins = (Inr c, rest)" "ends_once rest"
        "length c \<le> cap - length buf" "stdin_all ins = and_then (stdin_all rest) (\<lambda>d. Ok (c @ d))" "c = [] \<longrightarrow> ins = []"
        by blast
      show ?thesis
      proof (cases "c = []")
        case e: True
        then have "ins = []" "rest = []" using c(1,5) by (auto simp: read_some_def)
        with True c(1) e show ?thesis using 1(2,3) by (auto simp: read_loop.simps [of cap buf])
      next
        case ne: False
        have step: "read_loop cap buf ins = read_loop cap (buf @ c) rest"
          using True c(1) ne by (simp add: read_loop.simps [of cap buf])
        have "length (buf @ c) \<le> cap" using c(3) True by simp
        from 1(1) [OF True c(1) [symmetric] refl ne c(2) this] show ?thesis
        proof (elim disjE exE conjE)
          fix b r assume b: "read_loop cap (buf @ c) rest = (Inr ((buf @ c) @ b), r)" "ends_once r"
            "length ((buf @ c) @ b) \<le> cap" "stdin_all rest = and_then (stdin_all r) (\<lambda>d. Ok (b @ d))"
            "length ((buf @ c) @ b) < cap \<longrightarrow> r = []"
          then have "and_then (stdin_all rest) (\<lambda>d. Ok (c @ d)) = and_then (stdin_all r) (\<lambda>d. Ok ((c @ b) @ d))"
            by (cases "stdin_all r") simp_all
          with b show ?thesis unfolding step c(4) by (intro disjI2 exI [of _ "c @ b"] exI [of _ r]) simp
        qed (simp add: step c(4))
      qed
    qed
  qed
qed

lemma read_part_all:
  assumes "ends_once ins"
  shows "(\<exists>e rest. read_part cap ins = (Inl e, rest) \<and> stdin_all ins = Inl e)
       \<or> (\<exists>b rest. read_part cap ins = (Inr b, rest) \<and> ends_once rest \<and> length b \<le> cap
            \<and> stdin_all ins = and_then (stdin_all rest) (\<lambda>d. Ok (b @ d)) \<and> (length b < cap \<longrightarrow> rest = []))"
  using read_loop_all [OF assms, of "[]" cap] by (simp add: read_part_def)

lemma pipe_parts_all:
  assumes "ends_once ins" "0 < ps" "length buf \<le> ps" "length buf < ps \<longrightarrow> ins = []"
  shows "(\<exists>e. snd (pipe_parts ps buf ins) = Some e \<and> stdin_all ins = Inl e)
       \<or> (\<exists>d. snd (pipe_parts ps buf ins) = None \<and> stdin_all ins = Inr d \<and> concat (fst (pipe_parts ps buf ins)) = buf @ d
            \<and> (\<forall>i < length (fst (pipe_parts ps buf ins)). fst (pipe_parts ps buf ins) ! i = part_of ps (buf @ d) i)
            \<and> fst (pipe_parts ps buf ins) \<noteq> [] \<and> [] \<notin> set (tl (fst (pipe_parts ps buf ins))))"
  using assms
proof (induction ps buf ins rule: pipe_parts.induct)
  case (1 ps buf ins)
  from read_part_all [OF 1(2), of ps] show ?case
  proof
    assume "\<exists>e rest. read_part ps ins = (Inl e, rest) \<and> stdin_all ins = Inl e"
    then show ?thesis by (auto simp: pipe_parts.simps [of ps buf])
  next
    assume "\<exists>b rest. read_part ps ins = (Inr b, rest) \<and> ends_once rest \<and> length b \<le> ps
            \<and> stdin_all ins = and_then (stdin_all rest) (\<lambda>d. Ok (b @ d)) \<and> (length b < ps \<longrightarrow> rest = [])"
    then obtain b rest where b: "read_part ps ins = (Inr b, rest)" "ends_once rest" "length b \<le> ps"
      "stdin_all ins = and_then (stdin_all rest) (\<lambda>d. Ok (b @ d))" "length b < ps \<longrightarrow> rest = []"
      by blast
    show ?thesis
    proof (cases "b = []")
      case True
      with b 1(3,4) have "pipe_parts ps buf ins = ([buf], None)" "stdin_all ins = Inr []"
        by (simp_all add: pipe_parts.simps [of ps buf])
      with 1(4) show ?thesis by (simp add: part_of_def)
    next
      case False
      have full: "length buf = ps"
      proof (rule ccontr)
        assume "length buf \<noteq> ps"
        with 1(4,5) have "ins = []" by simp
        with b(1) False show False by (auto simp: read_part_def read_loop.simps read_some_def split: if_splits)
      qed
      obtain bs e where p: "pipe_parts ps b rest = (bs, e)" by fastforce
      have q: "pipe_parts ps buf ins = (buf # bs, e)"
        using b(1) False p by (simp add: pipe_parts.simps [of ps buf])
      have shift: "part_of ps (buf @ d) (Suc i) = part_of ps d i" for d i
        using full by (simp add: part_of_def)
      have head: "part_of ps (buf @ d) 0 = buf" for d using full by (simp add: part_of_def)
      from 1(1) [OF b(1) [symmetric] refl False b(2) 1(3) b(3,5)] p show ?thesis
      proof (elim disjE exE conjE)
        fix e' assume "snd (pipe_parts ps b rest) = Some e'" "stdin_all rest = Inl e'"
        with p q b(4) show ?thesis by auto
      next
        fix d assume d: "snd (pipe_parts ps b rest) = None" "stdin_all rest = Inr d"
          "concat (fst (pipe_parts ps b rest)) = b @ d"
          "\<forall>i < length (fst (pipe_parts ps b rest)). fst (pipe_parts ps b rest) ! i = part_of ps (b @ d) i"
          "fst (pipe_parts ps b rest) \<noteq> []" "[] \<notin> set (tl (fst (pipe_parts ps b rest)))"
        have "\<forall>i < length (buf # bs). (buf # bs) ! i = part_of ps (buf @ b @ d) i"
          using d(4) p by (auto simp: shift head less_Suc_eq_0_disj)
        moreover have "[] \<notin> set bs"
          using d(4-6) p False 1(3) by (cases bs) (auto simp: part_of_def)
        ultimately show ?thesis using d(1-3) p q b(4) by simp
      qed
    qed
  qed
qed

lemma length_concat_le: "\<forall>b \<in> set bs. length b \<le> n \<Longrightarrow> length (concat bs) \<le> length bs * n"
  by (induction bs) (auto simp: add_mono)

lemma effective_part_size_min:
  assumes "n < 2 ^ 44"
  shows "5242880 \<le> effective_part_size_bytes n"
proof -
  define mib where "mib = (if n = 0 then DEFAULT_PART_SIZE_MIB else max n MIN_PART_SIZE_MIB)"
  have m: "5 \<le> mib" "mib < 2 ^ 44" using assms by (auto simp: mib_def)
  then have "u64_mul mib 1024 = mib * 1024" by (simp add: u64_mul_eq)
  moreover have "u64_mul (mib * 1024) 1024 = mib * 1024 * 1024" using m by (simp add: u64_mul_eq)
  ultimately show ?thesis using m by (simp add: effective_part_size_bytes_def mib_def [symmetric] Let_def)
qed

context s3_service
begin

lemma pipe_part_stores:
  assumes "bufs ! i = part_of ps f i" "i + 1 < 2 ^ 31"
  shows "stores_part (\<lambda>_. True) uid l f ps (pipe_part C s dst uid bufs) i"
  unfolding stores_part_def
proof (intro allI impI)
  fix w p w' m
  assume t: "pipe_part C s dst uid bufs i w = (Inr p, w')" and u: "uploads (w_s3 w) uid = Some (l, m)"
  have n: "as_i32 (i + 1) = int i + 1" using as_i32_small [OF assms(2)] by simp
  obtain etag s' where r: "sdk_upload_part C (dst_ref s dst) uid (int i + 1) (part_of ps f i) (w_s3 w) = (Inr etag, s')"
    and p: "p = \<lparr>cp_number = int i + 1, cp_etag = etag\<rparr>" "w' = w\<lparr>w_s3 := s'\<rparr>"
    using t by (auto simp: pipe_part_def n [simplified] assms(1) Let_def io_bind_Ok send_try_Ok)
  from part_ok [OF r u] show "cp_number p = int i + 1 \<and> True \<and> w_files w' = w_files w \<and> contents (w_s3 w') = contents (w_s3 w)
        \<and> uploads (w_s3 w') = (uploads (w_s3 w))(uid \<mapsto> (l, m(int i + 1 \<mapsto> part_of ps f i)))"
    by (simp add: p)
qed

lemma pipe_multipart_ok:
  assumes run: "pipe_multipart C sched dropped s ins first dst md ps w = (Inr x, w')"
    and ins: "ends_once ins" "length first = ps" "0 < ps" and small: "div_ceil (ps + stdin_bytes ins) ps < 2 ^ 31"
    and perm: "\<And>xs. mset (sched xs) = mset xs"
  shows "\<exists>d. stdin_all ins = Inr d \<and> contents (w_s3 w') = (contents (w_s3 w))(url_loc dst \<mapsto> first @ d) \<and> w_files w' = w_files w"
proof -
  obtain uid s1 where c: "sdk_create_mpu C (pipe_create s dst md) (w_s3 w) = (Inr (Some uid), s1)"
    and fin: "finish_multipart C s dst uid (upload_parts_from_reader C sched dropped s ins first dst uid ps)
         (\<lambda>parts. send_try (sdk_complete_mpu C (dst_ref s dst) uid parts False)) (w\<lparr>w_s3 := s1\<rparr>) = (Inr x, w')"
    using run by (auto simp: pipe_multipart_def io_bind_Ok send_try_Ok need_upload_id_def split: option.splits)
  obtain bufs e where p: "pipe_parts ps first ins = (bufs, e)" by fastforce
  have none: "e = None"
    using fin p by (cases e) (simp_all add: finish_multipart_def upload_parts_from_reader_def)
  have "length first \<le> ps" "length first < ps \<longrightarrow> ins = []" using ins(2) by simp_all
  from pipe_parts_all [OF ins(1,3) this] p none obtain d where d: "stdin_all ins = Inr d" "concat bufs = first @ d"
    "\<forall>i < length bufs. bufs ! i = part_of ps (first @ d) i" "bufs \<noteq> []" "[] \<notin> set (tl bufs)"
    by auto
  have bytes: "length d = stdin_bytes ins"
    using d(1) by (induction ins arbitrary: d rule: stdin_all.induct) (auto simp: and_then_eq_Inr)
  have "(length bufs - 1) * ps < length (first @ d)"
  proof (cases "length bufs = 1")
    case False
    then obtain x xs where xs: "bufs = x # xs" "xs \<noteq> []" using d(4) by (cases bufs) auto
    then have "bufs ! (length bufs - 1) = last xs" by (simp add: last_conv_nth)
    then have "bufs ! (length bufs - 1) \<noteq> []" using d(5) last_in_set [OF xs(2)] xs(1) by auto
    then have "part_of ps (first @ d) (length bufs - 1) \<noteq> []" using d(3,4) by simp
    then have "drop ((length bufs - 1) * ps) (first @ d) \<noteq> []" unfolding part_of_def by force
    then show ?thesis by (simp only: drop_eq_Nil not_le)
  qed (use ins in auto)
  then have "length bufs \<le> div_ceil (length (first @ d)) ps"
    using div_ceil_less [OF ins(3)] by (metis Suc_leI Suc_pred' d(4) length_greater_0_conv)
  then have n: "length bufs < 2 ^ 31" using bytes small ins(2) by simp
  have "\<forall>b \<in> set bufs. length b \<le> ps" using d(3) by (auto simp: in_set_conv_nth part_of_def)
  then have len: "length (first @ d) \<le> length bufs * ps" using length_concat_le [of bufs ps] d(2) by simp
  have u: "uploads s1 uid = Some (url_loc dst, \<lambda>_. None)" "contents s1 = contents (w_s3 w)"
    using create_ok [OF c] by (simp_all add: pipe_create_def)
  have f2: "finish_multipart C s dst uid
       (io_bind (join_all (map (pipe_part C s dst uid bufs) (sched (part_indices (as_i32 (length bufs))))))
          (\<lambda>parts. io_return (sort_key cp_number parts)))
       (\<lambda>parts. send_try (sdk_complete_mpu C (dst_ref s dst) uid parts False)) (w\<lparr>w_s3 := s1\<rparr>) = (Inr x, w')"
    using fin p none n by (simp add: finish_multipart_def upload_parts_from_reader_def as_i32_small part_indices_def)
  have step: "\<forall>i < length bufs. stores_part (\<lambda>_. True) uid (url_loc dst) (first @ d) ps (pipe_part C s dst uid bufs) i"
    using d(3) n by (auto intro!: pipe_part_stores)
  have comp: "\<And>parts w1. send_try (sdk_complete_mpu C (dst_ref s dst) uid parts False) w1 = (Inr x, w') \<Longrightarrow>
     \<exists>cond s'. sdk_complete_mpu C (dst_ref s dst) uid parts cond (w_s3 w1) = (Inr (), s') \<and> w' = w1\<lparr>w_s3 := s'\<rparr>"
    by (auto simp: send_try_Ok)
  have "uploads (w_s3 (w\<lparr>w_s3 := s1\<rparr>)) uid = Some (url_loc dst, \<lambda>_. None)" using u by simp
  from multipart_ok [OF f2 comp TrueI this step ins(3) len n perm] d(1) u show ?thesis by simp
qed

lemma put_multipart_reader_ok:
  assumes run: "put_multipart_reader C sched dropped s ins dst md ps w = (Inr x, w')"
    and "\<not> s3_dry_run s" "ends_once ins" "div_ceil (stdin_bytes ins) (max ps 1) < 2 ^ 31" "\<And>xs. mset (sched xs) = mset xs"
  shows "\<exists>d. stdin_all ins = Inr d \<and> contents (w_s3 w') = (contents (w_s3 w))(url_loc dst \<mapsto> d) \<and> w_files w' = w_files w"
proof -
  let ?ps = "max ps 1"
  obtain r rest where r: "read_part ?ps ins = (r, rest)" by fastforce
  obtain b where b: "r = Inr b" using run r by (cases r) (auto simp: put_multipart_reader_def Let_def)
  from read_part_all [OF assms(3), of ?ps] r b have R: "ends_once rest" "length b \<le> ?ps"
    "stdin_all ins = and_then (stdin_all rest) (\<lambda>d. Ok (b @ d))" "length b < ?ps \<longrightarrow> rest = []"
    by auto
  show ?thesis
  proof (cases "length b < ?ps")
    case True
    with run r b have "put_reader C s b dst md w = (Inr x, w')" by (simp add: put_multipart_reader_def)
    then obtain req s' where "sdk_put C req (w_s3 w) = (Inr x, s')" "w' = w\<lparr>w_s3 := s'\<rparr>" "pr_body req = b"
      "loc (pr_ref req) = url_loc dst"
      using assms(2) by (auto simp: put_reader_def Let_def send_try_Ok plain_put_def)
    with put_ok R(3,4) True show ?thesis by auto
  next
    case False
    with run r b assms(2) have m: "pipe_multipart C sched dropped s rest b dst md ?ps w = (Inr x, w')"
      by (simp add: put_multipart_reader_def)
    have b2: "length b = ?ps" "0 < ?ps" using R(2) False by simp_all
    then have "div_ceil (?ps + stdin_bytes rest) ?ps < 2 ^ 31" using read_part_bytes [of ?ps ins b rest] r b assms(4) by simp
    from pipe_multipart_ok [OF m R(1) b2 this assms(5)] obtain d where
      "stdin_all rest = Inr d" "contents (w_s3 w') = (contents (w_s3 w))(url_loc dst \<mapsto> b @ d)" "w_files w' = w_files w"
      by blast
    with R(3) show ?thesis by simp
  qed
qed

end

text \<open>
  C18. A successful \<^verbatim>\<open>pipe\<close> stores standard input exactly, whatever the sizes of the chunks it arrives
  in: the object is the whole input, sent by one request or in parts completed in any order, every
  other object and the local files stay as they were. In particular it never succeeds when a read
  fails, and it never stores a truncated input.
\<close>

theorem pipe_stores_stdin:
  assumes "ce_new_s3 X opts = Inr (C, s)" "s3_service C contents uploads"
    and "pipe_run X K dropped opts args ins w = (Inr x, w')"
    and "\<not> s3_dry_run s" "ends_once ins" "stdin_bytes ins < 2 ^ 53" "\<And>xs. mset (ce_sched X xs) = mset xs"
    and "pa_part_size args < 2 ^ 44"
  shows "\<exists>dst d. url_parse (ce_regex X) (pa_dst args) = Inr dst \<and> stdin_all ins = Inr d
    \<and> contents (w_s3 w') = (contents (w_s3 w))(url_loc dst \<mapsto> d) \<and> w_files w' = w_files w"
proof -
  obtain dst where dst: "url_parse (ce_regex X) (pa_dst args) = Inr dst"
    and run: "put_multipart_reader C (ce_sched X) dropped s ins dst (pipe_metadata args dst)
         (effective_part_size_bytes (pa_part_size args)) w = (Inr x, w')"
    using assms(1,3) by (auto simp: pipe_run_def split: sum.splits if_splits)
  let ?ps = "max (effective_part_size_bytes (pa_part_size args)) 1"
  have ps: "5242880 \<le> ?ps" using effective_part_size_min [OF assms(8)] by simp
  have "2 ^ 53 \<le> (2 ^ 31 - 1) * (5242880 :: nat)" by simp
  also have "\<dots> \<le> (2 ^ 31 - 1) * ?ps" using ps by (intro mult_le_mono) simp_all
  finally have "stdin_bytes ins \<le> (2 ^ 31 - 1) * ?ps" using assms(6) by linarith
  then have "div_ceil (stdin_bytes ins) ?ps \<le> 2 ^ 31 - 1" using ps by (intro div_ceil_le) simp_all
  then have n: "div_ceil (stdin_bytes ins) ?ps < 2 ^ 31" by simp
  from s3_service.put_multipart_reader_ok [OF assms(2) run assms(4,5) n assms(7)] dst show ?thesis by blast
qed

definition demo_pipe :: pipe_args where
  "demo_pipe = \<lparr>pa_dst = ''s3://b/k'', pa_storage_class = None, pa_acl = None, pa_content_type = None,
     pa_content_encoding = None, pa_content_disposition = None, pa_cache_control = None, pa_sse = None,
     pa_sse_kms_key_id = None, pa_part_size = 8, pa_concurrency = 8\<rparr>"

lemma demo_url_parse: "url_parse reference_engine ''s3://b/k'' = Inr (demo_url ''s3://b/k'')"
  by (simp add: demo_url_def url_eval Let_def)

lemma demo_kinds: "\<not> is_bucket (demo_url ''s3://b/k'')" "\<not> is_prefix (demo_url ''s3://b/k'')" "\<not> is_wildcard (demo_url ''s3://b/k'')"
  by (simp_all add: demo_url_def url_eval Let_def is_bucket_def is_prefix_def ends_with_def)

lemma demo_pipe_run:
  "fst (pipe_run demo_env_cmd demo_console id (default_options) demo_pipe [Inr ''hel'', Inr ''lo''] (demo_world [] Map.empty)) = Inr ()"
proof -
  have p: "effective_part_size_bytes 8 = 8388608"
    by (simp add: effective_part_size_bytes_def u64_mul_def)
  have r: "read_part 8388608 [Inr ''hel'', Inr ''lo''] = (Inr ''hello'', [])"
    by (simp add: read_part_def read_loop.simps read_some_def)
  show ?thesis
    by (simp add: pipe_run_def demo_env_cmd_def demo_pipe_def demo_url_parse demo_url_parts p r put_multipart_reader_def
        put_reader_def s3_demo send_try_def send_def Let_def plain_put_def demo_kinds)
qed

theorem pipe_stores_stdin_witness:
  "mem_contents (w_s3 (snd (pipe_run demo_env_cmd demo_console id default_options demo_pipe [Inr ''hel'', Inr ''lo'']
     (demo_world [] Map.empty)))) (''b'', ''k'') = Some ''hello''"
proof -
  let ?r = "pipe_run demo_env_cmd demo_console id default_options demo_pipe [Inr ''hel'', Inr ''lo''] (demo_world [] Map.empty)"
  have r: "?r = (Inr (), snd ?r)" using demo_pipe_run by (metis prod.collapse)
  have n: "ce_new_s3 demo_env_cmd default_options = Inr (memory_sdk, demo_s3 4)" by (simp add: demo_env_cmd_def)
  from pipe_stores_stdin [OF n mem.s3_service_axioms r] show ?thesis
    by (auto simp: demo_s3_def ends_once_def demo_pipe_def demo_env_cmd_def demo_url_parse url_loc_def demo_url_parts)
qed

end
