(* ===== verification/Cat.thy ===== *)
theory Cat
  imports Console Listed "HOL-Library.List_Lexorder" "HOL-Library.Char_ord" "HOL-Library.Product_Lexorder"
begin

text \<open>
  The \<^verbatim>\<open>cat\<close> command (\<^verbatim>\<open>src/command/cat.rs\<close>) and the \<^verbatim>\<open>select\<close> command (\<^verbatim>\<open>src/command/select.rs\<close>): both
  expand a source by listing it, sort the objects by key and write them to standard output one after
  the other. The order of strings is that of their bytes. The query engine behind
  \<^verbatim>\<open>SelectObjectContent\<close> is a parameter, a request function on the service like those of the SDK.
\<close>

type_synonym ('s, 'a) console_io = "string \<Rightarrow> 's world \<Rightarrow> (error, 'a) result \<times> string \<times> 's world"

section \<open>cat\<close>

record cat_args =
  ct_src :: string
  ct_version_id :: "string option"

text \<open>The bytes of a response, chunk by chunk, up to the error that breaks it off.\<close>

definition stream_body :: "console \<Rightarrow> (sdk_error \<Rightarrow> error) \<Rightarrow> get_response \<Rightarrow> ('s, unit) console_io" where
  "stream_body K wrap resp out w =
     (case write_chunks K (gr_chunks resp) out of
        (Inl e, o1) \<Rightarrow> (Err e, o1, w)
      | (Inr _, o1) \<Rightarrow>
          (case gr_body_error resp of Some e \<Rightarrow> (Err (wrap e), o1, w) | None \<Rightarrow> (Ok (), o1, w)))"

definition cat_error :: "url \<Rightarrow> error \<Rightarrow> error" where
  "cat_error src e = Message (''cat '' @ absolute src @ '': '' @ error_chain e)"

definition cat_object :: "'s sdk \<Rightarrow> console \<Rightarrow> s3 \<Rightarrow> url \<Rightarrow> ('s, unit) console_io" where
  "cat_object C K s src out w =
     (case s3_read C s src w of
        (Inl e, w1) \<Rightarrow> (Err (cat_error src e), out, w1)
      | (Inr resp, w1) \<Rightarrow> stream_body K (\<lambda>e. cat_error src (SdkError e)) resp out w1)"

fun cat_objects :: "'s sdk \<Rightarrow> console \<Rightarrow> s3 \<Rightarrow> url list \<Rightarrow> ('s, unit) console_io" where
  "cat_objects C K s [] out w = (flush_out K out, out, w)"
| "cat_objects C K s (src # srcs) out w =
     (case cat_object C K s src out w of
        (Inl e, o1, w1) \<Rightarrow> (Err e, o1, w1)
      | (Inr _, o1, w1) \<Rightarrow> cat_objects C K s srcs o1 w1)"

fun cat_sources :: "object list \<Rightarrow> (error, url list) result" where
  "cat_sources [] = Ok []"
| "cat_sources (ob # os) =
     (case ob_err ob of
        Some e \<Rightarrow> Err e
      | None \<Rightarrow>
          if type_is_dir (ob_typ ob) then cat_sources os
          else case ob_url ob of
                 None \<Rightarrow> cat_sources os
               | Some u \<Rightarrow> and_then (cat_sources os) (\<lambda>us. Ok (u # us)))"

definition cat_expanded ::
  "'s sdk \<Rightarrow> regex_lib \<Rightarrow> console \<Rightarrow> s3 \<Rightarrow> url \<Rightarrow> string \<Rightarrow> 's world \<Rightarrow> ((error, unit) result \<times> string \<times> 's world) option" where
  "cat_expanded C L K s u out w =
     (case s3_list C L s u w of
        None \<Rightarrow> None
      | Some (os, w1) \<Rightarrow>
          (case cat_sources os of
             Inl e \<Rightarrow> Some (Err e, out, w1)
           | Inr srcs \<Rightarrow>
               if srcs = [] then Some (Err (Message (''no objects matched '' @ absolute u)), out, w1)
               else Some (cat_objects C K s (sort_key url_path srcs) out w1)))"

definition expands_remote :: "url \<Rightarrow> bool" where
  "expands_remote u \<longleftrightarrow> is_wildcard u \<or> is_bucket u \<or> is_prefix u"

definition cat_run ::
  "'s cmd_env \<Rightarrow> console \<Rightarrow> options \<Rightarrow> cat_args \<Rightarrow> string \<Rightarrow> 's world \<Rightarrow> ((error, unit) result \<times> string \<times> 's world) option" where
  "cat_run X K opts args out w =
     (case url_new (ce_regex X) (ct_src args) (default_url_options\<lparr>uo_version_id := ct_version_id args\<rparr>) of
        Inl e \<Rightarrow> Some (Err (Message e), out, w)
      | Inr u \<Rightarrow>
          if is_remote u \<and> expands_remote u then
            if ct_version_id args \<noteq> None then
              Some (Err (Message ''--version-id cannot be combined with a wildcard/prefix/bucket source''), out, w)
            else
              (case ce_new_s3 X opts of
                 Inl e \<Rightarrow> Some (Err e, out, w)
               | Inr (C, s) \<Rightarrow> cat_expanded C (ce_regex X) K s u out w)
          else if is_remote u then
            (case ce_new_s3 X opts of
               Inl e \<Rightarrow> Some (Err e, out, w)
             | Inr (C, s) \<Rightarrow>
                 (case s3_read C s u w of
                    (Inl e, w1) \<Rightarrow> Some (Err e, out, w1)
                  | (Inr resp, w1) \<Rightarrow>
                      (case stream_body K SdkError resp out w1 of
                         (Inl e, o1, w2) \<Rightarrow> Some (Err e, o1, w2)
                       | (Inr _, o1, w2) \<Rightarrow> Some (flush_out K o1, o1, w2))))
          else
            (case os_read (ce_os X) (absolute u) w of
               (Inl e, w1) \<Rightarrow> Some (Err e, out, w1)
             | (Inr data, w1) \<Rightarrow>
                 (case write_out K out data of
                    (Inl e, o1) \<Rightarrow> Some (Err e, o1, w1)
                  | (Inr _, o1) \<Rightarrow> Some (flush_out K o1, o1, w1))))"

section \<open>select\<close>

record select_query =
  sq_expression :: string
  sq_input_format :: string
  sq_compression :: string
  sq_input_structure :: string
  sq_file_header_info :: string
  sq_output_format :: string

datatype json_type = JsonLines | JsonDocument

datatype header_info = HeaderUse | HeaderIgnore | HeaderNone

datatype input_kind =
    InJson json_type
  | InCsv string header_info
  | InParquet

datatype output_kind = OutJson | OutCsv string

definition file_header_info :: "(string \<Rightarrow> string) \<Rightarrow> string \<Rightarrow> header_info" where
  "file_header_info upper s =
     (let u = upper s in
      if u = ''USE'' then HeaderUse else if u = ''IGNORE'' then HeaderIgnore else HeaderNone)"

text \<open>
  The record of the two Unicode case conversions of the standard library; a compression name other
  than the documented ones is passed on in upper case.
\<close>

record case_lib =
  cl_lower :: "string \<Rightarrow> string"
  cl_upper :: "string \<Rightarrow> string"

definition compression_type :: "case_lib \<Rightarrow> string \<Rightarrow> string option" where
  "compression_type U c =
     (let l = cl_lower U c in
      if l = [] \<or> l = ''none'' then None
      else if l = ''gzip'' then Some ''GZIP''
      else if l = ''bzip2'' then Some ''BZIP2''
      else Some (cl_upper U l))"

definition input_serialization :: "case_lib \<Rightarrow> select_query \<Rightarrow> (error, input_kind \<times> string option) result" where
  "input_serialization U q =
     (let f = sq_input_format q;
          comp = (if f \<noteq> ''parquet'' then compression_type U (sq_compression q) else None)
      in if f = ''json'' then
           Ok (InJson (if cl_lower U (sq_input_structure q) = ''document'' then JsonDocument else JsonLines), comp)
         else if f = ''csv'' then
           Ok (InCsv (if sq_input_structure q = [] then '','' else sq_input_structure q)
                 (file_header_info (cl_upper U) (sq_file_header_info q)), comp)
         else if f = ''parquet'' then Ok (InParquet, comp)
         else Err (Message (''input format is not valid: '' @ f)))"

definition output_serialization :: "select_query \<Rightarrow> (error, output_kind) result" where
  "output_serialization q =
     (let f = sq_output_format q in
      if f = ''json'' then Ok OutJson
      else if f = ''csv'' then
        Ok (OutCsv (if sq_input_format q = ''json'' then '',''
                    else if sq_input_structure q = [] then '','' else sq_input_structure q))
      else Err (Message (''output serialization is not valid: '' @ f)))"

text \<open>The events of a result, and how the stream may break off.\<close>

datatype select_event = Records "string option" | EndEvent | OtherEvent

record select_request =
  sr_bucket :: string
  sr_key :: string
  sr_expression :: string
  sr_input :: "input_kind \<times> string option"
  sr_output :: output_kind

type_synonym 's select_fn =
  "select_request \<Rightarrow> 's \<Rightarrow> (sdk_error, select_event list \<times> sdk_error option) result \<times> 's"

fun select_events :: "console \<Rightarrow> select_event list \<Rightarrow> sdk_error option \<Rightarrow> string \<Rightarrow> (error, unit) result \<times> string" where
  "select_events K [] broken out = (case broken of Some e \<Rightarrow> (Err (SdkError e), out) | None \<Rightarrow> (Ok (), out))"
| "select_events K (Records (Some d) # es) broken out =
     (case write_out K out d of (Inl e, o1) \<Rightarrow> (Err e, o1) | (Inr _, o1) \<Rightarrow> select_events K es broken o1)"
| "select_events K (EndEvent # es) broken out = (Ok (), out)"
| "select_events K (e # es) broken out = select_events K es broken out"

definition s3_select :: "'s select_fn \<Rightarrow> case_lib \<Rightarrow> console \<Rightarrow> s3 \<Rightarrow> url \<Rightarrow> select_query \<Rightarrow> ('s, unit) console_io" where
  "s3_select S U K s src q out w =
     (if s3_dry_run s then (Ok (), out, w)
      else
        case and_then (input_serialization U q) (\<lambda>i. and_then (output_serialization q) (\<lambda>ok. Ok (i, ok))) of
          Inl e \<Rightarrow> (Err e, out, w)
        | Inr (i, ok) \<Rightarrow>
            (case send (S \<lparr>sr_bucket = url_bucket src, sr_key = url_path src, sr_expression = sq_expression q,
                           sr_input = i, sr_output = ok\<rparr>) w of
               (Inl e, w1) \<Rightarrow> (Err (SdkError e), out, w1)
             | (Inr (evs, broken), w1) \<Rightarrow>
                 (case select_events K evs broken out of
                    (Inl e, o1) \<Rightarrow> (Err e, o1, w1)
                  | (Inr _, o1) \<Rightarrow> (flush_out K o1, o1, w1))))"

record select_args =
  qa_src :: string
  qa_query :: string
  qa_input_format :: string
  qa_compression :: string
  qa_json_type :: string
  qa_delimiter :: string
  qa_use_header :: string
  qa_output_format :: "string option"
  qa_exclude :: "string list"
  qa_version_id :: "string option"
  qa_all_versions :: bool

definition select_from_args :: "select_args \<Rightarrow> select_query" where
  "select_from_args args =
     \<lparr>sq_expression = qa_query args, sq_input_format = qa_input_format args, sq_compression = qa_compression args,
      sq_input_structure =
        (if qa_input_format args = ''json'' then qa_json_type args
         else if qa_input_format args = ''csv'' then qa_delimiter args else []),
      sq_file_header_info = qa_use_header args,
      sq_output_format =
        (case qa_output_format args of
           Some f \<Rightarrow> f
         | None \<Rightarrow> if qa_input_format args = ''parquet'' then ''json'' else qa_input_format args)\<rparr>"

fun select_sources :: "regex_lib \<Rightarrow> string list \<Rightarrow> object list \<Rightarrow> (error, url list) result" where
  "select_sources L exclude [] = Ok []"
| "select_sources L exclude (ob # os) =
     (case ob_err ob of
        Some e \<Rightarrow> Err e
      | None \<Rightarrow>
          if type_is_dir (ob_typ ob) then select_sources L exclude os
          else case ob_url ob of
                 None \<Rightarrow> select_sources L exclude os
               | Some u \<Rightarrow>
                   if is_glacier (ob_storage_class ob) then select_sources L exclude os
                   else if list_ex (\<lambda>re. re_is_match L re (relative u)) exclude then select_sources L exclude os
                   else and_then (select_sources L exclude os) (\<lambda>us. Ok (u # us)))"

fun select_objects ::
  "'s select_fn \<Rightarrow> case_lib \<Rightarrow> console \<Rightarrow> s3 \<Rightarrow> select_query \<Rightarrow> url list \<Rightarrow> bool \<Rightarrow> string \<Rightarrow> 's world \<Rightarrow> bool \<times> string \<times> 's world" where
  "select_objects S U K s q [] had_error out w = (had_error, out, w)"
| "select_objects S U K s q (src # srcs) had_error out w =
     (case s3_select S U K s src q out w of
        (Inl e, o1, w1) \<Rightarrow> select_objects S U K s q srcs True o1 w1
      | (Inr _, o1, w1) \<Rightarrow> select_objects S U K s q srcs had_error o1 w1)"

definition select_expanded ::
  "'s sdk \<Rightarrow> 's select_fn \<Rightarrow> regex_lib \<Rightarrow> case_lib \<Rightarrow> console \<Rightarrow> s3 \<Rightarrow> url \<Rightarrow> select_query \<Rightarrow> string list
     \<Rightarrow> string \<Rightarrow> 's world \<Rightarrow> ((error, unit) result \<times> string \<times> 's world) option" where
  "select_expanded C S L U K s u q exclude out w =
     (case s3_list C L s u w of
        None \<Rightarrow> None
      | Some (os, w1) \<Rightarrow>
          (case select_sources L exclude os of
             Inl e \<Rightarrow> Some (Err e, out, w1)
           | Inr srcs \<Rightarrow>
               if srcs = [] then Some (Err (Message (''no objects matched '' @ absolute u)), out, w1)
               else
                 (case select_objects S U K s q (sort_key (\<lambda>v. (url_path v, url_version_id v)) srcs) False out w1 of
                    (had_error, o1, w2) \<Rightarrow>
                      (case flush_out K o1 of
                         Inl e \<Rightarrow> Some (Err e, o1, w2)
                       | Inr _ \<Rightarrow>
                           Some (if had_error then Err (Message ''select failed for one or more objects'') else Ok (), o1, w2)))))"

definition select_run ::
  "'s cmd_env \<Rightarrow> 's select_fn \<Rightarrow> case_lib \<Rightarrow> console \<Rightarrow> options \<Rightarrow> select_args \<Rightarrow> string \<Rightarrow> 's world
     \<Rightarrow> ((error, unit) result \<times> string \<times> 's world) option" where
  "select_run X S U K opts args out w =
     (case url_new (ce_regex X) (qa_src args)
             (default_url_options\<lparr>uo_all_versions := qa_all_versions args, uo_version_id := qa_version_id args\<rparr>) of
        Inl e \<Rightarrow> Some (Err (Message e), out, w)
      | Inr u \<Rightarrow>
          if \<not> is_remote u then Some (Err (Message ''source must be remote''), out, w)
          else if qa_query args = [] then Some (Err (Message ''query must be non-empty''), out, w)
          else
            let q = select_from_args args in
            (case ce_new_s3 X opts of
               Inl e \<Rightarrow> Some (Err e, out, w)
             | Inr (C, s) \<Rightarrow>
                 if \<not> expands_remote u then
                   (case s3_select S U K s u q out w of
                      (Inl e, o1, w1) \<Rightarrow> Some (Err e, o1, w1)
                    | (Inr _, o1, w1) \<Rightarrow> Some (flush_out K o1, o1, w1))
                 else
                   (case compile_globs (ce_regex X) (qa_exclude args) of
                      Inl e \<Rightarrow> Some (Err (Message e), out, w)
                    | Inr exclude \<Rightarrow> select_expanded C S (ce_regex X) U K s u q exclude out w)))"

section \<open>What cat prints\<close>

context reading_service
begin

lemma cat_object_ok:
  assumes "cat_object C K s src out w = (Inr x, o1, w')" "url_version_id src = []"
  shows "\<exists>obj. contents (w_s3 w) (url_loc src) = Some obj \<and> o1 = out @ obj \<and> contents (w_s3 w') = contents (w_s3 w)
    \<and> w_files w' = w_files w"
proof -
  obtain resp s' where g: "sdk_get C (src_ref s src) None (w_s3 w) = (Inr resp, s')" and w': "w' = w\<lparr>w_s3 := s'\<rparr>"
    and c: "write_chunks K (gr_chunks resp) out = (Inr (), o1)" and b: "gr_body_error resp = None"
    using assms(1)
    by (auto simp: cat_object_def s3_read_def stream_body_def send_try_def send_def
        split: prod.splits sum.splits option.splits)
  have "contents (w_s3 w) (url_loc src) = Some (concat (gr_chunks resp))"
    using get_whole [OF g _ b] assms(2) by simp
  with write_chunks_Ok [OF c] get_frame [OF g] w' show ?thesis by simp
qed

lemma cat_objects_ok:
  assumes "cat_objects C K s srcs out w = (Inr x, o1, w')" "\<forall>u \<in> set srcs. url_version_id u = []"
  shows "o1 = out @ concat (map (\<lambda>u. unwrap_or [] (contents (w_s3 w) (url_loc u))) srcs)
    \<and> (\<forall>u \<in> set srcs. contents (w_s3 w) (url_loc u) \<noteq> None) \<and> contents (w_s3 w') = contents (w_s3 w) \<and> w_files w' = w_files w"
  using assms
proof (induction srcs arbitrary: out w)
  case (Cons src srcs)
  obtain r o2 w2 where r: "cat_object C K s src out w = (r, o2, w2)" by (metis prod_cases3)
  obtain y where y: "r = Inr y" using Cons.prems(1) r by (cases r) auto
  with r cat_object_ok [of K s src out w y o2 w2] Cons.prems(2) obtain obj where
    o: "contents (w_s3 w) (url_loc src) = Some obj" "o2 = out @ obj" "contents (w_s3 w2) = contents (w_s3 w)" "w_files w2 = w_files w"
    by auto
  have "cat_objects C K s srcs o2 w2 = (Inr x, o1, w')" using Cons.prems(1) r y by simp
  from Cons.IH [OF this] Cons.prems(2) o show ?case by simp
qed simp

end

definition file_urls :: "object list \<Rightarrow> url list" where
  "file_urls os = concat (map (\<lambda>ob. if type_is_dir (ob_typ ob) then [] else case ob_url ob of None \<Rightarrow> [] | Some v \<Rightarrow> [v]) os)"

lemma cat_sources_files: "cat_sources os = Inr us \<Longrightarrow> us = file_urls os"
  by (induction os arbitrary: us) (auto simp: file_urls_def and_then_eq_Inr split: option.splits if_splits)

lemma file_urls_listed:
  assumes "s3_list C L s u w = Some (os, w1)" "\<not> is_versioned u" "v \<in> set (file_urls os)"
  shows "url_version_id v = []"
proof -
  obtain ob where "ob \<in> set os" "ob_url ob = Some v"
    using assms(3) by (auto simp: file_urls_def split: option.splits if_splits)
  with s3_list_listed [OF assms(1)] have "listed_url L u v" by (auto simp: listed_ok_def)
  with assms(2) show ?thesis by (auto simp: listed_url_def is_versioned_def)
qed

text \<open>
  C26. A successful \<^verbatim>\<open>cat\<close> of a wildcard, prefix or bucket prints exactly the objects listed for it,
  whole, one after the other in the order of their keys: nothing is interleaved, repeated or left
  out, and nothing is changed.
\<close>

theorem cat_prints_sorted_objects:
  assumes "reading_service C contents uploads"
    and "cat_expanded C L K s u out w = Some (Inr x, o1, w')"
    and "\<not> is_versioned u"
  shows "\<exists>os w1 srcs. s3_list C L s u w = Some (os, w1) \<and> srcs \<noteq> [] \<and> sorted (map url_path srcs)
    \<and> mset srcs = mset (file_urls os)
    \<and> (\<forall>v \<in> set srcs. contents (w_s3 w) (url_loc v) \<noteq> None)
    \<and> o1 = out @ concat (map (\<lambda>v. unwrap_or [] (contents (w_s3 w) (url_loc v))) srcs)
    \<and> contents (w_s3 w') = contents (w_s3 w)"
proof -
  obtain os w1 us where l: "s3_list C L s u w = Some (os, w1)" and us: "cat_sources os = Inr us" "us \<noteq> []"
    and run: "cat_objects C K s (sort_key url_path us) out w1 = (Inr x, o1, w')"
    using assms(2) by (auto simp: cat_expanded_def split: option.splits sum.splits if_splits prod.splits)
  have us2: "us = file_urls os"
    by (rule cat_sources_files [OF us(1)])
  have v: "\<forall>v \<in> set (sort_key url_path us). url_version_id v = []"
    using file_urls_listed [OF l assms(3)] us2 by simp
  have same: "contents (w_s3 w1) = contents (w_s3 w)" using reading_service.list_same [OF assms(1) l] .
  note R = reading_service.cat_objects_ok [OF assms(1) run v, unfolded same]
  have "sort_key url_path us \<noteq> []" "sorted (map url_path (sort_key url_path us))" "mset (sort_key url_path us) = mset (file_urls os)"
    using us(2) us2 by (metis set_empty set_sort, simp_all)
  with l R show ?thesis by blast
qed

lemma demo_cat_runs: "map_option (\<lambda>(r, out, w). (r, out)) (cat_expanded memory_sdk reference_engine demo_console (demo_s3 4) (demo_url ''s3://b/*'') [] demo_store)
   = Some (Inr (), ''1224'')"
  by code_simp

theorem cat_prints_sorted_objects_witness:
  "\<exists>srcs. sorted (map url_path srcs) \<and> srcs \<noteq> []
    \<and> concat (map (\<lambda>v. unwrap_or [] (mem_contents (w_s3 demo_store) (url_loc v))) srcs) = ''1224''"
proof -
  obtain w where r: "cat_expanded memory_sdk reference_engine demo_console (demo_s3 4) (demo_url ''s3://b/*'') [] demo_store
      = Some (Inr (), ''1224'', w)"
    using demo_cat_runs by auto
  have "\<not> is_versioned (demo_url ''s3://b/*'')"
    by (simp add: demo_url_def url_eval Let_def is_versioned_def)
  from cat_prints_sorted_objects [OF mem_reading.reading_service_axioms r this] show ?thesis by auto
qed

end
