(* ===== verification/Ls.thy ===== *)
theory Ls
  imports Console Listed "HOL-Library.List_Lexorder" "HOL-Library.Char_ord"
begin

text \<open>
  The commands that report on listings: \<^verbatim>\<open>du\<close> (\<^verbatim>\<open>src/command/du.rs\<close>) and \<^verbatim>\<open>ls\<close> (\<^verbatim>\<open>src/command/ls.rs\<close>).
  The formatting of times, with the offset of the local time zone, is a parameter of the console.
\<close>

section \<open>du\<close>

record du_args =
  du_target :: "string option"
  du_humanize :: bool
  du_group :: bool
  du_exclude :: "string list"
  du_all_versions :: bool
  du_version_id :: "string option"

record size_and_count =
  sc_size :: int
  sc_count :: int

definition size_zero :: size_and_count where
  "size_zero = \<lparr>sc_size = 0, sc_count = 0\<rparr>"

definition size_add :: "int \<Rightarrow> size_and_count \<Rightarrow> size_and_count" where
  "size_add n sc = \<lparr>sc_size = i64_add (sc_size sc) n, sc_count = i64_add (sc_count sc) 1\<rparr>"

text \<open>A \<^verbatim>\<open>BTreeMap\<close> by class: sorted by the bytes of its keys.\<close>

type_synonym class_sizes = "(string \<times> size_and_count) list"

fun class_add :: "string \<Rightarrow> int \<Rightarrow> class_sizes \<Rightarrow> class_sizes" where
  "class_add k n [] = [(k, size_add n size_zero)]"
| "class_add k n ((j, sc) # rest) =
     (if k = j then (j, size_add n sc) # rest
      else if k < j then (k, size_add n size_zero) # (j, sc) # rest
      else (j, sc) # class_add k n rest)"

definition annotate_fatal :: "string \<Rightarrow> error \<Rightarrow> error" where
  "annotate_fatal target e =
     (let msg = to_ascii_lowercase (error_chain e) in
      if contains_str msg ''accessdenied'' \<or> contains_str msg ''nosuchbucket''
      then Message (''cannot access '' @ target @ '': '' @ error_chain e) else e)"

definition should_exclude :: "regex_lib \<Rightarrow> string list \<Rightarrow> string \<Rightarrow> bool" where
  "should_exclude L excludes key \<longleftrightarrow> list_ex (\<lambda>re. re_is_match L re key) excludes"

definition du_key :: "object \<Rightarrow> string" where
  "du_key ob = (case ob_url ob of Some u \<Rightarrow> relative u | None \<Rightarrow> [])"

definition du_counts :: "regex_lib \<Rightarrow> string list \<Rightarrow> object \<Rightarrow> bool" where
  "du_counts L excludes ob \<longleftrightarrow> \<not> type_is_dir (ob_typ ob) \<and> \<not> should_exclude L excludes (du_key ob)"

fun du_loop ::
  "regex_lib \<Rightarrow> string \<Rightarrow> string list \<Rightarrow> object list \<Rightarrow> size_and_count \<Rightarrow> class_sizes
     \<Rightarrow> (error, size_and_count \<times> class_sizes) result" where
  "du_loop L target excludes [] tot by_class = Ok (tot, by_class)"
| "du_loop L target excludes (ob # os) tot by_class =
     (case ob_err ob of
        Some e \<Rightarrow> Err (annotate_fatal target e)
      | None \<Rightarrow>
          if \<not> du_counts L excludes ob then du_loop L target excludes os tot by_class
          else du_loop L target excludes os (size_add (ob_size ob) tot)
                 (class_add (ob_storage_class ob) (ob_size ob) by_class))"

definition size_json :: "string \<Rightarrow> string option \<Rightarrow> size_and_count \<Rightarrow> json" where
  "size_json source cls sc =
     JObject ([(''source'', JString source), (''count'', JInt (sc_count sc)), (''size'', JInt (sc_size sc))]
       @ (case non_empty cls of Some c \<Rightarrow> [(''storage_class'', JString c)] | None \<Rightarrow> []))"

definition humanize_size :: "console \<Rightarrow> int \<Rightarrow> bool \<Rightarrow> string" where
  "humanize_size K n humanize = (if humanize then co_humansize K (nat (max n 0)) else show_int n)"

definition size_message :: "console \<Rightarrow> string \<Rightarrow> string option \<Rightarrow> size_and_count \<Rightarrow> bool \<Rightarrow> string" where
  "size_message K source cls sc humanize =
     humanize_size K (sc_size sc) humanize @ '' bytes in '' @ show_int (sc_count sc) @ '' objects: '' @ source
       @ (case non_empty cls of Some c \<Rightarrow> '' ['' @ c @ '']'' | None \<Rightarrow> [])"

definition du_line :: "console \<Rightarrow> out_mode \<Rightarrow> string \<Rightarrow> bool \<Rightarrow> string option \<Rightarrow> size_and_count \<Rightarrow> streams \<Rightarrow> streams" where
  "du_line K m source humanize cls sc =
     (if om_json m then json_line K (size_json source cls sc) else println (size_message K source cls sc humanize))"

definition du_report :: "console \<Rightarrow> out_mode \<Rightarrow> du_args \<Rightarrow> string \<Rightarrow> size_and_count \<Rightarrow> class_sizes \<Rightarrow> streams \<Rightarrow> streams" where
  "du_report K m args source tot by_class st =
     (if \<not> du_group args then du_line K m source (du_humanize args) None tot st
      else foldl (\<lambda>st (c, sc). du_line K m source (du_humanize args) (Some c) sc st) st by_class)"

definition du_run ::
  "'s cmd_env \<Rightarrow> console \<Rightarrow> out_mode \<Rightarrow> options \<Rightarrow> du_args \<Rightarrow> streams \<Rightarrow> 's world
     \<Rightarrow> ((error, unit) result \<times> streams \<times> 's world) option" where
  "du_run X K m opts args st w =
     (case du_target args of
        None \<Rightarrow> Some (Err (Message ''expected only 1 argument''), st, w)
      | Some target \<Rightarrow>
          (case url_new (ce_regex X) target
                  (default_url_options\<lparr>uo_all_versions := du_all_versions args, uo_version_id := du_version_id args\<rparr>) of
             Inl e \<Rightarrow> Some (Err (Message e), st, w)
           | Inr u \<Rightarrow>
               (case compile_globs (ce_regex X) (du_exclude args) of
                  Inl e \<Rightarrow> Some (Err (Message e), st, w)
                | Inr excludes \<Rightarrow>
                    (case new_client X u opts of
                       Inl e \<Rightarrow> Some (Err e, st, w)
                     | Inr c \<Rightarrow>
                         (case client_list X c u False w of
                            None \<Rightarrow> None
                          | Some (os, w1) \<Rightarrow>
                              (case du_loop (ce_regex X) target excludes os size_zero [] of
                                 Inl e \<Rightarrow> Some (Err e, st, w1)
                               | Inr (tot, by_class) \<Rightarrow>
                                   Some (Ok (), du_report K m args (absolute u) tot by_class st, w1)))))))"

section \<open>ls\<close>

record ls_args =
  la_target :: "string option"
  la_humanize :: bool
  la_storage_class :: bool
  la_etag :: bool
  la_all_versions :: bool
  la_version_id :: "string option"
  la_summarize :: bool
  la_show_fullpath :: bool
  la_start_after :: "string option"
  la_newer_than :: "string option"
  la_older_than :: "string option"
  la_local_time :: bool
  la_exclude :: "string list"
  la_include :: "string list"
  la_exclude_from :: "string list"
  la_include_from :: "string list"

definition unit_secs :: "char \<Rightarrow> nat option" where
  "unit_secs c =
     (if c = CHR ''s'' then Some 1 else if c = CHR ''m'' then Some 60
      else if c = CHR ''h'' then Some 3600 else if c = CHR ''d'' then Some 86400 else None)"

text \<open>The seconds of a duration; multiplication saturates.\<close>

definition parse_relative_duration :: "string \<Rightarrow> (error, nat option) result" where
  "parse_relative_duration s =
     (if s = [] then Ok None
      else
        case unit_secs (last s) of
          None \<Rightarrow> Ok None
        | Some u \<Rightarrow>
            let num = butlast s in
            if num = [] \<or> \<not> list_all is_digit num then Ok None
            else case parse_unsigned u64_max num of
                   None \<Rightarrow> Err (Message (''invalid duration `'' @ s @ ''`''))
                 | Some n \<Rightarrow> Ok (Some (min u64_max (n * u))))"

text \<open>A time of the system is a signed 64-bit number of seconds and nanoseconds.\<close>

definition time_sub :: "int \<Rightarrow> nat \<Rightarrow> int option" where
  "time_sub now secs =
     (if now div 1000000000 - int secs < - (2 ^ 63) then None else Some (now - int secs * 1000000000))"

definition parse_time_bound :: "console \<Rightarrow> string \<Rightarrow> int \<Rightarrow> (error, int) result" where
  "parse_time_bound K spec now =
     (let s = str_trim spec in
      if s = [] then Err (Message ''empty time value'')
      else
        and_then (parse_relative_duration s) (\<lambda>d.
          case d of
            Some dur \<Rightarrow>
              (case time_sub now dur of
                 Some t \<Rightarrow> Ok t
               | None \<Rightarrow> Err (Message (''duration `'' @ s @ ''` is too far in the past'')))
          | None \<Rightarrow>
              (case co_rfc3339 K s of
                 Inr t \<Rightarrow> Ok t
               | Inl e \<Rightarrow> Err (Message (''invalid time `'' @ s
                             @ ''`: expected RFC3339 or a duration like 24h/7d/30m/45s ('' @ e @ '')'')))))"

definition opt_bound :: "console \<Rightarrow> int \<Rightarrow> string option \<Rightarrow> (error, int option) result" where
  "opt_bound K now spec =
     (case spec of None \<Rightarrow> Ok None | Some s \<Rightarrow> and_then (parse_time_bound K s now) (\<lambda>t. Ok (Some t)))"

text \<open>The filters on names and on modification times.\<close>

definition ls_skips_name :: "regex_lib \<Rightarrow> filters \<Rightarrow> object \<Rightarrow> bool" where
  "ls_skips_name L fl ob \<longleftrightarrow>
     \<not> type_is_dir (ob_typ ob) \<and> (case ob_url ob of Some u \<Rightarrow> should_skip L fl (filter_key u) | None \<Rightarrow> False)"

definition ls_skips_time :: "int option \<Rightarrow> int option \<Rightarrow> object \<Rightarrow> bool" where
  "ls_skips_time newer_than older_than ob \<longleftrightarrow>
     (newer_than \<noteq> None \<or> older_than \<noteq> None) \<and>
     (case ob_mod_time ob of
        Some t \<Rightarrow> (case newer_than of Some lo \<Rightarrow> t < lo | None \<Rightarrow> False) \<or> (case older_than of Some hi \<Rightarrow> t \<ge> hi | None \<Rightarrow> False)
      | None \<Rightarrow> True)"

definition version_json :: "object \<Rightarrow> (string \<times> json) list" where
  "version_json ob =
     (case ob_url ob of
        Some u \<Rightarrow> if url_version_id u \<noteq> [] then [(''version_id'', JString (url_version_id u))] else []
      | None \<Rightarrow> [])"

definition ls_object_json :: "console \<Rightarrow> object \<Rightarrow> bool \<Rightarrow> json" where
  "ls_object_json K ob local_time =
     (let key = (case ob_url ob of Some u \<Rightarrow> relative u | None \<Rightarrow> []);
          typ = (if ob_is_delete_marker ob then ''delete_marker'' else if type_is_dir (ob_typ ob) then ''directory'' else ''file'');
          modified = (case ob_mod_time ob of Some t \<Rightarrow> [(''last_modified'', JString (co_format_time K local_time t))] | None \<Rightarrow> []);
          head = [(''type'', JString typ), (''key'', JString key)]
      in if ob_is_delete_marker ob then
           JObject (head @ [(''delete_marker'', JBool True)] @ modified @ version_json ob)
         else
           JObject (head
             @ (if type_is_dir (ob_typ ob) then []
                else [(''size'', JInt (ob_size ob))]
                  @ (if ob_etag ob \<noteq> [] then [(''etag'', JString (ob_etag ob))] else [])
                  @ (if ob_storage_class ob \<noteq> [] then [(''storage_class'', JString (ob_storage_class ob))] else [])
                  @ modified)
             @ version_json ob))"

definition ls_format_object :: "console \<Rightarrow> out_mode \<Rightarrow> object \<Rightarrow> ls_args \<Rightarrow> string" where
  "ls_format_object K m ob args =
     (let path = (case ob_url ob of Some u \<Rightarrow> relative u | None \<Rightarrow> []);
          version = (case ob_url ob of
                       Some u \<Rightarrow> if url_version_id u \<noteq> [] then ''  '' @ url_version_id u else [] | None \<Rightarrow> []);
          date = (case ob_mod_time ob of Some t \<Rightarrow> co_format_time K (la_local_time args) t | None \<Rightarrow> []);
          row = (\<lambda>d sc e n p. pad_left 19 d @ '' '' @ pad_left 2 sc @ '' '' @ pad_right 1 e @ '' '' @ pad_left 12 n @ ''  '' @ p)
      in if type_is_dir (ob_typ ob) \<and> ob_size ob = 0 \<and> ob_mod_time ob = None then row [] [] [] ''DIR'' (paint_dir m path)
         else if ob_is_delete_marker ob then row date [] [] ''DELETE_MARKER'' (path @ version)
         else
           row date (if la_storage_class args then ob_storage_class ob else [])
             (if la_etag args then ob_etag ob else [])
             (if la_humanize args then co_humansize K (nat (max (ob_size ob) 0)) else show_int (ob_size ob))
             (paint_object m path @ version))"

definition ls_entry :: "console \<Rightarrow> out_mode \<Rightarrow> ls_args \<Rightarrow> object \<Rightarrow> streams \<Rightarrow> streams" where
  "ls_entry K m args ob st =
     (if om_json m then json_line K (ls_object_json K ob (la_local_time args)) st
      else if la_show_fullpath args then
        (case ob_url ob of Some u \<Rightarrow> println (absolute u) st | None \<Rightarrow> st)
      else println (ls_format_object K m ob args) st)"

fun ls_loop ::
  "regex_lib \<Rightarrow> console \<Rightarrow> out_mode \<Rightarrow> ls_args \<Rightarrow> filters \<Rightarrow> int option \<Rightarrow> int option \<Rightarrow> object list \<Rightarrow> nat \<Rightarrow> int \<Rightarrow> streams
     \<Rightarrow> (error, nat \<times> int) result \<times> streams" where
  "ls_loop L K m args fl lo hi [] n sz st = (Ok (n, sz), st)"
| "ls_loop L K m args fl lo hi (ob # os) n sz st =
     (case ob_err ob of
        Some e \<Rightarrow> (Err e, st)
      | None \<Rightarrow>
          if ls_skips_name L fl ob \<or> ls_skips_time lo hi ob then ls_loop L K m args fl lo hi os n sz st
          else
            let counted = la_summarize args \<and> \<not> type_is_dir (ob_typ ob);
                n1 = (if counted then u64_add n 1 else n);
                size1 = (if counted then i64_add sz (ob_size ob) else sz)
            in ls_loop L K m args fl lo hi os n1 size1 (ls_entry K m args ob st))"

definition format_summary :: "console \<Rightarrow> nat \<Rightarrow> int \<Rightarrow> bool \<Rightarrow> string" where
  "format_summary K n sz humanize =
     ''Total objects: '' @ show_nat n @ [CHR 0x0A] @ ''Total size: '' @ humanize_size K sz humanize"

definition ls_summary :: "console \<Rightarrow> out_mode \<Rightarrow> ls_args \<Rightarrow> nat \<Rightarrow> int \<Rightarrow> streams \<Rightarrow> streams" where
  "ls_summary K m args n sz st =
     (if \<not> la_summarize args then st
      else if om_json m then
        json_line K (JObject [(''summary'', JBool True), (''total_objects'', JInt (int n)), (''total_size'', JInt sz)]) st
      else println (format_summary K n sz (la_humanize args)) st)"

definition ls_buckets :: "'s cmd_env \<Rightarrow> console \<Rightarrow> out_mode \<Rightarrow> options \<Rightarrow> string \<Rightarrow> bool \<Rightarrow> streams \<Rightarrow> 's world
     \<Rightarrow> (error, unit) result \<times> streams \<times> 's world" where
  "ls_buckets X K m opts prefix local_time st w =
     (case url_parse (ce_regex X) ''s3://_'' of
        Inl e \<Rightarrow> (Err (Message e), st, w)
      | Inr _ \<Rightarrow>
          (case ce_new_s3 X opts of
             Inl e \<Rightarrow> (Err e, st, w)
           | Inr (C, _) \<Rightarrow>
               (case list_buckets C prefix w of
                  (Inl e, w1) \<Rightarrow> (Err e, st, w1)
                | (Inr bs, w1) \<Rightarrow>
                    (Ok (),
                     foldl (\<lambda>st (name, created).
                       if om_json m then
                         json_line K (JObject ([(''name'', JString (''s3://'' @ name))]
                           @ (case created of Some t \<Rightarrow> [(''created_at'', JString (co_format_time K local_time t))] | None \<Rightarrow> []))) st
                       else
                         println ((case created of
                             Some t \<Rightarrow> co_format_time K local_time t
                           | None \<Rightarrow> replicate (if local_time then 25 else 19) (CHR 0x20)) @ ''  s3://'' @ name) st) st bs, w1))))"

definition ls_prepare ::
  "'s cmd_env \<Rightarrow> console \<Rightarrow> int \<Rightarrow> ls_args \<Rightarrow> 's world \<Rightarrow> (error, int option \<times> int option \<times> filters) result" where
  "ls_prepare X K now args w =
     and_then (opt_bound K now (la_newer_than args)) (\<lambda>lo.
     and_then (opt_bound K now (la_older_than args)) (\<lambda>hi.
     and_then (message_of (and_then (patterns_with_files (read_text X w) (la_include args) (la_include_from args)) (\<lambda>inc.
                 and_then (patterns_with_files (read_text X w) (la_exclude args) (la_exclude_from args)) (\<lambda>exc.
                   filters_new (ce_regex X) inc exc)))) (\<lambda>fl. Ok (lo, hi, fl))))"

definition ls_run ::
  "'s cmd_env \<Rightarrow> console \<Rightarrow> out_mode \<Rightarrow> int \<Rightarrow> options \<Rightarrow> ls_args \<Rightarrow> streams \<Rightarrow> 's world
     \<Rightarrow> ((error, unit) result \<times> streams \<times> 's world) option" where
  "ls_run X K m now opts args st w =
     (case la_target args of
        None \<Rightarrow> Some (ls_buckets X K m opts [] (la_local_time args) st w)
      | Some target \<Rightarrow>
          (case url_new (ce_regex X) target
                  (default_url_options\<lparr>uo_all_versions := la_all_versions args, uo_version_id := la_version_id args,
                     uo_start_after := la_start_after args\<rparr>) of
             Inl e \<Rightarrow> Some (Err (Message e), st, w)
           | Inr u \<Rightarrow>
               (case ls_prepare X K now args w of
                  Inl e \<Rightarrow> Some (Err e, st, w)
                | Inr (lo, hi, fl) \<Rightarrow>
                    (case new_client X u opts of
                       Inl e \<Rightarrow> Some (Err e, st, w)
                     | Inr c \<Rightarrow>
                         (case client_list X c u True w of
                            None \<Rightarrow> None
                          | Some (os, w1) \<Rightarrow>
                              (case ls_loop (ce_regex X) K m args fl lo hi os 0 0 st of
                                 (Inl e, st1) \<Rightarrow> Some (Err e, st1, w1)
                               | (Inr (n, sz), st1) \<Rightarrow> Some (Ok (), ls_summary K m args n sz st1, w1)))))))"

section \<open>Sums that wrap\<close>

lemma i64_add_assoc: "i64_add (i64_add 0 a) b = i64_add 0 (a + b)"
proof -
  have "(a + 2 ^ 63) mod 2 ^ 64 - 2 ^ 63 + b + 2 ^ 63 = (a + 2 ^ 63) mod 2 ^ 64 + (b :: int)" by simp
  then show ?thesis by (simp add: i64_add_def mod_add_right_eq mod_add_left_eq add.assoc add.commute add.left_commute)
qed

lemma i64_add_exact: "- (2 ^ 63) \<le> a \<Longrightarrow> a < 2 ^ 63 \<Longrightarrow> i64_add 0 a = a"
  by (simp add: i64_add_def)

text \<open>The size and count of a list of objects, as \<^verbatim>\<open>i64\<close> numbers.\<close>

definition size_of_objects :: "object list \<Rightarrow> size_and_count" where
  "size_of_objects os = \<lparr>sc_size = i64_add 0 (sum_list (map ob_size os)), sc_count = i64_add 0 (int (length os))\<rparr>"

lemma size_add_snoc: "size_add (ob_size ob) (size_of_objects os) = size_of_objects (os @ [ob])"
  by (simp add: size_add_def size_of_objects_def i64_add_assoc add.commute)

lemma size_of_none: "size_of_objects [] = size_zero"
  by (simp add: size_of_objects_def size_zero_def i64_add_def)

section \<open>du by class\<close>

lemma class_add_keys: "set (map fst (class_add k n cs)) = insert k (set (map fst cs))"
  by (induction k n cs rule: class_add.induct) auto

lemma class_add_sorted: "sorted_wrt (<) (map fst cs) \<Longrightarrow> sorted_wrt (<) (map fst (class_add k n cs))"
proof (induction k n cs rule: class_add.induct)
  case (2 k n j sc rest)
  then show ?case using class_add_keys [of k n rest] by (auto simp: not_less order.order_iff_strict)
qed simp

lemma class_add_lookup:
  "sorted_wrt (<) (map fst cs) \<Longrightarrow>
   map_of (class_add k n cs) = (map_of cs)(k \<mapsto> size_add n (unwrap_or size_zero (map_of cs k)))"
proof (induction k n cs rule: class_add.induct)
  case (2 k n j sc rest)
  have "map_of rest k = None" if "k < j"
    using 2(2) that by (auto simp: map_of_eq_None_iff)
  with 2 show ?case by (auto simp: fun_upd_twist)
qed auto

definition class_ok :: "object list \<Rightarrow> class_sizes \<Rightarrow> bool" where
  "class_ok os cs \<longleftrightarrow> sorted_wrt (<) (map fst cs) \<and>
     (\<forall>k. map_of cs k = (let in_class = filter (\<lambda>ob. ob_storage_class ob = k) os
                         in if in_class = [] then None else Some (size_of_objects in_class)))"

lemma class_ok_add:
  assumes "class_ok os cs"
  shows "class_ok (os @ [ob]) (class_add (ob_storage_class ob) (ob_size ob) cs)"
  unfolding class_ok_def
proof (intro conjI allI)
  show "sorted_wrt (<) (map fst (class_add (ob_storage_class ob) (ob_size ob) cs))"
    using assms by (simp add: class_ok_def class_add_sorted)
  fix k
  let ?f = "filter (\<lambda>ob. ob_storage_class ob = k) os"
  have k: "map_of cs k = (if ?f = [] then None else Some (size_of_objects ?f))"
    using assms by (simp add: class_ok_def Let_def)
  have add: "map_of (class_add (ob_storage_class ob) (ob_size ob) cs) = (map_of cs)(ob_storage_class ob \<mapsto>
      size_add (ob_size ob) (unwrap_or size_zero (map_of cs (ob_storage_class ob))))"
    using assms by (simp add: class_ok_def class_add_lookup)
  show "map_of (class_add (ob_storage_class ob) (ob_size ob) cs) k =
      (let in_class = filter (\<lambda>ob. ob_storage_class ob = k) (os @ [ob])
       in if in_class = [] then None else Some (size_of_objects in_class))"
  proof (cases "ob_storage_class ob = k")
    case True
    then show ?thesis
      using add k size_add_snoc [of ob ?f] by (cases "?f = []") (auto simp: size_of_none Let_def)
  next
    case False
    then show ?thesis using add k by (simp add: Let_def)
  qed
qed

lemma du_loop_sums:
  assumes "du_loop L t ex os (size_of_objects seen) cs = Inr (tot, by_class)" "class_ok seen cs"
  shows "tot = size_of_objects (seen @ filter (du_counts L ex) os) \<and> class_ok (seen @ filter (du_counts L ex) os) by_class
    \<and> list_all (\<lambda>ob. ob_err ob = None) os"
  using assms
proof (induction os arbitrary: seen cs)
  case (Cons ob os)
  then show ?case
    using Cons.IH [of "seen @ [ob]" "class_add (ob_storage_class ob) (ob_size ob) cs"] class_ok_add [OF Cons.prems(2), of ob]
    by (cases "ob_err ob") (auto simp: size_add_snoc split: if_splits)
qed simp

text \<open>
  \<^verbatim>\<open>du\<close> counts every listed object that is no directory and no exclude glob matches, once, in the
  total and in its own storage class, and nothing else: the classes are sorted, one line each, and
  each holds the sum of its objects. The sums are those of 64-bit integers, exact as long as they
  fit; a listing that contains an error gives no figures at all.
\<close>

theorem du_counts_exactly:
  assumes "du_loop L target excludes os size_zero [] = Inr (tot, by_class)"
  shows "tot = size_of_objects (filter (du_counts L excludes) os)
    \<and> sorted_wrt (<) (map fst by_class)
    \<and> map_of by_class = (\<lambda>k. let in_class = filter (\<lambda>ob. du_counts L excludes ob \<and> ob_storage_class ob = k) os
                              in if in_class = [] then None else Some (size_of_objects in_class))
    \<and> list_all (\<lambda>ob. ob_err ob = None) os"
proof -
  have "class_ok [] []" by (simp add: class_ok_def)
  from du_loop_sums [of L target excludes os "[]", unfolded size_of_none, OF assms this]
  show ?thesis by (auto simp: class_ok_def fun_eq_iff conj_commute Let_def)
qed

definition demo_objects :: "object list" where
  "demo_objects =
     [default_object\<lparr>ob_url := Some (demo_url ''s3://b/k''), ob_typ := FileType, ob_size := 3, ob_storage_class := ''STANDARD'', ob_mod_time := Some 5\<rparr>,
      default_object\<lparr>ob_url := Some (demo_url ''s3://b/l''), ob_typ := FileType, ob_size := 4, ob_storage_class := ''GLACIER'', ob_mod_time := Some 9\<rparr>,
      default_object\<lparr>ob_typ := DirType\<rparr>]"

theorem du_counts_exactly_witness:
  "\<exists>tot by_class. du_loop reference_engine ''s3://b'' [] demo_objects size_zero [] = Inr (tot, by_class)
     \<and> sc_size tot = 7 \<and> sc_count tot = 2 \<and> map fst by_class = [''GLACIER'', ''STANDARD'']"
proof -
  obtain tot by_class where r: "du_loop reference_engine ''s3://b'' [] demo_objects size_zero [] = Inr (tot, by_class)"
    "map fst by_class = [''GLACIER'', ''STANDARD'']"
    by (simp add: demo_objects_def default_object_def du_counts_def type_is_dir_def should_exclude_def)
  from du_counts_exactly [OF r(1)] show ?thesis
    using r by (simp add: demo_objects_def default_object_def du_counts_def type_is_dir_def should_exclude_def
        size_of_objects_def i64_add_def)
qed

section \<open>What ls prints\<close>

definition ls_shows :: "regex_lib \<Rightarrow> filters \<Rightarrow> int option \<Rightarrow> int option \<Rightarrow> object \<Rightarrow> bool" where
  "ls_shows L fl lo hi ob \<longleftrightarrow>
     (type_is_dir (ob_typ ob) \<or> (\<forall>u. ob_url ob = Some u \<longrightarrow> \<not> should_skip L fl (filter_key u)))
     \<and> (lo = None \<and> hi = None \<or>
         (\<exists>t. ob_mod_time ob = Some t \<and> (\<forall>b. lo = Some b \<longrightarrow> b \<le> t) \<and> (\<forall>b. hi = Some b \<longrightarrow> t < b)))"

lemma ls_shows_iff: "ls_shows L fl lo hi ob \<longleftrightarrow> \<not> (ls_skips_name L fl ob \<or> ls_skips_time lo hi ob)"
  by (cases "ob_url ob"; cases "ob_mod_time ob"; cases lo; cases hi)
     (auto simp: ls_shows_def ls_skips_name_def ls_skips_time_def)

lemma ls_loop_step:
  "ob_err ob = None \<Longrightarrow> ls_loop L K m args fl lo hi (ob # os) n sz st =
     (if \<not> ls_shows L fl lo hi ob then ls_loop L K m args fl lo hi os n sz st
      else if la_summarize args \<and> \<not> type_is_dir (ob_typ ob)
      then ls_loop L K m args fl lo hi os (u64_add n 1) (i64_add sz (ob_size ob)) (ls_entry K m args ob st)
      else ls_loop L K m args fl lo hi os n sz (ls_entry K m args ob st))"
  by (simp add: ls_shows_iff Let_def)

lemma ls_loop_prints:
  "ls_loop L K m args fl lo hi os n sz st = (Inr (n', sz'), st') \<Longrightarrow>
     st' = foldl (\<lambda>st ob. ls_entry K m args ob st) st (filter (ls_shows L fl lo hi) os)
     \<and> (\<not> la_summarize args \<longrightarrow> n' = n \<and> sz' = sz)
     \<and> list_all (\<lambda>ob. ob_err ob = None) os"
proof (induction os arbitrary: n sz st)
  case (Cons ob os)
  have e: "ob_err ob = None" using Cons.prems by (cases "ob_err ob") simp_all
  obtain n1 sz1 st1 where "ls_loop L K m args fl lo hi os n1 sz1 st1 = (Inr (n', sz'), st')"
    "ls_shows L fl lo hi ob \<Longrightarrow> st1 = ls_entry K m args ob st" "\<not> ls_shows L fl lo hi ob \<Longrightarrow> st1 = st"
    "\<not> la_summarize args \<Longrightarrow> n1 = n \<and> sz1 = sz" "ob_err ob = None"
    using Cons.prems e unfolding ls_loop_step [OF e] by (auto split: if_splits)
  with Cons.IH [of n1 sz1 st1] show ?case by auto
qed simp

lemma ls_loop_total:
  "list_all (\<lambda>ob. ob_err ob = None) os \<Longrightarrow> \<exists>n' sz' st'. ls_loop L K m args fl lo hi os n sz st = (Inr (n', sz'), st')"
  by (induction os arbitrary: n sz st) (auto simp: ls_loop_step simp del: ls_loop.simps(2))

lemma ls_loop_sums:
  assumes "ls_loop L K m args fl lo hi os (length seen) (i64_add 0 (sum_list (map ob_size seen))) st = (Inr (n, sz), st')"
    and "la_summarize args" "length seen + length os < u64_lim"
  shows "n = length (seen @ filter (\<lambda>ob. ls_shows L fl lo hi ob \<and> \<not> type_is_dir (ob_typ ob)) os)
    \<and> sz = i64_add 0 (sum_list (map ob_size (seen @ filter (\<lambda>ob. ls_shows L fl lo hi ob \<and> \<not> type_is_dir (ob_typ ob)) os)))"
  using assms(1,3)
proof (induction os arbitrary: seen st)
  case (Cons ob os)
  have e: "ob_err ob = None" using Cons.prems(1) by (cases "ob_err ob") auto
  have n: "u64_add (length seen) 1 = length (seen @ [ob])"
    using Cons.prems(2) u64_add_eq [of "length seen" 1] by simp
  have sz: "i64_add (i64_add 0 (sum_list (map ob_size seen))) (ob_size ob) = i64_add 0 (sum_list (map ob_size (seen @ [ob])))"
    by (simp add: i64_add_assoc)
  show ?case
  proof (cases "ls_shows L fl lo hi ob \<and> \<not> type_is_dir (ob_typ ob)")
    case True
    with Cons.prems(1) e have "ls_loop L K m args fl lo hi os (length (seen @ [ob])) (i64_add 0 (sum_list (map ob_size (seen @ [ob]))))
        (ls_entry K m args ob st) = (Inr (n, sz), st')"
      unfolding ls_loop_step [OF e] using assms(2) n sz by simp
    from Cons.IH [OF this] Cons.prems(2) True show ?thesis by simp
  next
    case False
    obtain st1 where "ls_loop L K m args fl lo hi os (length seen) (i64_add 0 (sum_list (map ob_size seen))) st1 = (Inr (n, sz), st')"
      using False Cons.prems(1) unfolding ls_loop_step [OF e] by (auto split: if_splits)
    from Cons.IH [OF this] Cons.prems(2) False show ?thesis by auto
  qed
qed simp

text \<open>
  C33. A listing that succeeds prints exactly one entry for every listed object that the filters let
  through and whose modification time lies in the half-open window from \<^verbatim>\<open>--newer-than\<close> to
  \<^verbatim>\<open>--older-than\<close>, in the order of the listing; with \<^verbatim>\<open>--summarize\<close> the footer counts and adds up exactly
  the printed entries that are no directories.
\<close>

theorem ls_prints_selected:
  assumes "ls_loop L K m args fl lo hi os 0 0 st = (Inr (n, sz), st')" "length os < u64_lim"
  shows "st' = foldl (\<lambda>st ob. ls_entry K m args ob st) st (filter (ls_shows L fl lo hi) os)
    \<and> (la_summarize args \<longrightarrow>
         n = length (filter (\<lambda>ob. ls_shows L fl lo hi ob \<and> \<not> type_is_dir (ob_typ ob)) os)
         \<and> sz = i64_add 0 (sum_list (map ob_size (filter (\<lambda>ob. ls_shows L fl lo hi ob \<and> \<not> type_is_dir (ob_typ ob)) os))))"
proof -
  have "i64_add 0 (sum_list (map ob_size [])) = 0" by (simp add: i64_add_def)
  then show ?thesis
    using ls_loop_prints [OF assms(1)] ls_loop_sums [of L K m args fl lo hi os "[]" st n sz st'] assms by simp
qed

definition demo_ls :: ls_args where
  "demo_ls = \<lparr>la_target = None, la_humanize = False, la_storage_class = False, la_etag = False, la_all_versions = False,
     la_version_id = None, la_summarize = True, la_show_fullpath = True, la_start_after = None, la_newer_than = None,
     la_older_than = None, la_local_time = False, la_exclude = [], la_include = [], la_exclude_from = [], la_include_from = []\<rparr>"

abbreviation plain_mode :: out_mode where
  "plain_mode \<equiv> \<lparr>om_json = False, om_dry_run = False, om_color = False\<rparr>"

theorem ls_prints_selected_witness:
  "\<exists>n sz st. ls_loop reference_engine demo_console plain_mode demo_ls \<lparr>f_includes = [], f_excludes = []\<rparr> (Some 6) None demo_objects 0 0
      \<lparr>st_out = [], st_err = []\<rparr> = (Inr (n, sz), st) \<and> n = 1 \<and> sz = 4"
proof -
  let ?r = "ls_loop reference_engine demo_console plain_mode demo_ls \<lparr>f_includes = [], f_excludes = []\<rparr> (Some 6) None demo_objects 0 0
      \<lparr>st_out = [], st_err = []\<rparr>"
  obtain n sz st where r: "?r = (Inr (n, sz), st)"
    using ls_loop_total [of demo_objects] by (fastforce simp: demo_objects_def default_object_def)
  have l: "length demo_objects < u64_lim" by (simp add: demo_objects_def)
  have "la_summarize demo_ls" by (simp add: demo_ls_def)
  with ls_prints_selected [OF r l] have "n = 1" "sz = 4"
    by (simp_all add: demo_objects_def default_object_def ls_shows_def type_is_dir_def should_skip_def i64_add_def)
  with r show ?thesis by blast
qed

end
