(* ===== verification/Key_Tree.thy ===== *)
theory Key_Tree
  imports Console Listed "HOL-Library.List_Lexorder" "HOL-Library.Char_ord"
begin

text \<open>
  The \<^verbatim>\<open>tree\<close> command (\<^verbatim>\<open>src/command/tree.rs\<close>): the keys of a listing are entered into a trie of path
  segments, which is printed with connectors. The children of a node are a \<^verbatim>\<open>BTreeMap\<close>, a list sorted
  by the bytes of the names.
\<close>

section \<open>The tree of nodes\<close>

datatype key_node = Node (nd_children: "(string \<times> key_node) list") (nd_size: "int option") (nd_is_dir: bool)

abbreviation default_node :: key_node where
  "default_node \<equiv> Node [] None False"

text \<open>\<^verbatim>\<open>entry(key).or_default()\<close> of a sorted map, followed by an update of the entry.\<close>

fun upsert :: "string \<Rightarrow> ('a \<Rightarrow> 'a) \<Rightarrow> 'a \<Rightarrow> (string \<times> 'a) list \<Rightarrow> (string \<times> 'a) list" where
  "upsert k f d [] = [(k, f d)]"
| "upsert k f d ((j, x) # rest) =
     (if k = j then (j, f x) # rest
      else if k < j then (k, f d) # (j, x) # rest
      else (j, x) # upsert k f d rest)"

definition mark_last :: "int option \<Rightarrow> bool \<Rightarrow> key_node \<Rightarrow> key_node" where
  "mark_last sz dir nd = (if dir then Node (nd_children nd) (nd_size nd) True else Node (nd_children nd) sz (nd_is_dir nd))"

definition mark_dir :: "key_node \<Rightarrow> key_node" where
  "mark_dir nd = Node (nd_children nd) (nd_size nd) True"

fun insert_path :: "string list \<Rightarrow> int option \<Rightarrow> bool \<Rightarrow> key_node \<Rightarrow> key_node" where
  "insert_path [] sz dir nd = nd"
| "insert_path [seg] sz dir (Node cs s d) = Node (upsert seg (mark_last sz dir) default_node cs) s d"
| "insert_path (seg # segs) sz dir (Node cs s d) =
     Node (upsert seg (\<lambda>child. insert_path segs sz dir (mark_dir child)) default_node cs) s d"

definition node_insert :: "string list \<Rightarrow> int option \<Rightarrow> bool \<Rightarrow> key_node \<Rightarrow> key_node" where
  "node_insert segments sz dir nd = insert_path (filter (\<lambda>s. s \<noteq> []) segments) sz dir nd"

section \<open>Printing\<close>

definition format_node :: "string \<Rightarrow> key_node \<Rightarrow> bool \<Rightarrow> string" where
  "format_node name nd show_size =
     (let is_dir = nd_is_dir nd \<or> nd_children nd \<noteq> [] in
      if \<not> is_dir \<and> show_size then (case nd_size nd of Some sz \<Rightarrow> name @ '' ('' @ show_int sz @ '')'' | None \<Rightarrow> name)
      else name)"

text \<open>The UTF-8 bytes of the box-drawing characters.\<close>

definition tee :: string where
  "tee = [char_of (0xE2 :: nat), char_of (0x94 :: nat), char_of (0x9C :: nat), char_of (0xE2 :: nat), char_of (0x94 :: nat), char_of (0x80 :: nat),
     char_of (0xE2 :: nat), char_of (0x94 :: nat), char_of (0x80 :: nat), CHR 0x20]"

definition corner :: string where
  "corner = [char_of (0xE2 :: nat), char_of (0x94 :: nat), char_of (0x94 :: nat), char_of (0xE2 :: nat), char_of (0x94 :: nat), char_of (0x80 :: nat),
     char_of (0xE2 :: nat), char_of (0x94 :: nat), char_of (0x80 :: nat), CHR 0x20]"

definition bar :: string where
  "bar = [char_of (0xE2 :: nat), char_of (0x94 :: nat), char_of (0x82 :: nat)] @ ''   ''"

lemma children_smaller: "size_list (size_prod (\<lambda>_. 0) size) (nd_children nd) < size nd"
  by (cases nd) simp

function (sequential) child_lines :: "(string \<times> key_node) list \<Rightarrow> string \<Rightarrow> bool \<Rightarrow> string list" where
  "child_lines [] prefix show_size = []"
| "child_lines ((name, child) # rest) prefix show_size =
     (let is_last = rest = [] in
      (prefix @ (if is_last then corner else tee) @ format_node name child show_size)
        # child_lines (nd_children child) (prefix @ (if is_last then ''    '' else bar)) show_size
        @ child_lines rest prefix show_size)"
  by pat_completeness auto
termination
  by (relation "measure (\<lambda>(cs, p, s). size_list (size_prod (\<lambda>_. 0) size) cs)") (auto simp: less_Suc_eq_le intro: le_trans [OF less_imp_le [OF children_smaller]])

definition print_children :: "key_node \<Rightarrow> string \<Rightarrow> bool \<Rightarrow> streams \<Rightarrow> streams" where
  "print_children nd prefix show_size st = foldl (\<lambda>st l. println l st) st (child_lines (nd_children nd) prefix show_size)"

section \<open>The command\<close>

record tree_args =
  ta_target :: string
  ta_depth :: "nat option"
  ta_limit :: "nat option"
  ta_size :: bool

definition listing_target :: "url \<Rightarrow> string" where
  "listing_target u =
     (let base = absolute u in
      if is_remote u then
        if is_bucket u then base @ ''/*'' else if ends_with base ''/'' then base @ ''*'' else base @ ''/*''
      else if ends_with base ''/'' then base @ ''*'' else base @ ''/*'')"

fun tree_loop :: "nat option \<Rightarrow> nat option \<Rightarrow> object list \<Rightarrow> nat \<Rightarrow> key_node \<Rightarrow> (error, key_node) result" where
  "tree_loop depth limit [] collected root = Ok root"
| "tree_loop depth limit (ob # os) collected root =
     (case ob_err ob of
        Some e \<Rightarrow> Err e
      | None \<Rightarrow>
          let key = (case ob_url ob of Some u \<Rightarrow> relative u | None \<Rightarrow> []) in
          if key = [] then tree_loop depth limit os collected root
          else if depth = Some 0 then tree_loop depth limit os collected root
          else
            let is_dir = type_is_dir (ob_typ ob) \<or> ends_with key ''/'';
                segments = split_on (CHR ''/'') key;
                shown = (case depth of Some d \<Rightarrow> take d segments | None \<Rightarrow> segments);
                root1 = node_insert shown (if is_dir then None else Some (ob_size ob)) is_dir root
            in if is_dir then tree_loop depth limit os collected root1
               else if (case limit of Some l \<Rightarrow> Suc collected \<ge> l | None \<Rightarrow> False) then Ok root1
               else tree_loop depth limit os (Suc collected) root1)"

definition tree_run ::
  "'s cmd_env \<Rightarrow> options \<Rightarrow> tree_args \<Rightarrow> streams \<Rightarrow> 's world \<Rightarrow> ((error, unit) result \<times> streams \<times> 's world) option" where
  "tree_run X opts args st w =
     (case url_new (ce_regex X) (ta_target args) default_url_options of
        Inl e \<Rightarrow> Some (Err (Message e), st, w)
      | Inr display_url \<Rightarrow>
          (case url_new (ce_regex X) (listing_target display_url) default_url_options of
             Inl e \<Rightarrow> Some (Err (Message e), st, w)
           | Inr listing_url \<Rightarrow>
               (case new_client X display_url opts of
                  Inl e \<Rightarrow> Some (Err e, st, w)
                | Inr c \<Rightarrow>
                    (case client_list X c listing_url True w of
                       None \<Rightarrow> None
                     | Some (os, w1) \<Rightarrow>
                         (case tree_loop (ta_depth args) (ta_limit args) os 0 default_node of
                            Inl e \<Rightarrow> Some (Err e, st, w1)
                          | Inr root \<Rightarrow>
                              Some (Ok (), print_children root [] (ta_size args) (println (absolute display_url) st), w1))))))"

section \<open>The tree as a set of paths\<close>

fun has_path :: "key_node \<Rightarrow> string list \<Rightarrow> bool" where
  "has_path nd [] = True"
| "has_path nd (s # p) = (case map_of (nd_children nd) s of Some c \<Rightarrow> has_path c p | None \<Rightarrow> False)"

text \<open>Well-formed trees: the children of every node are strictly sorted.\<close>

inductive tree_ok :: "key_node \<Rightarrow> bool" where
  "sorted_wrt (<) (map fst (nd_children nd)) \<Longrightarrow> (\<And>n c. (n, c) \<in> set (nd_children nd) \<Longrightarrow> tree_ok c) \<Longrightarrow> tree_ok nd"

inductive_simps tree_ok_Node: "tree_ok (Node cs s d)"

lemma tree_ok_children:
  "tree_ok nd \<longleftrightarrow> sorted_wrt (<) (map fst (nd_children nd)) \<and> (\<forall>n c. (n, c) \<in> set (nd_children nd) \<longrightarrow> tree_ok c)"
  by (cases nd) (simp add: tree_ok_Node)

lemma has_path_children: "nd_children a = nd_children b \<Longrightarrow> has_path a p = has_path b p"
  by (cases p) simp_all

lemma upsert_keys: "set (map fst (upsert k f d cs)) = insert k (set (map fst cs))"
  by (induction k f d cs rule: upsert.induct) auto

lemma upsert_sorted: "sorted_wrt (<) (map fst cs) \<Longrightarrow> sorted_wrt (<) (map fst (upsert k f d cs))"
proof (induction k f d cs rule: upsert.induct)
  case (2 k f d j x rest)
  then show ?case using upsert_keys [of k f d rest] by (auto simp: not_less order.order_iff_strict)
qed simp

lemma upsert_lookup:
  "sorted_wrt (<) (map fst cs) \<Longrightarrow> map_of (upsert k f d cs) = (map_of cs)(k \<mapsto> f (unwrap_or d (map_of cs k)))"
proof (induction k f d cs rule: upsert.induct)
  case (2 k f d j x rest)
  have "map_of rest k = None" if "k < j" using 2(2) that by (auto simp: map_of_eq_None_iff)
  with 2 show ?case by (auto simp: fun_upd_twist)
qed auto

lemma upsert_in: "(n, c) \<in> set (upsert k f d cs) \<Longrightarrow> (n, c) \<in> set cs \<or> c = f d \<or> (\<exists>x. (k, x) \<in> set cs \<and> c = f x)"
  by (induction k f d cs rule: upsert.induct) (auto split: if_splits)

lemma tree_ok_default: "tree_ok default_node"
  by (simp add: tree_ok_Node)

lemma tree_ok_upsert:
  assumes "tree_ok (Node cs s d)" "\<And>x. tree_ok x \<Longrightarrow> tree_ok (f x)"
  shows "tree_ok (Node (upsert k f default_node cs) s2 d2)"
proof -
  have cs: "sorted_wrt (<) (map fst cs)" "\<And>n c. (n, c) \<in> set cs \<Longrightarrow> tree_ok c"
    using assms(1) by (auto simp: tree_ok_Node)
  have "tree_ok c" if "(n, c) \<in> set (upsert k f default_node cs)" for n c
    using upsert_in [OF that] cs(2) assms(2) tree_ok_default by blast
  then show ?thesis using upsert_sorted [OF cs(1)] by (simp add: tree_ok_Node)
qed

lemma tree_ok_marks: "tree_ok nd \<Longrightarrow> tree_ok (mark_last sz dir nd)" "tree_ok nd \<Longrightarrow> tree_ok (mark_dir nd)"
  by (cases nd; simp add: mark_last_def mark_dir_def tree_ok_Node)+

lemma insert_path_ok: "tree_ok nd \<Longrightarrow> tree_ok (insert_path segs sz dir nd)"
proof (induction segs sz dir nd rule: insert_path.induct)
  case (2 seg sz dir cs s d)
  show ?case unfolding insert_path.simps by (rule tree_ok_upsert [OF 2]) (rule tree_ok_marks)
next
  case (3 seg v va sz dir cs s d)
  show ?case unfolding insert_path.simps by (rule tree_ok_upsert [OF 3(2)]) (intro 3(1) tree_ok_marks)
qed simp

lemma has_path_marks: "has_path (mark_last sz dir nd) p = has_path nd p" "has_path (mark_dir nd) p = has_path nd p"
  by (cases p; simp add: mark_last_def mark_dir_def)+

lemma has_path_default: "has_path default_node p \<longleftrightarrow> p = []"
  by (cases p) simp_all

text \<open>Inserting a path adds exactly its prefixes.\<close>

lemma insert_path_paths:
  "tree_ok nd \<Longrightarrow> has_path (insert_path segs sz dir nd) p \<longleftrightarrow> has_path nd p \<or> (\<exists>q. segs = p @ q)"
proof (induction segs arbitrary: nd p)
  case (Cons seg segs)
  obtain cs s d where nd: "nd = Node cs s d" by (cases nd)
  have srt: "sorted_wrt (<) (map fst cs)" and kids: "\<And>c. map_of cs seg = Some c \<Longrightarrow> tree_ok c"
    using Cons.prems nd by (auto simp: tree_ok_Node dest: map_of_SomeD)
  define f where "f = (if segs = [] then mark_last sz dir else (\<lambda>child. insert_path segs sz dir (mark_dir child)))"
  have ins: "insert_path (seg # segs) sz dir nd = Node (upsert seg f default_node cs) s d"
    by (cases segs) (simp_all add: f_def nd)
  have f: "has_path (f c) r \<longleftrightarrow> has_path c r \<or> (\<exists>q. segs = r @ q)" if "tree_ok c" for c r
    using Cons.IH [of "mark_dir c" r] that by (cases "segs = []") (auto simp: f_def has_path_marks tree_ok_marks)
  show ?case
  proof (cases p)
    case (Cons t r)
    show ?thesis
    proof (cases "t = seg")
      case True
      have "tree_ok (unwrap_or default_node (map_of cs seg))"
        using kids tree_ok_default by (cases "map_of cs seg") simp_all
      note F = f [OF this, of r]
      show ?thesis using F True Cons ins nd srt
        by (cases "map_of cs seg") (auto simp: upsert_lookup has_path_default)
    qed (use Cons ins nd srt in \<open>simp add: upsert_lookup\<close>)
  qed simp
next
  case Nil
  then show ?case by (cases p) simp_all
qed

section \<open>What is printed\<close>

text \<open>The paths of the nodes in the order of the lines.\<close>

function (sequential) tree_paths :: "(string \<times> key_node) list \<Rightarrow> string list list" where
  "tree_paths [] = []"
| "tree_paths ((name, child) # rest) = [name] # map ((#) name) (tree_paths (nd_children child)) @ tree_paths rest"
  by pat_completeness auto
termination
  by (relation "measure (size_list (size_prod (\<lambda>_. 0) size))") (auto simp: less_Suc_eq_le intro: le_trans [OF less_imp_le [OF children_smaller]])

lemma one_line_per_path: "length (child_lines cs pre b) = length (tree_paths cs)"
  by (induction cs pre b rule: child_lines.induct) (simp_all add: Let_def)

lemma tree_paths_iff:
  "sorted_wrt (<) (map fst cs) \<Longrightarrow> (\<And>n c. (n, c) \<in> set cs \<Longrightarrow> tree_ok c) \<Longrightarrow>
   p \<in> set (tree_paths cs) \<longleftrightarrow> p \<noteq> [] \<and> has_path (Node cs s d) p"
proof (induction cs arbitrary: p rule: tree_paths.induct)
  case (2 name child rest)
  have c: "tree_ok child" using 2(4) by auto
  then have child: "q \<in> set (tree_paths (nd_children child)) \<longleftrightarrow> q \<noteq> [] \<and> has_path child q" for q
    using 2(1) [of q] has_path_children [of child "Node (nd_children child) s d" q] by (auto simp: tree_ok_children [of child])
  have rest: "q \<in> set (tree_paths rest) \<longleftrightarrow> q \<noteq> [] \<and> has_path (Node rest s d) q" for q
    using 2(2) [of q] 2(3,4) by auto
  have new: "map_of rest name = None" using 2(3) by (auto simp: map_of_eq_None_iff)
  show ?case
  proof (cases p)
    case (Cons t r)
    have "name # r \<notin> set (tree_paths rest)" for r using rest [of "name # r"] new by simp
    then show ?thesis using child [of r] rest [of p] Cons by (cases "t = name"; cases r) auto
  qed (use rest in auto)
next
  case 1
  then show ?case by (cases p) simp_all
qed

lemma tree_paths_distinct:
  "sorted_wrt (<) (map fst cs) \<Longrightarrow> (\<And>n c. (n, c) \<in> set cs \<Longrightarrow> tree_ok c) \<Longrightarrow> distinct (tree_paths cs)"
proof (induction cs rule: tree_paths.induct)
  case (2 name child rest)
  have c: "tree_ok child" using 2(4) by auto
  then have kids: "sorted_wrt (<) (map fst (nd_children child))" "\<And>n x. (n, x) \<in> set (nd_children child) \<Longrightarrow> tree_ok x"
    by (auto simp: tree_ok_children [of child])
  have rest: "sorted_wrt (<) (map fst rest)" "\<And>n x. (n, x) \<in> set rest \<Longrightarrow> tree_ok x" using 2(3,4) by auto
  have new: "map_of rest name = None" using 2(3) by (auto simp: map_of_eq_None_iff)
  have "name # q \<notin> set (tree_paths rest)" for q
    using tree_paths_iff [OF rest, where p = "name # q" and s = None and d = False] new by simp
  moreover have "[] \<notin> set (tree_paths (nd_children child))"
    using tree_paths_iff [OF kids, where p = "[]" and s = None and d = False] by simp
  moreover have "distinct (tree_paths (nd_children child))" "distinct (tree_paths rest)"
    by (rule 2(1), fact kids(1), erule kids(2)) (rule 2(2), fact rest(1), erule rest(2))
  ultimately show ?case by (auto simp: distinct_map)
qed simp

definition shown_segments :: "nat option \<Rightarrow> object \<Rightarrow> string list" where
  "shown_segments depth ob =
     (let segs = split_on (CHR ''/'') (case ob_url ob of Some u \<Rightarrow> relative u | None \<Rightarrow> [])
      in filter (\<lambda>s. s \<noteq> []) (case depth of Some d \<Rightarrow> take d segs | None \<Rightarrow> segs))"

lemma tree_loop_paths:
  assumes "tree_loop depth None os n root = Inr root'" "tree_ok root"
  shows "tree_ok root' \<and> (\<forall>p. has_path root' p \<longleftrightarrow> has_path root p \<or> (\<exists>ob \<in> set os. \<exists>q. shown_segments depth ob = p @ q))"
  using assms
proof (induction os arbitrary: n root)
  case (Cons ob os)
  let ?key = "case ob_url ob of Some u \<Rightarrow> relative u | None \<Rightarrow> []"
  have e: "ob_err ob = None" using Cons.prems(1) by (cases "ob_err ob") simp_all
  have "\<exists>m root1. tree_loop depth None os m root1 = Inr root' \<and> tree_ok root1 \<and>
    (\<forall>p. has_path root1 p \<longleftrightarrow> has_path root p \<or> (\<exists>q. shown_segments depth ob = p @ q))"
  proof (cases "?key = [] \<or> depth = Some 0")
    case True
    then have "shown_segments depth ob = []" by (cases depth) (auto simp: shown_segments_def Let_def take_Cons' split: option.splits)
    then have "(\<exists>q. shown_segments depth ob = p @ q) \<longrightarrow> has_path root p" for p by (cases p) simp_all
    moreover have "tree_loop depth None os n root = Inr root'" using Cons.prems(1) e True by (cases "?key = []") (simp_all add: Let_def)
    ultimately show ?thesis using Cons.prems(2) by blast
  next
    case False
    define dir where "dir = (type_is_dir (ob_typ ob) \<or> ends_with ?key ''/'')"
    define root1 where "root1 = insert_path (shown_segments depth ob) (if dir then None else Some (ob_size ob)) dir root"
    have "tree_loop depth None os (if dir then n else Suc n) root1 = Inr root'"
      using Cons.prems(1) e False
      by (cases dir) (simp_all add: Let_def root1_def dir_def [symmetric] shown_segments_def node_insert_def)
    then show ?thesis
      using insert_path_ok [OF Cons.prems(2)] insert_path_paths [OF Cons.prems(2)] unfolding root1_def by blast
  qed
  then obtain m root1 where r: "tree_loop depth None os m root1 = Inr root'" "tree_ok root1"
    "\<forall>p. has_path root1 p \<longleftrightarrow> has_path root p \<or> (\<exists>q. shown_segments depth ob = p @ q)" by blast
  from Cons.IH [OF r(1,2)] r(3) show ?case by auto
qed simp

text \<open>
  C23. The tree printed for a listing is the tree of its keys: every node is a non-empty prefix of the
  path segments of a listed key, cut at \<^verbatim>\<open>--depth\<close>, every such prefix is a node, each has one line of
  its own, and the children of every node are sorted, whatever order the listing came in.
\<close>

theorem tree_shows_key_prefixes:
  assumes "tree_loop depth None os 0 default_node = Inr root"
  shows "tree_ok root \<and> distinct (tree_paths (nd_children root))
    \<and> set (tree_paths (nd_children root)) = {p. p \<noteq> [] \<and> (\<exists>ob \<in> set os. \<exists>q. shown_segments depth ob = p @ q)}
    \<and> length (child_lines (nd_children root) pre b) = length (tree_paths (nd_children root))"
proof -
  note L = tree_loop_paths [OF assms tree_ok_default]
  then have kids: "sorted_wrt (<) (map fst (nd_children root))" "\<And>n c. (n, c) \<in> set (nd_children root) \<Longrightarrow> tree_ok c"
    by (auto simp: tree_ok_children [of root])
  have "p \<in> set (tree_paths (nd_children root)) \<longleftrightarrow> p \<noteq> [] \<and> has_path root p" for p
    using tree_paths_iff [OF kids, where p = p and s = None and d = False] has_path_children [of root "Node (nd_children root) None False" p]
    by simp
  then show ?thesis
    using L tree_paths_distinct [OF kids] one_line_per_path [of "nd_children root" pre b] by (auto simp: has_path_default)
qed

definition demo_keys_tree :: "object list" where
  "demo_keys_tree = map (\<lambda>k. default_object\<lparr>ob_url := Some ((demo_url ''s3://b/k'')\<lparr>url_relative_path := k\<rparr>), ob_typ := FileType\<rparr>)
     [''e'', ''a/d'', ''a/b/c'']"

theorem tree_shows_key_prefixes_witness:
  "\<exists>root. tree_loop None None demo_keys_tree 0 default_node = Inr root
     \<and> length (child_lines (nd_children root) [] False) = 5
     \<and> [''a'', ''b''] \<in> set (tree_paths (nd_children root))"
proof -
  have "case tree_loop None None demo_keys_tree 0 default_node of Inr root \<Rightarrow> length (tree_paths (nd_children root)) = 5 | Inl _ \<Rightarrow> False"
    by code_simp
  then obtain root where root: "tree_loop None None demo_keys_tree 0 default_node = Inr root" "length (tree_paths (nd_children root)) = 5"
    by (auto split: sum.splits)
  have "shown_segments None (demo_keys_tree ! 2) = [''a'', ''b''] @ [''c'']" by code_simp
  moreover have "demo_keys_tree ! 2 \<in> set demo_keys_tree" by (simp add: demo_keys_tree_def)
  ultimately show ?thesis using tree_shows_key_prefixes [OF root(1), of "[]" False] root by auto
qed

end
