(* ===== verification/Buckets.thy ===== *)
theory Buckets
  imports Console Listed
begin

text \<open>
  The commands on buckets and single objects: \<^verbatim>\<open>mb\<close> and \<^verbatim>\<open>rb\<close> (\<^verbatim>\<open>src/command/bucket.rs\<close>),
  \<^verbatim>\<open>bucket-version\<close> (\<^verbatim>\<open>src/command/bucket_version.rs\<close>), \<^verbatim>\<open>head\<close> (\<^verbatim>\<open>src/command/head.rs\<close>) and \<^verbatim>\<open>presign\<close>
  (\<^verbatim>\<open>src/command/presign.rs\<close>), and the limit on open files that is raised at start (\<^verbatim>\<open>src/rlimit.rs\<close>).
  As in \<^verbatim>\<open>rm\<close>, the listing that feeds a batched deletion is complete before the first batch is sent.
\<close>

section \<open>mb and rb\<close>

definition bucket_name :: "regex_lib \<Rightarrow> console \<Rightarrow> string \<Rightarrow> (error, url \<times> string) result" where
  "bucket_name L K arg =
     (case url_parse L arg of
        Inl e \<Rightarrow> Err (Message e)
      | Inr u \<Rightarrow>
          if \<not> is_remote u \<or> \<not> is_bucket u then
            Err (Message (''expected a bucket URL like s3://bucket-name, got '' @ co_debug K arg))
          else Ok (u, url_bucket u))"

definition run_mb :: "'s cmd_env \<Rightarrow> console \<Rightarrow> out_mode \<Rightarrow> options \<Rightarrow> string \<Rightarrow> streams \<Rightarrow> 's world
     \<Rightarrow> (error, unit) result \<times> streams \<times> 's world" where
  "run_mb X K m opts bucket st w =
     (case bucket_name (ce_regex X) K bucket of
        Inl e \<Rightarrow> (Err e, st, w)
      | Inr (u, name) \<Rightarrow>
          (case ce_new_s3 X opts of
             Inl e \<Rightarrow> (Err e, st, w)
           | Inr (C, s) \<Rightarrow>
               (case make_bucket C s name w of
                  (Inl e, w1) \<Rightarrow> (Err e, st, w1)
                | (Inr _, w1) \<Rightarrow> (Ok (), op_success K m ''mb'' (absolute u) None st, w1))))"

text \<open>The feeder forwards every object that carries a URL.\<close>

definition rb_feed :: "object list \<Rightarrow> url list" where
  "rb_feed os = concat (map (\<lambda>ob. case ob_url ob of None \<Rightarrow> [] | Some u \<Rightarrow> [u]) os)"

fun rb_results :: "console \<Rightarrow> out_mode \<Rightarrow> object list \<Rightarrow> bool \<Rightarrow> streams \<Rightarrow> bool \<times> streams" where
  "rb_results K m [] had_error st = (had_error, st)"
| "rb_results K m (ob # os) had_error st =
     (let key = (case ob_url ob of Some u \<Rightarrow> absolute u | None \<Rightarrow> []) in
      case ob_err ob of
        None \<Rightarrow> rb_results K m os had_error (op_success K m ''rm'' key None st)
      | Some e \<Rightarrow> rb_results K m os True (op_error K m ''rm'' key None (error_chain e) st))"

definition rb_finish :: "'s sdk \<Rightarrow> console \<Rightarrow> out_mode \<Rightarrow> s3 \<Rightarrow> url \<Rightarrow> string \<Rightarrow> streams \<Rightarrow> 's world
     \<Rightarrow> (error, unit) result \<times> streams \<times> 's world" where
  "rb_finish C K m s u name st w =
     (case remove_bucket C s name w of
        (Inl e, w1) \<Rightarrow> (Err e, st, w1)
      | (Inr _, w1) \<Rightarrow> (Ok (), op_success K m ''rb'' (absolute u) None st, w1))"

definition run_rb :: "'s cmd_env \<Rightarrow> console \<Rightarrow> out_mode \<Rightarrow> options \<Rightarrow> string \<Rightarrow> bool \<Rightarrow> streams \<Rightarrow> 's world
     \<Rightarrow> ((error, unit) result \<times> streams \<times> 's world) option" where
  "run_rb X K m opts bucket force st w =
     (case bucket_name (ce_regex X) K bucket of
        Inl e \<Rightarrow> Some (Err e, st, w)
      | Inr (u, name) \<Rightarrow>
          (case ce_new_s3 X opts of
             Inl e \<Rightarrow> Some (Err e, st, w)
           | Inr (C, s) \<Rightarrow>
               if \<not> force then Some (rb_finish C K m s u name st w)
               else
                 (case s3_list C (ce_regex X) s u w of
                    None \<Rightarrow> None
                  | Some (os, w1) \<Rightarrow>
                      (case multi_delete C (ce_regex X) s (rb_feed os) w1 of
                         (res, w2) \<Rightarrow>
                           (case rb_results K m res False st of
                              (had_error, st1) \<Rightarrow>
                                if had_error then Some (Err (Message ''rb --force: one or more object deletions failed''), st1, w2)
                                else Some (rb_finish C K m s u name st1 w2))))))"

section \<open>bucket-version\<close>

definition version_status :: "console \<Rightarrow> (string \<Rightarrow> string) \<Rightarrow> string \<Rightarrow> (error, string) result" where
  "version_status K lower raw =
     (let lc = lower raw in
      if lc = ''enabled'' then Ok ''Enabled''
      else if lc = ''suspended'' then Ok ''Suspended''
      else Err (Message (''invalid versioning status '' @ co_debug K raw @ '' (use Enabled or Suspended)'')))"

definition emit_version :: "console \<Rightarrow> out_mode \<Rightarrow> url \<Rightarrow> string \<Rightarrow> bool \<Rightarrow> streams \<Rightarrow> streams" where
  "emit_version K m u status did_set =
     (if om_json m then
        json_line K (JObject ([(''bucket'', JString (absolute u)), (''versioning'', JString status)]
          @ (if did_set then [(''success'', JBool True)] else [])))
      else println (absolute u @ '' '' @ status))"

definition run_bucket_version ::
  "'s cmd_env \<Rightarrow> console \<Rightarrow> out_mode \<Rightarrow> (string \<Rightarrow> string) \<Rightarrow> options \<Rightarrow> string \<Rightarrow> string option \<Rightarrow> streams \<Rightarrow> 's world
     \<Rightarrow> (error, unit) result \<times> streams \<times> 's world" where
  "run_bucket_version X K m lower opts bucket set_to st w =
     (case url_parse (ce_regex X) bucket of
        Inl e \<Rightarrow> (Err (Message e), st, w)
      | Inr u \<Rightarrow>
          if \<not> is_remote u \<or> \<not> is_bucket u then
            (Err (Message (''expected a bucket URL like s3://bucket, got '' @ co_debug K bucket)), st, w)
          else
            (case ce_new_s3 X opts of
               Inl e \<Rightarrow> (Err e, st, w)
             | Inr (C, s) \<Rightarrow>
                 (case set_to of
                    Some raw \<Rightarrow>
                      (case version_status K lower raw of
                         Inl e \<Rightarrow> (Err e, st, w)
                       | Inr status \<Rightarrow>
                           (case set_bucket_versioning C s (url_bucket u) status w of
                              (Inl e, w1) \<Rightarrow> (Err e, st, w1)
                            | (Inr _, w1) \<Rightarrow> (Ok (), emit_version K m u status True st, w1)))
                  | None \<Rightarrow>
                      (case get_bucket_versioning C (url_bucket u) w of
                         (Inl e, w1) \<Rightarrow> (Err e, st, w1)
                       | (Inr status, w1) \<Rightarrow> (Ok (), emit_version K m u status False st, w1)))))"

section \<open>head\<close>

definition head_object :: "'s sdk \<Rightarrow> s3 \<Rightarrow> url \<Rightarrow> ('s, object \<times> metadata) io" where
  "head_object C s u w =
     (case send (sdk_head C (src_ref s u)) w of
        (Inr h, w1) \<Rightarrow>
          (Ok (default_object\<lparr>ob_url := Some u, ob_etag := trim_quotes (unwrap_or [] (hr_etag h)),
                 ob_mod_time := epoch_time (hr_last_modified h), ob_size := unwrap_or 0 (hr_content_length h),
                 ob_typ := FileType, ob_storage_class := unwrap_or ''STANDARD'' (hr_storage_class h)\<rparr>,
               default_metadata\<lparr>md_content_type := hr_content_type h, md_encryption_method := hr_sse h,
                 md_user_defined := unwrap_or (\<lambda>_. None) (hr_metadata h)\<rparr>), w1)
      | (Inl e, w1) \<Rightarrow> (Err (if se_not_found e then ObjectNotFound (absolute u) else SdkError e), w1))"

record head_args =
  ha_src :: string
  ha_version_id :: "string option"
  ha_raw :: bool

definition json_member :: "string \<Rightarrow> string option \<Rightarrow> (string \<times> json) list" where
  "json_member k v = (case non_empty v of Some x \<Rightarrow> [(k, JString x)] | None \<Rightarrow> [])"

definition object_version :: "object \<Rightarrow> string" where
  "object_version ob = (case ob_url ob of Some u \<Rightarrow> url_version_id u | None \<Rightarrow> [])"

definition object_key :: "object \<Rightarrow> string" where
  "object_key ob = (case ob_url ob of Some u \<Rightarrow> absolute u | None \<Rightarrow> [])"

text \<open>\<open>entries\<close> lists a hash map of metadata in the order it is iterated.\<close>

definition head_json :: "console \<Rightarrow> ((string \<Rightarrow> string option) \<Rightarrow> (string \<times> string) list) \<Rightarrow> object \<Rightarrow> metadata \<Rightarrow> json" where
  "head_json K entries ob md =
     JObject (json_member ''key'' (Some (object_key ob))
       @ json_member ''content_type'' (md_content_type md)
       @ json_member ''server_side_encryption'' (md_encryption_method md)
       @ (case ob_mod_time ob of Some t \<Rightarrow> [(''last_modified'', JString (co_format_time K False t))] | None \<Rightarrow> [])
       @ (if ob_size ob \<noteq> 0 then [(''size'', JInt (ob_size ob))] else [])
       @ json_member ''storage_class'' (Some (ob_storage_class ob))
       @ json_member ''version_id'' (Some (object_version ob))
       @ json_member ''etag'' (Some (ob_etag ob))
       @ [(''metadata'', JObject (map (\<lambda>(k, v). (k, JString v)) (entries (md_user_defined md))))])"

definition text_member :: "string \<Rightarrow> string option \<Rightarrow> string list" where
  "text_member label v = (case non_empty v of Some x \<Rightarrow> [label @ x] | None \<Rightarrow> [])"

definition head_format :: "console \<Rightarrow> ((string \<Rightarrow> string option) \<Rightarrow> (string \<times> string) list) \<Rightarrow> object \<Rightarrow> metadata \<Rightarrow> string" where
  "head_format K entries ob md =
     join_with ''  ''
       ([object_key ob, show_int (ob_size ob) @ '' bytes'', ''etag='' @ ob_etag ob]
        @ text_member ''last-modified='' (map_option (co_format_time K False) (ob_mod_time ob))
        @ text_member ''storage-class='' (Some (ob_storage_class ob))
        @ text_member ''content-type='' (md_content_type md)
        @ text_member ''sse='' (md_encryption_method md)
        @ text_member ''version-id='' (Some (object_version ob))
        @ map (\<lambda>(k, v). k @ ''='' @ v) (entries (md_user_defined md)))"

text \<open>\<open>hb\<close> is the request \<^verbatim>\<open>HeadBucket\<close> of the service.\<close>

definition run_head ::
  "'s cmd_env \<Rightarrow> (string \<Rightarrow> 's \<Rightarrow> (sdk_error, unit) result \<times> 's) \<Rightarrow> ((string \<Rightarrow> string option) \<Rightarrow> (string \<times> string) list)
     \<Rightarrow> console \<Rightarrow> out_mode \<Rightarrow> options \<Rightarrow> head_args \<Rightarrow> streams \<Rightarrow> 's world \<Rightarrow> (error, unit) result \<times> streams \<times> 's world" where
  "run_head X hb entries K m opts args st w =
     (case url_new (ce_regex X) (ha_src args) (default_url_options\<lparr>uo_raw := ha_raw args, uo_version_id := ha_version_id args\<rparr>) of
        Inl e \<Rightarrow> (Err (Message e), st, w)
      | Inr u \<Rightarrow>
          if is_prefix u then (Err (Message ''target have to be a object or a bucket''), st, w)
          else if \<not> is_remote u then (Err (Message ''target should be remote object or bucket''), st, w)
          else if is_wildcard u \<and> \<not> is_raw u then
            (Err (Message (''remote source '' @ co_debug_url K u @ '' can not contain glob characters'')), st, w)
          else
            (case ce_new_s3 X opts of
               Inl e \<Rightarrow> (Err e, st, w)
             | Inr (C, s) \<Rightarrow>
                 if is_bucket u then
                   (case send_try (hb (url_bucket u)) w of
                      (Inl e, w1) \<Rightarrow> (Err e, st, w1)
                    | (Inr _, w1) \<Rightarrow>
                        (Ok (), (if om_json m then json_line K (JObject [(''bucket'', JString (absolute u))])
                                 else println (absolute u @ ''  exists'')) st, w1))
                 else
                   (case head_object C s u w of
                      (Inl e, w1) \<Rightarrow> (Err e, st, w1)
                    | (Inr (ob, md), w1) \<Rightarrow>
                        (Ok (), (if om_json m then json_line K (head_json K entries ob md)
                                 else println (head_format K entries ob md)) st, w1))))"

section \<open>presign\<close>

text \<open>
  The signing of a request by the SDK is \<open>sign\<close> (for a GET of an object or a PUT to it) and the
  parsing of a duration, which rests on floating-point numbers, is \<open>parse_duration\<close>.
\<close>

record presign_args =
  pg_src :: string
  pg_expire :: string
  pg_version_id :: "string option"
  pg_put :: bool

definition presign :: "(bool \<Rightarrow> object_ref \<Rightarrow> 'd \<Rightarrow> (error, string) result) \<Rightarrow> s3 \<Rightarrow> url \<Rightarrow> 'd \<Rightarrow> (error, string) result" where
  "presign sign s src expire = sign False (src_ref s src) expire"

definition presign_put :: "(bool \<Rightarrow> object_ref \<Rightarrow> 'd \<Rightarrow> (error, string) result) \<Rightarrow> s3 \<Rightarrow> url \<Rightarrow> 'd \<Rightarrow> (error, string) result" where
  "presign_put sign s dst expire = sign True (dst_ref s dst) expire"

definition run_presign ::
  "'s cmd_env \<Rightarrow> (string \<Rightarrow> (error, 'd) result) \<Rightarrow> (bool \<Rightarrow> object_ref \<Rightarrow> 'd \<Rightarrow> (error, string) result) \<Rightarrow> console \<Rightarrow> out_mode
     \<Rightarrow> options \<Rightarrow> presign_args \<Rightarrow> streams \<Rightarrow> (error, unit) result \<times> streams" where
  "run_presign X parse_duration sign K m opts args st =
     (case url_new (ce_regex X) (pg_src args) (default_url_options\<lparr>uo_version_id := pg_version_id args\<rparr>) of
        Inl e \<Rightarrow> (Err (Message e), st)
      | Inr u \<Rightarrow>
          if \<not> is_remote u then (Err (Message ''source must be a remote object''), st)
          else if is_bucket u \<or> is_prefix u then (Err (Message ''remote source must be an object''), st)
          else if is_wildcard u then
            (Err (Message (''remote source '' @ co_debug_url K u @ '' can not contain glob characters'')), st)
          else
            (case and_then (parse_duration (pg_expire args)) (\<lambda>expire.
                   and_then (ce_new_s3 X opts) (\<lambda>(C, s).
                     if pg_put args then presign_put sign s u expire else presign sign s u expire)) of
               Inl e \<Rightarrow> (Err e, st)
             | Inr presigned \<Rightarrow>
                 (Ok (), (if om_json m then json_line K (JObject [(''url'', JString presigned)]) else println presigned) st)))"

section \<open>Open files\<close>

abbreviation FD_HEADROOM :: nat where
  "FD_HEADROOM \<equiv> 64"

definition sat_add :: "nat \<Rightarrow> nat \<Rightarrow> nat" where
  "sat_add a b = min u64_max (a + b)"

definition sat_mul :: "nat \<Rightarrow> nat \<Rightarrow> nat" where
  "sat_mul a b = min u64_max (a * b)"

definition needed_descriptors :: "nat \<Rightarrow> nat \<Rightarrow> nat" where
  "needed_descriptors numworkers concurrency =
     sat_add (sat_mul (max numworkers 1) (sat_add (max concurrency 1) 1)) FD_HEADROOM"

definition nofile_warning :: "nat \<Rightarrow> nat \<Rightarrow> string option" where
  "nofile_warning soft needed =
     (if soft \<ge> needed then None
      else Some (''warning: open-file limit RLIMIT_NOFILE (soft = '' @ show_nat soft @ '') is below the estimated '' @ show_nat needed
        @ '' file descriptors needed for the current parallelism; you may hit '' @ [CHR 0x22] @ ''Too many open files'' @ [CHR 0x22]
        @ '' (EMFILE) errors. Raise it with `ulimit -n ''
        @ show_nat needed @ ''` (or higher), or reduce --numworkers/--concurrency.''))"

text \<open>The system calls read the pair of limits and set it, over a state of the kernel.\<close>

record 'k rlimit_sys =
  rl_get :: "'k \<Rightarrow> (nat \<times> nat) option"
  rl_set :: "nat \<times> nat \<Rightarrow> 'k \<Rightarrow> bool \<times> 'k"

definition setup_nofile_limits :: "'k rlimit_sys \<Rightarrow> nat \<Rightarrow> nat \<Rightarrow> streams \<Rightarrow> 'k \<Rightarrow> streams \<times> 'k" where
  "setup_nofile_limits S numworkers concurrency st k =
     (case rl_get S k of
        None \<Rightarrow> (st, k)
      | Some (soft, hard) \<Rightarrow>
          (case (if soft < hard then
                   (case rl_set S (hard, hard) k of
                      (True, k1) \<Rightarrow> (hard, k1)
                    | (False, k1) \<Rightarrow> (case rl_get S k1 of Some (new_soft, _) \<Rightarrow> (new_soft, k1) | None \<Rightarrow> (soft, k1)))
                 else (soft, k)) of
             (effective, k1) \<Rightarrow>
               (case nofile_warning effective (needed_descriptors numworkers concurrency) of
                  Some msg \<Rightarrow> (eprintln msg st, k1)
                | None \<Rightarrow> (st, k1))))"

text \<open>
  On Linux the two calls are those of the C library, which return 0 for success and the limits as
  64-bit words; the largest word stands for no limit.
\<close>

abbreviation RLIM_INFINITY :: nat where
  "RLIM_INFINITY \<equiv> u64_max"

definition rlim_norm :: "nat \<Rightarrow> nat" where
  "rlim_norm v = (if v = RLIM_INFINITY then u64_max else v)"

definition rlim_denorm :: "nat \<Rightarrow> nat" where
  "rlim_denorm v = (if v = u64_max then RLIM_INFINITY else v)"

definition get_nofile :: "('k \<Rightarrow> int \<times> nat \<times> nat) \<Rightarrow> 'k \<Rightarrow> (nat \<times> nat) option" where
  "get_nofile getrlimit k =
     (case getrlimit k of (rc, rlim_cur, rlim_max) \<Rightarrow> if rc \<noteq> 0 then None else Some (rlim_norm rlim_cur, rlim_norm rlim_max))"

definition set_nofile :: "(nat \<times> nat \<Rightarrow> 'k \<Rightarrow> int \<times> 'k) \<Rightarrow> nat \<times> nat \<Rightarrow> 'k \<Rightarrow> bool \<times> 'k" where
  "set_nofile setrlimit lims k =
     (case setrlimit (rlim_denorm (fst lims), rlim_denorm (snd lims)) k of (rc, k1) \<Rightarrow> (rc = 0, k1))"

definition linux_rlimit :: "('k \<Rightarrow> int \<times> nat \<times> nat) \<Rightarrow> (nat \<times> nat \<Rightarrow> 'k \<Rightarrow> int \<times> 'k) \<Rightarrow> 'k rlimit_sys" where
  "linux_rlimit getrlimit setrlimit = \<lparr>rl_get = get_nofile getrlimit, rl_set = set_nofile setrlimit\<rparr>"

text \<open>
  On a kernel that lets a process raise its soft limit to its hard limit, the soft limit is the hard
  limit afterwards, the hard limit is unchanged, and a warning is written exactly when even that is
  too low.
\<close>

lemma nofile_raised:
  assumes "fst k \<le> snd k"
  shows "setup_nofile_limits (linux_rlimit (\<lambda>k. (0, k)) (\<lambda>l k. if fst l \<le> snd l \<and> snd l \<le> snd k then (0, l) else (-1, k)))
      numworkers concurrency st k =
    ((if snd k < needed_descriptors numworkers concurrency
      then eprintln (the (nofile_warning (snd k) (needed_descriptors numworkers concurrency))) st else st), (snd k, snd k))"
  using assms
  by (cases k) (auto simp: setup_nofile_limits_def linux_rlimit_def get_nofile_def set_nofile_def rlim_norm_def rlim_denorm_def nofile_warning_def)

section \<open>rb --force on nested keys\<close>


end
