(* ===== verification/Command.thy ===== *)
theory Command
  imports S3cfg Console
begin

text \<open>
  The global flags and how the configuration files complete them (\<^verbatim>\<open>src/command/mod.rs\<close>): the options of
  the storage layer, the bandwidth caps, the precedence of flags, \<^verbatim>\<open>--s3cfg\<close> and the dotfile, and the
  installation of shell completion. The environment of the process is a map, since the credentials
  of a configuration file are exported to it. The completion script comes from \<^verbatim>\<open>clap_complete\<close> and is a
  parameter.
\<close>

section \<open>Global flags\<close>

datatype color_mode = ColorAuto | ColorAlways | ColorNever

record global_opts =
  go_endpoint_url :: "string option"
  go_no_sign_request :: bool
  go_use_list_objects_v1 :: bool
  go_no_verify_ssl :: bool
  go_dry_run :: bool
  go_json :: bool
  go_region :: "string option"
  go_source_region :: "string option"
  go_destination_region :: "string option"
  go_source_endpoint_url :: "string option"
  go_destination_endpoint_url :: "string option"
  go_profile :: "string option"
  go_addressing_style :: "string option"
  go_use_dualstack_endpoint :: bool
  go_use_fips_endpoint :: bool
  go_proxy :: "string option"
  go_numworkers :: nat
  go_retry_count :: nat
  go_color :: color_mode
  go_limit_upload :: "string option"
  go_limit_download :: "string option"
  go_limitrate :: "string option"
  go_ca_certs_file :: "string option"
  go_request_payer :: "string option"
  go_credentials_file :: "string option"
  go_s3cfg :: "string option"
  go_install_completion :: bool

text \<open>The flags of an invocation that gives none.\<close>

definition no_flags :: global_opts where
  "no_flags =
     \<lparr>go_endpoint_url = None, go_no_sign_request = False, go_use_list_objects_v1 = False, go_no_verify_ssl = False,
      go_dry_run = False, go_json = False, go_region = None, go_source_region = None, go_destination_region = None,
      go_source_endpoint_url = None, go_destination_endpoint_url = None, go_profile = None, go_addressing_style = None,
      go_use_dualstack_endpoint = False, go_use_fips_endpoint = False, go_proxy = None, go_numworkers = 256,
      go_retry_count = 10, go_color = ColorAuto, go_limit_upload = None, go_limit_download = None, go_limitrate = None,
      go_ca_certs_file = None, go_request_payer = None, go_credentials_file = None, go_s3cfg = None,
      go_install_completion = False\<rparr>"

fun color_mode_name :: "color_mode \<Rightarrow> string" where
  "color_mode_name ColorAuto = ''auto''"
| "color_mode_name ColorAlways = ''always''"
| "color_mode_name ColorNever = ''never''"

fun color_choice_of :: "color_mode \<Rightarrow> color_choice" where
  "color_choice_of ColorAuto = AutoColor"
| "color_choice_of ColorAlways = AlwaysColor"
| "color_choice_of ColorNever = NeverColor"

section \<open>Bandwidth caps and storage options\<close>

definition parse_limiter :: "size_lib \<Rightarrow> nat \<Rightarrow> string \<Rightarrow> (error, rate_limiter) result" where
  "parse_limiter B now s =
     (case sl_parse B (str_trim s) of
        Inl e \<Rightarrow> Err (Message (''invalid bandwidth limit '' @ [CHR 0x27] @ s @ [CHR 0x27] @ '': '' @ e))
      | Inr bytes \<Rightarrow>
          if bytes = 0
          then Err (Message (''bandwidth limit must be greater than zero: '' @ [CHR 0x27] @ s @ [CHR 0x27]))
          else Ok (limiter_new bytes now))"

definition limiter_from :: "size_lib \<Rightarrow> nat \<Rightarrow> string option \<Rightarrow> (error, rate_limiter option) result" where
  "limiter_from B now src =
     (case src of None \<Rightarrow> Ok None | Some s \<Rightarrow> and_then (parse_limiter B now s) (\<lambda>l. Ok (Some l)))"

text \<open>The clock is read once for each limiter: \<open>up_now\<close> and \<open>down_now\<close>.\<close>

definition bandwidth_limiters ::
  "size_lib \<Rightarrow> nat \<Rightarrow> nat \<Rightarrow> global_opts \<Rightarrow> (error, rate_limiter option \<times> rate_limiter option) result" where
  "bandwidth_limiters B up_now down_now g =
     (let up_src = or_else (go_limit_upload g) (go_limitrate g);
          down_src = or_else (go_limit_download g) (go_limitrate g)
      in and_then (limiter_from B up_now up_src) (\<lambda>up.
         and_then (limiter_from B down_now down_src) (\<lambda>down. Ok (up, down))))"

definition validate_bandwidth_limits :: "size_lib \<Rightarrow> global_opts \<Rightarrow> (error, unit) result" where
  "validate_bandwidth_limits B g = and_then (bandwidth_limiters B 0 0 g) (\<lambda>_. Ok ())"

definition storage_options :: "size_lib \<Rightarrow> nat \<Rightarrow> nat \<Rightarrow> global_opts \<Rightarrow> options" where
  "storage_options B up_now down_now g =
     (case (case bandwidth_limiters B up_now down_now g of Inr ls \<Rightarrow> ls | Inl _ \<Rightarrow> (None, None)) of
        (upload_limiter, download_limiter) \<Rightarrow>
          default_options\<lparr>op_endpoint := go_endpoint_url g, op_dry_run := go_dry_run g,
            op_no_sign_request := go_no_sign_request g, op_no_verify_ssl := go_no_verify_ssl g,
            op_use_list_objects_v1 := go_use_list_objects_v1 g, op_region := go_region g,
            op_source_region := go_source_region g, op_destination_region := go_destination_region g,
            op_source_endpoint := go_source_endpoint_url g, op_destination_endpoint := go_destination_endpoint_url g,
            op_profile := go_profile g, op_proxy := go_proxy g, op_addressing_style := go_addressing_style g,
            op_ca_certs_file := go_ca_certs_file g, op_request_payer := go_request_payer g,
            op_use_dualstack_endpoint := go_use_dualstack_endpoint g, op_use_fips_endpoint := go_use_fips_endpoint g,
            op_max_retries := go_retry_count g, op_upload_limiter := upload_limiter,
            op_download_limiter := download_limiter\<rparr>)"

section \<open>Configuration files\<close>

type_synonym vars = "string \<Rightarrow> string option"

definition set_env_if_unset :: "string \<Rightarrow> string option \<Rightarrow> vars \<Rightarrow> vars" where
  "set_env_if_unset key val v =
     (case val of None \<Rightarrow> v | Some x \<Rightarrow> if v key = None then v(key \<mapsto> x) else v)"

definition fill :: "'a option \<Rightarrow> 'a option \<Rightarrow> 'a option" where
  "fill cur new = (if cur = None then new else cur)"

definition apply_translated :: "translated \<Rightarrow> global_opts \<times> vars \<Rightarrow> global_opts \<times> vars" where
  "apply_translated t gv =
     (case gv of (g, v) \<Rightarrow>
        (g\<lparr>go_endpoint_url := fill (go_endpoint_url g) (tr_endpoint_url t),
           go_region := fill (go_region g) (tr_region t),
           go_addressing_style := fill (go_addressing_style g) (tr_addressing_style t),
           go_no_verify_ssl := (if tr_no_verify_ssl t then True else go_no_verify_ssl g),
           go_ca_certs_file := fill (go_ca_certs_file g) (tr_ca_certs_file t),
           go_proxy := fill (go_proxy g) (tr_proxy t),
           go_request_payer := fill (go_request_payer g) (tr_request_payer t),
           go_limitrate := (if go_limitrate g = None
                            then (case tr_limitrate t of Some rate \<Rightarrow> Some (show_nat rate) | None \<Rightarrow> None)
                            else go_limitrate g),
           go_retry_count := (if go_retry_count g = 10
                              then (case tr_retry_count t of Some rc \<Rightarrow> rc | None \<Rightarrow> go_retry_count g)
                              else go_retry_count g)\<rparr>,
         set_env_if_unset ''AWS_SESSION_TOKEN'' (tr_session_token t)
           (set_env_if_unset ''AWS_SECRET_ACCESS_KEY'' (tr_secret_key t)
             (set_env_if_unset ''AWS_ACCESS_KEY_ID'' (tr_access_key t) v))))"

definition load_rs5cmd_dotfile :: "'s cmd_env \<Rightarrow> size_lib \<Rightarrow> vars \<Rightarrow> 's world \<Rightarrow> translated option" where
  "load_rs5cmd_dotfile X B v w =
     (case v ''HOME'' of
        None \<Rightarrow> None
      | Some home \<Rightarrow>
          (case read_text X w (path_push home ''.rs5cmd'') of
             Inl _ \<Rightarrow> None
           | Inr txt \<Rightarrow> Some (from_rs5cmd B (parse_ini txt))))"

text \<open>The part of \<^verbatim>\<open>run\<close> that completes the flags: \<^verbatim>\<open>--s3cfg\<close>, which must be readable, then the dotfile.\<close>

definition read_s3cfg :: "'s cmd_env \<Rightarrow> size_lib \<Rightarrow> global_opts \<Rightarrow> 's world \<Rightarrow> (error, translated option) result" where
  "read_s3cfg X B g w =
     (case go_s3cfg g of
        None \<Rightarrow> Ok None
      | Some path \<Rightarrow>
          (case read_text X w path of
             Inl e \<Rightarrow> Err (Message (''reading --s3cfg '' @ path @ '': '' @ e))
           | Inr txt \<Rightarrow> Ok (Some (translate_s3cfg B (parse_ini txt)))))"

definition apply_config :: "translated option \<Rightarrow> global_opts \<times> vars \<Rightarrow> global_opts \<times> vars" where
  "apply_config c gv = (case c of None \<Rightarrow> gv | Some t \<Rightarrow> apply_translated t gv)"

definition load_config ::
  "'s cmd_env \<Rightarrow> size_lib \<Rightarrow> global_opts \<Rightarrow> vars \<Rightarrow> 's world \<Rightarrow> (error, global_opts \<times> vars) result" where
  "load_config X B g v w =
     and_then (read_s3cfg X B g w) (\<lambda>c.
       let gv = apply_config c (g, v) in Ok (apply_config (load_rs5cmd_dotfile X B (snd gv) w) gv))"

section \<open>Shell completion\<close>

datatype shell = Bash | Elvish | Fish | PowerShell | Zsh

definition detect_shell :: "vars \<Rightarrow> shell" where
  "detect_shell v =
     (let shell_path = (case v ''SHELL'' of Some p \<Rightarrow> if utf8_valid p then p else [] | None \<Rightarrow> []);
          shell_name = unwrap_or ''bash'' (path_file_name shell_path)
      in if shell_name = ''zsh'' then Zsh else if shell_name = ''fish'' then Fish else Bash)"

definition completion_paths :: "string \<Rightarrow> shell \<Rightarrow> string option \<times> string" where
  "completion_paths home sh =
     (let config = path_push home ''.config'' in
      case sh of
        Zsh \<Rightarrow> (Some (path_push home ''.zshrc''), path_push (path_push config ''rs5cmd'') ''completion.zsh'')
      | Fish \<Rightarrow> (None, path_push (path_push (path_push config ''fish'') ''completions'') ''rs5cmd.fish'')
      | _ \<Rightarrow> (Some (path_push home ''.bashrc''), path_push (path_push config ''rs5cmd'') ''completion.bash''))"

definition source_line :: "string \<Rightarrow> string" where
  "source_line comp_path = ''source '' @ [CHR 0x22] @ utf8_lossy comp_path @ [CHR 0x22]"

definition open_append :: "env \<Rightarrow> string \<Rightarrow> ('s, unit) io" where
  "open_append E path =
     os_call E ''open'' path (\<lambda>w. (Ok (), w\<lparr>w_files := (w_files w)(path := Some (unwrap_or [] (w_files w path)))\<rparr>))"

definition rc_block :: "string \<Rightarrow> string" where
  "rc_block line = [CHR 0x0A] @ ''# rs5cmd shell completion'' @ [CHR 0x0A] @ line @ [CHR 0x0A]"

definition source_in_rc ::
  "'s cmd_env \<Rightarrow> string \<Rightarrow> string \<Rightarrow> streams \<Rightarrow> 's world \<Rightarrow> (error, unit) result \<times> streams \<times> 's world" where
  "source_in_rc X rc comp_path st w =
     (let existing = (case read_text X w rc of Inr t \<Rightarrow> t | Inl _ \<Rightarrow> []) in
      if contains_str existing (source_line comp_path)
      then (Ok (), println (utf8_lossy rc @ '' already sources it; nothing to do'') st, w)
      else
        (case io_bind (open_append (ce_os X) rc) (\<lambda>_.
                os_update (ce_os X) ''write'' rc (\<lambda>f. f @ rc_block (source_line comp_path))) w of
           (Inl e, w1) \<Rightarrow> (Err e, st, w1)
         | (Inr _, w1) \<Rightarrow>
             (Ok (), println (''added completion to '' @ utf8_lossy rc @ '' (restart your shell or `source` it)'') st, w1)))"

definition install_completion ::
  "'s cmd_env \<Rightarrow> (shell \<Rightarrow> string) \<Rightarrow> vars \<Rightarrow> streams \<Rightarrow> 's world \<Rightarrow> (error, unit) result \<times> streams \<times> 's world" where
  "install_completion X script v st w =
     (case v ''HOME'' of
        None \<Rightarrow> (Err (Message ''HOME is not set''), st, w)
      | Some home \<Rightarrow>
          (case completion_paths home (detect_shell v) of
             (rc_path, comp_path) \<Rightarrow>
               (case io_bind (case path_parent comp_path of
                                Some parent \<Rightarrow> os_call (ce_os X) ''create_dir_all'' parent (io_return ())
                              | None \<Rightarrow> io_return ()) (\<lambda>_.
                      os_write_file (ce_os X) comp_path (script (detect_shell v))) w of
                  (Inl e, w1) \<Rightarrow> (Err e, st, w1)
                | (Inr _, w1) \<Rightarrow>
                    let st1 = println (''wrote completion script to '' @ utf8_lossy comp_path) st in
                    (case rc_path of
                       Some rc \<Rightarrow> source_in_rc X rc comp_path st1 w1
                     | None \<Rightarrow> (Ok (), println ''fish will auto-load it on next shell start'' st1, w1)))))"

section \<open>Which setting wins\<close>

text \<open>A setting of a configuration file that may be absent.\<close>

definition setting :: "(translated \<Rightarrow> 'a option) \<Rightarrow> translated option \<Rightarrow> 'a option" where
  "setting f c = (case c of None \<Rightarrow> None | Some t \<Rightarrow> f t)"

text \<open>The first setting present.\<close>

definition first_set :: "'a option list \<Rightarrow> 'a option" where
  "first_set xs = fold (\<lambda>x acc. or_else acc x) xs None"

lemma first_set3: "first_set [a, b, c] = or_else a (or_else b c)"
  by (cases a; cases b) (simp_all add: first_set_def)

lemma fill_or_else: "fill a b = or_else a b"
  by (cases a) (simp_all add: fill_def)

lemma set_env_if_unset_apply: "set_env_if_unset k x v j = (if j = k then or_else (v k) x else v j)"
  by (cases x; cases "v k") (auto simp: set_env_if_unset_def)

lemma or_else_None [simp]: "or_else a None = a"
  by (cases a) simp_all

lemma or_else_assoc: "or_else (or_else a b) c = or_else a (or_else b c)"
  by (cases a) simp_all

lemma apply_config_fields:
  "go_endpoint_url (fst (apply_config c (g, v))) = or_else (go_endpoint_url g) (setting tr_endpoint_url c)"
  "go_region (fst (apply_config c (g, v))) = or_else (go_region g) (setting tr_region c)"
  "go_addressing_style (fst (apply_config c (g, v))) = or_else (go_addressing_style g) (setting tr_addressing_style c)"
  "go_ca_certs_file (fst (apply_config c (g, v))) = or_else (go_ca_certs_file g) (setting tr_ca_certs_file c)"
  "go_proxy (fst (apply_config c (g, v))) = or_else (go_proxy g) (setting tr_proxy c)"
  "go_request_payer (fst (apply_config c (g, v))) = or_else (go_request_payer g) (setting tr_request_payer c)"
  "go_limitrate (fst (apply_config c (g, v))) = or_else (go_limitrate g) (map_option show_nat (setting tr_limitrate c))"
  "go_no_verify_ssl (fst (apply_config c (g, v))) = (go_no_verify_ssl g \<or> setting (\<lambda>t. Some (tr_no_verify_ssl t)) c = Some True)"
  "go_retry_count (fst (apply_config c (g, v))) = (if go_retry_count g = 10 then unwrap_or 10 (setting tr_retry_count c) else go_retry_count g)"
  by (cases c; cases "go_limitrate g";
      simp add: apply_config_def apply_translated_def setting_def fill_or_else split: option.splits)+

lemma apply_config_same:
  "go_limit_upload (fst (apply_config c (g, v))) = go_limit_upload g"
  "go_limit_download (fst (apply_config c (g, v))) = go_limit_download g"
  "go_dry_run (fst (apply_config c (g, v))) = go_dry_run g" "go_json (fst (apply_config c (g, v))) = go_json g"
  "go_numworkers (fst (apply_config c (g, v))) = go_numworkers g" "go_color (fst (apply_config c (g, v))) = go_color g"
  "go_no_sign_request (fst (apply_config c (g, v))) = go_no_sign_request g" "go_profile (fst (apply_config c (g, v))) = go_profile g"
  by (cases c; simp add: apply_config_def apply_translated_def)+

lemma apply_config_vars:
  "snd (apply_config c (g, v)) k =
     or_else (v k) (if k = ''AWS_ACCESS_KEY_ID'' then setting tr_access_key c
                    else if k = ''AWS_SECRET_ACCESS_KEY'' then setting tr_secret_key c
                    else if k = ''AWS_SESSION_TOKEN'' then setting tr_session_token c else None)"
  by (cases c) (simp_all add: apply_config_def apply_translated_def setting_def set_env_if_unset_apply)

lemma load_config_parts:
  assumes "read_s3cfg X B g w = Inr c" "load_rs5cmd_dotfile X B v w = d" "load_config X B g v w = Inr (g', v')"
  obtains g1 v1 where "apply_config c (g, v) = (g1, v1)" "apply_config d (g1, v1) = (g', v')"
proof -
  obtain g1 v1 where a: "apply_config c (g, v) = (g1, v1)" by fastforce
  have "v1 ''HOME'' = v ''HOME''" using apply_config_vars [of c g v "''HOME''"] a by simp
  then have "load_rs5cmd_dotfile X B v1 w = d" using assms(2) by (simp add: load_rs5cmd_dotfile_def)
  with a assms(1,3) that show ?thesis by (simp add: load_config_def Let_def)
qed

lemma limiter_from_Inr:
  "limiter_from B now s = Inr l \<Longrightarrow>
     (case s of None \<Rightarrow> l = None | Some x \<Rightarrow> \<exists>n>0. sl_parse B (str_trim x) = Inr n \<and> l = Some (limiter_new n now))"
  by (auto simp: limiter_from_def parse_limiter_def split: option.splits sum.splits if_splits)

text \<open>Whether a limit is accepted does not depend on the clock.\<close>

lemma limiter_from_valid: "\<exists>l. limiter_from B now s = Inr l \<Longrightarrow> \<exists>l. limiter_from B now' s = Inr l"
  by (auto simp: limiter_from_def parse_limiter_def split: option.splits sum.splits if_splits)

lemma storage_options_limiters:
  assumes "validate_bandwidth_limits B g = Inr u"
  shows "limiter_from B n1 (or_else (go_limit_upload g) (go_limitrate g)) = Inr (op_upload_limiter (storage_options B n1 n2 g))"
    and "limiter_from B n2 (or_else (go_limit_download g) (go_limitrate g)) = Inr (op_download_limiter (storage_options B n1 n2 g))"
proof -
  from assms obtain a b where "limiter_from B 0 (or_else (go_limit_upload g) (go_limitrate g)) = Inr a"
    "limiter_from B 0 (or_else (go_limit_download g) (go_limitrate g)) = Inr b"
    by (auto simp: validate_bandwidth_limits_def bandwidth_limiters_def Let_def and_then_eq_Inr)
  with limiter_from_valid obtain a' b' where "limiter_from B n1 (or_else (go_limit_upload g) (go_limitrate g)) = Inr a'"
    "limiter_from B n2 (or_else (go_limit_download g) (go_limitrate g)) = Inr b'" by metis
  then show "limiter_from B n1 (or_else (go_limit_upload g) (go_limitrate g)) = Inr (op_upload_limiter (storage_options B n1 n2 g))"
    "limiter_from B n2 (or_else (go_limit_download g) (go_limitrate g)) = Inr (op_download_limiter (storage_options B n1 n2 g))"
    by (simp_all add: storage_options_def bandwidth_limiters_def Let_def)
qed

text \<open>
  C24. Explicit flags win over \<^verbatim>\<open>--s3cfg\<close>, which wins over the dotfile, for every setting a configuration
  file can give: when the flags are accepted, the storage layer gets the first value present in that
  order for each setting, certificate checks are skipped when any of the three says so, the caps of
  the two directions are those of \<^verbatim>\<open>--limit-upload\<close> and \<^verbatim>\<open>--limit-download\<close> or else of the single cap, and
  the exported credentials never replace a variable of the environment. The retry count is the
  exception: the value 10 counts as no value wherever it stands, so that of the three the first
  other than 10 is taken.
\<close>

theorem settings_precedence:
  assumes "read_s3cfg X B g w = Inr c" "load_rs5cmd_dotfile X B v w = d" "load_config X B g v w = Inr (g', v')"
    and ok: "validate_bandwidth_limits B g' = Inr u" and opts: "opts = storage_options B n1 n2 g'"
  defines "rate \<equiv> [go_limitrate g, map_option show_nat (setting tr_limitrate c), map_option show_nat (setting tr_limitrate d)]"
  shows "op_endpoint opts = first_set [go_endpoint_url g, setting tr_endpoint_url c, setting tr_endpoint_url d]
    \<and> op_region opts = first_set [go_region g, setting tr_region c, setting tr_region d]
    \<and> op_addressing_style opts = first_set [go_addressing_style g, setting tr_addressing_style c, setting tr_addressing_style d]
    \<and> op_ca_certs_file opts = first_set [go_ca_certs_file g, setting tr_ca_certs_file c, setting tr_ca_certs_file d]
    \<and> op_proxy opts = first_set [go_proxy g, setting tr_proxy c, setting tr_proxy d]
    \<and> op_request_payer opts = first_set [go_request_payer g, setting tr_request_payer c, setting tr_request_payer d]
    \<and> op_no_verify_ssl opts = (go_no_verify_ssl g \<or> (\<exists>t. c = Some t \<and> tr_no_verify_ssl t) \<or> (\<exists>t. d = Some t \<and> tr_no_verify_ssl t))
    \<and> op_max_retries opts =
        (case filter (\<lambda>r. r \<noteq> 10) (go_retry_count g # concat (map (\<lambda>f. case setting tr_retry_count f of None \<Rightarrow> [] | Some r \<Rightarrow> [r]) [c, d]))
         of [] \<Rightarrow> 10 | r # _ \<Rightarrow> r)
    \<and> (case first_set (go_limit_upload g # rate) of None \<Rightarrow> op_upload_limiter opts = None
       | Some s \<Rightarrow> \<exists>n>0. sl_parse B (str_trim s) = Inr n \<and> op_upload_limiter opts = Some (limiter_new n n1))
    \<and> (case first_set (go_limit_download g # rate) of None \<Rightarrow> op_download_limiter opts = None
       | Some s \<Rightarrow> \<exists>n>0. sl_parse B (str_trim s) = Inr n \<and> op_download_limiter opts = Some (limiter_new n n2))
    \<and> op_dry_run opts = go_dry_run g \<and> op_profile opts = go_profile g
    \<and> v' ''AWS_ACCESS_KEY_ID'' = first_set [v ''AWS_ACCESS_KEY_ID'', setting tr_access_key c, setting tr_access_key d]
    \<and> v' ''AWS_SECRET_ACCESS_KEY'' = first_set [v ''AWS_SECRET_ACCESS_KEY'', setting tr_secret_key c, setting tr_secret_key d]
    \<and> v' ''AWS_SESSION_TOKEN'' = first_set [v ''AWS_SESSION_TOKEN'', setting tr_session_token c, setting tr_session_token d]"
proof -
  from assms(1-3) obtain g1 v1 where "apply_config c (g, v) = (g1, v1)" "apply_config d (g1, v1) = (g', v')"
    by (rule load_config_parts)
  note fields = apply_config_fields [of c g v, unfolded this(1) fst_conv snd_conv] apply_config_fields [of d g1 v1, unfolded this(2) fst_conv snd_conv]
    and same = apply_config_same [of c g v, unfolded this(1) fst_conv snd_conv] apply_config_same [of d g1 v1, unfolded this(2) fst_conv snd_conv]
    and vars = apply_config_vars [of c g v, unfolded this(1) fst_conv snd_conv] apply_config_vars [of d g1 v1, unfolded this(2) fst_conv snd_conv]
  note lims = limiter_from_Inr [OF storage_options_limiters(1) [OF ok, of n1 n2]]
    limiter_from_Inr [OF storage_options_limiters(2) [OF ok, of n2 n1]]
  have "op_endpoint opts = go_endpoint_url g'" "op_region opts = go_region g'" "op_addressing_style opts = go_addressing_style g'"
    "op_ca_certs_file opts = go_ca_certs_file g'" "op_proxy opts = go_proxy g'" "op_request_payer opts = go_request_payer g'"
    "op_no_verify_ssl opts = go_no_verify_ssl g'" "op_max_retries opts = go_retry_count g'"
    "op_dry_run opts = go_dry_run g'" "op_profile opts = go_profile g'"
    by (simp_all add: opts storage_options_def split: prod.splits)
  note this [simp] and fields [simp] and same [simp] and vars [simp]
  have rate: "or_else x (go_limitrate g') = first_set (x # rate)" for x
    by (cases x; cases "go_limitrate g") (simp_all add: rate_def first_set_def or_else_assoc)
  have retry: "go_retry_count g' = (case filter (\<lambda>r. r \<noteq> 10) (go_retry_count g # concat (map (\<lambda>f. case setting tr_retry_count f of None \<Rightarrow> [] | Some r \<Rightarrow> [r]) [c, d]))
         of [] \<Rightarrow> 10 | r # _ \<Rightarrow> r)"
    by (cases "setting tr_retry_count c"; cases "setting tr_retry_count d") auto
  have ssl: "go_no_verify_ssl g' = (go_no_verify_ssl g \<or> (\<exists>t. c = Some t \<and> tr_no_verify_ssl t) \<or> (\<exists>t. d = Some t \<and> tr_no_verify_ssl t))"
    by (cases c; cases d) (simp_all add: setting_def)
  from lims show ?thesis
    by (simp only: opts [symmetric] rate retry ssl \<open>op_max_retries opts = _\<close> \<open>op_no_verify_ssl opts = _\<close>) (simp add: first_set3 or_else_assoc)
qed

lemma parse_pairs:
  assumes "list_all clean_pair ps"
  shows "parse_ini (unlines (concat (map pair_lines ps))) = foldl ini_put (\<lambda>_. None) ps"
proof -
  have "list_all plain_line (concat (map pair_lines ps))"
    using assms pair_lines_plain by (fastforce simp: list_all_iff)
  then show ?thesis by (simp only: parse_ini_def str_lines_unlines pairs_read [OF assms])
qed

definition demo_sizes :: size_lib where
  "demo_sizes = \<lparr>sl_parse = (\<lambda>s. case parse_unsigned u64_max s of Some n \<Rightarrow> Ok n | None \<Rightarrow> Err ''bad size''), sl_debug = id\<rparr>"

definition demo_s3cfg_pairs :: "(string \<times> string option) list" where
  "demo_s3cfg_pairs = [(''host_base'', Some ''h:1''), (''region'', Some ''r1''), (''max_retries'', Some (show_nat 10))]"

definition demo_dotfile_pairs :: "(string \<times> string option) list" where
  "demo_dotfile_pairs = [(''region'', Some ''r2''), (''proxy'', Some ''p''), (''retry_count'', Some (show_nat 3)), (''limitrate'', Some (show_nat 5))]"

definition demo_config_world :: "memstore world" where
  "demo_config_world = demo_world []
     [''c'' \<mapsto> unlines (concat (map pair_lines demo_s3cfg_pairs)), ''h/.rs5cmd'' \<mapsto> unlines (concat (map pair_lines demo_dotfile_pairs))]"

definition demo_flags :: global_opts where
  "demo_flags = no_flags\<lparr>go_s3cfg := Some ''c'', go_region := Some ''r0''\<rparr>"

lemma demo_pairs_clean: "list_all clean_pair demo_s3cfg_pairs" "list_all clean_pair demo_dotfile_pairs"
proof -
  have "clean_value ''h:1''" "clean_value ''r1''" "clean_value ''r2''" "clean_value ''p''" by code_simp+
  then show "list_all clean_pair demo_s3cfg_pairs" "list_all clean_pair demo_dotfile_pairs"
    by (simp_all add: demo_s3cfg_pairs_def demo_dotfile_pairs_def clean_pair_def show_nat_clean key_char_def byte_of_def)
qed

lemma demo_config_texts:
  "read_text demo_env_cmd demo_config_world ''c'' = Inr (unlines (concat (map pair_lines demo_s3cfg_pairs)))"
  "read_text demo_env_cmd demo_config_world ''h/.rs5cmd'' = Inr (unlines (concat (map pair_lines demo_dotfile_pairs)))"
proof -
  have "utf8_valid (unlines (concat (map pair_lines demo_s3cfg_pairs)))" by code_simp
  moreover have "utf8_valid (unlines (concat (map pair_lines demo_dotfile_pairs)))" by code_simp
  ultimately show "read_text demo_env_cmd demo_config_world ''c'' = Inr (unlines (concat (map pair_lines demo_s3cfg_pairs)))"
    "read_text demo_env_cmd demo_config_world ''h/.rs5cmd'' = Inr (unlines (concat (map pair_lines demo_dotfile_pairs)))"
    by (simp_all add: read_text_def os_read_def os_call_def demo_env_cmd_def demo_env_def demo_config_world_def demo_world_def)
qed

lemma demo_numbers:
  "str_trim (show_nat n) = show_nat n" "show_nat n \<noteq> []" "n \<le> m \<Longrightarrow> parse_unsigned m (show_nat n) = Some n"
  using clean_trim [OF show_nat_clean [of n]] by (simp_all add: parse_show_unsigned)

lemma demo_s3cfg:
  "translate_s3cfg demo_sizes (parse_ini (unlines (concat (map pair_lines demo_s3cfg_pairs))))
    = default_translated\<lparr>tr_endpoint_url := Some ''https://h:1'', tr_region := Some ''r1'', tr_retry_count := Some 10\<rparr>"
proof -
  have "str_trim ''h:1'' = ''h:1''" "str_trim ''r1'' = ''r1''" "trim_end_matches (CHR ''/'') ''h:1'' = ''h:1''"
    "to_ascii_lowercase ''h:1'' = ''h:1''" "\<not> starts_with ''h:1'' ''http://''" "\<not> starts_with ''h:1'' ''https://''" by code_simp+
  then show ?thesis
    unfolding parse_pairs [OF demo_pairs_clean(1)]
    by (simp add: demo_s3cfg_pairs_def translate_s3cfg_def ini_put_apply ini_nonempty_def ini_bool_def s3cfg_limitrate_def s3cfg_endpoint_def
        s3cfg_addressing_def s3cfg_proxy_def s3cfg_warnings_def normalize_region_def default_translated_def demo_numbers Let_def)
qed

lemma demo_dotfile:
  "from_rs5cmd demo_sizes (parse_ini (unlines (concat (map pair_lines demo_dotfile_pairs))))
    = default_translated\<lparr>tr_region := Some ''r2'', tr_proxy := Some ''p'', tr_retry_count := Some 3, tr_limitrate := Some 5\<rparr>"
proof -
  have "str_trim ''r2'' = ''r2''" "str_trim ''p'' = ''p''" by code_simp+
  then show ?thesis
    unfolding parse_pairs [OF demo_pairs_clean(2)]
    by (simp add: demo_dotfile_pairs_def from_rs5cmd_def ini_put_apply ini_nonempty_def ini_bool_def parse_byte_rate_def
        default_translated_def demo_numbers)
qed

lemma load_config_total: "read_s3cfg X B g w = Inr c \<Longrightarrow> \<exists>g' v'. load_config X B g v w = Inr (g', v')"
  by (simp add: load_config_def Let_def)

lemma demo_config:
  "read_s3cfg demo_env_cmd demo_sizes demo_flags demo_config_world
     = Inr (Some (default_translated\<lparr>tr_endpoint_url := Some ''https://h:1'', tr_region := Some ''r1'', tr_retry_count := Some 10\<rparr>))"
  "load_rs5cmd_dotfile demo_env_cmd demo_sizes [''HOME'' \<mapsto> ''h'', ''AWS_ACCESS_KEY_ID'' \<mapsto> ''k''] demo_config_world
     = Some (default_translated\<lparr>tr_region := Some ''r2'', tr_proxy := Some ''p'', tr_retry_count := Some 3, tr_limitrate := Some 5\<rparr>)"
proof -
  have p: "path_push ''h'' ''.rs5cmd'' = ''h/.rs5cmd''" by code_simp
  show "read_s3cfg demo_env_cmd demo_sizes demo_flags demo_config_world
     = Inr (Some (default_translated\<lparr>tr_endpoint_url := Some ''https://h:1'', tr_region := Some ''r1'', tr_retry_count := Some 10\<rparr>))"
    by (simp add: read_s3cfg_def demo_flags_def demo_config_texts demo_s3cfg)
  show "load_rs5cmd_dotfile demo_env_cmd demo_sizes [''HOME'' \<mapsto> ''h'', ''AWS_ACCESS_KEY_ID'' \<mapsto> ''k''] demo_config_world
     = Some (default_translated\<lparr>tr_region := Some ''r2'', tr_proxy := Some ''p'', tr_retry_count := Some 3, tr_limitrate := Some 5\<rparr>)"
    unfolding load_rs5cmd_dotfile_def by (simp add: p demo_config_texts demo_dotfile)
qed

theorem settings_precedence_witness:
  "\<exists>g' v'. load_config demo_env_cmd demo_sizes demo_flags [''HOME'' \<mapsto> ''h'', ''AWS_ACCESS_KEY_ID'' \<mapsto> ''k''] demo_config_world = Inr (g', v')
    \<and> (let opts = storage_options demo_sizes 7 8 g' in
       op_region opts = Some ''r0'' \<and> op_endpoint opts = Some ''https://h:1'' \<and> op_proxy opts = Some ''p'' \<and> op_max_retries opts = 3
       \<and> op_upload_limiter opts = Some (limiter_new 5 7) \<and> v' ''AWS_ACCESS_KEY_ID'' = Some ''k'')"
proof -
  let ?v = "[''HOME'' \<mapsto> ''h'', ''AWS_ACCESS_KEY_ID'' \<mapsto> ''k'']"
  obtain g' v' where l: "load_config demo_env_cmd demo_sizes demo_flags ?v demo_config_world = Inr (g', v')"
    using load_config_total [OF demo_config(1)] by blast
  from load_config_parts [OF demo_config this] obtain g1 v1 where
    "apply_config (Some (default_translated\<lparr>tr_endpoint_url := Some ''https://h:1'', tr_region := Some ''r1'', tr_retry_count := Some 10\<rparr>)) (demo_flags, ?v) = (g1, v1)"
    "apply_config (Some (default_translated\<lparr>tr_region := Some ''r2'', tr_proxy := Some ''p'', tr_retry_count := Some 3, tr_limitrate := Some 5\<rparr>)) (g1, v1) = (g', v')"
    by blast
  then have "go_limitrate g' = Some (show_nat 5)" "go_limit_upload g' = None" "go_limit_download g' = None"
    by (auto simp: apply_config_def apply_translated_def demo_flags_def no_flags_def default_translated_def)
  then have "validate_bandwidth_limits demo_sizes g' = Inr ()"
    by (simp add: validate_bandwidth_limits_def bandwidth_limiters_def limiter_from_def parse_limiter_def demo_sizes_def demo_numbers Let_def)
  from settings_precedence [OF demo_config l this refl, of 7 8] show ?thesis
    by (intro exI conjI) (rule l, simp add: Let_def setting_def demo_flags_def no_flags_def default_translated_def first_set_def
      demo_sizes_def demo_numbers)
qed

section \<open>Installing completion twice\<close>

lemma read_text_files: "read_text X w f = Inr t \<Longrightarrow> w_files w f = Some t"
  by (auto simp: read_text_def os_read_def os_call_def split: prod.splits sum.splits option.splits if_splits)

lemma source_in_rc_contains:
  assumes "source_in_rc X rc cfile st w = (Inr u, st1, w1)" "read_text X w1 rc = Inr t"
  shows "contains_str t (source_line cfile)"
proof (cases "contains_str (case read_text X w rc of Inr t \<Rightarrow> t | Inl _ \<Rightarrow> []) (source_line cfile)")
  case True
  with assms show ?thesis by (auto simp: source_in_rc_def Let_def)
next
  case False
  with assms(1) have "\<exists>f. w_files w1 rc = Some (f @ rc_block (source_line cfile))"
    by (auto simp: source_in_rc_def Let_def io_bind_def open_append_def os_update_def os_call_def split: option.splits prod.splits sum.splits)
  then obtain f where "t = (f @ [CHR 0x0A] @ ''# rs5cmd shell completion'' @ [CHR 0x0A]) @ source_line cfile @ [CHR 0x0A]"
    using read_text_files [OF assms(2)] by (auto simp: rc_block_def)
  then show ?thesis unfolding contains_str_iff by blast
qed

lemma source_in_rc_writes:
  "source_in_rc X rc cfile st w = (r, st1, w1) \<Longrightarrow> w1 = w\<lparr>w_files := (w_files w)(rc := w_files w1 rc)\<rparr>"
  by (auto simp: source_in_rc_def Let_def io_bind_def open_append_def os_update_def os_call_def
      split: if_splits option.splits prod.splits sum.splits)

lemma last_path_push: "n \<noteq> [] \<Longrightarrow> last (path_push d n) = last n"
  by (simp add: path_push_def)

lemma completion_paths_differ: "completion_paths home sh = (Some rc, cfile) \<Longrightarrow> rc \<noteq> cfile"
  using last_path_push [of "''.zshrc''" home] last_path_push [of "''.bashrc''" home] last_path_push [of "''completion.zsh''"]
    last_path_push [of "''completion.bash''"]
  by (cases sh) (auto simp: completion_paths_def Let_def dest!: arg_cong [where f = last])

text \<open>
  Installing shell completion again changes nothing: after an installation that succeeded, another
  one succeeds and leaves every file as it is, so the line that sources the script stands in the
  shell's rc file once, provided that the rc file is readable text. (Where it is not, the program
  takes it for empty and appends the line on every run.)
\<close>

theorem install_completion_idempotent:
  assumes "install_completion X script v st w = (Inr u, st1, w1)" "v ''HOME'' = Some home"
    and rd: "\<And>rc. fst (completion_paths home (detect_shell v)) = Some rc \<Longrightarrow> \<exists>t. read_text X w1 rc = Inr t"
  shows "\<exists>st2. install_completion X script v st1 w1 = (Inr (), st2, w1)"
proof -
  obtain rcp cfile where p: "completion_paths home (detect_shell v) = (rcp, cfile)" by fastforce
  let ?put = "\<lambda>w. w\<lparr>w_files := (w_files w)(cfile \<mapsto> script (detect_shell v))\<rparr>"
  note unf = install_completion_def assms(2) p io_bind_def os_call_def os_write_file_def io_return_def
  from assms(1) have run: "\<And>st' w'. install_completion X script v st' w' =
      (let st2 = println (''wrote completion script to '' @ utf8_lossy cfile) st' in
       case rcp of Some rc \<Rightarrow> source_in_rc X rc cfile st2 (?put w')
       | None \<Rightarrow> (Inr (), println ''fish will auto-load it on next shell start'' st2, ?put w'))"
    by (simp add: unf Let_def split: option.splits)
  show ?thesis
  proof (cases rcp)
    case None
    with assms(1) run show ?thesis by (auto simp: Let_def)
  next
    case (Some rc)
    with assms(1) run [of st w] obtain st0 where s: "source_in_rc X rc cfile st0 (?put w) = (Inr u, st1, w1)" by (auto simp: Let_def)
    from source_in_rc_writes [OF s] completion_paths_differ p Some
    have "w_files w1 cfile = Some (script (detect_shell v))" by (metis (no_types) Some fun_upd_apply world.select_convs(2) world.surjective world.update_convs(2))
    then have same: "?put w1 = w1" by (simp add: fun_upd_idem)
    from rd p Some obtain t where "read_text X w1 rc = Inr t" by auto
    with source_in_rc_contains [OF s this] run [of st1 w1] Some same show ?thesis by (simp add: Let_def source_in_rc_def)
  qed
qed

definition demo_vars :: vars where
  "demo_vars = [''HOME'' \<mapsto> ''/h'', ''SHELL'' \<mapsto> ''/bin/zsh'']"

definition demo_installed :: "memstore world" where
  "demo_installed = demo_world [] [''/h/.config/rs5cmd/completion.zsh'' \<mapsto> ''#'',
     ''/h/.zshrc'' \<mapsto> rc_block (source_line ''/h/.config/rs5cmd/completion.zsh'')]"

lemma demo_shell: "detect_shell demo_vars = Zsh"
proof -
  have "utf8_valid ''/bin/zsh''" "path_file_name ''/bin/zsh'' = Some ''zsh''" by code_simp+
  then show ?thesis by (simp add: detect_shell_def demo_vars_def)
qed

lemma demo_paths: "completion_paths ''/h'' Zsh = (Some ''/h/.zshrc'', ''/h/.config/rs5cmd/completion.zsh'')"
  by code_simp

lemma demo_install:
  "\<exists>st1. install_completion demo_env_cmd (\<lambda>_. ''#'') demo_vars \<lparr>st_out = [], st_err = []\<rparr> (demo_world [] Map.empty)
     = (Inr (), st1, demo_installed)"
proof -
  have "demo_vars ''HOME'' = Some ''/h''" by (simp add: demo_vars_def)
  moreover have "\<not> contains_str [] (source_line p)" for p by (simp add: contains_str_iff source_line_def)
  ultimately show ?thesis
    by (simp add: install_completion_def demo_shell demo_paths source_in_rc_def io_bind_def os_call_def os_write_file_def io_return_def
        read_text_def os_read_def open_append_def os_update_def demo_env_cmd_def demo_env_def demo_world_def demo_installed_def Let_def
        fun_upd_twist split: option.split)
qed

theorem install_completion_idempotent_witness:
  "\<exists>st1 st2. install_completion demo_env_cmd (\<lambda>_. ''#'') demo_vars \<lparr>st_out = [], st_err = []\<rparr> (demo_world [] Map.empty)
       = (Inr (), st1, demo_installed)
     \<and> install_completion demo_env_cmd (\<lambda>_. ''#'') demo_vars st1 demo_installed = (Inr (), st2, demo_installed)"
proof -
  from demo_install obtain st1 where i: "install_completion demo_env_cmd (\<lambda>_. ''#'') demo_vars \<lparr>st_out = [], st_err = []\<rparr> (demo_world [] Map.empty)
     = (Inr (), st1, demo_installed)" by blast
  have h: "demo_vars ''HOME'' = Some ''/h''" by (simp add: demo_vars_def)
  have "utf8_valid (rc_block (source_line ''/h/.config/rs5cmd/completion.zsh''))" by code_simp
  then have "read_text demo_env_cmd demo_installed ''/h/.zshrc'' = Inr (rc_block (source_line ''/h/.config/rs5cmd/completion.zsh''))"
    by (simp add: read_text_def os_read_def os_call_def demo_env_cmd_def demo_env_def demo_installed_def demo_world_def)
  then have "\<exists>st2. install_completion demo_env_cmd (\<lambda>_. ''#'') demo_vars st1 demo_installed = (Inr (), st2, demo_installed)"
    by (intro install_completion_idempotent [OF i h]) (auto simp: demo_shell demo_paths)
  with i show ?thesis by blast
qed

end
