(* ===== verification/Cli.thy ===== *)
theory Cli
  imports Command Pipe Cat Ls Key_Tree Buckets Sync_Props Cp_Props Rm
begin

text \<open>
  The dispatcher (\<^verbatim>\<open>run\<close> of \<^verbatim>\<open>src/command/mod.rs\<close>), the \<^verbatim>\<open>run\<close> command that executes the lines of a file
  (\<^verbatim>\<open>src/command/run.rs\<close>) and the exit code of the process (\<^verbatim>\<open>src/main.rs\<close>). What a process has besides
  the world of the storage layer is its environment, its two streams and the output mode, which is
  global to it. The streams hold the output of the commands whose output is modelled; those of \<^verbatim>\<open>cp\<close>,
  \<^verbatim>\<open>mv\<close>, \<^verbatim>\<open>rm\<close>, \<^verbatim>\<open>sync\<close>, \<^verbatim>\<open>pipe\<close> and \<^verbatim>\<open>import-s3cfg\<close> print progress lines that are left out.

  \<^verbatim>\<open>clap\<close>, \<^verbatim>\<open>clap_complete\<close>, \<^verbatim>\<open>shell_words\<close> and what the single commands take from outside (the clock,
  orders of completion, the formatting of times) are the fields of a record.
\<close>

section \<open>Commands\<close>

datatype command =
    LsCmd ls_args
  | CpCmd cp_args
  | MvCmd cp_args
  | RmCmd rm_args
  | CatCmd cat_args
  | MbCmd string
  | RbCmd string bool
  | SyncCmd sync_args
  | DuCmd du_args
  | TreeCmd tree_args
  | PipeCmd pipe_args
  | HeadCmd head_args
  | PresignCmd presign_args
  | SelectCmd select_args
  | RunCmd "string option"
  | BucketVersionCmd string "string option"
  | CompletionCmd shell
  | ImportS3cfgCmd import_args

record cli =
  cl_global :: global_opts
  cl_command :: "command option"

record 's process =
  ps_world :: "'s world"
  ps_streams :: streams
  ps_vars :: vars
  ps_mode :: out_mode

type_synonym 's outcome = "((error, unit) result \<times> 's process) option"

record ('s, 'd) app =
  ap_env :: "vars \<Rightarrow> 's cmd_env"
  ap_parse :: "string list \<Rightarrow> (string, cli) result"
  ap_split :: "string \<Rightarrow> (string, string list) result"
  ap_help :: string
  ap_script :: "shell \<Rightarrow> string"
  ap_sizes :: size_lib
  ap_console :: console
  ap_is_terminal :: bool
  ap_up_now :: nat
  ap_down_now :: nat
  ap_now :: int
  ap_tree :: "'s tree_ops"
  ap_iter :: "object_map \<Rightarrow> object_map"
  ap_pick :: "nat \<Rightarrow> nat"
  ap_pick_delete :: "nat \<Rightarrow> nat"
  ap_pick_line :: "nat \<Rightarrow> nat"
  ap_dropped :: "nat list \<Rightarrow> nat list"
  ap_select :: "'s select_fn"
  ap_case :: case_lib
  ap_head_bucket :: "string \<Rightarrow> 's \<Rightarrow> (sdk_error, unit) result \<times> 's"
  ap_entries :: "(string \<Rightarrow> string option) \<Rightarrow> (string \<times> string) list"
  ap_parse_duration :: "string \<Rightarrow> (error, 'd) result"
  ap_sign :: "bool \<Rightarrow> object_ref \<Rightarrow> 'd \<Rightarrow> (error, string) result"
  ap_stdin :: stdin
  ap_line_stdin :: "nat \<Rightarrow> stdin"

text \<open>The command environment sees the variables as they are now.\<close>

definition cmd_at :: "('s, 'd) app \<Rightarrow> vars \<Rightarrow> 's cmd_env" where
  "cmd_at A v = (let X = ap_env A v in X\<lparr>ce_os := (ce_os X)\<lparr>env_var := v\<rparr>\<rparr>)"

section \<open>Dispatch\<close>

text \<open>The results of the commands, as outcomes of the process.\<close>

definition only_world :: "'s process \<Rightarrow> ((error, unit) result \<times> 's world) option \<Rightarrow> 's outcome" where
  "only_world p r = (case r of None \<Rightarrow> None | Some (x, w) \<Rightarrow> Some (x, p\<lparr>ps_world := w\<rparr>))"

definition with_streams :: "'s process \<Rightarrow> ((error, unit) result \<times> streams \<times> 's world) option \<Rightarrow> 's outcome" where
  "with_streams p r = (case r of None \<Rightarrow> None | Some (x, st, w) \<Rightarrow> Some (x, p\<lparr>ps_world := w, ps_streams := st\<rparr>))"

definition with_out :: "'s process \<Rightarrow> ((error, unit) result \<times> string \<times> 's world) option \<Rightarrow> 's outcome" where
  "with_out p r =
     (case r of None \<Rightarrow> None
      | Some (x, out, w) \<Rightarrow> Some (x, p\<lparr>ps_world := w, ps_streams := (ps_streams p)\<lparr>st_out := out\<rparr>\<rparr>))"

text \<open>
  \<open>run_file\<close> stands for \<^verbatim>\<open>run::run\<close>, which calls the dispatcher again; \<open>ins\<close> is what standard input
  holds when the command reads it.
\<close>

definition dispatch ::
  "('s, 'd) app \<Rightarrow> (global_opts \<Rightarrow> string option \<Rightarrow> 's process \<Rightarrow> 's outcome) \<Rightarrow> stdin \<Rightarrow> global_opts \<Rightarrow> command
     \<Rightarrow> 's process \<Rightarrow> 's outcome" where
  "dispatch A run_file ins g c p =
     (let X = cmd_at A (ps_vars p); K = ap_console A; m = ps_mode p; st = ps_streams p; w = ps_world p;
          opts = storage_options (ap_sizes A) (ap_up_now A) (ap_down_now A) g
      in case c of
        LsCmd args \<Rightarrow> with_streams p (ls_run X K m (ap_now A) opts args st w)
      | CpCmd args \<Rightarrow> only_world p (cp_run X (ap_tree A) (ap_pick A) (go_numworkers g) opts args False w)
      | MvCmd args \<Rightarrow> only_world p (cp_run X (ap_tree A) (ap_pick A) (go_numworkers g) opts args True w)
      | RmCmd args \<Rightarrow> only_world p (rm_run X opts args w)
      | CatCmd args \<Rightarrow> with_out p (cat_run X K opts args (st_out st) w)
      | MbCmd bucket \<Rightarrow> with_streams p (Some (run_mb X K m opts bucket st w))
      | RbCmd bucket force \<Rightarrow> with_streams p (run_rb X K m opts bucket force st w)
      | SyncCmd args \<Rightarrow>
          only_world p (map_option (\<lambda>(r, _, w1). (r, w1))
            (sync_run X (ap_iter A) (ap_pick A) (ap_pick_delete A) (go_numworkers g) opts args w))
      | DuCmd args \<Rightarrow> with_streams p (du_run X K m opts args st w)
      | TreeCmd args \<Rightarrow> with_streams p (tree_run X opts args st w)
      | PipeCmd args \<Rightarrow> only_world p (Some (pipe_run X K (ap_dropped A) opts args ins w))
      | HeadCmd args \<Rightarrow> with_streams p (Some (run_head X (ap_head_bucket A) (ap_entries A) K m opts args st w))
      | PresignCmd args \<Rightarrow>
          (case run_presign X (ap_parse_duration A) (ap_sign A) K m opts args st of
             (r, st1) \<Rightarrow> with_streams p (Some (r, st1, w)))
      | SelectCmd args \<Rightarrow> with_out p (select_run X (ap_select A) (ap_case A) K opts args (st_out st) w)
      | RunCmd file \<Rightarrow> run_file g file p
      | BucketVersionCmd bucket set_to \<Rightarrow>
          with_streams p (Some (run_bucket_version X K m (cl_lower (ap_case A)) opts bucket set_to st w))
      | CompletionCmd sh \<Rightarrow> Some (Ok (), p\<lparr>ps_streams := st\<lparr>st_out := st_out st @ ap_script A sh\<rparr>\<rparr>)
      | ImportS3cfgCmd args \<Rightarrow>
          Some (Err (Message ''internal error: entered unreachable code: import-s3cfg handled before dispatch''), p))"

text \<open>
  The flags that take effect before a command is dispatched. The last case of \<open>dispatch\<close> is a
  panic that never happens: the import is handled here.
\<close>

definition set_modes :: "('s, 'd) app \<Rightarrow> global_opts \<Rightarrow> 's process \<Rightarrow> 's process" where
  "set_modes A g p =
     (let m1 = (ps_mode p)\<lparr>om_json := go_json g\<rparr>;
          m2 = set_color (ce_os (cmd_at A (ps_vars p))) (ap_is_terminal A) (color_choice_of (go_color g)) m1
      in p\<lparr>ps_mode := m2\<lparr>om_dry_run := go_dry_run g\<rparr>\<rparr>)"

definition set_credentials_file :: "global_opts \<Rightarrow> 's process \<Rightarrow> 's process" where
  "set_credentials_file g p =
     (case go_credentials_file g of
        Some path \<Rightarrow> p\<lparr>ps_vars := (ps_vars p)(''AWS_SHARED_CREDENTIALS_FILE'' \<mapsto> path)\<rparr>
      | None \<Rightarrow> p)"

definition run_cli ::
  "('s, 'd) app \<Rightarrow> (global_opts \<Rightarrow> string option \<Rightarrow> 's process \<Rightarrow> 's outcome) \<Rightarrow> stdin \<Rightarrow> cli \<Rightarrow> 's process \<Rightarrow> 's outcome" where
  "run_cli A run_file ins cl p0 =
     (if go_install_completion (cl_global cl) then
        with_streams p0 (Some (install_completion (cmd_at A (ps_vars p0)) (ap_script A) (ps_vars p0) (ps_streams p0) (ps_world p0)))
      else
        let p = set_credentials_file (cl_global cl) p0 in
        (case cl_command cl of
           Some (ImportS3cfgCmd args) \<Rightarrow>
             only_world p (Some (import_run (cmd_at A (ps_vars p)) (ap_sizes A) args (ps_world p)))
         | command \<Rightarrow>
             (case load_config (cmd_at A (ps_vars p)) (ap_sizes A) (cl_global cl) (ps_vars p) (ps_world p) of
                Inl e \<Rightarrow> Some (Err e, p)
              | Inr (g, v) \<Rightarrow>
                  let p1 = set_modes A g (p\<lparr>ps_vars := v\<rparr>) in
                  (case validate_bandwidth_limits (ap_sizes A) g of
                     Inl e \<Rightarrow> Some (Err e, p1)
                   | Inr _ \<Rightarrow>
                       (case command of
                          None \<Rightarrow>
                            Some (Ok (), p1\<lparr>ps_streams := println [] ((ps_streams p1)\<lparr>st_out := st_out (ps_streams p1) @ ap_help A\<rparr>)\<rparr>)
                        | Some c \<Rightarrow> dispatch A run_file ins g c p1)))))"

section \<open>The lines of a file\<close>

definition push_flag :: "bool \<Rightarrow> string \<Rightarrow> string list" where
  "push_flag on name = (if on then [name] else [])"

definition push_opt :: "string option \<Rightarrow> string \<Rightarrow> string list" where
  "push_opt v name = (case v of None \<Rightarrow> [] | Some x \<Rightarrow> [name, x])"

definition build_argv :: "global_opts \<Rightarrow> string list \<Rightarrow> string list" where
  "build_argv g tokens =
     [''rs5cmd'']
     @ push_opt (go_endpoint_url g) ''--endpoint-url''
     @ push_opt (go_region g) ''--region''
     @ push_opt (go_profile g) ''--profile''
     @ push_opt (go_addressing_style g) ''--addressing-style''
     @ push_opt (go_proxy g) ''--proxy''
     @ push_flag (go_no_sign_request g) ''--no-sign-request''
     @ push_flag (go_no_verify_ssl g) ''--no-verify-ssl''
     @ push_flag (go_dry_run g) ''--dry-run''
     @ push_flag (go_json g) ''--json''
     @ push_flag (go_use_list_objects_v1 g) ''--use-list-objects-v1''
     @ [''--numworkers'', show_nat (go_numworkers g)]
     @ [''--retry-count'', show_nat (go_retry_count g)]
     @ push_opt (go_ca_certs_file g) ''--ca-certs-file''
     @ push_opt (go_request_payer g) ''--request-payer''
     @ push_opt (go_limitrate g) ''--limitrate''
     @ tokens"

text \<open>A nested \<^verbatim>\<open>run\<close> is refused before it is dispatched, so the handler below is never called.\<close>

definition run_line :: "('s, 'd) app \<Rightarrow> global_opts \<Rightarrow> string \<Rightarrow> nat \<Rightarrow> 's process \<Rightarrow> 's outcome" where
  "run_line A g line lineno p =
     (case ap_split A line of
        Inl e \<Rightarrow> Some (Err (Message (''parsing line '' @ show_nat lineno @ '': '' @ e)), p)
      | Inr tokens \<Rightarrow>
          if tokens = [] then Some (Ok (), p)
          else
            (case ap_parse A (build_argv g tokens) of
               Inl e \<Rightarrow> Some (Err (Message (''line '' @ show_nat lineno @ '': '' @ e)), p)
             | Inr cl \<Rightarrow>
                 (case cl_command cl of
                    Some (RunCmd _) \<Rightarrow>
                      Some (Err (Message (''nested run is not supported (line '' @ show_nat lineno @ '')'')), p)
                  | _ \<Rightarrow> run_cli A (\<lambda>_ _ _. None) (ap_line_stdin A lineno) cl p)))"

definition is_command_line :: "string \<Rightarrow> bool" where
  "is_command_line raw = (let line = str_trim raw in line \<noteq> [] \<and> \<not> starts_with line ''#'')"

definition command_lines :: "string \<Rightarrow> (nat \<times> string) list" where
  "command_lines content =
     map (\<lambda>(i, raw). (i + 1, str_trim raw)) (filter (\<lambda>(i, raw). is_command_line raw) (enumerate 0 (str_lines content)))"

fun read_stdin :: "stdin \<Rightarrow> (error, string) result" where
  "read_stdin [] = Ok []"
| "read_stdin (Inl e # ins) = Err e"
| "read_stdin (Inr c # ins) = (if c = [] then Ok [] else and_then (read_stdin ins) (\<lambda>rest. Ok (c @ rest)))"

definition run_content :: "('s, 'd) app \<Rightarrow> string option \<Rightarrow> 's process \<Rightarrow> (error, string) result" where
  "run_content A file p =
     (case file of
        Some path \<Rightarrow>
          (case read_text (cmd_at A (ps_vars p)) (ps_world p) path of
             Inl e \<Rightarrow> Err (Message (''opening '' @ path @ '': '' @ e))
           | Inr t \<Rightarrow> Ok t)
      | None \<Rightarrow>
          (case read_stdin (ap_stdin A) of
             Inl e \<Rightarrow> Err (Message (''reading stdin: '' @ error_chain e))
           | Inr t \<Rightarrow> if utf8_valid t then Ok t else Err (Message ''reading stdin: stream did not contain valid UTF-8'')))"

text \<open>
  A line run by the pool, and the report on it. A line that never ends leaves no process; a report
  goes to standard error, which the lines share.
\<close>

definition report :: "string \<Rightarrow> (error, unit) result \<Rightarrow> 's process \<Rightarrow> 's process" where
  "report line r p =
     (case r of
        Inl e \<Rightarrow> p\<lparr>ps_streams := eprintln (''ERROR '' @ line @ '': '' @ error_chain e) (ps_streams p)\<rparr>
      | Inr _ \<Rightarrow> p)"

definition run_one :: "('s, 'd) app \<Rightarrow> global_opts \<Rightarrow> nat \<times> string \<Rightarrow> 's process option \<Rightarrow> (error, unit) result \<times> 's process option" where
  "run_one A g nl po =
     (case po of
        None \<Rightarrow> (Ok (), None)
      | Some p \<Rightarrow>
          (case run_line A g (snd nl) (fst nl) p of
             None \<Rightarrow> (Ok (), None)
           | Some (r, p1) \<Rightarrow> (r, Some (report (snd nl) r p1))))"

definition had_error :: "nat \<times> string \<Rightarrow> (error, unit) result \<Rightarrow> bool \<Rightarrow> bool" where
  "had_error nl r b = (b \<or> \<not> is_ok r)"

definition run_file :: "('s, 'd) app \<Rightarrow> global_opts \<Rightarrow> string option \<Rightarrow> 's process \<Rightarrow> 's outcome" where
  "run_file A g file p =
     (case run_content A file p of
        Inl e \<Rightarrow> Some (Err e, p)
      | Inr content \<Rightarrow>
          (case pool_run (run_one A g) had_error (ap_pick_line A) (\<lambda>_. False) (max (go_numworkers g) 1)
                  (command_lines content) False (Some p) of
             (_, None) \<Rightarrow> None
           | (bad, Some p1) \<Rightarrow> Some (if bad then Err (Message ''one or more run commands failed'') else Ok (), p1)))"

definition run :: "('s, 'd) app \<Rightarrow> cli \<Rightarrow> 's process \<Rightarrow> 's outcome" where
  "run A cl p = run_cli A (run_file A) (ap_stdin A) cl p"

section \<open>The process\<close>

text \<open>The exit code, for a run that no signal interrupts; the soft limit on open files is raised first.\<close>

definition main :: "('s, 'd) app \<Rightarrow> 'k rlimit_sys \<Rightarrow> cli \<Rightarrow> 'k \<Rightarrow> 's process \<Rightarrow> (nat \<times> 'k \<times> 's process) option" where
  "main A S cl k p0 =
     (case setup_nofile_limits S (go_numworkers (cl_global cl)) 8 (ps_streams p0) k of
        (st, k1) \<Rightarrow>
          (case run A cl (p0\<lparr>ps_streams := st\<rparr>) of
             None \<Rightarrow> None
           | Some (Inr _, p) \<Rightarrow> Some (0, k1, p)
           | Some (Inl e, p) \<Rightarrow> Some (1, k1, p\<lparr>ps_streams := eprintln (''error: '' @ error_chain e) (ps_streams p)\<rparr>)))"

section \<open>What a run of a file comes to\<close>

text \<open>The reference: the lines one after the other, with the errors of those that failed.\<close>

fun run_lines :: "('s, 'd) app \<Rightarrow> global_opts \<Rightarrow> (nat \<times> string) list \<Rightarrow> 's process \<Rightarrow> ((nat \<times> error) list \<times> 's process) option" where
  "run_lines A g [] p = Some ([], p)"
| "run_lines A g ((n, l) # js) p =
     (case run_line A g l n p of
        None \<Rightarrow> None
      | Some (r, p1) \<Rightarrow>
          map_option (\<lambda>(fails, p2). ((case r of Inl e \<Rightarrow> [(n, e)] | Inr _ \<Rightarrow> []) @ fails, p2)) (run_lines A g js (report l r p1)))"

lemma seq_run_stuck: "snd (seq_run (run_one A g) had_error js b None) = None"
  by (induction js arbitrary: b) (simp_all add: run_one_def)

lemma seq_run_lines:
  "(case seq_run (run_one A g) had_error js b (Some p) of
      (bad, None) \<Rightarrow> run_lines A g js p = None
    | (bad, Some p1) \<Rightarrow> \<exists>fails. run_lines A g js p = Some (fails, p1) \<and> bad = (b \<or> fails \<noteq> []))"
proof (induction js arbitrary: b p)
  case (Cons nl js)
  obtain n l where nl: "nl = (n, l)" by fastforce
  show ?case
  proof (cases "run_line A g l n p")
    case None
    then have "seq_run (run_one A g) had_error (nl # js) b (Some p) = seq_run (run_one A g) had_error js (had_error nl (Ok ()) b) None"
      by (simp add: nl run_one_def)
    with None seq_run_stuck [of A g js] show ?thesis by (auto simp: nl simp del: seq_run.simps split: prod.splits option.splits) (metis option.distinct(1) snd_conv)
  next
    case (Some rp)
    obtain r p1 where rp: "rp = (r, p1)" by fastforce
    have "run_one A g nl (Some p) = (r, Some (report l r p1))" using Some by (simp add: nl rp run_one_def)
    then show ?thesis
      using Cons.IH [of "report l r p1" "had_error nl r b"] Some
      by (cases r) (auto simp: nl rp had_error_def is_ok_def split: prod.splits option.splits)
  qed
qed simp

lemma run_file_order:
  assumes "run_content A file p = Inr content"
  shows "\<exists>js. mset js = mset (command_lines content) \<and>
    run_file A g file p = (case run_lines A g js p of None \<Rightarrow> None
      | Some (fails, p1) \<Rightarrow> Some (if fails = [] then Ok () else Err (Message ''one or more run commands failed''), p1))"
proof -
  from pool_run_order [of "\<lambda>_. False" had_error "command_lines content" "run_one A g" "ap_pick_line A" "max (go_numworkers g) 1" False "Some p"]
  obtain js where js: "mset js = mset (command_lines content)" and
    e: "pool_run (run_one A g) had_error (ap_pick_line A) (\<lambda>_. False) (max (go_numworkers g) 1) (command_lines content) False (Some p)
      = seq_run (run_one A g) had_error js False (Some p)" by (auto simp: had_error_def)
  show ?thesis unfolding run_file_def assms sum.case e
    using js seq_run_lines [of A g js p False] by (intro exI [of _ js]) (auto split: prod.splits option.splits)
qed

lemma command_lines_set:
  "set (command_lines content) =
     {(Suc i, str_trim (str_lines content ! i)) | i. i < length (str_lines content) \<and> is_command_line (str_lines content ! i)}"
  by (force simp: command_lines_def in_set_enumerate_eq)

lemma command_lines_distinct: "distinct (command_lines content)"
proof -
  have "inj_on (\<lambda>(i, raw). (i + 1, str_trim raw)) (set (enumerate 0 (str_lines content)))"
    by (auto simp: inj_on_def in_set_enumerate_eq)
  then show ?thesis unfolding command_lines_def
    by (simp add: distinct_map inj_on_subset [of _ "set (enumerate 0 (str_lines content))"] distinct_filter)
qed


text \<open>The lines depend on the flags through the arguments rebuilt from them.\<close>

lemma run_line_cong: "build_argv g = build_argv g' \<Longrightarrow> run_line A g = run_line A g'"
  by (intro ext) (simp only: run_line_def)

lemma run_file_cong:
  assumes "build_argv g = build_argv g'" "go_numworkers g = go_numworkers g'"
  shows "run_file A g file p = run_file A g' file p"
proof -
  have one: "run_one A g = run_one A g'" unfolding run_one_def fun_eq_iff run_line_cong [OF assms(1)] by simp
  show ?thesis unfolding run_file_def one assms(2) ..
qed

text \<open>
  Flags of the \<^verbatim>\<open>run\<close> command that its lines do not inherit: whatever region or endpoint is given for
  the source or the destination, whatever cap for uploads or downloads, dual-stack, FIPS and color
  choice, the lines are executed as without it.
\<close>

theorem run_forgets_flags:
  "run_file A (g\<lparr>go_source_region := sr, go_destination_region := dr, go_source_endpoint_url := se, go_destination_endpoint_url := de,
      go_limit_upload := lu, go_limit_download := ld, go_use_dualstack_endpoint := ds, go_use_fips_endpoint := fi, go_color := co\<rparr>) file p
    = run_file A g file p"
  by (rule run_file_cong) (simp_all add: build_argv_def fun_eq_iff)

text \<open>An application whose parser knows one command, and a file of four lines on standard input.\<close>

definition demo_app :: "(memstore, nat) app" where
  "demo_app = \<lparr>ap_env = (\<lambda>_. demo_env_cmd),
     ap_parse = (\<lambda>argv. if last argv = ''completion'' then Ok \<lparr>cl_global = no_flags, cl_command = Some (CompletionCmd Bash)\<rparr> else Err ''unknown''),
     ap_split = (\<lambda>l. Ok [l]), ap_help = [], ap_script = (\<lambda>_. ''complete''), ap_sizes = demo_sizes, ap_console = demo_console,
     ap_is_terminal = False, ap_up_now = 0, ap_down_now = 0, ap_now = 0, ap_tree = demo_tree, ap_iter = id, ap_pick = id, ap_pick_delete = id,
     ap_pick_line = Suc, ap_dropped = id, ap_select = (\<lambda>_ s. (Ok ([], None), s)), ap_case = \<lparr>cl_lower = id, cl_upper = id\<rparr>, ap_head_bucket = (\<lambda>_ s. (Ok (), s)),
     ap_entries = (\<lambda>_. []), ap_parse_duration = (\<lambda>_. Ok 0), ap_sign = (\<lambda>_ _ _. Ok []),
     ap_stdin = [Ok (unlines [''# batch'', ''completion'', [], ''bad''])], ap_line_stdin = (\<lambda>_. [])\<rparr>"

definition demo_process :: "memstore process" where
  "demo_process = \<lparr>ps_world = demo_world [] Map.empty, ps_streams = \<lparr>st_out = [], st_err = []\<rparr>, ps_vars = Map.empty,
     ps_mode = \<lparr>om_json = False, om_dry_run = False, om_color = False\<rparr>\<rparr>"

lemma demo_lines: "command_lines (unlines [''# batch'', ''completion'', [], ''bad'']) = [(2, ''completion''), (4, ''bad'')]"
  by code_simp

lemma demo_run_line: "run_line demo_app g l n p \<noteq> None"
  by (simp add: run_line_def demo_app_def run_cli_def no_flags_def set_credentials_file_def load_config_def read_s3cfg_def dispatch_def Let_def
      split: sum.split prod.split)

lemma demo_run_lines: "run_lines demo_app g js p \<noteq> None"
  using demo_run_line by (induction js arbitrary: p) (fastforce split: option.split prod.split)+


end
