(* ===== verification/Fast.thy ===== *)
theory Fast
  imports Command Cp
begin

text \<open>
  The fast path of \<^verbatim>\<open>cp --fast\<close> and \<^verbatim>\<open>mv --fast\<close> (\<^verbatim>\<open>src/fastpath\<close> and \<^verbatim>\<open>try_fast_path\<close> of \<^verbatim>\<open>src/command/cp.rs\<close>), which a
  build with the feature \<^verbatim>\<open>fast\<close> has: whole objects are sent and fetched with signed HTTP requests of
  the program's own, with retries, on one thread per core. The crates \<^verbatim>\<open>http\<close>, \<^verbatim>\<open>aws-sigv4\<close> and \<^verbatim>\<open>monoio\<close>
  are parameters: what a URI parses to, the headers a signature adds, and what the server answers.
  A transfer takes its effect when it finishes, and the threads interleave in any order.
\<close>

section \<open>Requests\<close>

record endpoint =
  en_scheme :: string
  en_host :: string
  en_port :: nat
  en_no_verify :: bool

definition is_tls :: "endpoint \<Rightarrow> bool" where
  "is_tls ep = (en_scheme ep = ''https'')"

definition host_header :: "endpoint \<Rightarrow> string" where
  "host_header ep =
     (if en_port ep = (if is_tls ep then 443 else 80) then en_host ep
      else en_host ep @ '':'' @ show_nat (en_port ep))"

definition endpoint_url :: "endpoint \<Rightarrow> string \<Rightarrow> string \<Rightarrow> string" where
  "endpoint_url ep bucket key = en_scheme ep @ ''://'' @ host_header ep @ ''/'' @ bucket @ ''/'' @ key"

record uri =
  ur_scheme :: "string option"
  ur_host :: "string option"
  ur_port :: "nat option"
  ur_path_and_query :: "string option"

type_synonym headers = "(string \<times> string) list"

record fast_request =
  fr_method :: string
  fr_target :: string
  fr_headers :: headers
  fr_body :: string

text \<open>
  The crates. \<open>hl_headers\<close> is the error of building a request with the headers given, \<open>hl_sign\<close> the
  headers after signing; a signature does not cover the body. \<open>ht_request\<close> answers with a status and
  the body, or the error of reading it.
\<close>

record http_lib =
  hl_uri :: "string \<Rightarrow> (string, uri) result"
  hl_headers :: "headers \<Rightarrow> string option"
  hl_sign :: "string \<Rightarrow> uri \<Rightarrow> headers \<Rightarrow> (string, headers) result"
  hl_status :: "nat \<Rightarrow> string"
  hl_tls_config :: "(string, unit) result"
  hl_tls_addr :: "uri \<Rightarrow> (string, unit) result"

record 's transport =
  ht_connect :: "'s \<Rightarrow> (string, unit) result \<times> 's"
  ht_request :: "fast_request \<Rightarrow> 's \<Rightarrow> (string, nat \<times> (string, string) result) result \<times> 's"

datatype fast_error = HttpStatusError nat string | OtherError error

abbreviation other_text :: "string \<Rightarrow> fast_error" where
  "other_text t \<equiv> OtherError (Message t)"

definition is_success :: "nat \<Rightarrow> bool" where
  "is_success st = (200 \<le> st \<and> st < 300)"

fun is_retryable :: "fast_error \<Rightarrow> bool" where
  "is_retryable (HttpStatusError st _) = ((500 \<le> st \<and> st < 600) \<or> st = 408 \<or> st = 429)"
| "is_retryable (OtherError _) = True"

fun fast_error_text :: "fast_error \<Rightarrow> string" where
  "fast_error_text (HttpStatusError _ m) = m"
| "fast_error_text (OtherError e) = error_chain e"

definition fast_client_new :: "http_lib \<Rightarrow> endpoint \<Rightarrow> (string, endpoint) result" where
  "fast_client_new H ep =
     (if is_tls ep then
        and_then (if en_no_verify ep then hl_tls_config H else Ok ()) (\<lambda>_.
        and_then (hl_uri H (''https://'' @ host_header ep)) (\<lambda>u.
        (case hl_tls_addr H u of
           Inl e \<Rightarrow> Err (''invalid TLS endpoint '' @ ''https://'' @ host_header ep @ ''/'' @ '': '' @ e)
         | Inr _ \<Rightarrow> Ok ep)))
      else Ok ep)"

definition build_request_with_headers ::
  "http_lib \<Rightarrow> endpoint \<Rightarrow> string \<Rightarrow> string \<Rightarrow> string \<Rightarrow> string \<Rightarrow> headers \<Rightarrow> (fast_error, fast_request) result" where
  "build_request_with_headers H ep verb bucket key body extra =
     (case hl_uri H (endpoint_url ep bucket key) of
        Inl e \<Rightarrow> Err (other_text e)
      | Inr u \<Rightarrow>
          let to_sign = (''host'', host_header ep) # extra in
          (case hl_headers H to_sign of
             Some e \<Rightarrow> Err (other_text e)
           | None \<Rightarrow>
               (case hl_sign H verb u to_sign of
                  Inl e \<Rightarrow> Err (other_text e)
                | Inr signed \<Rightarrow>
                    (case hl_headers H signed of
                       Some e \<Rightarrow> Err (other_text e)
                     | None \<Rightarrow>
                         Ok \<lparr>fr_method = verb, fr_target = unwrap_or ''/'' (ur_path_and_query u), fr_headers = signed,
                             fr_body = body\<rparr>))))"

definition build_request :: "http_lib \<Rightarrow> endpoint \<Rightarrow> string \<Rightarrow> string \<Rightarrow> string \<Rightarrow> string \<Rightarrow> (fast_error, fast_request) result" where
  "build_request H ep verb bucket key body = build_request_with_headers H ep verb bucket key body []"

definition send_fast :: "'s transport \<Rightarrow> endpoint \<Rightarrow> fast_request \<Rightarrow> 's \<Rightarrow> (fast_error, nat \<times> string) result \<times> 's" where
  "send_fast N ep req s =
     (case ht_connect N s of
        (Inl e, s1) \<Rightarrow> (Err (other_text ((if is_tls ep then ''tls connect: '' else ''connect: '') @ e)), s1)
      | (Inr _, s1) \<Rightarrow>
          (case ht_request N req s1 of
             (Inl e, s2) \<Rightarrow> (Err (other_text (''send: '' @ e)), s2)
           | (Inr (status, Inl e), s2) \<Rightarrow> (Err (other_text (''read body: '' @ e)), s2)
           | (Inr (status, Inr bytes), s2) \<Rightarrow> (Ok (status, bytes), s2)))"

text \<open>A request built and sent, and the answer checked.\<close>

definition fast_call ::
  "'s transport \<Rightarrow> endpoint \<Rightarrow> (fast_error, fast_request) result \<Rightarrow> (nat \<Rightarrow> string \<Rightarrow> (fast_error, 'a) result)
     \<Rightarrow> 's world \<Rightarrow> (fast_error, 'a) result \<times> 's world" where
  "fast_call N ep built check w =
     (case built of
        Inl e \<Rightarrow> (Err e, w)
      | Inr req \<Rightarrow>
          (case send_fast N ep req (w_s3 w) of
             (Inl e, s1) \<Rightarrow> (Err e, w\<lparr>w_s3 := s1\<rparr>)
           | (Inr (status, body), s1) \<Rightarrow> (check status body, w\<lparr>w_s3 := s1\<rparr>)))"

definition status_error :: "http_lib \<Rightarrow> string \<Rightarrow> nat \<Rightarrow> string \<Rightarrow> fast_error" where
  "status_error H what status body =
     HttpStatusError status (what @ '' -> '' @ hl_status H status @ '': '' @ utf8_lossy body)"

definition fast_put :: "http_lib \<Rightarrow> 's transport \<Rightarrow> endpoint \<Rightarrow> string \<Rightarrow> string \<Rightarrow> string \<Rightarrow> 's world \<Rightarrow> (fast_error, unit) result \<times> 's world" where
  "fast_put H N ep bucket key body =
     fast_call N ep (build_request H ep ''PUT'' bucket key body) (\<lambda>status body.
       if is_success status then Ok () else Err (status_error H (''PUT '' @ bucket @ ''/'' @ key) status body))"

definition fast_get :: "http_lib \<Rightarrow> 's transport \<Rightarrow> endpoint \<Rightarrow> string \<Rightarrow> string \<Rightarrow> 's world \<Rightarrow> (fast_error, string) result \<times> 's world" where
  "fast_get H N ep bucket key =
     fast_call N ep (build_request H ep ''GET'' bucket key []) (\<lambda>status body.
       if is_success status then Ok body else Err (status_error H (''GET '' @ bucket @ ''/'' @ key) status body))"

definition fast_delete :: "http_lib \<Rightarrow> 's transport \<Rightarrow> endpoint \<Rightarrow> string \<Rightarrow> string \<Rightarrow> 's world \<Rightarrow> (fast_error, unit) result \<times> 's world" where
  "fast_delete H N ep bucket key =
     fast_call N ep (build_request H ep ''DELETE'' bucket key []) (\<lambda>status body.
       if \<not> is_success status \<and> status \<noteq> 404
       then Err (status_error H (''DELETE '' @ bucket @ ''/'' @ key) status body) else Ok ())"

definition encode_key_byte :: "char \<Rightarrow> string" where
  "encode_key_byte c =
     (if c = CHR ''/'' then ''/''
      else if (65 \<le> byte_of c \<and> byte_of c \<le> 90) \<or> (97 \<le> byte_of c \<and> byte_of c \<le> 122) \<or> (48 \<le> byte_of c \<and> byte_of c \<le> 57)
              \<or> c \<in> {CHR ''-'', CHR ''_'', CHR ''.'', CHR ''~''} then [c]
      else [CHR ''%'', hex_upper (byte_of c div 16), hex_upper (byte_of c mod 16)])"

definition encode_key_path :: "string \<Rightarrow> string" where
  "encode_key_path key = concat (map encode_key_byte key)"

text \<open>The search of \<^verbatim>\<open>memmem\<close> over the windows of the haystack.\<close>

definition memmem :: "string \<Rightarrow> string \<Rightarrow> bool" where
  "memmem haystack needle =
     (if needle = [] \<or> length needle > length haystack then needle = []
      else list_ex (\<lambda>i. take (length needle) (drop i haystack) = needle) [0..<Suc (length haystack - length needle)])"

definition fast_copy ::
  "http_lib \<Rightarrow> 's transport \<Rightarrow> endpoint \<Rightarrow> string \<Rightarrow> string \<Rightarrow> string \<Rightarrow> string \<Rightarrow> 's world \<Rightarrow> (fast_error, unit) result \<times> 's world" where
  "fast_copy H N ep src_bucket src_key dst_bucket dst_key =
     (let what = ''COPY '' @ src_bucket @ ''/'' @ src_key @ '' -> '' @ dst_bucket @ ''/'' @ dst_key in
      fast_call N ep
        (build_request_with_headers H ep ''PUT'' dst_bucket dst_key []
           [(''x-amz-copy-source'', ''/'' @ src_bucket @ ''/'' @ encode_key_path src_key)]) (\<lambda>status body.
        if \<not> is_success status then Err (status_error H what status body)
        else if memmem body ''<Error'' then
          Err (HttpStatusError 500 (what @ '': 200 OK with error body: '' @ utf8_lossy body))
        else Ok ()))"

definition create_bucket_fast :: "http_lib \<Rightarrow> 's transport \<Rightarrow> endpoint \<Rightarrow> string \<Rightarrow> 's world \<Rightarrow> (fast_error, nat) result \<times> 's world" where
  "create_bucket_fast H N ep bucket =
     fast_call N ep (build_request H ep ''PUT'' bucket [] []) (\<lambda>status _. Ok status)"

section \<open>Retries\<close>

definition backoff_ms :: "nat \<Rightarrow> nat" where
  "backoff_ms attempt = min (50 * 2 ^ min attempt 7) 5000"

text \<open>The result, the pauses made, and the state; \<open>attempt\<close> counts the attempts that failed.\<close>

function with_retry ::
  "nat \<Rightarrow> nat \<Rightarrow> ('w \<Rightarrow> (fast_error, 'a) result \<times> 'w) \<Rightarrow> 'w \<Rightarrow> (fast_error, 'a) result \<times> nat list \<times> 'w" where
  "with_retry max_retries attempt act w =
     (case act w of
        (Inr v, w1) \<Rightarrow> (Ok v, [], w1)
      | (Inl e, w1) \<Rightarrow>
          if attempt \<ge> max_retries \<or> \<not> is_retryable e then (Err e, [], w1)
          else (case with_retry max_retries (attempt + 1) act w1 of
                  (r, pauses, w2) \<Rightarrow> (r, backoff_ms attempt # pauses, w2)))"
  by pat_completeness auto
termination
  by (relation "measure (\<lambda>(max_retries, attempt, act, w). max_retries - attempt)") auto

declare with_retry.simps [simp del]

definition retried :: "nat \<Rightarrow> ('w \<Rightarrow> (fast_error, 'a) result \<times> 'w) \<Rightarrow> 'w \<Rightarrow> (fast_error, 'a) result \<times> 'w" where
  "retried max_retries act w = (case with_retry max_retries 0 act w of (r, _, w1) \<Rightarrow> (r, w1))"

section \<open>Transfers\<close>

datatype transfer =
    Upload (tf_local: string) (tf_bucket: string) (tf_key: string)
  | Download (tf_bucket: string) (tf_key: string) (tf_local: string)
  | Copy (tf_src_bucket: string) (tf_src_key: string) (tf_dst_bucket: string) (tf_dst_key: string)

record outcome_of =
  oc_label :: string
  oc_source :: string
  oc_destination :: string
  oc_result :: "(fast_error, unit) result"

definition s3_name :: "string \<Rightarrow> string \<Rightarrow> string" where
  "s3_name bucket key = ''s3://'' @ bucket @ ''/'' @ key"

fun operands :: "transfer \<Rightarrow> string \<times> string" where
  "operands (Upload l b k) = (utf8_lossy l, s3_name b k)"
| "operands (Download b k l) = (s3_name b k, utf8_lossy l)"
| "operands (Copy sb sk db dk) = (s3_name sb sk, s3_name db dk)"

definition label_for :: "transfer \<Rightarrow> string" where
  "label_for item = ''cp '' @ fst (operands item) @ '' '' @ snd (operands item)"

definition as_other :: "('s, 'a) io \<Rightarrow> 's world \<Rightarrow> (fast_error, 'a) result \<times> 's world" where
  "as_other act w = (case act w of (Inl e, w1) \<Rightarrow> (Err (OtherError e), w1) | (Inr x, w1) \<Rightarrow> (Ok x, w1))"

text \<open>One state passing step after another, as long as they succeed.\<close>

definition fast_bind ::
  "('w \<Rightarrow> ('e, 'a) result \<times> 'w) \<Rightarrow> ('a \<Rightarrow> 'w \<Rightarrow> ('e, 'b) result \<times> 'w) \<Rightarrow> 'w \<Rightarrow> ('e, 'b) result \<times> 'w" where
  "fast_bind act f w = (case act w of (Inl e, w1) \<Rightarrow> (Err e, w1) | (Inr x, w1) \<Rightarrow> f x w1)"

definition write_file :: "'s cmd_env \<Rightarrow> string \<Rightarrow> string \<Rightarrow> ('s, unit) io" where
  "write_file X path data w =
     (let missing = (case path_parent path of
                       None \<Rightarrow> None
                     | Some parent \<Rightarrow>
                         if parent \<noteq> [] \<and> \<not> is_ok (lv_metadata (ce_view X w) parent) then Some parent else None)
      in io_bind (case missing of
                    Some parent \<Rightarrow> os_call (ce_os X) ''create_dir_all'' parent (io_return ())
                  | None \<Rightarrow> io_return ()) (\<lambda>_.
         io_bind (os_open_truncate (ce_os X) path) (\<lambda>_.
           os_update (ce_os X) ''write'' path (\<lambda>_. data))) w)"

definition remove_file :: "env \<Rightarrow> string \<Rightarrow> ('s, unit) io" where
  "remove_file E path =
     os_call E ''remove_file'' path (\<lambda>w. case w_files w path of
        None \<Rightarrow> (Err (no_such_file path), w)
      | Some _ \<Rightarrow> (Ok (), w\<lparr>w_files := (w_files w)(path := None)\<rparr>))"

definition transfer_one ::
  "'s cmd_env \<Rightarrow> http_lib \<Rightarrow> 's transport \<Rightarrow> endpoint \<Rightarrow> nat \<Rightarrow> bool \<Rightarrow> transfer \<Rightarrow> 's world \<Rightarrow> (fast_error, unit) result \<times> 's world" where
  "transfer_one X H N ep max_retries is_move item =
     (case item of
        Upload l b k \<Rightarrow>
          fast_bind (as_other (os_read (ce_os X) l)) (\<lambda>data.
          fast_bind (retried max_retries (fast_put H N ep b k data)) (\<lambda>_.
            if is_move then as_other (remove_file (ce_os X) l) else Pair (Ok ())))
      | Download b k l \<Rightarrow>
          fast_bind (retried max_retries (fast_get H N ep b k)) (\<lambda>bytes.
          fast_bind (as_other (write_file X l bytes)) (\<lambda>_.
            if is_move then retried max_retries (fast_delete H N ep b k) else Pair (Ok ())))
      | Copy sb sk db dk \<Rightarrow>
          fast_bind (retried max_retries (fast_copy H N ep sb sk db dk)) (\<lambda>_.
            if is_move then retried max_retries (fast_delete H N ep sb sk) else Pair (Ok ())))"

definition do_one ::
  "'s cmd_env \<Rightarrow> http_lib \<Rightarrow> 's transport \<Rightarrow> endpoint \<Rightarrow> nat \<Rightarrow> bool \<Rightarrow> transfer \<Rightarrow> 's world \<Rightarrow> outcome_of \<times> 's world" where
  "do_one X H N ep max_retries is_move item w =
     (case transfer_one X H N ep max_retries is_move item w of
        (r, w1) \<Rightarrow>
          (\<lparr>oc_label = label_for item, oc_source = fst (operands item), oc_destination = snd (operands item), oc_result = r\<rparr>, w1))"

section \<open>Threads\<close>

record fast_config =
  fg_endpoint :: endpoint
  fg_access_key :: string
  fg_secret_key :: string
  fg_session_token :: "string option"
  fg_region :: string
  fg_cores :: nat
  fg_per_core_concurrency :: nat
  fg_max_retries :: nat
  fg_dry_run :: bool
  fg_is_move :: bool

text \<open>The items of each shard: item \<open>i\<close> goes to shard \<open>i mod cores\<close>.\<close>

definition deal :: "nat \<Rightarrow> 'a list \<Rightarrow> 'a list list" where
  "deal cores items = map (\<lambda>c. map snd (filter (\<lambda>(i, _). i mod cores = c) (enumerate 0 items))) [0..<cores]"

text \<open>A shard at work: the transfers in flight and those to come. A finished one makes room for the next.\<close>

type_synonym 'a shard = "'a list \<times> 'a list"

definition start_shard :: "nat \<Rightarrow> 'a list \<Rightarrow> 'a shard" where
  "start_shard concurrency items = (take concurrency items, drop concurrency items)"

definition finish_in :: "nat \<Rightarrow> 'a shard \<Rightarrow> 'a \<times> 'a shard" where
  "finish_in n sh =
     (case take_nth n (fst sh) of
        (item, flight) \<Rightarrow> (item, (case snd sh of [] \<Rightarrow> (flight, []) | x # rest \<Rightarrow> (flight @ [x], rest))))"

definition shard_load :: "'a shard \<Rightarrow> nat" where
  "shard_load sh = length (fst sh) + length (snd sh)"

lemma finish_in_load: "fst sh \<noteq> [] \<Longrightarrow> shard_load (snd (finish_in n sh)) < shard_load sh"
  using length_take_nth [of "fst sh" n]
  by (cases sh; cases "fst sh") (auto simp: finish_in_def shard_load_def split: prod.splits list.splits)

definition live_shards :: "'a shard list \<Rightarrow> nat list" where
  "live_shards ss = filter (\<lambda>i. fst (ss ! i) \<noteq> []) [0..<length ss]"

definition next_shard :: "nat \<Rightarrow> 'a shard list \<Rightarrow> nat" where
  "next_shard n ss = live_shards ss ! (n mod length (live_shards ss))"

lemma next_shard_live: "live_shards ss \<noteq> [] \<Longrightarrow> next_shard n ss < length ss \<and> fst (ss ! next_shard n ss) \<noteq> []"
  using nth_mem [of "n mod length (live_shards ss)" "live_shards ss"] by (simp add: next_shard_def live_shards_def)

lemma sum_list_update_less: "i < length xs \<Longrightarrow> (f y :: nat) < f (xs ! i) \<Longrightarrow> sum_list (map f (xs[i := y])) < sum_list (map f xs)"
  by (induction xs arbitrary: i) (auto split: nat.split)

lemma finish_next_load:
  assumes "live_shards ss \<noteq> []" "(item, sh) = finish_in m (ss ! next_shard n ss)"
  shows "sum_list (map shard_load (ss[next_shard n ss := sh])) < sum_list (map shard_load ss)"
  using next_shard_live [OF assms(1), of n] finish_in_load [of "ss ! next_shard n ss" m] assms(2) [symmetric]
  by (intro sum_list_update_less) simp_all

text \<open>The threads together: \<open>pick k\<close> is which shard, and which of its transfers, finishes \<open>k\<close>-th.\<close>

function run_shards ::
  "('i \<Rightarrow> 'w \<Rightarrow> 'o \<times> 'w) \<Rightarrow> (nat \<Rightarrow> nat \<times> nat) \<Rightarrow> nat \<Rightarrow> 'i shard list \<Rightarrow> 'w \<Rightarrow> 'o list \<times> 'w" where
  "run_shards exec pick k ss w =
     (if live_shards ss = [] then ([], w)
      else
        let i = next_shard (fst (pick k)) ss in
        (case finish_in (snd (pick k)) (ss ! i) of
           (item, sh) \<Rightarrow>
             (case exec item w of
                (o1, w1) \<Rightarrow>
                  (case run_shards exec pick (Suc k) (ss[i := sh]) w1 of (os, w2) \<Rightarrow> (o1 # os, w2)))))"
  by pat_completeness auto
termination
  by (relation "measure (\<lambda>(_, _, _, ss, _). sum_list (map shard_load ss))") (auto intro: finish_next_load)

declare run_shards.simps [simp del]

definition init_failure :: "string \<Rightarrow> outcome_of" where
  "init_failure msg =
     \<lparr>oc_label = ''fastpath client init'', oc_source = [], oc_destination = [], oc_result = Err (other_text msg)\<rparr>"

definition dry_outcome :: "transfer \<Rightarrow> outcome_of" where
  "dry_outcome item =
     \<lparr>oc_label = label_for item, oc_source = fst (operands item), oc_destination = snd (operands item), oc_result = Ok ()\<rparr>"

text \<open>The library and the connections, which depend on the keys and the region the signer has.\<close>

definition run_transfers ::
  "'s cmd_env \<Rightarrow> http_lib \<Rightarrow> 's transport \<Rightarrow> (nat \<Rightarrow> nat \<times> nat) \<Rightarrow> transfer list \<Rightarrow> fast_config \<Rightarrow> 's world \<Rightarrow> outcome_of list \<times> 's world" where
  "run_transfers X H N pick items cfg w =
     (if items = [] then ([], w)
      else if fg_dry_run cfg then (map dry_outcome items, w)
      else
        let cores = min (max (fg_cores cfg) 1) (length items); shards = deal cores items in
        (case fast_client_new H (fg_endpoint cfg) of
           Inl msg \<Rightarrow> (concat (map (\<lambda>sh. replicate (max (length sh) 1) (init_failure msg)) shards), w)
         | Inr ep \<Rightarrow>
             run_shards (do_one X H N ep (fg_max_retries cfg) (fg_is_move cfg)) pick 0
               (map (start_shard (max (fg_per_core_concurrency cfg) 1)) shards) w))"

section \<open>The fast path of a copy\<close>

text \<open>
  \<open>fl_config\<close> is the AWS configuration for a region and a profile: the credentials provider if there
  is one, and the region.
\<close>

record 's fast_lib =
  fl_http :: http_lib
  fl_signer :: "string \<Rightarrow> string \<Rightarrow> string option \<Rightarrow> string \<Rightarrow> string \<Rightarrow> uri \<Rightarrow> headers \<Rightarrow> (string, headers) result"
  fl_net :: "'s transport"
  fl_config :: "string option \<Rightarrow> string option \<Rightarrow> (string, string \<times> string \<times> string option) result option \<times> string option"
  fl_parallelism :: "nat option"
  fl_pick :: "nat \<Rightarrow> nat \<times> nat"

definition resolve_credentials :: "'s fast_lib \<Rightarrow> global_opts \<Rightarrow> (error, string \<times> string \<times> string option \<times> string) result" where
  "resolve_credentials F g =
     (case fl_config F (go_region g) (go_profile g) of
        (None, _) \<Rightarrow> Err (Message ''no AWS credentials found (env/profile/SSO/IMDS)'')
      | (Some (Inl e), _) \<Rightarrow> Err (Message (''resolving AWS credentials: '' @ e))
      | (Some (Inr (ak, sk, tok)), region) \<Rightarrow> Ok (ak, sk, tok, unwrap_or ''us-east-1'' (or_else region (go_region g))))"

definition fast_endpoint :: "http_lib \<Rightarrow> global_opts \<Rightarrow> (error, endpoint) result" where
  "fast_endpoint H g =
     (case go_endpoint_url g of
        None \<Rightarrow> Err (Message ''--fast currently requires --endpoint-url (e.g. http://host:9000)'')
      | Some raw \<Rightarrow>
          (case hl_uri H raw of
             Inl e \<Rightarrow> Err (Message e)
           | Inr u \<Rightarrow>
               let scheme = unwrap_or ''http'' (ur_scheme u) in
               if scheme \<noteq> ''http'' \<and> scheme \<noteq> ''https'' then Err (Message ''--fast endpoint must be http or https'')
               else
                 (case ur_host u of
                    None \<Rightarrow> Err (Message ''invalid --endpoint-url host'')
                  | Some host \<Rightarrow>
                      Ok \<lparr>en_scheme = scheme, en_host = host,
                          en_port = unwrap_or (if scheme = ''https'' then 443 else 80) (ur_port u),
                          en_no_verify = go_no_verify_ssl g\<rparr>)))"

text \<open>A pair of local files never gets here.\<close>

definition transfer_of :: "url \<times> url \<Rightarrow> transfer" where
  "transfer_of p =
     (case p of (s, d) \<Rightarrow>
        if \<not> is_remote s then Upload (absolute s) (url_bucket d) (url_path d)
        else if \<not> is_remote d then Download (url_bucket s) (url_path s) (absolute d)
        else Copy (url_bucket s) (url_path s) (url_bucket d) (url_path d))"

definition fast_cores :: "env \<Rightarrow> nat option \<Rightarrow> nat" where
  "fast_cores E parallelism =
     max 1 (unwrap_or (min (unwrap_or 4 parallelism) 16)
       (case env_var E ''RS5CMD_FAST_CORES'' of
          None \<Rightarrow> None | Some s \<Rightarrow> if utf8_valid s then parse_unsigned u64_max s else None))"

definition report_outcome :: "console \<Rightarrow> out_mode \<Rightarrow> string \<Rightarrow> outcome_of \<Rightarrow> streams \<Rightarrow> streams" where
  "report_outcome K m op oc =
     (case oc_result oc of
        Inr _ \<Rightarrow> op_success K m op (oc_source oc) (Some (oc_destination oc))
      | Inl e \<Rightarrow> op_error K m op (oc_source oc) (Some (oc_destination oc)) (fast_error_text e))"

definition try_fast_path ::
  "'s fast_lib \<Rightarrow> 's cmd_env \<Rightarrow> console \<Rightarrow> out_mode \<Rightarrow> global_opts \<Rightarrow> (url \<times> url) list \<Rightarrow> bool \<Rightarrow> string \<Rightarrow> streams \<Rightarrow> 's world
     \<Rightarrow> (error, (error, unit) result option) result \<times> streams \<times> 's world" where
  "try_fast_path F X K m g pairs is_move op st w =
     (if pairs = [] then (Ok None, st, w)
      else if list_ex (\<lambda>(s, d). \<not> is_remote s \<and> \<not> is_remote d) pairs then (Ok None, st, w)
      else
        (case and_then (fast_endpoint (fl_http F) g) (\<lambda>ep. and_then (resolve_credentials F g) (\<lambda>c. Ok (ep, c))) of
           Inl e \<Rightarrow> (Err e, st, w)
         | Inr (ep, ak, sk, tok, region) \<Rightarrow>
             let cores = fast_cores (ce_os X) (fl_parallelism F);
                 cfg = \<lparr>fg_endpoint = ep, fg_access_key = ak, fg_secret_key = sk, fg_session_token = tok, fg_region = region,
                        fg_cores = cores, fg_per_core_concurrency = max (go_numworkers g div cores) 1,
                        fg_max_retries = go_retry_count g, fg_dry_run = go_dry_run g, fg_is_move = is_move\<rparr>
             in case run_transfers X ((fl_http F)\<lparr>hl_sign := fl_signer F ak sk tok region\<rparr>) (fl_net F) (fl_pick F)
                       (map transfer_of pairs) cfg w of
                  (outcomes, w1) \<Rightarrow>
                    (Ok (Some (if list_ex (\<lambda>oc. \<not> is_ok (oc_result oc)) outcomes
                               then Err (Message ''one or more fast-path transfers failed'') else Ok ())),
                     fold (report_outcome K m op) outcomes st, w1)))"

text \<open>A copy or move by a build with the feature.\<close>

definition cp_run_fast ::
  "'s fast_lib \<Rightarrow> console \<Rightarrow> out_mode \<Rightarrow> 's cmd_env \<Rightarrow> 's tree_ops \<Rightarrow> (nat \<Rightarrow> nat) \<Rightarrow> global_opts \<Rightarrow> options \<Rightarrow> cp_args \<Rightarrow> bool
     \<Rightarrow> streams \<Rightarrow> 's world \<Rightarrow> ((error, unit) result \<times> streams \<times> 's world) option" where
  "cp_run_fast F K m X T pick g global args is_move st w =
     (let opts = cp_options global args;
          uo = default_url_options\<lparr>uo_version_id := ca_version_id args, uo_all_versions := ca_all_versions args\<rparr>
      in case cp_prepare X args is_move w of
           Inl e \<Rightarrow> Some (Err e, st, w)
         | Inr (dst, fl) \<Rightarrow>
             (case expand_all X uo dst opts (ca_follow_symlinks args) fl (butlast (ca_paths args)) w of
                None \<Rightarrow> None
              | Some (Inl e, w1) \<Rightarrow> Some (Err e, st, w1)
              | Some (Inr pairs, w1) \<Rightarrow>
                  (case (if ca_fast args
                         then try_fast_path F X K m g pairs is_move (if is_move then ''mv'' else ''cp'') st w1
                         else (Ok None, st, w1)) of
                     (Inl e, st1, w2) \<Rightarrow> Some (Err e, st1, w2)
                   | (Inr (Some r), st1, w2) \<Rightarrow> Some (r, st1, w2)
                   | (Inr None, st1, w2) \<Rightarrow>
                       (case cp_clients X pairs dst opts of
                          Inl e \<Rightarrow> Some (Err e, st1, w2)
                        | Inr (s3, s3_dst) \<Rightarrow>
                            (case cp_execute X T pick (max (go_numworkers g) 1) s3 s3_dst opts (cp_metadata args) is_move
                                    (ca_links args) pairs w2 of
                               (r, w3) \<Rightarrow> Some (r, st1, w3))))))"

end
