(* ===== verification/Fast_Props.thy ===== *)
theory Fast_Props
  imports Fast
begin

text \<open>
  Properties of the fast path: retries end and are bounded, every transfer is performed and reported
  once whatever the number of threads, a move deletes nothing before the bytes have arrived, and the
  keys for which a request names another object.
\<close>

section \<open>Retries\<close>

text \<open>The state after \<open>n\<close> attempts.\<close>

fun after_attempts :: "('w \<Rightarrow> (fast_error, 'a) result \<times> 'w) \<Rightarrow> nat \<Rightarrow> 'w \<Rightarrow> 'w" where
  "after_attempts act 0 w = w"
| "after_attempts act (Suc n) w = after_attempts act n (snd (act w))"

lemma with_retry_run:
  assumes "with_retry mx a act w = (r, ps, w')" "a \<le> mx"
  shows "a + length ps \<le> mx \<and> ps = map backoff_ms [a..<a + length ps] \<and> (r, w') = act (after_attempts act (length ps) w)
    \<and> (\<forall>i < length ps. \<exists>e. fst (act (after_attempts act i w)) = Inl e \<and> is_retryable e)
    \<and> (\<forall>e. r = Inl e \<and> is_retryable e \<longrightarrow> a + length ps = mx)"
  using assms
proof (induction mx a act w arbitrary: r ps w' rule: with_retry.induct)
  case (1 mx a act w)
  obtain x w1 where x: "act w = (x, w1)" by fastforce
  show ?case
  proof (cases "\<exists>e. x = Inl e \<and> a < mx \<and> is_retryable e")
    case True
    then obtain e where e: "x = Inl e" "a < mx" "is_retryable e" by blast
    from "1.prems" x e obtain ps1 where rec: "with_retry mx (a + 1) act w1 = (r, ps1, w')" and ps: "ps = backoff_ms a # ps1"
      by (auto simp: with_retry.simps [of mx a] split: prod.splits)
    have m: "map backoff_ms [a..<a + length ps] = backoff_ms a # map backoff_ms [Suc a..<Suc a + length ps1]"
      by (simp add: ps upt_conv_Cons del: upt_Suc)
    from "1.IH" [OF x [symmetric] e(1) _ rec] e have ih: "Suc a + length ps1 \<le> mx \<and> ps1 = map backoff_ms [Suc a..<Suc a + length ps1]
      \<and> (r, w') = act (after_attempts act (length ps1) w1)
      \<and> (\<forall>i < length ps1. \<exists>e. fst (act (after_attempts act i w1)) = Inl e \<and> is_retryable e)
      \<and> (\<forall>e. r = Inl e \<and> is_retryable e \<longrightarrow> Suc a + length ps1 = mx)" by simp
    have "\<forall>i < length ps. \<exists>e. fst (act (after_attempts act i w)) = Inl e \<and> is_retryable e"
    proof (intro allI impI)
      fix i assume "i < length ps"
      then show "\<exists>e. fst (act (after_attempts act i w)) = Inl e \<and> is_retryable e"
        using ih x e by (cases i) (simp_all add: ps)
    qed
    with ih m x show ?thesis by (simp add: ps)
  next
    case False
    with "1.prems" x show ?thesis by (cases x) (auto simp: with_retry.simps [of mx a] split: if_splits)
  qed
qed

lemma backoff_le: "backoff_ms n \<le> 5000"
  by (simp add: backoff_ms_def)

lemma sum_backoffs: "sum_list (map backoff_ms xs) \<le> 5000 * length xs"
proof (induction xs)
  case (Cons x xs)
  then show ?case using backoff_le [of x] by simp
qed simp

text \<open>
  C29. Retrying ends: an operation is attempted at most one more time than the retries allowed, with
  a pause of at most five seconds after each failure; the result is that of the last attempt, all
  attempts before it failed with an error worth retrying, and such an error is passed on only when
  the retries are used up.
\<close>

theorem with_retry_bounded:
  "case with_retry mx 0 act w of (r, pauses, w') \<Rightarrow>
     length pauses \<le> mx \<and> pauses = map backoff_ms [0..<length pauses] \<and> sum_list pauses \<le> 5000 * mx
     \<and> (r, w') = act (after_attempts act (length pauses) w)
     \<and> (\<forall>i < length pauses. \<exists>e. fst (act (after_attempts act i w)) = Inl e \<and> is_retryable e)
     \<and> (\<forall>e. r = Inl e \<and> is_retryable e \<longrightarrow> length pauses = mx)"
proof -
  obtain r pauses w' where r: "with_retry mx 0 act w = (r, pauses, w')" by (metis prod_cases3)
  note run = with_retry_run [OF r le0, unfolded add_0]
  have "sum_list pauses \<le> 5000 * length pauses"
    using sum_backoffs [of "[0..<length pauses]"] run [THEN conjunct2, THEN conjunct1, symmetric] by simp
  also have "\<dots> \<le> 5000 * mx" using run by simp
  finally show ?thesis using run by (simp only: r prod.case) blast
qed

definition demo_flaky :: "nat \<Rightarrow> (fast_error, nat) result \<times> nat" where
  "demo_flaky n = (if n < 2 then Err (HttpStatusError 503 []) else Ok n, n + 1)"

theorem with_retry_bounded_witness:
  "with_retry 5 0 demo_flaky 0 = (Ok 2, [50, 100], 3) \<and> sum_list [50, 100] \<le> 5000 * (5 :: nat)
    \<and> (Ok 2, 3) = demo_flaky (after_attempts demo_flaky 2 0)
    \<and> (\<exists>e. fst (demo_flaky (after_attempts demo_flaky 1 0)) = Inl e \<and> is_retryable e)"
proof -
  have r: "with_retry 5 0 demo_flaky 0 = (Ok 2, [50, 100], 3)"
    by (simp add: with_retry.simps demo_flaky_def backoff_ms_def)
  from with_retry_bounded [of 5 demo_flaky 0, unfolded r prod.case]
  have "sum_list [50, 100] \<le> 5000 * (5 :: nat)" "(Ok 2, 3) = demo_flaky (after_attempts demo_flaky 2 0)"
    "\<exists>e. fst (demo_flaky (after_attempts demo_flaky 1 0)) = Inl e \<and> is_retryable e" by (auto simp: numeral_2_eq_2)
  with r show ?thesis by blast
qed

section \<open>Threads\<close>

text \<open>The reference: the transfers one after the other.\<close>

fun one_by_one :: "('i \<Rightarrow> 'w \<Rightarrow> 'o \<times> 'w) \<Rightarrow> 'i list \<Rightarrow> 'w \<Rightarrow> 'o list \<times> 'w" where
  "one_by_one exec [] w = ([], w)"
| "one_by_one exec (x # xs) w =
     (case exec x w of (o1, w1) \<Rightarrow> case one_by_one exec xs w1 of (os, w2) \<Rightarrow> (o1 # os, w2))"

lemma one_by_one_map:
  "(\<And>x w. f (fst (exec x w)) = g x) \<Longrightarrow> map f (fst (one_by_one exec xs w)) = map g xs"
  by (induction xs arbitrary: w) (auto split: prod.splits, metis fst_conv, metis fst_conv)

definition shard_items :: "'a shard list \<Rightarrow> 'a multiset" where
  "shard_items ss = sum_list (map (\<lambda>sh. mset (fst sh) + mset (snd sh)) ss)"

definition shard_busy :: "'a shard \<Rightarrow> bool" where
  "shard_busy sh \<longleftrightarrow> (fst sh = [] \<longrightarrow> snd sh = [])"

lemma finish_in_items:
  assumes "finish_in n sh = (item, sh1)" "fst sh \<noteq> []"
  shows "mset (fst sh) + mset (snd sh) = add_mset item (mset (fst sh1) + mset (snd sh1)) \<and> shard_busy sh1"
  using assms mset_take_nth [OF assms(2)]
  by (auto simp: finish_in_def shard_busy_def split: prod.splits list.splits)

lemma shard_items_update:
  "i < length ss \<Longrightarrow> mset (fst (ss ! i)) + mset (snd (ss ! i)) = add_mset item (mset (fst sh) + mset (snd sh))
    \<Longrightarrow> shard_items ss = add_mset item (shard_items (ss[i := sh]))"
  by (induction ss arbitrary: i) (auto simp: shard_items_def split: nat.split)

lemma live_shards_Nil: "list_all shard_busy ss \<Longrightarrow> live_shards ss = [] \<Longrightarrow> shard_items ss = {#}"
proof -
  assume b: "list_all shard_busy ss" and l: "live_shards ss = []"
  have "mset (fst sh) + mset (snd sh) = {#}" if "sh \<in> set ss" for sh
    using that b l by (force simp: live_shards_def filter_empty_conv in_set_conv_nth list_all_iff shard_busy_def)
  then show ?thesis by (induction ss) (simp_all add: shard_items_def)
qed

lemma run_shards_order:
  assumes "list_all shard_busy ss"
  shows "\<exists>js. mset js = shard_items ss \<and> run_shards exec pick k ss w = one_by_one exec js w"
  using assms
proof (induction exec pick k ss w rule: run_shards.induct)
  case (1 exec pick k ss w)
  show ?case
  proof (cases "live_shards ss = []")
    case True
    with live_shards_Nil "1.prems" show ?thesis by (intro exI [of _ "[]"]) (simp add: run_shards.simps [of _ _ _ ss])
  next
    case False
    let ?i = "next_shard (fst (pick k)) ss"
    obtain item sh where f: "finish_in (snd (pick k)) (ss ! ?i) = (item, sh)" by (metis surj_pair)
    obtain o1 w1 where e: "exec item w = (o1, w1)" by (metis surj_pair)
    note live = next_shard_live [OF False, of "fst (pick k)"]
    note fin = finish_in_items [OF f conjunct2 [OF live]]
    have "list_all shard_busy (ss[?i := sh])" using "1.prems" fin live by (auto simp: list_all_iff dest: subsetD [OF set_update_subset_insert])
    with "1.IH" [OF False refl f [symmetric] e [symmetric]] obtain js where
      js: "mset js = shard_items (ss[?i := sh])" "run_shards exec pick (Suc k) (ss[?i := sh]) w1 = one_by_one exec js w1" by blast
    have "mset (item # js) = shard_items ss" using shard_items_update [OF conjunct1 [OF live] conjunct1 [OF fin]] js by simp
    moreover have "run_shards exec pick k ss w = one_by_one exec (item # js) w"
      using False f e js(2) by (simp add: run_shards.simps [of _ _ _ ss] Let_def)
    ultimately show ?thesis by blast
  qed
qed

lemma sum_filters: "(\<forall>x \<in># M. f x < (n :: nat)) \<Longrightarrow> (\<Sum>c<n. filter_mset (\<lambda>x. f x = c) M) = M"
proof (induction M)
  case (add x M)
  have "(\<Sum>c<n. filter_mset (\<lambda>y. f y = c) (add_mset x M)) = (\<Sum>c<n. (if f x = c then {#x#} else {#}) + filter_mset (\<lambda>y. f y = c) M)"
    by (rule sum.cong) auto
  also have "\<dots> = {#x#} + M" using add sum.delta' [of "{..<n}" "f x" "\<lambda>_. {#x#}"] by (simp add: sum.distrib)
  finally show ?case by simp
qed simp

lemma image_mset_sum_lessThan: "image_mset h (\<Sum>c<n. g c) = (\<Sum>c<(n :: nat). image_mset h (g c))"
  by (induction n) simp_all

lemma deal_items:
  assumes "0 < cores"
  shows "sum_list (map mset (deal cores items)) = mset items"
proof -
  let ?M = "mset (enumerate 0 items)"
  have "sum_list (map mset (deal cores items)) = (\<Sum>c<cores. image_mset snd (filter_mset (\<lambda>x. fst x mod cores = c) ?M))"
    by (simp add: deal_def comp_def interv_sum_list_conv_sum_set_nat case_prod_unfold atLeast0LessThan flip: mset_filter)
  also have "\<dots> = image_mset snd (\<Sum>c<cores. filter_mset (\<lambda>x. fst x mod cores = c) ?M)"
    by (simp add: image_mset_sum_lessThan)
  also have "\<dots> = image_mset snd ?M" using assms by (simp add: sum_filters)
  finally show ?thesis by (metis map_snd_enumerate mset_map)
qed

lemma start_shards_busy: "list_all shard_busy (map (start_shard (max c 1)) shards)"
  by (auto simp: list_all_iff shard_busy_def start_shard_def)

lemma start_shards_items: "shard_items (map (start_shard c) shards) = sum_list (map mset shards)"
  by (induction shards) (simp_all add: shard_items_def start_shard_def flip: mset_append)

lemma run_transfers_order:
  assumes "fast_client_new H (fg_endpoint cfg) = Inr ep" "\<not> fg_dry_run cfg"
  shows "\<exists>js. mset js = mset items \<and>
    run_transfers X H N pick items cfg w = one_by_one (do_one X H N ep (fg_max_retries cfg) (fg_is_move cfg)) js w"
proof (cases "items = []")
  case True
  then show ?thesis by (intro exI [of _ "[]"]) (simp add: run_transfers_def)
next
  case False
  let ?cores = "min (max (fg_cores cfg) 1) (length items)"
  let ?ss = "map (start_shard (max (fg_per_core_concurrency cfg) 1)) (deal ?cores items)"
  have "0 < ?cores" using False by simp
  then have "shard_items ?ss = mset items" by (simp only: start_shards_items deal_items)
  moreover have "run_transfers X H N pick items cfg w = run_shards (do_one X H N ep (fg_max_retries cfg) (fg_is_move cfg)) pick 0 ?ss w"
    unfolding run_transfers_def Let_def assms(1) sum.case using False assms(2) by (simp only: if_False)
  ultimately show ?thesis using run_shards_order [OF start_shards_busy] by metis
qed

lemma fast_client_new_sign: "fast_client_new (H\<lparr>hl_sign := s\<rparr>) ep = fast_client_new H ep"
  by (cases H) (simp only: fast_client_new_def http_lib.select_convs http_lib.update_convs)

lemma do_one_label: "oc_label (fst (do_one X H N ep mx mv item w)) = label_for item"
  by (simp add: do_one_def split: prod.splits)

lemma fast_path_order:
  assumes "\<forall>(s, d) \<in> set pairs. is_remote s \<or> is_remote d" "pairs \<noteq> []" "\<not> go_dry_run g"
    and "fast_endpoint (fl_http F) g = Inr ep" "resolve_credentials F g = Inr (ak, sk, tok, region)"
    and "fast_client_new (fl_http F) ep = Inr ep1"
  shows "\<exists>js outcomes w1. mset js = mset (map transfer_of pairs) \<and>
    one_by_one (do_one X ((fl_http F)\<lparr>hl_sign := fl_signer F ak sk tok region\<rparr>) (fl_net F) ep1 (go_retry_count g) is_move) js w = (outcomes, w1) \<and>
    map oc_label outcomes = map label_for js \<and>
    try_fast_path F X K m g pairs is_move op st w =
      (Ok (Some (if \<forall>oc \<in> set outcomes. oc_result oc = Ok () then Ok () else Err (Message ''one or more fast-path transfers failed''))),
       fold (report_outcome K m op) outcomes st, w1)"
proof -
  let ?H = "(fl_http F)\<lparr>hl_sign := fl_signer F ak sk tok region\<rparr>"
  let ?cores = "fast_cores (ce_os X) (fl_parallelism F)"
  let ?cfg = "\<lparr>fg_endpoint = ep, fg_access_key = ak, fg_secret_key = sk, fg_session_token = tok, fg_region = region, fg_cores = ?cores,
    fg_per_core_concurrency = max (go_numworkers g div ?cores) 1, fg_max_retries = go_retry_count g, fg_dry_run = go_dry_run g, fg_is_move = is_move\<rparr>"
  have "fast_client_new ?H (fg_endpoint ?cfg) = Inr ep1" using assms(6) by (simp add: fast_client_new_sign)
  from run_transfers_order [OF this, of "map transfer_of pairs" X "fl_net F" "fl_pick F" w] assms(3) obtain js where
    js: "mset js = mset (map transfer_of pairs)" and
    run: "run_transfers X ?H (fl_net F) (fl_pick F) (map transfer_of pairs) ?cfg w
      = one_by_one (do_one X ?H (fl_net F) ep1 (go_retry_count g) is_move) js w" by auto
  obtain outcomes w1 where o: "one_by_one (do_one X ?H (fl_net F) ep1 (go_retry_count g) is_move) js w = (outcomes, w1)" by (metis surj_pair)
  have l: "map oc_label outcomes = map label_for js"
    using one_by_one_map [of oc_label "do_one X ?H (fl_net F) ep1 (go_retry_count g) is_move" label_for js w] by (simp add: do_one_label o)
  have remote: "\<not> list_ex (\<lambda>(s, d). \<not> is_remote s \<and> \<not> is_remote d) pairs" using assms(1) by (auto simp: list_ex_iff)
  have ok: "list_ex (\<lambda>oc. \<not> is_ok (oc_result oc)) outcomes \<longleftrightarrow> \<not> (\<forall>oc \<in> set outcomes. oc_result oc = Ok ())"
    by (auto simp: list_ex_iff is_ok_def split: sum.splits)
  have "try_fast_path F X K m g pairs is_move op st w =
      (Ok (Some (if \<forall>oc \<in> set outcomes. oc_result oc = Ok () then Ok () else Err (Message ''one or more fast-path transfers failed''))),
       fold (report_outcome K m op) outcomes st, w1)"
    using assms(2) remote ok
    by (simp only: try_fast_path_def assms(4,5) and_then_simps sum.case prod.case Let_def run o if_False) simp
  with js o l show ?thesis by blast
qed

text \<open>
  The fast path performs every transfer it is given, once: for pairs of which each has a remote
  side, with an endpoint, credentials and a client, and without \<^verbatim>\<open>--dry-run\<close>, whatever the number of
  threads and the concurrency and however they interleave, it comes to the transfers
  of the pairs one after the other in some order; every transfer is reported with its own result,
  and the command succeeds if and only if all of them did.
\<close>

theorem fast_path_performs_all:
  assumes "\<forall>(s, d) \<in> set pairs. is_remote s \<or> is_remote d" "pairs \<noteq> []" "\<not> go_dry_run g"
    and "fast_endpoint (fl_http F) g = Inr ep" "resolve_credentials F g = Inr (ak, sk, tok, region)"
    and "fast_client_new (fl_http F) ep = Inr ep1"
  shows "\<exists>js outcomes w1. mset js = mset (map transfer_of pairs) \<and>
    one_by_one (do_one X ((fl_http F)\<lparr>hl_sign := fl_signer F ak sk tok region\<rparr>) (fl_net F) ep1 (go_retry_count g) is_move) js w = (outcomes, w1) \<and>
    map oc_label outcomes = map label_for js \<and>
    try_fast_path F X K m g pairs is_move op st w =
      (Ok (Some (if \<forall>oc \<in> set outcomes. oc_result oc = Ok () then Ok () else Err (Message ''one or more fast-path transfers failed''))),
       fold (report_outcome K m op) outcomes st, w1)"
  by (rule fast_path_order [OF assms])

section \<open>What a move deletes\<close>

text \<open>The same server with a log of the requests it got and its answers.\<close>

type_synonym answer = "(string, nat \<times> (string, string) result) result"

definition logged :: "'s transport \<Rightarrow> ('s \<times> (fast_request \<times> answer) list) transport" where
  "logged N =
     \<lparr>ht_connect = (\<lambda>(s, l). case ht_connect N s of (r, s1) \<Rightarrow> (r, (s1, l))),
      ht_request = (\<lambda>q (s, l). case ht_request N q s of (a, s1) \<Rightarrow> (a, (s1, l @ [(q, a)])))\<rparr>"

abbreviation log_of :: "('s \<times> (fast_request \<times> answer) list) world \<Rightarrow> (fast_request \<times> answer) list" where
  "log_of w \<equiv> snd (w_s3 w)"

lemma build_request_parts:
  "build_request_with_headers H ep verb b k body extra = Inr q \<Longrightarrow> fr_method q = verb \<and> fr_body q = body"
  by (auto simp: build_request_with_headers_def Let_def split: sum.splits option.splits)

text \<open>A call sends one request or none; only an answer with a body is passed on.\<close>

lemma fast_call_logged:
  assumes "fast_call (logged N) ep (build_request_with_headers H ep verb b k body extra) check w = (r, w')"
  shows "w_files w' = w_files w \<and> (\<exists>new. log_of w' = log_of w @ new \<and> (\<forall>(q, a) \<in> set new. build_request_with_headers H ep verb b k body extra = Inr q)
    \<and> (\<forall>v. r = Inr v \<longrightarrow> (\<exists>q st ans. (q, Inr (st, Inr ans)) \<in> set new \<and> check st ans = Inr v)))"
proof (cases "build_request_with_headers H ep verb b k body extra")
  case (Inl e)
  with assms show ?thesis by (auto simp: fast_call_def)
next
  case (Inr q)
  obtain s l where s: "w_s3 w = (s, l)" by fastforce
  obtain c s1 where c: "ht_connect N s = (c, s1)" by fastforce
  obtain a s2 where a: "ht_request N q s1 = (a, s2)" by fastforce
  show ?thesis
  proof (cases c)
    case (Inl e)
    with assms Inr s c show ?thesis by (auto simp: fast_call_def send_fast_def logged_def)
  next
    case (Inr u)
    then have "log_of w' = log_of w @ [(q, a)]" "w_files w' = w_files w"
      "r = Inr v \<Longrightarrow> \<exists>st ans. a = Inr (st, Inr ans) \<and> check st ans = Inr v" for v
      using assms \<open>build_request_with_headers H ep verb b k body extra = Inr q\<close> s c a
      by (auto simp: fast_call_def send_fast_def logged_def split: sum.splits prod.splits)
    with \<open>build_request_with_headers H ep verb b k body extra = Inr q\<close> show ?thesis by (intro conjI exI [of _ "[(q, a)]"]) auto
  qed
qed

lemma after_attempts_inv:
  assumes "P w" "\<And>w r w'. P w \<Longrightarrow> act w = (r, w') \<Longrightarrow> P w'"
  shows "P (after_attempts act n w)"
  using assms(1)
proof (induction n arbitrary: w)
  case (Suc n)
  with assms(2) [of w "fst (act w)" "snd (act w)"] show ?case by simp
qed simp

lemma retried_inv:
  assumes "retried mx act w = (r, w')" "P w" "\<And>w r w'. P w \<Longrightarrow> act w = (r, w') \<Longrightarrow> P w'"
  shows "\<exists>w0. P w0 \<and> act w0 = (r, w')"
proof -
  from assms(1) obtain ps where "with_retry mx 0 act w = (r, ps, w')" by (auto simp: retried_def split: prod.splits)
  from with_retry_run [OF this le0] after_attempts_inv [of P w act "length ps"] assms(2,3) show ?thesis by metis
qed

lemma retried_logged:
  assumes "retried mx (fast_call (logged N) ep (build_request_with_headers H ep verb b k body extra) check) w = (r, w')"
  shows "w_files w' = w_files w \<and> (\<exists>new. log_of w' = log_of w @ new \<and> (\<forall>(q, a) \<in> set new. build_request_with_headers H ep verb b k body extra = Inr q)
    \<and> (\<forall>v. r = Inr v \<longrightarrow> (\<exists>q st ans. (q, Inr (st, Inr ans)) \<in> set new \<and> check st ans = Inr v)))"
proof -
  let ?P = "\<lambda>w0. w_files w0 = w_files w \<and> (\<exists>new. log_of w0 = log_of w @ new \<and> (\<forall>(q, a) \<in> set new. build_request_with_headers H ep verb b k body extra = Inr q))"
  have "\<exists>w0. ?P w0 \<and> fast_call (logged N) ep (build_request_with_headers H ep verb b k body extra) check w0 = (r, w')"
  proof (rule retried_inv [OF assms])
    show "?P w" by auto
    show "?P w2" if "?P w1" "fast_call (logged N) ep (build_request_with_headers H ep verb b k body extra) check w1 = (r1, w2)" for w1 r1 w2
      using fast_call_logged [OF that(2)] that(1) by (fastforce simp: ball_Un)
  qed
  then obtain w0 new0 where w0: "w_files w0 = w_files w" "log_of w0 = log_of w @ new0" "\<forall>(q, a) \<in> set new0. build_request_with_headers H ep verb b k body extra = Inr q"
    "fast_call (logged N) ep (build_request_with_headers H ep verb b k body extra) check w0 = (r, w')" by blast
  from fast_call_logged [OF w0(4)] obtain new where "w_files w' = w_files w0" "log_of w' = log_of w0 @ new"
    "\<forall>(q, a) \<in> set new. build_request_with_headers H ep verb b k body extra = Inr q"
    "\<forall>v. r = Inr v \<longrightarrow> (\<exists>q st ans. (q, Inr (st, Inr ans)) \<in> set new \<and> check st ans = Inr v)" by blast
  with w0 show ?thesis by (intro conjI exI [of _ "new0 @ new"]) (auto, blast)
qed

lemmas fast_requests = fast_put_def fast_get_def fast_delete_def fast_copy_def build_request_def Let_def

lemma write_file_effect:
  "write_file X l data w = (r, w') \<Longrightarrow> w_s3 w' = w_s3 w \<and> (\<forall>u. r = Inr u \<longrightarrow> w_files w' l = Some data)"
  by (auto simp: write_file_def Let_def io_bind_def io_return_def os_call_def os_open_truncate_def os_update_def
      split: option.splits if_splits prod.splits sum.splits)

lemma remove_file_effect: "remove_file E l w = (r, w') \<Longrightarrow> w_s3 w' = w_s3 w"
  by (auto simp: remove_file_def os_call_def split: option.splits)

lemma os_read_effect: "os_read E l w = (r, w') \<Longrightarrow> w' = w \<and> (\<forall>d. r = Inr d \<longrightarrow> w_files w l = Some d)"
  by (auto simp: os_read_def os_call_def split: option.splits)

lemma as_other_cases: "as_other act w = (r, w') \<Longrightarrow> \<exists>r0. act w = (r0, w') \<and> (\<forall>x. r = Inr x \<longleftrightarrow> r0 = Inr x)"
  by (auto simp: as_other_def split: prod.splits sum.splits)

lemma fast_bind_cases:
  "fast_bind act f w = (r, w') \<Longrightarrow> (\<exists>e. act w = (Inl e, w') \<and> r = Inl e) \<or> (\<exists>x w1. act w = (Inr x, w1) \<and> f x w1 = (r, w'))"
  by (auto simp: fast_bind_def split: prod.splits sum.splits)

text \<open>
  The bytes have arrived: the object fetched is in the local file, or the server has accepted the
  local file's bytes, or it has accepted the copy and reported no late failure.
\<close>

fun arrived :: "http_lib \<Rightarrow> endpoint \<Rightarrow> transfer \<Rightarrow> (string \<Rightarrow> string option) \<Rightarrow> ('s \<times> (fast_request \<times> answer) list) world \<Rightarrow> bool" where
  "arrived H ep (Upload l b k) files w' \<longleftrightarrow>
     (\<exists>data q st ans. files l = Some data \<and> build_request H ep ''PUT'' b k data = Inr q \<and> (q, Inr (st, Inr ans)) \<in> set (log_of w') \<and> is_success st)"
| "arrived H ep (Download b k l) files w' \<longleftrightarrow>
     (\<exists>q st body. build_request H ep ''GET'' b k [] = Inr q \<and> (q, Inr (st, Inr body)) \<in> set (log_of w') \<and> is_success st \<and> w_files w' l = Some body)"
| "arrived H ep (Copy sb sk db dk) files w' \<longleftrightarrow>
     (\<exists>q st body. build_request_with_headers H ep ''PUT'' db dk [] [(''x-amz-copy-source'', ''/'' @ sb @ ''/'' @ encode_key_path sk)] = Inr q
        \<and> (q, Inr (st, Inr body)) \<in> set (log_of w') \<and> is_success st \<and> \<not> memmem body ''<Error'')"

definition asked_to_delete :: "(fast_request \<times> answer) list \<Rightarrow> bool" where
  "asked_to_delete l = list_ex (\<lambda>(q, a). fr_method q = ''DELETE'') l"

fun source_deleted :: "transfer \<Rightarrow> ('s \<times> (fast_request \<times> answer) list) world \<Rightarrow> ('s \<times> (fast_request \<times> answer) list) world \<Rightarrow> bool" where
  "source_deleted (Upload l b k) w w' \<longleftrightarrow> w_files w' l \<noteq> w_files w l \<or> asked_to_delete (log_of w')"
| "source_deleted item w w' \<longleftrightarrow> asked_to_delete (log_of w')"

lemma not_asked: "(\<forall>(q, a) \<in> set l. build_request_with_headers H ep verb b k body extra = Inr q) \<Longrightarrow> verb \<noteq> ''DELETE'' \<Longrightarrow> \<not> asked_to_delete l"
  using build_request_parts by (fastforce simp: asked_to_delete_def list_ex_iff)

lemma asked_append: "asked_to_delete (l @ l') \<longleftrightarrow> asked_to_delete l \<or> asked_to_delete l'"
  by (simp add: asked_to_delete_def)

lemma retried_sent:
  assumes "retried mx (fast_call (logged N) ep (build_request_with_headers H ep verb b k body extra) check) w = (r, w')"
  shows "w_files w' = w_files w" "set (log_of w) \<subseteq> set (log_of w')"
    "verb \<noteq> ''DELETE'' \<Longrightarrow> asked_to_delete (log_of w') = asked_to_delete (log_of w)"
    "r = Inr v \<Longrightarrow> \<exists>q st ans. build_request_with_headers H ep verb b k body extra = Inr q \<and> (q, Inr (st, Inr ans)) \<in> set (log_of w') \<and> check st ans = Inr v"
proof -
  from retried_logged [OF assms] obtain new where new: "w_files w' = w_files w" "log_of w' = log_of w @ new"
    "\<forall>(q, a) \<in> set new. build_request_with_headers H ep verb b k body extra = Inr q"
    "\<And>v. r = Inr v \<Longrightarrow> \<exists>q st ans. (q, Inr (st, Inr ans)) \<in> set new \<and> check st ans = Inr v" by blast
  then show "w_files w' = w_files w" "set (log_of w) \<subseteq> set (log_of w')" by auto
  show "verb \<noteq> ''DELETE'' \<Longrightarrow> asked_to_delete (log_of w') = asked_to_delete (log_of w)"
    using not_asked [OF new(3)] by (simp add: new(2) asked_append)
  show "r = Inr v \<Longrightarrow> \<exists>q st ans. build_request_with_headers H ep verb b k body extra = Inr q \<and> (q, Inr (st, Inr ans)) \<in> set (log_of w') \<and> check st ans = Inr v"
    using new(2,3) new(4) [of v] by fastforce
qed

definition move_ok ::
  "http_lib \<Rightarrow> endpoint \<Rightarrow> bool \<Rightarrow> transfer \<Rightarrow> (fast_error, unit) result \<Rightarrow> ('s \<times> (fast_request \<times> answer) list) world
     \<Rightarrow> ('s \<times> (fast_request \<times> answer) list) world \<Rightarrow> bool" where
  "move_ok H ep is_move item r w w' \<longleftrightarrow>
     (r = Ok () \<longrightarrow> arrived H ep item (w_files w) w') \<and> (source_deleted item w w' \<longrightarrow> is_move \<and> arrived H ep item (w_files w) w')"

lemma move_ok_download:
  assumes "transfer_one X H (logged N) ep mx is_move (Download b k l) w = (r, w')" "log_of w = []"
  shows "move_ok H ep is_move (Download b k l) r w w'"
proof -
  from assms(1) have t: "fast_bind (retried mx (fast_get H (logged N) ep b k)) (\<lambda>bytes.
      fast_bind (as_other (write_file X l bytes)) (\<lambda>_. if is_move then retried mx (fast_delete H (logged N) ep b k) else Pair (Ok ()))) w = (r, w')"
    by (simp add: transfer_one_def)
  from fast_bind_cases [OF t] consider e where "retried mx (fast_get H (logged N) ep b k) w = (Inl e, w')" "r = Inl e"
    | bytes w1 where "retried mx (fast_get H (logged N) ep b k) w = (Inr bytes, w1)"
      "fast_bind (as_other (write_file X l bytes)) (\<lambda>_. if is_move then retried mx (fast_delete H (logged N) ep b k) else Pair (Ok ())) w1 = (r, w')"
    by blast
  then show ?thesis
  proof cases
    case 1
    from retried_sent(3) [OF 1(1) [unfolded fast_requests]] assms(2) 1(2) show ?thesis by (simp add: move_ok_def asked_to_delete_def)
  next
    case (2 bytes w1)
    note get = retried_sent [OF 2(1) [unfolded fast_requests]]
    from get(3) assms(2) have no: "\<not> asked_to_delete (log_of w1)" by (simp add: asked_to_delete_def)
    from get(4) [OF refl] obtain q st where
      w1: "build_request H ep ''GET'' b k [] = Inr q" "(q, Inr (st, Inr bytes)) \<in> set (log_of w1)" "is_success st"
      by (auto simp: build_request_def split: if_splits)
    from fast_bind_cases [OF 2(2)] consider e where "as_other (write_file X l bytes) w1 = (Inl e, w')" "r = Inl e"
      | u w2 where "as_other (write_file X l bytes) w1 = (Inr u, w2)"
        "(if is_move then retried mx (fast_delete H (logged N) ep b k) else Pair (Ok ())) w2 = (r, w')" by blast
    then show ?thesis
    proof cases
      case 1
      with as_other_cases [OF 1(1)] no show ?thesis by (auto simp: move_ok_def dest: write_file_effect)
    next
      case (2 u w2)
      from as_other_cases [OF 2(1)] have w2: "w_s3 w2 = w_s3 w1" "w_files w2 l = Some bytes" by (auto dest: write_file_effect)
      show ?thesis
      proof (cases is_move)
        case True
        with 2(2) have "retried mx (fast_delete H (logged N) ep b k) w2 = (r, w')" by simp
        from retried_sent(1,2) [OF this [unfolded fast_requests]] w2 w1 True show ?thesis by (auto simp: move_ok_def)
      next
        case False
        with 2(2) no w1 w2 show ?thesis by (auto simp: move_ok_def)
      qed
    qed
  qed
qed

lemma move_ok_upload:
  assumes "transfer_one X H (logged N) ep mx is_move (Upload l b k) w = (r, w')" "log_of w = []"
  shows "move_ok H ep is_move (Upload l b k) r w w'"
proof -
  from assms(1) have t: "fast_bind (as_other (os_read (ce_os X) l)) (\<lambda>data.
      fast_bind (retried mx (fast_put H (logged N) ep b k data)) (\<lambda>_. if is_move then as_other (remove_file (ce_os X) l) else Pair (Ok ()))) w = (r, w')"
    by (simp add: transfer_one_def)
  from fast_bind_cases [OF t] consider e where "as_other (os_read (ce_os X) l) w = (Inl e, w')" "r = Inl e"
    | data w1 where "as_other (os_read (ce_os X) l) w = (Inr data, w1)"
      "fast_bind (retried mx (fast_put H (logged N) ep b k data)) (\<lambda>_. if is_move then as_other (remove_file (ce_os X) l) else Pair (Ok ())) w1 = (r, w')"
    by blast
  then show ?thesis
  proof cases
    case 1
    with as_other_cases [OF 1(1)] assms(2) show ?thesis by (auto simp: move_ok_def asked_to_delete_def dest: os_read_effect)
  next
    case (2 data w1)
    from as_other_cases [OF 2(1)] have rd: "w1 = w" "w_files w l = Some data" by (auto dest: os_read_effect)
    from fast_bind_cases [OF 2(2)] rd consider e where "retried mx (fast_put H (logged N) ep b k data) w = (Inl e, w')" "r = Inl e"
      | u w2 where "retried mx (fast_put H (logged N) ep b k data) w = (Inr u, w2)"
        "(if is_move then as_other (remove_file (ce_os X) l) else Pair (Ok ())) w2 = (r, w')" by blast
    then show ?thesis
    proof cases
      case 1
      from retried_sent(1,3) [OF 1(1) [unfolded fast_requests]] assms(2) 1(2) show ?thesis by (simp add: move_ok_def asked_to_delete_def)
    next
      case (2 u w2)
      note put = retried_sent [OF 2(1) [unfolded fast_requests]]
      from put(4) [OF refl] rd(2) have a: "arrived H ep (Upload l b k) (w_files w) w2"
        by (auto simp: build_request_def split: if_splits)
      from put(1,3) assms(2) have no: "\<not> source_deleted (Upload l b k) w w2" by (simp add: asked_to_delete_def)
      show ?thesis
      proof (cases is_move)
        case True
        with 2(2) obtain r0 where "remove_file (ce_os X) l w2 = (r0, w')" using as_other_cases by fastforce
        from remove_file_effect [OF this] a True show ?thesis by (simp add: move_ok_def)
      next
        case False
        with 2(2) a no show ?thesis by (auto simp: move_ok_def)
      qed
    qed
  qed
qed

lemma move_ok_copy:
  assumes "transfer_one X H (logged N) ep mx is_move (Copy sb sk db dk) w = (r, w')" "log_of w = []"
  shows "move_ok H ep is_move (Copy sb sk db dk) r w w'"
proof -
  from assms(1) have t: "fast_bind (retried mx (fast_copy H (logged N) ep sb sk db dk)) (\<lambda>_.
      if is_move then retried mx (fast_delete H (logged N) ep sb sk) else Pair (Ok ())) w = (r, w')"
    by (simp add: transfer_one_def)
  from fast_bind_cases [OF t] consider e where "retried mx (fast_copy H (logged N) ep sb sk db dk) w = (Inl e, w')" "r = Inl e"
    | u w1 where "retried mx (fast_copy H (logged N) ep sb sk db dk) w = (Inr u, w1)"
      "(if is_move then retried mx (fast_delete H (logged N) ep sb sk) else Pair (Ok ())) w1 = (r, w')" by blast
  then show ?thesis
  proof cases
    case 1
    from retried_sent(3) [OF 1(1) [unfolded fast_requests]] assms(2) 1(2) show ?thesis by (simp add: move_ok_def asked_to_delete_def)
  next
    case (2 u w1)
    note put = retried_sent [OF 2(1) [unfolded fast_requests]]
    from put(4) [OF refl] have a: "arrived H ep (Copy sb sk db dk) (w_files w) w1" by (auto split: if_splits)
    from put(3) assms(2) have no: "\<not> asked_to_delete (log_of w1)" by (simp add: asked_to_delete_def)
    show ?thesis
    proof (cases is_move)
      case True
      with 2(2) have "retried mx (fast_delete H (logged N) ep sb sk) w1 = (r, w')" by simp
      from retried_sent(2) [OF this [unfolded fast_requests]] a True show ?thesis by (fastforce simp: move_ok_def)
    next
      case False
      with 2(2) a no show ?thesis by (auto simp: move_ok_def)
    qed
  qed
qed

text \<open>
  C19. A move over the fast path loses no bytes, whatever the server answers and however often a
  request is retried: a transfer that succeeds has brought the bytes to the destination, and the
  source is deleted only by a move and only after that. For a download the local file then holds
  the body of an answer the server gave with a success status; for an upload the server
  has accepted a request with the bytes of the local file; for a copy it has accepted the copy and
  its answer carries no late error.
\<close>

theorem fast_move_keeps_bytes:
  assumes "transfer_one X H (logged N) ep mx is_move item w = (r, w')" "log_of w = []"
  shows "(r = Ok () \<longrightarrow> arrived H ep item (w_files w) w')
    \<and> (source_deleted item w w' \<longrightarrow> is_move \<and> arrived H ep item (w_files w) w')"
  using assms move_ok_download move_ok_upload move_ok_copy by (cases item) (simp_all only: move_ok_def [symmetric])

section \<open>Keys with a number sign\<close>

text \<open>Two results that differ in nothing but the text of an error.\<close>

definition same_but_text :: "(fast_error, 'a) result \<times> 'w \<Rightarrow> (fast_error, 'a) result \<times> 'w \<Rightarrow> bool" where
  "same_but_text p q \<longleftrightarrow> snd p = snd q \<and>
     (case (fst p, fst q) of
        (Inr x, Inr y) \<Rightarrow> x = y
      | (Inl e, Inl e') \<Rightarrow> is_retryable e = is_retryable e'
      | _ \<Rightarrow> False)"

lemma same_but_text_cases:
  assumes "same_but_text p q"
  obtains x w where "p = (Inr x, w)" "q = (Inr x, w)"
  | e e' w where "p = (Inl e, w)" "q = (Inl e', w)" "is_retryable e = is_retryable e'"
  using assms that by (cases p; cases q; cases "fst p"; cases "fst q") (auto simp: same_but_text_def)

lemma with_retry_same:
  assumes "\<And>w. same_but_text (act w) (act' w)"
  shows "\<exists>r r' ps w'. with_retry mx a act w = (r, ps, w') \<and> with_retry mx a act' w = (r', ps, w') \<and> same_but_text (r, w') (r', w')"
proof (induction "mx - a" arbitrary: a w)
  case 0
  show ?case
    by (rule same_but_text_cases [OF assms [of w]]) (use 0 in \<open>auto simp: with_retry.simps [of mx a] same_but_text_def\<close>)
next
  case (Suc n)
  show ?case
  proof (rule same_but_text_cases [OF assms [of w]])
    fix x w1 assume "act w = (Inr x, w1)" "act' w = (Inr x, w1)"
    then show ?thesis by (simp add: with_retry.simps [of mx a] same_but_text_def)
  next
    fix e e' w1 assume e: "act w = (Inl e, w1)" "act' w = (Inl e', w1)" "is_retryable e = is_retryable e'"
    from Suc.hyps have "n = mx - (a + 1)" "a < mx" by simp_all
    from Suc.hyps(1) [OF this(1), of w1] obtain r r' ps w' where "with_retry mx (a + 1) act w1 = (r, ps, w')"
      "with_retry mx (a + 1) act' w1 = (r', ps, w')" "same_but_text (r, w') (r', w')" by blast
    then show ?thesis using e \<open>a < mx\<close> by (cases "is_retryable e'") (simp_all add: with_retry.simps [of mx a] same_but_text_def)
  qed
qed

lemma retried_same:
  assumes "\<And>w. same_but_text (act w) (act' w)"
  shows "same_but_text (retried mx act w) (retried mx act' w)"
proof -
  from with_retry_same [of act act', OF assms] obtain r r' ps w' where
    "with_retry mx 0 act w = (r, ps, w')" "with_retry mx 0 act' w = (r', ps, w')" "same_but_text (r, w') (r', w')" by metis
  then show ?thesis by (simp add: retried_def)
qed

lemma fast_bind_same:
  assumes "same_but_text (act w) (act' w)" "\<And>x w. same_but_text (f x w) (f' x w)"
  shows "same_but_text (fast_bind act f w) (fast_bind act' f' w)"
  by (rule same_but_text_cases [OF assms(1)]) (use assms(2) in \<open>simp_all add: fast_bind_def same_but_text_def\<close>)

lemma same_but_text_refl [simp]: "same_but_text p p"
  by (simp add: same_but_text_def split: sum.split)

lemma fast_call_same:
  assumes "\<And>st body. same_but_text (check st body, ()) (check' st body, ())"
  shows "same_but_text (fast_call N ep built check w) (fast_call N ep built check' w)"
proof (cases built)
  case (Inr q)
  obtain a s1 where a: "send_fast N ep q (w_s3 w) = (a, s1)" by fastforce
  show ?thesis
  proof (cases a)
    case (Inr sb)
    then show ?thesis using a \<open>built = Inr q\<close> assms [of "fst sb" "snd sb"] by (cases sb) (simp add: fast_call_def same_but_text_def)
  qed (use a Inr in \<open>simp add: fast_call_def\<close>)
qed (simp add: fast_call_def)

lemma build_request_fragment:
  assumes "hl_uri H (endpoint_url ep b k') = hl_uri H (endpoint_url ep b k)"
  shows "build_request H ep verb b k' body = build_request H ep verb b k body"
  by (simp only: build_request_def build_request_with_headers_def assms)

lemma fast_requests_same:
  assumes "hl_uri H (endpoint_url ep b k') = hl_uri H (endpoint_url ep b k)"
  shows "same_but_text (fast_get H N ep b k' w) (fast_get H N ep b k w)"
    "same_but_text (fast_delete H N ep b k' w) (fast_delete H N ep b k w)"
  unfolding fast_get_def fast_delete_def build_request_fragment [OF assms]
  by (rule fast_call_same, simp add: same_but_text_def status_error_def)+


section \<open>A server in memory\<close>

text \<open>The URIs of the endpoint \<^verbatim>\<open>http://h\<close>, and a server that keeps its objects in memory.\<close>

definition demo_endpoint :: endpoint where
  "demo_endpoint = \<lparr>en_scheme = ''http'', en_host = ''h'', en_port = 80, en_no_verify = False\<rparr>"

definition demo_http :: http_lib where
  "demo_http = \<lparr>hl_uri = (\<lambda>s. Ok \<lparr>ur_scheme = Some ''http'', ur_host = Some ''h'', ur_port = None,
       ur_path_and_query = Some (takeWhile (\<lambda>c. c \<noteq> CHR ''#'') (drop (length ''http://h'') s))\<rparr>),
     hl_headers = (\<lambda>_. None), hl_sign = (\<lambda>_ _ hs. Ok hs), hl_status = show_nat, hl_tls_config = Ok (), hl_tls_addr = (\<lambda>_. Ok ())\<rparr>"

definition demo_net :: "memstore transport" where
  "demo_net = \<lparr>ht_connect = (\<lambda>s. (Ok (), s)),
     ht_request = (\<lambda>q s. case split_once (drop 1 (fr_target q)) ''/'' of
        None \<Rightarrow> (Ok (400, Ok []), s)
      | Some l \<Rightarrow>
          if fr_method q = ''DELETE'' then (Ok (204, Ok []), mem_delete l s)
          else if fr_method q = ''PUT'' then (Ok (200, Ok []), mem_store l (fr_body q) s)
          else (case mem_contents s l of None \<Rightarrow> (Ok (404, Ok []), s) | Some obj \<Rightarrow> (Ok (200, Ok obj), s)))\<rparr>"

definition demo_host :: "'s cmd_env" where
  "demo_host = \<lparr>ce_new_s3 = (\<lambda>_. Err NoObjectFound), ce_regex = reference_engine, ce_os = demo_env,
     ce_view = (\<lambda>_. \<lparr>lv_symlink_metadata = (\<lambda>_. Inl NotFoundKind), lv_metadata = (\<lambda>_. Inl NotFoundKind), lv_walk = (\<lambda>_ _. []),
       lv_glob = (\<lambda>_. Inr []), lv_debug = id\<rparr>), ce_sched = rev, ce_md5 = id, ce_tmp = ''f''\<rparr>"

lemma demo_url_of: "endpoint_url demo_endpoint b k = ''http://h/'' @ b @ ''/'' @ k"
  by (simp add: endpoint_url_def demo_endpoint_def host_header_def is_tls_def)

lemma takeWhile_cut: "\<not> P c \<Longrightarrow> takeWhile P (u @ c # x) = takeWhile P u"
  by (induction u) simp_all

lemma demo_fragment: "hl_uri demo_http (endpoint_url demo_endpoint b (k @ ''#'' @ x)) = hl_uri demo_http (endpoint_url demo_endpoint b k)"
proof -
  have "drop (length ''http://h'') (endpoint_url demo_endpoint b (k @ ''#'' @ x)) = (''/'' @ b @ ''/'' @ k) @ CHR ''#'' # x"
    "drop (length ''http://h'') (endpoint_url demo_endpoint b k) = ''/'' @ b @ ''/'' @ k"
    by (simp_all add: demo_url_of)
  then show ?thesis by (simp only: demo_http_def http_lib.simps takeWhile_cut simp_thms)
qed

definition demo_two_keys :: "memstore world" where
  "demo_two_keys = demo_world [((''b'', ''a''), ''one''), ((''b'', ''a#1''), ''two'')] Map.empty"

lemma demo_host_header: "host_header demo_endpoint = ''h''"
  by (simp add: demo_endpoint_def host_header_def is_tls_def)

lemma demo_requests:
  "build_request demo_http demo_endpoint verb ''b'' ''a'' body
     = Ok \<lparr>fr_method = verb, fr_target = ''/b/a'', fr_headers = [(''host'', ''h'')], fr_body = body\<rparr>"
  by (simp add: build_request_def build_request_with_headers_def demo_url_of demo_http_def demo_host_header)

lemma demo_split: "split_once ''b/a'' ''/'' = Some (''b'', ''a'')"
  by code_simp

lemma demo_move_a:
  "transfer_one demo_host demo_http demo_net demo_endpoint 0 True (Download ''b'' ''a'' ''f'') demo_two_keys
     = (Ok (), demo_world [((''b'', ''a#1''), ''two'')] [''f'' \<mapsto> ''one''])"
proof -
  have "path_parent ''f'' = Some []" by code_simp
  then show ?thesis
    by (simp add: transfer_one_def fast_bind_def retried_def with_retry.simps fast_get_def fast_delete_def fast_call_def send_fast_def demo_requests
        demo_net_def demo_split demo_two_keys_def demo_world_def mem_contents_def mem_delete_def is_success_def as_other_def write_file_def
        io_bind_def io_return_def os_open_truncate_def os_update_def os_call_def demo_host_def demo_env_def Let_def)
qed


definition demo_logged_world :: "(memstore \<times> (fast_request \<times> answer) list) world" where
  "demo_logged_world = \<lparr>w_s3 = (w_s3 demo_two_keys, []), w_files = Map.empty, w_mtimes = (\<lambda>_. None)\<rparr>"

theorem fast_move_keeps_bytes_witness:
  "\<exists>w'. transfer_one demo_host demo_http (logged demo_net) demo_endpoint 0 True (Download ''b'' ''a'' ''f'') demo_logged_world = (Ok (), w')
     \<and> source_deleted (Download ''b'' ''a'' ''f'') demo_logged_world w'
     \<and> arrived demo_http demo_endpoint (Download ''b'' ''a'' ''f'') (w_files demo_logged_world) w'"
proof -
  have p: "path_parent ''f'' = Some []" by code_simp
  define w' where "w' = snd (transfer_one demo_host demo_http (logged demo_net) demo_endpoint 0 True (Download ''b'' ''a'' ''f'') demo_logged_world)"
  have run: "transfer_one demo_host demo_http (logged demo_net) demo_endpoint 0 True (Download ''b'' ''a'' ''f'') demo_logged_world = (Ok (), w')"
    and del: "source_deleted (Download ''b'' ''a'' ''f'') demo_logged_world w'"
    by (simp_all add: w'_def p transfer_one_def fast_bind_def retried_def with_retry.simps fast_get_def fast_delete_def fast_call_def send_fast_def demo_requests
        logged_def demo_net_def demo_split demo_logged_world_def demo_two_keys_def demo_world_def mem_contents_def mem_delete_def is_success_def
        as_other_def write_file_def io_bind_def io_return_def os_open_truncate_def os_update_def os_call_def demo_host_def demo_env_def Let_def
        asked_to_delete_def)
  have "log_of demo_logged_world = []" by (simp add: demo_logged_world_def)
  from fast_move_keeps_bytes [OF run this] run del show ?thesis by blast
qed

definition demo_fast_lib :: "memstore fast_lib" where
  "demo_fast_lib = \<lparr>fl_http = demo_http, fl_signer = (\<lambda>_ _ _ _ _ _ hs. Ok hs), fl_net = demo_net,
     fl_config = (\<lambda>_ _. (Some (Ok (''k'', ''s'', None)), None)), fl_parallelism = None, fl_pick = (\<lambda>k. (k, k))\<rparr>"

definition demo_fast_flags :: global_opts where
  "demo_fast_flags = no_flags\<lparr>go_endpoint_url := Some ''http://h''\<rparr>"

theorem fast_path_performs_all_witness:
  "\<exists>js outcomes w1. mset js = mset (map transfer_of [(demo_url ''s3://b/a'', demo_url ''f'')]) \<and>
    one_by_one (do_one demo_host (demo_http\<lparr>hl_sign := (\<lambda>_ _ hs. Ok hs)\<rparr>) demo_net demo_endpoint 10 False) js demo_two_keys = (outcomes, w1) \<and>
    map oc_label outcomes = map label_for js \<and>
    try_fast_path demo_fast_lib demo_host demo_console \<lparr>om_json = False, om_dry_run = False, om_color = False\<rparr> demo_fast_flags
        [(demo_url ''s3://b/a'', demo_url ''f'')] False ''cp'' \<lparr>st_out = [], st_err = []\<rparr> demo_two_keys =
      (Ok (Some (if \<forall>oc \<in> set outcomes. oc_result oc = Ok () then Ok () else Err (Message ''one or more fast-path transfers failed''))),
       fold (report_outcome demo_console \<lparr>om_json = False, om_dry_run = False, om_color = False\<rparr> ''cp'') outcomes \<lparr>st_out = [], st_err = []\<rparr>, w1)"
proof -
  have "is_remote (demo_url ''s3://b/a'')" by (simp add: is_remote_def demo_url_def url_eval Let_def)
  then have r: "\<forall>(s, d) \<in> set [(demo_url ''s3://b/a'', demo_url ''f'')]. is_remote s \<or> is_remote d" by simp
  have f: "\<not> go_dry_run demo_fast_flags" "go_retry_count demo_fast_flags = 10" by (simp_all add: demo_fast_flags_def no_flags_def)
  have ep: "fast_endpoint (fl_http demo_fast_lib) demo_fast_flags = Inr demo_endpoint"
    by (simp add: fast_endpoint_def demo_fast_lib_def demo_http_def demo_fast_flags_def no_flags_def demo_endpoint_def)
  have c: "resolve_credentials demo_fast_lib demo_fast_flags = Inr (''k'', ''s'', None, ''us-east-1'')"
    by (simp add: resolve_credentials_def demo_fast_lib_def demo_fast_flags_def no_flags_def)
  have n: "fast_client_new (fl_http demo_fast_lib) demo_endpoint = Inr demo_endpoint"
    by (simp add: fast_client_new_def demo_endpoint_def is_tls_def)
  from fast_path_performs_all [OF r _ f(1) ep c n, of demo_host False demo_two_keys demo_console
      "\<lparr>om_json = False, om_dry_run = False, om_color = False\<rparr>" "''cp''" "\<lparr>st_out = [], st_err = []\<rparr>"]
  show ?thesis unfolding f(2) by (simp only: demo_fast_lib_def fast_lib.simps list.distinct simp_thms)
qed

end
