(* ===== verification/Fast_Server.thy ===== *)
theory Fast_Server
  imports Fast_Props
begin

text \<open>
  What the fast path relies on of the server behind its endpoint, as an interface, and what a
  successful transfer then does to the objects and the local files. The server in memory is an
  instance.
\<close>

section \<open>The interface\<close>

text \<open>What a request asks for.\<close>

datatype meaning =
    ReadObject location
  | StoreObject location string
  | CopyObject location location
  | RemoveObject location
  | OtherMeaning

text \<open>
  The laws: requests for the keys in \<open>names\<close> mean what they are built for; a connection changes no
  object; an answer with a success status tells what happened, and a request without one may or may
  not have taken its effect. A copy has taken place if the body of a successful answer reports no
  error.
\<close>

locale object_server =
  fixes H :: http_lib and N :: "'s transport" and ep :: endpoint
    and objects :: "'s \<Rightarrow> location \<Rightarrow> string option"
    and means :: "fast_request \<Rightarrow> meaning" and names :: "location set"
  assumes means_get: "(b, k) \<in> names \<Longrightarrow> build_request H ep ''GET'' b k [] = Inr q \<Longrightarrow> means q = ReadObject (b, k)"
    and means_put: "(b, k) \<in> names \<Longrightarrow> build_request H ep ''PUT'' b k data = Inr q \<Longrightarrow> means q = StoreObject (b, k) data"
    and means_delete: "(b, k) \<in> names \<Longrightarrow> build_request H ep ''DELETE'' b k [] = Inr q \<Longrightarrow> means q = RemoveObject (b, k)"
    and means_copy: "(sb, sk) \<in> names \<Longrightarrow> (db, dk) \<in> names \<Longrightarrow>
      build_request_with_headers H ep ''PUT'' db dk [] [(''x-amz-copy-source'', ''/'' @ sb @ ''/'' @ encode_key_path sk)] = Inr q \<Longrightarrow>
      means q = CopyObject (sb, sk) (db, dk)"
    and connect_keeps: "ht_connect N s = (c, s') \<Longrightarrow> objects s' = objects s"
    and get_law: "ht_request N q s = (a, s') \<Longrightarrow> means q = ReadObject l \<Longrightarrow>
      objects s' = objects s \<and> (\<forall>st body. a = Inr (st, Inr body) \<and> is_success st \<longrightarrow> objects s l = Some body)"
    and put_law: "ht_request N q s = (a, s') \<Longrightarrow> means q = StoreObject l data \<Longrightarrow>
      objects s' = (objects s)(l \<mapsto> data) \<or> objects s' = objects s \<and> (\<forall>st body. a = Inr (st, body) \<longrightarrow> \<not> is_success st)"
    and delete_law: "ht_request N q s = (a, s') \<Longrightarrow> means q = RemoveObject l \<Longrightarrow>
      objects s' = (objects s)(l := None) \<or> objects s' = objects s \<and> (\<forall>st body. a = Inr (st, body) \<longrightarrow> \<not> is_success st \<and> st \<noteq> 404)"
    and copy_law: "ht_request N q s = (a, s') \<Longrightarrow> means q = CopyObject l l' \<Longrightarrow>
      (\<exists>data. objects s l = Some data \<and> objects s' = (objects s)(l' \<mapsto> data))
      \<or> objects s' = objects s \<and> (\<forall>st body. a = Inr (st, Inr body) \<longrightarrow> \<not> is_success st \<or> memmem body ''<Error'')"
begin

lemma call_request:
  assumes "fast_call N ep (Inr q) check w = (r, w')"
  shows "w_files w' = w_files w \<and> (\<exists>s1. objects s1 = objects (w_s3 w) \<and>
    (w_s3 w' = s1 \<and> (\<exists>e. r = Inl e) \<or>
     (\<exists>a. ht_request N q s1 = (a, w_s3 w') \<and> (\<forall>v. r = Inr v \<longrightarrow> (\<exists>st body. a = Inr (st, Inr body) \<and> check st body = Inr v)))))"
proof -
  obtain c s1 where c: "ht_connect N (w_s3 w) = (c, s1)" by fastforce
  obtain a s2 where a: "ht_request N q s1 = (a, s2)" by fastforce
  note k = connect_keeps [OF c]
  show ?thesis
  proof (cases c)
    case (Inl e)
    with assms c k show ?thesis by (auto simp: fast_call_def send_fast_def)
  next
    case (Inr u)
    with assms c a have "w_files w' = w_files w" "w_s3 w' = s2"
      "\<And>v. r = Inr v \<Longrightarrow> \<exists>st body. a = Inr (st, Inr body) \<and> check st body = Inr v"
      by (auto simp: fast_call_def send_fast_def split: sum.splits prod.splits)
    with k a show ?thesis by blast
  qed
qed

text \<open>
  A call, repeated: the objects stay in \<open>S\<close>, and a result that is passed on satisfies \<open>Q\<close>, if each single
  request does so.
\<close>

lemma retried_call:
  assumes run: "retried mx (fast_call N ep built check) w = (r, w')" and S: "objects (w_s3 w) \<in> S"
    and law: "\<And>q s a s'. built = Inr q \<Longrightarrow> ht_request N q s = (a, s') \<Longrightarrow> objects s \<in> S \<Longrightarrow>
      objects s' \<in> S \<and> (\<forall>st body v. a = Inr (st, Inr body) \<and> check st body = Inr v \<longrightarrow> Q v (objects s'))"
  shows "w_files w' = w_files w \<and> objects (w_s3 w') \<in> S \<and> (\<forall>v. r = Inr v \<longrightarrow> Q v (objects (w_s3 w')))"
proof -
  let ?P = "\<lambda>w0. w_files w0 = w_files w \<and> objects (w_s3 w0) \<in> S"
  have call: "?P w2 \<and> (\<forall>v. r1 = Inr v \<longrightarrow> Q v (objects (w_s3 w2)))"
    if "?P w1" "fast_call N ep built check w1 = (r1, w2)" for w1 r1 w2
  proof (cases built)
    case (Inl e)
    with that show ?thesis by (auto simp: fast_call_def)
  next
    case (Inr q)
    from call_request [OF that(2) [unfolded Inr]] obtain s1 where s1: "w_files w2 = w_files w1" "objects s1 = objects (w_s3 w1)"
      "w_s3 w2 = s1 \<and> (\<exists>e. r1 = Inl e) \<or>
       (\<exists>a. ht_request N q s1 = (a, w_s3 w2) \<and> (\<forall>v. r1 = Inr v \<longrightarrow> (\<exists>st body. a = Inr (st, Inr body) \<and> check st body = Inr v)))"
      by (elim conjE exE) (rule that; assumption)
    from s1(3) show ?thesis
    proof (elim disjE exE conjE)
      fix a assume a: "ht_request N q s1 = (a, w_s3 w2)" "\<forall>v. r1 = Inr v \<longrightarrow> (\<exists>st body. a = Inr (st, Inr body) \<and> check st body = Inr v)"
      from law [OF Inr a(1)] that(1) s1(2) have "objects (w_s3 w2) \<in> S"
        "\<And>st body v. a = Inr (st, Inr body) \<Longrightarrow> check st body = Inr v \<Longrightarrow> Q v (objects (w_s3 w2))" by auto
      with a(2) s1(1) that(1) show ?thesis by auto
    qed (use s1 that(1) in auto)
  qed
  have "\<exists>w0. ?P w0 \<and> fast_call N ep built check w0 = (r, w')"
    by (rule retried_inv [OF run]) (use S in simp, use call in metis)
  then obtain w0 where "?P w0" "fast_call N ep built check w0 = (r, w')" by blast
  with call [OF this] show ?thesis by simp
qed

lemma retried_read:
  assumes run: "retried mx (fast_get H N ep b k) w = (r, w')" and n: "(b, k) \<in> names"
  shows "w_files w' = w_files w \<and> objects (w_s3 w') = objects (w_s3 w) \<and> (\<forall>body. r = Inr body \<longrightarrow> objects (w_s3 w) (b, k) = Some body)"
proof -
  note call = retried_call [OF run [unfolded fast_get_def], of "{objects (w_s3 w)}" "\<lambda>body ob. ob (b, k) = Some body"]
  have "w_files w' = w_files w \<and> objects (w_s3 w') \<in> {objects (w_s3 w)} \<and> (\<forall>v. r = Inr v \<longrightarrow> objects (w_s3 w') (b, k) = Some v)"
  proof (rule call)
    fix q s a s'
    assume "build_request H ep ''GET'' b k [] = Inr q" "ht_request N q s = (a, s')" "objects s \<in> {objects (w_s3 w)}"
    with get_law [OF this(2) means_get [OF n this(1)]]
    show "objects s' \<in> {objects (w_s3 w)} \<and> (\<forall>st body v. a = Inr (st, Inr body) \<and>
      (if is_success st then Ok body else Err (status_error H (''GET '' @ b @ ''/'' @ k) st body)) = Inr v \<longrightarrow> objects s' (b, k) = Some v)"
      by (auto split: if_splits)
  qed simp
  then show ?thesis by (metis singletonD)
qed

lemma retried_put:
  assumes run: "retried mx (fast_put H N ep b k data) w = (r, w')" and n: "(b, k) \<in> names"
  shows "w_files w' = w_files w \<and> (\<forall>v. r = Inr v \<longrightarrow> objects (w_s3 w') = (objects (w_s3 w))((b, k) \<mapsto> data))"
proof -
  let ?new = "(objects (w_s3 w))((b, k) \<mapsto> data)"
  note call = retried_call [OF run [unfolded fast_put_def], of "{objects (w_s3 w), ?new}" "\<lambda>_ ob. ob = ?new"]
  have "w_files w' = w_files w \<and> objects (w_s3 w') \<in> {objects (w_s3 w), ?new} \<and> (\<forall>v. r = Inr v \<longrightarrow> objects (w_s3 w') = ?new)"
  proof (rule call)
    fix q s a s'
    assume "build_request H ep ''PUT'' b k data = Inr q" "ht_request N q s = (a, s')" "objects s \<in> {objects (w_s3 w), ?new}"
    with put_law [OF this(2) means_put [OF n this(1)]]
    show "objects s' \<in> {objects (w_s3 w), ?new} \<and> (\<forall>st body v. a = Inr (st, Inr body) \<and>
      (if is_success st then Ok () else Err (status_error H (''PUT '' @ b @ ''/'' @ k) st body)) = Inr v \<longrightarrow> objects s' = ?new)"
      by (auto split: if_splits)
  qed simp
  then show ?thesis by simp
qed

lemma retried_delete:
  assumes run: "retried mx (fast_delete H N ep b k) w = (r, w')" and n: "(b, k) \<in> names"
  shows "w_files w' = w_files w \<and> (\<forall>v. r = Inr v \<longrightarrow> objects (w_s3 w') = (objects (w_s3 w))((b, k) := None))"
proof -
  let ?new = "(objects (w_s3 w))((b, k) := None)"
  note call = retried_call [OF run [unfolded fast_delete_def], of "{objects (w_s3 w), ?new}" "\<lambda>_ ob. ob = ?new"]
  have "w_files w' = w_files w \<and> objects (w_s3 w') \<in> {objects (w_s3 w), ?new} \<and> (\<forall>v. r = Inr v \<longrightarrow> objects (w_s3 w') = ?new)"
  proof (rule call)
    fix q s a s'
    assume "build_request H ep ''DELETE'' b k [] = Inr q" "ht_request N q s = (a, s')" "objects s \<in> {objects (w_s3 w), ?new}"
    with delete_law [OF this(2) means_delete [OF n this(1)]]
    show "objects s' \<in> {objects (w_s3 w), ?new} \<and> (\<forall>st body v. a = Inr (st, Inr body) \<and>
      (if \<not> is_success st \<and> st \<noteq> 404 then Err (status_error H (''DELETE '' @ b @ ''/'' @ k) st body) else Ok ()) = Inr v \<longrightarrow> objects s' = ?new)"
      by (auto split: if_splits)
  qed simp
  then show ?thesis by simp
qed

lemma retried_copy:
  assumes run: "retried mx (fast_copy H N ep sb sk db dk) w = (r, w')" and n: "(sb, sk) \<in> names" "(db, dk) \<in> names"
  shows "w_files w' = w_files w \<and> (\<forall>v. r = Inr v \<longrightarrow>
    (\<exists>data. objects (w_s3 w) (sb, sk) = Some data \<and> objects (w_s3 w') = (objects (w_s3 w))((db, dk) \<mapsto> data)))"
proof -
  let ?o = "objects (w_s3 w)"
  let ?copied = "\<lambda>ob. \<exists>data. ?o (sb, sk) = Some data \<and> ob = ?o((db, dk) \<mapsto> data)"
  note call = retried_call [OF run [unfolded fast_copy_def Let_def], of "{ob. ob = ?o \<or> ?copied ob}" "\<lambda>_ ob. ?copied ob"]
  have "w_files w' = w_files w \<and> objects (w_s3 w') \<in> {ob. ob = ?o \<or> ?copied ob} \<and> (\<forall>v. r = Inr v \<longrightarrow> ?copied (objects (w_s3 w')))"
  proof (rule call)
    fix q s a s'
    assume q: "build_request_with_headers H ep ''PUT'' db dk [] [(''x-amz-copy-source'', ''/'' @ sb @ ''/'' @ encode_key_path sk)] = Inr q"
      "ht_request N q s = (a, s')" and o: "objects s \<in> {ob. ob = ?o \<or> ?copied ob}"
    have c: "?copied ((objects s)((db, dk) \<mapsto> data))" if "objects s (sb, sk) = Some data" for data
      using o that by (auto split: if_splits)
    from copy_law [OF q(2) means_copy [OF n q(1)]]
    show "objects s' \<in> {ob. ob = ?o \<or> ?copied ob} \<and> (\<forall>st body v. a = Inr (st, Inr body) \<and>
      (if \<not> is_success st
       then Err (status_error H (''COPY '' @ sb @ ''/'' @ sk @ '' -> '' @ db @ ''/'' @ dk) st body)
       else if memmem body ''<Error''
            then Err (HttpStatusError 500 ((''COPY '' @ sb @ ''/'' @ sk @ '' -> '' @ db @ ''/'' @ dk) @ '': 200 OK with error body: '' @ utf8_lossy body))
            else Ok ()) = Inr v \<longrightarrow> ?copied (objects s'))"
    proof (elim disjE exE conjE)
      fix data assume d: "objects s (sb, sk) = Some data" "objects s' = (objects s)((db, dk) \<mapsto> data)"
      from c [OF d(1)] show ?thesis unfolding d(2) by blast
    next
      assume "objects s' = objects s" "\<forall>st body. a = Inr (st, Inr body) \<longrightarrow> \<not> is_success st \<or> memmem body ''<Error''"
      with o show ?thesis by (auto simp only: mem_Collect_eq simp_thms if_True if_False sum.distinct split: if_splits)
    qed
  qed simp
  then show ?thesis by simp
qed

end

section \<open>What a transfer does\<close>

text \<open>The specification: files and objects before and after a transfer.\<close>

type_synonym store = "(string \<Rightarrow> string option) \<times> (location \<Rightarrow> string option)"

fun transfer_spec :: "bool \<Rightarrow> transfer \<Rightarrow> store \<Rightarrow> store \<Rightarrow> bool" where
  "transfer_spec mv (Upload l b k) (files, ob) (files', ob') \<longleftrightarrow>
     (\<exists>data. files l = Some data \<and> ob' = ob((b, k) \<mapsto> data) \<and> files' = (if mv then files(l := None) else files))"
| "transfer_spec mv (Download b k l) (files, ob) (files', ob') \<longleftrightarrow>
     (\<exists>data. ob (b, k) = Some data \<and> files' = files(l \<mapsto> data) \<and> ob' = (if mv then ob((b, k) := None) else ob))"
| "transfer_spec mv (Copy sb sk db dk) (files, ob) (files', ob') \<longleftrightarrow>
     (\<exists>data. ob (sb, sk) = Some data \<and> files' = files
        \<and> ob' = (if mv then (ob((db, dk) \<mapsto> data))((sb, sk) := None) else ob((db, dk) \<mapsto> data)))"

fun remote_names :: "transfer \<Rightarrow> location set" where
  "remote_names (Upload l b k) = {(b, k)}"
| "remote_names (Download b k l) = {(b, k)}"
| "remote_names (Copy sb sk db dk) = {(sb, sk), (db, dk)}"

lemma fast_bind_Inr:
  "fast_bind act f w = (Inr y, w') \<Longrightarrow> \<exists>x w1. act w = (Inr x, w1) \<and> f x w1 = (Inr y, w')"
  by (auto simp: fast_bind_def split: prod.splits sum.splits)

lemma as_other_Inr: "as_other act w = (Inr x, w') \<Longrightarrow> act w = (Inr x, w')"
  by (auto simp: as_other_def split: prod.splits sum.splits)

lemma write_file_Inr: "write_file X l data w = (Inr u, w') \<Longrightarrow> w' = w\<lparr>w_files := (w_files w)(l \<mapsto> data)\<rparr>"
  by (auto simp: write_file_def Let_def io_bind_def io_return_def os_call_def os_open_truncate_def os_update_def
      split: option.splits if_splits prod.splits sum.splits)

lemma remove_file_Inr: "remove_file E l w = (Inr u, w') \<Longrightarrow> w' = w\<lparr>w_files := (w_files w)(l := None)\<rparr>"
  by (auto simp: remove_file_def os_call_def split: option.splits)

context object_server
begin

lemma transfer_exact:
  assumes run: "transfer_one X H N ep mx mv item w = (Inr u, w')" and n: "remote_names item \<subseteq> names"
  shows "transfer_spec mv item (w_files w, objects (w_s3 w)) (w_files w', objects (w_s3 w'))"
proof (cases item)
  case (Upload l b k)
  with run obtain data w1 v w2 where rd: "as_other (os_read (ce_os X) l) w = (Inr data, w1)"
    and put: "retried mx (fast_put H N ep b k data) w1 = (Inr v, w2)"
    and rm: "(if mv then as_other (remove_file (ce_os X) l) else Pair (Ok ())) w2 = (Inr u, w')"
    by (auto simp: transfer_one_def dest!: fast_bind_Inr)
  from os_read_effect [OF as_other_Inr [OF rd]] have "w1 = w" "w_files w l = Some data" by simp_all
  moreover have "w' = (if mv then w2\<lparr>w_files := (w_files w2)(l := None)\<rparr> else w2)"
    using rm by (auto dest!: as_other_Inr remove_file_Inr split: if_splits)
  ultimately show ?thesis using retried_put [OF put] n Upload by auto
next
  case (Download b k l)
  with run obtain data w1 v w2 where get: "retried mx (fast_get H N ep b k) w = (Inr data, w1)"
    and wr: "as_other (write_file X l data) w1 = (Inr v, w2)"
    and del: "(if mv then retried mx (fast_delete H N ep b k) else Pair (Ok ())) w2 = (Inr u, w')"
    by (auto simp: transfer_one_def dest!: fast_bind_Inr)
  have "(b, k) \<in> names" using n Download by simp
  with del retried_delete [of mx b k w2] have "w_files w' = w_files w2"
    "objects (w_s3 w') = (if mv then (objects (w_s3 w2))((b, k) := None) else objects (w_s3 w2))" by (auto split: if_splits)
  with retried_read [OF get \<open>(b, k) \<in> names\<close>] write_file_Inr [OF as_other_Inr [OF wr]] Download show ?thesis by simp
next
  case (Copy sb sk db dk)
  with run obtain v w1 where cp: "retried mx (fast_copy H N ep sb sk db dk) w = (Inr v, w1)"
    and del: "(if mv then retried mx (fast_delete H N ep sb sk) else Pair (Ok ())) w1 = (Inr u, w')"
    by (auto simp: transfer_one_def dest!: fast_bind_Inr)
  have names: "(sb, sk) \<in> names" "(db, dk) \<in> names" using n Copy by simp_all
  with del retried_delete [of mx sb sk w1] have "w_files w' = w_files w1"
    "objects (w_s3 w') = (if mv then (objects (w_s3 w1))((sb, sk) := None) else objects (w_s3 w1))" by (auto split: if_splits)
  with retried_copy [OF cp names] Copy show ?thesis by auto
qed

end

section \<open>The server in memory\<close>

text \<open>The copy source is encoded as listings encode keys, and decoding it gives the key back.\<close>

lemma encode_key_path_url_encode: "encode_key_path k = url_encode k"
  unfolding encode_key_path_def url_encode_def
  by (rule arg_cong [where f = concat], rule map_cong) (auto simp: encode_key_byte_def unreserved_def Let_def)

lemma encode_key_path_round_trip: "percent_bytes (encode_key_path k) = k"
  by (simp add: encode_key_path_url_encode percent_bytes_url_encode)

definition memory_means :: "fast_request \<Rightarrow> meaning" where
  "memory_means q =
     (case split_once (drop 1 (fr_target q)) ''/'' of
        None \<Rightarrow> OtherMeaning
      | Some l \<Rightarrow>
          if fr_method q = ''GET'' then ReadObject l
          else if fr_method q = ''DELETE'' then RemoveObject l
          else if fr_method q = ''PUT'' then
            (case map_of (fr_headers q) ''x-amz-copy-source'' of
               None \<Rightarrow> StoreObject l (fr_body q)
             | Some v \<Rightarrow>
                 (case split_once (drop 1 v) ''/'' of
                    None \<Rightarrow> OtherMeaning
                  | Some (sb, sk) \<Rightarrow> CopyObject (sb, percent_bytes sk) l))
          else OtherMeaning)"

definition memory_net :: "memstore transport" where
  "memory_net = \<lparr>ht_connect = (\<lambda>s. (Ok (), s)),
     ht_request = (\<lambda>q s. case memory_means q of
        ReadObject l \<Rightarrow> (case mem_contents s l of None \<Rightarrow> (Ok (404, Ok []), s) | Some obj \<Rightarrow> (Ok (200, Ok obj), s))
      | StoreObject l data \<Rightarrow> (Ok (200, Ok []), mem_store l data s)
      | CopyObject l l' \<Rightarrow> (case mem_contents s l of None \<Rightarrow> (Ok (404, Ok []), s) | Some obj \<Rightarrow> (Ok (200, Ok []), mem_store l' obj s))
      | RemoveObject l \<Rightarrow> (Ok (204, Ok []), mem_delete l s)
      | OtherMeaning \<Rightarrow> (Ok (400, Ok []), s))\<rparr>"

text \<open>The names a URL carries unharmed.\<close>

definition plain_names :: "location set" where
  "plain_names = {(b, k). CHR ''/'' \<notin> set b \<and> CHR ''#'' \<notin> set b \<and> CHR ''#'' \<notin> set k}"

lemma memory_target:
  assumes "(b, k) \<in> plain_names" "build_request_with_headers demo_http demo_endpoint verb b k body extra = Inr q"
  shows "split_once (drop 1 (fr_target q)) ''/'' = Some (b, k)" "fr_method q = verb" "fr_body q = body" "fr_headers q = (''host'', ''h'') # extra"
proof -
  have t: "takeWhile (\<lambda>c. c \<noteq> CHR ''#'') k = k" "\<forall>x \<in> set b. x \<noteq> CHR ''#''"
    using assms(1) by (auto simp: plain_names_def takeWhile_eq_all_conv)
  have q: "q = \<lparr>fr_method = verb, fr_target = CHR ''/'' # b @ CHR ''/'' # k, fr_headers = (''host'', ''h'') # extra, fr_body = body\<rparr>"
    using assms(2) t by (simp add: build_request_with_headers_def demo_http_def demo_url_of demo_host_header Let_def)
  show "split_once (drop 1 (fr_target q)) ''/'' = Some (b, k)"
    using split_once_single [of "CHR ''/''" b k] assms(1) by (simp add: q plain_names_def)
  show "fr_method q = verb" "fr_body q = body" "fr_headers q = (''host'', ''h'') # extra" by (simp_all add: q)
qed

lemma mem_http_contents:
  "mem_contents (mem_store l obj s) = (mem_contents s)(l \<mapsto> obj)" "mem_contents (mem_delete l s) = (mem_contents s)(l := None)"
  by (auto simp: mem_contents_def mem_store_def mem_delete_def update_conv' delete_conv')

interpretation mem_http: object_server demo_http memory_net demo_endpoint mem_contents memory_means plain_names
proof unfold_locales
  show "memory_means q = ReadObject (b, k)" if "(b, k) \<in> plain_names" "build_request demo_http demo_endpoint ''GET'' b k [] = Inr q" for b k q
    using memory_target [OF that(1) that(2) [unfolded build_request_def]] by (simp add: memory_means_def)
  show "memory_means q = StoreObject (b, k) data" if "(b, k) \<in> plain_names" "build_request demo_http demo_endpoint ''PUT'' b k data = Inr q" for b k data q
    using memory_target [OF that(1) that(2) [unfolded build_request_def]] by (simp add: memory_means_def)
  show "memory_means q = RemoveObject (b, k)" if "(b, k) \<in> plain_names" "build_request demo_http demo_endpoint ''DELETE'' b k [] = Inr q" for b k q
    using memory_target [OF that(1) that(2) [unfolded build_request_def]] by (simp add: memory_means_def)
  show "memory_means q = CopyObject (sb, sk) (db, dk)"
    if "(sb, sk) \<in> plain_names" "(db, dk) \<in> plain_names"
      "build_request_with_headers demo_http demo_endpoint ''PUT'' db dk [] [(''x-amz-copy-source'', ''/'' @ sb @ ''/'' @ encode_key_path sk)] = Inr q"
    for sb sk db dk q
    using memory_target [OF that(2,3)] that(1) split_once_single [of "CHR ''/''" sb "encode_key_path sk"]
    by (simp add: memory_means_def plain_names_def encode_key_path_round_trip)
qed (auto simp: memory_net_def mem_http_contents is_success_def memmem_def split: option.splits)

section \<open>A copy command over the fast path\<close>

fun transfers_spec :: "bool \<Rightarrow> transfer list \<Rightarrow> store \<Rightarrow> store \<Rightarrow> bool" where
  "transfers_spec mv [] st st' \<longleftrightarrow> st' = st"
| "transfers_spec mv (x # xs) st st' \<longleftrightarrow> (\<exists>st1. transfer_spec mv x st st1 \<and> transfers_spec mv xs st1 st')"

context object_server
begin

lemma one_by_one_exact:
  assumes "one_by_one (do_one X H N ep mx mv) js w = (outcomes, w')" "\<forall>oc \<in> set outcomes. oc_result oc = Ok ()"
    and "\<forall>item \<in> set js. remote_names item \<subseteq> names"
  shows "transfers_spec mv js (w_files w, objects (w_s3 w)) (w_files w', objects (w_s3 w'))"
  using assms
proof (induction js arbitrary: w outcomes)
  case (Cons item js)
  obtain r w1 where t: "transfer_one X H N ep mx mv item w = (r, w1)" by fastforce
  obtain os w2 where rest: "one_by_one (do_one X H N ep mx mv) js w1 = (os, w2)" by fastforce
  from t have "\<exists>oc. do_one X H N ep mx mv item w = (oc, w1) \<and> oc_result oc = r" by (simp add: do_one_def)
  with Cons.prems(1,2) rest have "r = Inr ()" "w2 = w'" "\<forall>oc \<in> set os. oc_result oc = Ok ()"
    by auto
  with Cons.IH [of w1 os] Cons.prems(3) rest transfer_exact [of X mx mv item w "()" w1] t show ?case by auto
qed simp

end


definition demo_memory_lib :: "memstore fast_lib" where
  "demo_memory_lib = demo_fast_lib\<lparr>fl_net := memory_net\<rparr>"

abbreviation demo_pair :: "(url \<times> url) list" where
  "demo_pair \<equiv> [(demo_url ''s3://b/a'', demo_url ''f'')]"

lemma demo_fast_run:
  "transfer_one demo_host demo_http memory_net demo_endpoint n True (Download ''b'' ''a'' ''f'') demo_two_keys
     = (Ok (), demo_world [((''b'', ''a#1''), ''two'')] [''f'' \<mapsto> ''one''])"
proof -
  have "path_parent ''f'' = Some []" by code_simp
  then show ?thesis
    by (simp add: transfer_one_def fast_bind_def retried_def with_retry.simps fast_get_def fast_delete_def fast_call_def send_fast_def demo_requests
        memory_net_def memory_means_def demo_split demo_two_keys_def demo_world_def mem_contents_def mem_delete_def is_success_def as_other_def
        write_file_def io_bind_def io_return_def os_open_truncate_def os_update_def os_call_def demo_host_def demo_env_def Let_def)
qed

lemma demo_fast_pair: "transfer_of (demo_url ''s3://b/a'', demo_url ''f'') = Download ''b'' ''a'' ''f''"
  by (simp add: transfer_of_def is_remote_def demo_url_def url_eval Let_def absolute_def)

lemma demo_fast_env:
  "\<forall>(s, d) \<in> set demo_pair. is_remote s \<or> is_remote d" "demo_pair \<noteq> []" "\<not> go_dry_run demo_fast_flags"
  "fast_endpoint (fl_http demo_memory_lib) demo_fast_flags = Inr demo_endpoint"
  "resolve_credentials demo_memory_lib demo_fast_flags = Inr (''k'', ''s'', None, ''us-east-1'')"
  "fast_client_new (fl_http demo_memory_lib) demo_endpoint = Inr demo_endpoint"
  by (simp_all add: demo_memory_lib_def demo_fast_lib_def demo_fast_flags_def no_flags_def fast_endpoint_def demo_http_def demo_endpoint_def
      resolve_credentials_def fast_client_new_def is_tls_def is_remote_def demo_url_def url_eval Let_def)

lemma demo_signed: "(fl_http demo_memory_lib)\<lparr>hl_sign := fl_signer demo_memory_lib ak sk tok region\<rparr> = demo_http"
  by (simp add: demo_memory_lib_def demo_fast_lib_def demo_http_def)


end
