(* ===== verification/Stub.thy ===== *)
theory Stub
  imports S3cfg
begin

text \<open>
  The benchmark server (\<^verbatim>\<open>src/bin/s3stub.rs\<close>): what it answers on one connection. The input of a connection
  is all that the client sends until it closes its side; the client reads all that is written. The
  listening socket and the counters of connections are left out. Unsigned arithmetic wraps as in a
  release build.
\<close>

record stub_config =
  sg_object_size :: nat
  sg_list_count :: nat

definition stub_body :: "stub_config \<Rightarrow> string" where
  "stub_body cfg = replicate (sg_object_size cfg) (CHR ''x'')"

text \<open>\<^verbatim>\<open>main\<close> up to the listener: the port, the configuration and the line it announces itself with.\<close>

definition stub_setting :: "(string \<Rightarrow> string option) \<Rightarrow> string \<Rightarrow> nat \<Rightarrow> nat \<Rightarrow> nat" where
  "stub_setting env name mx d = unwrap_or d (case env name of None \<Rightarrow> None | Some v \<Rightarrow> parse_unsigned mx v)"

definition stub_main :: "(string \<Rightarrow> string option) \<Rightarrow> nat \<times> stub_config \<times> string" where
  "stub_main env =
     (let port = stub_setting env ''STUB_PORT'' 65535 9100;
          object_size = stub_setting env ''STUB_OBJECT_SIZE'' u64_max 4096;
          list_count = stub_setting env ''STUB_LIST_COUNT'' u64_max 10000
      in (port, \<lparr>sg_object_size = object_size, sg_list_count = list_count\<rparr>,
          ''s3stub listening on :'' @ show_nat port @ '' (object_size='' @ show_nat object_size
            @ '', list_count='' @ show_nat list_count @ '')''))"

section \<open>Reading\<close>

abbreviation LF :: char where
  "LF \<equiv> CHR 0x0A"

abbreviation CRLF :: string where
  "CRLF \<equiv> [CHR 0x0D, CHR 0x0A]"

definition dq :: string where
  "dq = [CHR 0x22]"

text \<open>\<^verbatim>\<open>read_line\<close>: up to and with the next line feed, or to the end; text that is not UTF-8 is an error.\<close>

definition cut_line :: "string \<Rightarrow> string \<times> string" where
  "cut_line s =
     (case dropWhile (\<lambda>c. c \<noteq> LF) s of
        [] \<Rightarrow> (s, [])
      | _ # rest \<Rightarrow> (takeWhile (\<lambda>c. c \<noteq> LF) s @ [LF], rest))"

definition read_line :: "string \<Rightarrow> (unit, string \<times> string) result" where
  "read_line s = (if utf8_valid (fst (cut_line s)) then Ok (cut_line s) else Err ())"

definition trim_end :: "string \<Rightarrow> string" where
  "trim_end s = concat (rev (dropWhile is_white (rev (chars s))))"

lemma cut_line_Cons: "cut_line (c # s) = (if c = LF then ([LF], s) else (c # fst (cut_line s), snd (cut_line s)))"
  by (cases "dropWhile (\<lambda>c. c \<noteq> LF) s") (simp_all add: cut_line_def del: dropWhile_eq_Nil_conv)

lemma cut_line_append: "fst (cut_line s) @ snd (cut_line s) = s"
  by (induction s) (simp_all add: cut_line_Cons, simp add: cut_line_def)

lemma cut_line_le: "length (snd (cut_line s)) \<le> length s"
  by (induction s) (simp_all add: cut_line_Cons, simp add: cut_line_def)

lemma cut_line_shrinks: "s \<noteq> [] \<Longrightarrow> length (snd (cut_line s)) < length s"
  using cut_line_le by (cases s) (simp_all add: cut_line_Cons less_Suc_eq_le)

lemma read_line_shrinks: "read_line s = Inr (l, rest) \<Longrightarrow> s \<noteq> [] \<Longrightarrow> length rest < length s"
  using cut_line_shrinks [of s] by (auto simp: read_line_def split: if_splits)

text \<open>\<^verbatim>\<open>split_whitespace\<close>, over the characters of the string.\<close>

function white_words :: "string list \<Rightarrow> string list" where
  "white_words us =
     (case dropWhile is_white us of
        [] \<Rightarrow> []
      | u # vs \<Rightarrow> concat (u # takeWhile (\<lambda>v. \<not> is_white v) vs) # white_words (dropWhile (\<lambda>v. \<not> is_white v) vs))"
  by pat_completeness auto
termination
proof (relation "measure length")
  fix us u :: "string list" and x vs
  show "wf (measure length)" by simp
  assume "dropWhile is_white us = x # vs"
  then have "length (x # vs) \<le> length us" by (metis length_dropWhile_le)
  then show "(dropWhile (\<lambda>v. \<not> is_white v) vs, us) \<in> measure length"
    using length_dropWhile_le [of "\<lambda>v. \<not> is_white v" vs] by simp
qed

declare white_words.simps [simp del]

definition split_whitespace :: "string \<Rightarrow> string list" where
  "split_whitespace s = white_words (chars s)"

datatype header_end = HeadersAt "string \<Rightarrow> string option" string | HeadersEof | HeadersBad

definition add_header :: "(string \<Rightarrow> string option) \<Rightarrow> string \<Rightarrow> string \<Rightarrow> string option" where
  "add_header hs h =
     (case split_once h '':'' of
        Some (k, v) \<Rightarrow> hs(to_ascii_lowercase (str_trim k) \<mapsto> str_trim v)
      | None \<Rightarrow> hs)"

function read_headers :: "(string \<Rightarrow> string option) \<Rightarrow> string \<Rightarrow> header_end" where
  "read_headers hs inp =
     (if inp = [] then HeadersEof
      else
        (case read_line inp of
           Inl _ \<Rightarrow> HeadersBad
         | Inr (l, rest) \<Rightarrow>
             if trim_end l = [] then HeadersAt hs rest else read_headers (add_header hs (trim_end l)) rest))"
  by pat_completeness auto
termination
  by (relation "measure (\<lambda>(hs, inp). length inp)") (auto dest: read_line_shrinks)

declare read_headers.simps [simp del]

lemma read_headers_shrinks: "read_headers hs inp = HeadersAt hs' rest \<Longrightarrow> length rest < length inp"
proof (induction hs inp rule: read_headers.induct)
  case (1 hs inp)
  from "1.prems" obtain l r where l: "read_line inp = Inr (l, r)" "inp \<noteq> []"
    by (auto simp: read_headers.simps [of hs inp] split: if_splits sum.splits)
  show ?case
  proof (cases "trim_end l = []")
    case True
    with "1.prems" l read_line_shrinks [OF l] show ?thesis by (simp add: read_headers.simps [of hs inp])
  next
    case False
    with "1.prems" l have "read_headers (add_header hs (trim_end l)) r = HeadersAt hs' rest" by (simp add: read_headers.simps [of hs inp])
    from "1.IH" [OF l(2,1) refl False this] read_line_shrinks [OF l] show ?thesis by simp
  qed
qed

section \<open>Bodies\<close>

definition discard_n :: "nat \<Rightarrow> string \<Rightarrow> string" where
  "discard_n n inp = drop n inp"

text \<open>\<^verbatim>\<open>from_str_radix\<close> with radix 16.\<close>

definition hex_digits_val :: "string \<Rightarrow> nat" where
  "hex_digits_val s = foldl (\<lambda>n c. 16 * n + unwrap_or 0 (hex_val c)) 0 s"

definition parse_hex :: "nat \<Rightarrow> string \<Rightarrow> nat option" where
  "parse_hex mx s =
     (let d = unwrap_or s (strip_prefix s ''+'') in
      if d \<noteq> [] \<and> list_all (\<lambda>c. hex_val c \<noteq> None) d \<and> hex_digits_val d \<le> mx then Some (hex_digits_val d) else None)"

function discard_chunked :: "string \<Rightarrow> (unit, string) result" where
  "discard_chunked inp =
     (if inp = [] then Ok []
      else
        (case read_line inp of
           Inl e \<Rightarrow> Err e
         | Inr (size_line, rest) \<Rightarrow>
             let sz = unwrap_or 0 (parse_hex u64_max (str_trim (hd (split_on (CHR '';'') (str_trim size_line))))) in
             if sz = 0 then and_then (read_line rest) (\<lambda>(_, rest1). Ok rest1)
             else discard_chunked (discard_n (u64_add sz 2) rest)))"
  by pat_completeness auto
termination
  by (relation "measure length") (auto simp: discard_n_def dest!: read_line_shrinks)

declare discard_chunked.simps [simp del]

section \<open>Answers\<close>

definition stub_range :: "string \<Rightarrow> nat \<Rightarrow> (nat \<times> nat) option" where
  "stub_range h sz =
     (case strip_prefix h ''bytes='' of
        None \<Rightarrow> None
      | Some spec \<Rightarrow>
          (case split_once spec ''-'' of
             None \<Rightarrow> None
           | Some (a, b) \<Rightarrow>
               (case parse_unsigned u64_max a of
                  None \<Rightarrow> None
                | Some start \<Rightarrow>
                    (case (if b = [] then Some (u64_sub sz 1) else parse_unsigned u64_max b) of
                       None \<Rightarrow> None
                     | Some last_byte \<Rightarrow> Some (start, min last_byte (sz - 1))))))"

definition pad6 :: "nat \<Rightarrow> string" where
  "pad6 n = replicate (6 - length (show_nat n)) (CHR ''0'') @ show_nat n"

definition list_entry :: "string \<Rightarrow> nat \<Rightarrow> nat \<Rightarrow> string" where
  "list_entry prefix sz i =
     ''<Contents><Key>'' @ prefix @ ''obj_'' @ pad6 i @ ''.dat''
       @ ''</Key><LastModified>2024-01-01T00:00:00.000Z</LastModified><ETag>&quot;stub&quot;</ETag><Size>'' @ show_nat sz
       @ ''</Size><StorageClass>STANDARD</StorageClass></Contents>''"

definition list_xml :: "string \<Rightarrow> nat \<Rightarrow> nat \<Rightarrow> string" where
  "list_xml prefix n sz =
     ''<?xml version='' @ dq @ ''1.0'' @ dq @ '' encoding='' @ dq @ ''UTF-8'' @ dq @ ''?><ListBucketResult xmlns='' @ dq
       @ ''http://s3.amazonaws.com/doc/2006-03-01/'' @ dq @ ''><IsTruncated>false</IsTruncated>''
       @ concat (map (list_entry prefix sz) [0..<n])
       @ ''<KeyCount>'' @ show_nat n @ ''</KeyCount></ListBucketResult>''"

text \<open>The percent decoding of the prefix, which slices the string at byte positions: \<open>None\<close> is a panic.\<close>

fun stub_decode :: "string \<Rightarrow> string option" where
  "stub_decode [] = Some []"
| "stub_decode (c # s) =
     (if c = CHR ''%'' \<and> 2 \<le> length s then
        if is_cont (s ! 0) \<or> (2 < length s \<and> is_cont (s ! 2)) then None
        else map_option (\<lambda>r. char_of (unwrap_or 37 (parse_hex 255 (take 2 s))) # r) (stub_decode (drop 2 s))
      else map_option (\<lambda>r. (if c = CHR ''+'' then CHR '' '' else c) # r) (stub_decode s))"

definition url_decode :: "string \<Rightarrow> string option" where
  "url_decode s = map_option utf8_lossy (stub_decode s)"

definition with_body :: "nat \<Rightarrow> string \<Rightarrow> string \<Rightarrow> string \<Rightarrow> string" where
  "with_body code reason ctype body =
     ''HTTP/1.1 '' @ show_nat code @ '' '' @ reason @ CRLF @ ''Content-Type: '' @ ctype @ CRLF
       @ ''Content-Length: '' @ show_nat (length body) @ CRLF @ CRLF @ body"

definition etag_line :: string where
  "etag_line = ''ETag: '' @ dq @ ''stub'' @ dq @ CRLF"

definition octets_line :: string where
  "octets_line = ''Content-Type: application/octet-stream'' @ CRLF"

definition length_line :: "nat \<Rightarrow> string" where
  "length_line n = ''Content-Length: '' @ show_nat n @ CRLF"

definition object_answer :: "stub_config \<Rightarrow> string option \<Rightarrow> string" where
  "object_answer cfg rg =
     (case (case rg of None \<Rightarrow> None | Some r \<Rightarrow> stub_range r (sg_object_size cfg)) of
        Some (start, last_byte) \<Rightarrow>
          let len = u64_add (u64_sub last_byte start) 1 in
          ''HTTP/1.1 206 Partial Content'' @ CRLF @ length_line len
            @ ''Content-Range: bytes '' @ show_nat start @ ''-'' @ show_nat last_byte @ ''/'' @ show_nat (sg_object_size cfg) @ CRLF
            @ octets_line @ CRLF @ take (min len (length (stub_body cfg))) (stub_body cfg)
      | None \<Rightarrow>
          ''HTTP/1.1 200 OK'' @ CRLF @ length_line (sg_object_size cfg) @ octets_line @ etag_line @ CRLF @ stub_body cfg)"

definition list_prefix :: "string \<Rightarrow> string option" where
  "list_prefix query =
     (case filter (\<lambda>kv. starts_with kv ''prefix='') (split_on (CHR ''&'') query) of
        [] \<Rightarrow> Some [] | kv # _ \<Rightarrow> url_decode (drop (length ''prefix='') kv))"

text \<open>The bucket is not looked at; \<open>None\<close> is a panic.\<close>

definition stub_answer :: "stub_config \<Rightarrow> string \<Rightarrow> string \<Rightarrow> (string \<Rightarrow> string option) \<Rightarrow> string option" where
  "stub_answer cfg verb target hs =
     (let (path, query) = (case split_once target ''?'' of Some pq \<Rightarrow> pq | None \<Rightarrow> (target, []));
          trimmed_path = trim_start_matches (CHR ''/'') path;
          key = (case split_once trimmed_path ''/'' of Some (_, k) \<Rightarrow> k | None \<Rightarrow> []);
          is_object = (key \<noteq> [])
      in if verb = ''PUT'' \<and> is_object then Some (''HTTP/1.1 200 OK'' @ CRLF @ etag_line @ length_line 0 @ CRLF)
         else if verb = ''PUT'' then Some (''HTTP/1.1 200 OK'' @ CRLF @ length_line 0 @ CRLF)
         else if verb = ''POST'' \<and> contains_str query ''delete'' then
           Some (with_body 200 ''OK'' ''application/xml''
             (''<?xml version='' @ dq @ ''1.0'' @ dq @ '' encoding='' @ dq @ ''UTF-8'' @ dq @ ''?><DeleteResult></DeleteResult>''))
         else if verb = ''DELETE'' then Some (''HTTP/1.1 204 No Content'' @ CRLF @ length_line 0 @ CRLF)
         else if verb = ''HEAD'' \<and> is_object then
           Some (''HTTP/1.1 200 OK'' @ CRLF @ length_line (sg_object_size cfg) @ octets_line @ etag_line @ CRLF)
         else if verb = ''GET'' \<and> \<not> is_object \<and> contains_str query ''list-type=2'' then
           (case list_prefix query of
              None \<Rightarrow> None
            | Some prefix \<Rightarrow> Some (with_body 200 ''OK'' ''application/xml'' (list_xml prefix (sg_list_count cfg) (sg_object_size cfg))))
         else if verb = ''GET'' \<and> is_object then Some (object_answer cfg (hs ''range''))
         else Some (''HTTP/1.1 200 OK'' @ CRLF @ length_line 0 @ CRLF))"

section \<open>A connection\<close>

datatype conn_end = ConnClosed | ConnFailed | ConnPanicked

definition keep_alive :: "(string \<Rightarrow> string option) \<Rightarrow> bool" where
  "keep_alive hs = (case hs ''connection'' of Some c \<Rightarrow> \<not> eq_ignore_ascii_case c ''close'' | None \<Rightarrow> True)"

definition continue_answer :: "(string \<Rightarrow> string option) \<Rightarrow> string" where
  "continue_answer hs =
     (case hs ''expect'' of
        Some e \<Rightarrow> if eq_ignore_ascii_case e ''100-continue'' then ''HTTP/1.1 100 Continue'' @ CRLF @ CRLF else []
      | None \<Rightarrow> [])"

definition drain_body :: "(string \<Rightarrow> string option) \<Rightarrow> string \<Rightarrow> (unit, string) result" where
  "drain_body hs inp =
     (case (case hs ''content-length'' of None \<Rightarrow> None | Some v \<Rightarrow> parse_unsigned u64_max v) of
        Some cl \<Rightarrow> Ok (discard_n cl inp)
      | None \<Rightarrow>
          if (case hs ''transfer-encoding'' of Some t \<Rightarrow> contains_str (to_ascii_lowercase t) ''chunked'' | None \<Rightarrow> False)
          then discard_chunked inp else Ok inp)"

lemma discard_chunked_shrinks: "discard_chunked inp = Inr rest \<Longrightarrow> length rest \<le> length inp"
proof (induction inp arbitrary: rest rule: discard_chunked.induct)
  case (1 inp)
  show ?case
  proof (cases "inp = []")
    case True
    with "1.prems" show ?thesis by (simp add: discard_chunked.simps [of "[]"])
  next
    case False
    with "1.prems" obtain l r where l: "read_line inp = Inr (l, r)"
      by (auto simp: discard_chunked.simps [of inp] split: sum.splits)
    note shrink = read_line_shrinks [OF l False]
    let ?sz = "unwrap_or 0 (parse_hex u64_max (str_trim (hd (split_on (CHR '';'') (str_trim l)))))"
    show ?thesis
    proof (cases "?sz = 0")
      case True
      with "1.prems" False l obtain l1 where "read_line r = Inr (l1, rest)"
        by (auto simp: discard_chunked.simps [of inp] and_then_eq_Inr)
      then have "length rest \<le> length r" using arg_cong [OF cut_line_append [of r], of length] by (auto simp: read_line_def split: if_splits)
      with shrink show ?thesis by simp
    next
      case f: False
      with "1.prems" False l have "discard_chunked (discard_n (u64_add ?sz 2) r) = Inr rest" by (simp add: discard_chunked.simps [of inp] Let_def)
      from "1.IH" [OF False l refl refl f this] shrink show ?thesis by (simp add: discard_n_def)
    qed
  qed
qed

lemma drain_body_shrinks: "drain_body hs inp = Inr rest \<Longrightarrow> length rest \<le> length inp"
  using discard_chunked_shrinks by (auto simp: drain_body_def discard_n_def split: option.splits if_splits)

function handle_conn :: "stub_config \<Rightarrow> string \<Rightarrow> conn_end \<times> string" where
  "handle_conn cfg inp =
     (if inp = [] then (ConnClosed, [])
      else
        (case read_line inp of
           Inl _ \<Rightarrow> (ConnFailed, [])
         | Inr (l, rest) \<Rightarrow>
             if trim_end l = [] then handle_conn cfg rest
             else
               let words = split_whitespace (trim_end l);
                   verb = (case words of v # _ \<Rightarrow> v | [] \<Rightarrow> []);
                   target = (case words of _ # t # _ \<Rightarrow> t | _ \<Rightarrow> ''/'')
               in case read_headers (\<lambda>_. None) rest of
                    HeadersEof \<Rightarrow> (ConnClosed, [])
                  | HeadersBad \<Rightarrow> (ConnFailed, [])
                  | HeadersAt hs rest1 \<Rightarrow>
                      (case drain_body hs rest1 of
                         Inl _ \<Rightarrow> (ConnFailed, continue_answer hs)
                       | Inr rest2 \<Rightarrow>
                           (case stub_answer cfg verb target hs of
                              None \<Rightarrow> (ConnPanicked, continue_answer hs)
                            | Some answer \<Rightarrow>
                                if \<not> keep_alive hs then (ConnClosed, continue_answer hs @ answer)
                                else (case handle_conn cfg rest2 of
                                        (e, out) \<Rightarrow> (e, continue_answer hs @ answer @ out))))))"
  by pat_completeness auto
termination
  by (relation "measure (\<lambda>(cfg, inp). length inp)") (auto dest!: read_line_shrinks read_headers_shrinks drain_body_shrinks)

declare handle_conn.simps [simp del]

section \<open>Requests as a client writes them\<close>

definition visible :: "char \<Rightarrow> bool" where
  "visible c \<longleftrightarrow> 33 \<le> byte_of c \<and> byte_of c \<le> 126"

definition token :: "string \<Rightarrow> bool" where
  "token s \<longleftrightarrow> s \<noteq> [] \<and> list_all visible s"

definition tidy :: "string \<Rightarrow> bool" where
  "tidy s \<longleftrightarrow> s \<noteq> [] \<and> visible (hd s) \<and> visible (last s) \<and> list_all (\<lambda>c. visible c \<or> c = CHR 0x20) s"

datatype http_body = NoBody | Sized string | Chunked "(string \<times> string) list"

record http_request =
  rq_verb :: string
  rq_target :: string
  rq_headers :: "(string \<times> string) list"
  rq_body :: http_body

definition header_map :: "(string \<Rightarrow> string option) \<Rightarrow> (string \<times> string) list \<Rightarrow> string \<Rightarrow> string option" where
  "header_map m kvs = foldl (\<lambda>m (k, v). m(to_ascii_lowercase k \<mapsto> v)) m kvs"

definition request_headers :: "http_request \<Rightarrow> string \<Rightarrow> string option" where
  "request_headers q = header_map (\<lambda>_. None) (rq_headers q)"

definition render_headers :: "(string \<times> string) list \<Rightarrow> string" where
  "render_headers kvs = concat (map (\<lambda>(k, v). k @ '': '' @ v @ CRLF) kvs)"

definition render_chunks :: "(string \<times> string) list \<Rightarrow> string" where
  "render_chunks cs = concat (map (\<lambda>(n, d). n @ CRLF @ d @ CRLF) cs) @ ''0'' @ CRLF @ CRLF"

fun render_body :: "http_body \<Rightarrow> string" where
  "render_body NoBody = []"
| "render_body (Sized b) = b"
| "render_body (Chunked cs) = render_chunks cs"

definition render_request :: "http_request \<Rightarrow> string" where
  "render_request q =
     rq_verb q @ '' '' @ rq_target q @ '' HTTP/1.1'' @ CRLF @ render_headers (rq_headers q) @ CRLF @ render_body (rq_body q)"

definition good_chunk :: "string \<times> string \<Rightarrow> bool" where
  "good_chunk c \<longleftrightarrow>
     token (fst c) \<and> CHR '';'' \<notin> set (fst c) \<and> snd c \<noteq> [] \<and> length (snd c) + 2 \<le> u64_max
       \<and> parse_hex u64_max (fst c) = Some (length (snd c))"

fun framed :: "(string \<Rightarrow> string option) \<Rightarrow> http_body \<Rightarrow> bool" where
  "framed hs NoBody = (hs ''content-length'' = None \<and> hs ''transfer-encoding'' = None)"
| "framed hs (Sized b) = (length b \<le> u64_max \<and> hs ''content-length'' = Some (show_nat (length b)))"
| "framed hs (Chunked cs) =
     (list_all good_chunk cs \<and> hs ''content-length'' = None
        \<and> (case hs ''transfer-encoding'' of Some t \<Rightarrow> contains_str (to_ascii_lowercase t) ''chunked'' | None \<Rightarrow> False))"

definition good_header :: "string \<times> string \<Rightarrow> bool" where
  "good_header h \<longleftrightarrow> token (fst h) \<and> CHR '':'' \<notin> set (fst h) \<and> tidy (snd h)"

definition good_request :: "http_request \<Rightarrow> bool" where
  "good_request q \<longleftrightarrow>
     token (rq_verb q) \<and> token (rq_target q) \<and> list_all good_header (rq_headers q)
       \<and> framed (request_headers q) (rq_body q)"

section \<open>Reading what was rendered\<close>

definition ascii :: "string \<Rightarrow> bool" where
  "ascii s = list_all (\<lambda>c. byte_of c < 128) s"

lemma ascii_simps [simp]: "ascii []" "ascii (c # s) \<longleftrightarrow> byte_of c < 128 \<and> ascii s" "ascii (s @ t) \<longleftrightarrow> ascii s \<and> ascii t"
  by (simp_all add: ascii_def)

lemma token_ascii: "token s \<Longrightarrow> ascii s"
  by (auto simp: token_def ascii_def visible_def list_all_iff)

lemma tidy_ascii: "tidy s \<Longrightarrow> ascii s"
  by (auto simp: tidy_def ascii_def visible_def list_all_iff byte_of_def)

lemma token_tidy: "token s \<Longrightarrow> tidy s"
  by (simp add: token_def tidy_def list_all_iff)

lemma ascii_chars: "ascii s \<Longrightarrow> chars s = map (\<lambda>c. [c]) s"
proof (induction s)
  case (Cons c s)
  then have "takeWhile is_cont s = []" "dropWhile is_cont s = s"
    by (cases s; auto simp: is_cont_def)+
  with Cons show ?case by simp
qed simp

lemma concat_singles: "concat (map (\<lambda>c. [c]) s) = s"
  by (induction s) simp_all

lemma trimmed_singles: "concat (rev (dropWhile p (rev (map (\<lambda>c. [c]) s)))) = rev (dropWhile (\<lambda>c. p [c]) (rev s))"
proof -
  have "rev (dropWhile p (rev (map (\<lambda>c. [c]) s))) = map (\<lambda>c. [c]) (rev (dropWhile (\<lambda>c. p [c]) (rev s)))"
    by (simp only: rev_map dropWhile_map o_def)
  then show ?thesis by (simp only: concat_singles)
qed

lemma ascii_trim_end: "ascii s \<Longrightarrow> trim_end s = rev (dropWhile (\<lambda>c. is_white [c]) (rev s))"
  by (simp add: trim_end_def ascii_chars trimmed_singles)

lemma ascii_str_trim: "ascii s \<Longrightarrow> str_trim s = rev (dropWhile (\<lambda>c. is_white [c]) (rev (dropWhile (\<lambda>c. is_white [c]) s)))"
  by (simp add: str_trim_def ascii_chars dropWhile_map o_def trimmed_singles)

lemma visible_not_white: "visible c \<Longrightarrow> \<not> is_white [c]"
  by (auto simp: visible_def is_white_def)

lemma blank_white [simp]: "is_white [CHR 0x20]" "is_white [CHR 0x0D]" "is_white [CHR 0x0A]"
  by (simp_all add: is_white_def byte_of_def)

lemma tidy_snoc: "tidy s \<Longrightarrow> \<exists>t c. s = t @ [c] \<and> \<not> is_white [c]"
  by (cases s rule: rev_cases) (auto simp: tidy_def visible_not_white)

lemma tidy_Cons: "tidy s \<Longrightarrow> \<exists>t c. s = c # t \<and> \<not> is_white [c]"
  by (cases s) (auto simp: tidy_def visible_not_white)

lemma trim_end_crlf: "tidy s \<Longrightarrow> trim_end (s @ CRLF) = s"
  using tidy_snoc [of s] tidy_ascii [of s] by (auto simp: ascii_trim_end byte_of_def)

lemma str_trim_tidy: "tidy s \<Longrightarrow> str_trim s = s" "tidy s \<Longrightarrow> str_trim (CHR 0x20 # s) = s" "tidy s \<Longrightarrow> str_trim (s @ CRLF) = s"
proof -
  assume s: "tidy s"
  from tidy_snoc [OF s] have r: "dropWhile (\<lambda>c. is_white [c]) (rev s) = rev s" by auto
  moreover from tidy_Cons [OF s] have "dropWhile (\<lambda>c. is_white [c]) s = s" "dropWhile (\<lambda>c. is_white [c]) (s @ CRLF) = s @ CRLF" by auto
  ultimately show "str_trim s = s" "str_trim (CHR 0x20 # s) = s" "str_trim (s @ CRLF) = s"
    using tidy_ascii [OF s] by (simp_all add: ascii_str_trim byte_of_def)
qed

lemma read_line_crlf: "ascii s \<Longrightarrow> LF \<notin> set s \<Longrightarrow> read_line (s @ CRLF @ t) = Inr (s @ CRLF, t)"
proof -
  assume s: "ascii s" "LF \<notin> set s"
  have "cut_line (s @ CRLF @ t) = (s @ CRLF, t)"
    using s(2) by (induction s) (auto simp: cut_line_Cons)
  moreover have "utf8_valid (s @ CRLF)"
    by (rule utf8_valid_ascii) (use s(1) in \<open>auto simp: ascii_def list_all_iff byte_of_def\<close>)
  ultimately show ?thesis by (simp add: read_line_def)
qed

lemma tidy_no_LF: "tidy s \<Longrightarrow> LF \<notin> set s"
  by (auto simp: tidy_def visible_def list_all_iff byte_of_def)

lemma read_tidy_line: "tidy s \<Longrightarrow> read_line (s @ CRLF @ t) = Inr (s @ CRLF, t)"
  by (intro read_line_crlf tidy_ascii tidy_no_LF)

lemma read_empty_line: "read_line (CHR 0x0D # LF # t) = Inr (CRLF, t)"
  using read_line_crlf [of "[]" t] by simp

lemma trim_end_blank: "trim_end CRLF = []"
  by (simp add: ascii_trim_end byte_of_def)

lemma tidy_header: "good_header (k, v) \<Longrightarrow> tidy (k @ '': '' @ v)"
  using token_tidy [of k] by (auto simp: good_header_def tidy_def visible_def byte_of_def)

lemma add_good_header: "good_header (k, v) \<Longrightarrow> add_header m (k @ '': '' @ v) = m(to_ascii_lowercase k \<mapsto> v)"
  using split_once_single [of "CHR '':''" k "CHR 0x20 # v"]
  by (simp add: good_header_def add_header_def str_trim_tidy token_tidy)

lemma read_good_headers: "list_all good_header kvs \<Longrightarrow> read_headers m (render_headers kvs @ CRLF @ rest) = HeadersAt (header_map m kvs) rest"
proof (induction kvs arbitrary: m)
  case Nil
  show ?case by (simp add: render_headers_def header_map_def read_headers.simps [of m] read_empty_line trim_end_blank)
next
  case (Cons kv kvs)
  obtain k v where kv: "kv = (k, v)" by (cases kv)
  let ?l = "k @ '': '' @ v"
  from Cons.prems kv have g: "good_header (k, v)" by simp
  have "read_headers m (?l @ CRLF @ t) = read_headers (add_header m ?l) t" for t
    using g tidy_header [OF g] read_tidy_line [of ?l t] trim_end_crlf [of ?l]
    by (subst read_headers.simps) simp
  with Cons kv show ?case using add_good_header [OF g, of m] by (simp add: render_headers_def header_map_def)
qed

lemma white_words_token:
  assumes "token a"
  shows "white_words (map (\<lambda>c. [c]) (a @ CHR 0x20 # s)) = a # white_words (map (\<lambda>c. [c]) (CHR 0x20 # s))"
proof -
  from assms obtain c a' where a: "a = c # a'" "visible c" "list_all visible a'" by (cases a) (auto simp: token_def)
  have "\<forall>u \<in> set (map (\<lambda>c. [c]) a'). \<not> is_white u" using a(3) by (auto simp: list_all_iff visible_not_white)
  then have "takeWhile (\<lambda>v. \<not> is_white v) (map (\<lambda>c. [c]) a' @ [CHR 0x20] # t) = map (\<lambda>c. [c]) a'"
    "dropWhile (\<lambda>v. \<not> is_white v) (map (\<lambda>c. [c]) a' @ [CHR 0x20] # t) = [CHR 0x20] # t" for t
    by (auto simp: takeWhile_append dropWhile_append)
  then show ?thesis using a(1,2) by (subst white_words.simps) (simp add: visible_not_white concat_singles)
qed

lemma white_words_space: "white_words ([CHR 0x20] # us) = white_words us"
  by (subst (1 2) white_words.simps) simp

lemma request_words: "token a \<Longrightarrow> token b \<Longrightarrow> \<exists>ws. split_whitespace (a @ '' '' @ b @ '' HTTP/1.1'') = a # b # ws"
  using white_words_token [of a "b @ '' HTTP/1.1''"] white_words_token [of b "''HTTP/1.1''"] token_ascii [of a] token_ascii [of b]
  by (simp add: split_whitespace_def ascii_chars byte_of_def white_words_space)

lemma tidy_request_line: "token a \<Longrightarrow> token b \<Longrightarrow> tidy (a @ '' '' @ b @ '' HTTP/1.1'')"
  by (auto simp: token_def tidy_def visible_def byte_of_def list_all_iff)

section \<open>Bodies are drained exactly\<close>

lemma chunk_size_line: "token n \<Longrightarrow> CHR '';'' \<notin> set n \<Longrightarrow> str_trim (hd (split_on (CHR '';'') (str_trim (n @ CRLF)))) = n"
  by (simp add: str_trim_tidy token_tidy split_on_single)

lemma discard_last_chunk: "discard_chunked (''0'' @ CRLF @ CRLF @ rest) = Inr rest"
proof -
  have t: "token ''0''" by (simp add: token_def visible_def byte_of_def)
  have "parse_hex u64_max ''0'' = Some 0" by (simp add: parse_hex_def hex_digits_val_def hex_val_def byte_of_def strip_prefix_def)
  then show ?thesis
    using read_tidy_line [OF token_tidy [OF t], of "CRLF @ rest"] chunk_size_line [OF t]
    by (subst discard_chunked.simps) (simp add: read_empty_line)
qed

lemma discard_good_chunk: "good_chunk (n, d) \<Longrightarrow> discard_chunked (n @ CRLF @ d @ CRLF @ rest) = discard_chunked rest"
proof -
  assume g: "good_chunk (n, d)"
  then have n: "token n" "CHR '';'' \<notin> set n" "parse_hex u64_max n = Some (length d)" "d \<noteq> []" "u64_add (length d) 2 = length d + 2"
    by (simp_all add: good_chunk_def u64_add_eq)
  then show ?thesis
    using read_tidy_line [OF token_tidy [OF n(1)], of "d @ CRLF @ rest"] chunk_size_line [OF n(1,2)]
    by (subst discard_chunked.simps) (simp add: discard_n_def)
qed

lemma discard_good_chunks: "list_all good_chunk cs \<Longrightarrow> discard_chunked (render_chunks cs @ rest) = Inr rest"
proof (induction cs)
  case Nil
  show ?case using discard_last_chunk by (simp add: render_chunks_def)
next
  case (Cons c cs)
  then show ?case
    using discard_good_chunk [of "fst c" "snd c" "render_chunks cs @ rest"] by (simp add: render_chunks_def case_prod_unfold)
qed

lemma drain_framed: "framed hs b \<Longrightarrow> drain_body hs (render_body b @ rest) = Inr rest"
  by (cases b) (auto simp: drain_body_def discard_n_def parse_show_unsigned discard_good_chunks split: option.splits)

section \<open>No panic on ASCII targets\<close>

lemma stub_decode_ascii: "ascii s \<Longrightarrow> stub_decode s \<noteq> None"
proof (induction s rule: stub_decode.induct)
  case (2 c s)
  then have "ascii (drop 2 s)" by (auto simp: ascii_def list_all_iff dest: in_set_dropD)
  moreover have nc: "\<not> is_cont (s ! i)" if "i < length s" for i using 2 that by (auto simp: ascii_def list_all_length is_cont_def)
  moreover have "2 \<le> length s \<Longrightarrow> \<not> is_cont (s ! 0)" by (rule nc) auto
  ultimately show ?case using 2 by auto
qed simp

lemma split_on_subset: "x \<in> set (split_on d s) \<Longrightarrow> set x \<subseteq> set s"
proof (induction s arbitrary: x)
  case (Cons c s)
  then show ?case by (cases "split_on d s") (fastforce split: if_splits)+
qed simp

lemma list_prefix_ascii: "ascii query \<Longrightarrow> list_prefix query \<noteq> None"
proof -
  assume q: "ascii query"
  have "url_decode (drop n kv) \<noteq> None" if "kv \<in> set (split_on (CHR ''&'') query)" for n kv
  proof -
    from split_on_subset [OF that] q have "ascii (drop n kv)" by (auto simp: ascii_def list_all_iff dest: in_set_dropD)
    then show ?thesis using stub_decode_ascii by (simp add: url_decode_def)
  qed
  then show ?thesis
    by (auto simp: list_prefix_def split: list.split dest: filter_eq_ConsD)
qed

lemma stub_answer_total: "ascii target \<Longrightarrow> \<exists>a. stub_answer cfg verb target hs = Some a"
proof -
  assume t: "ascii target"
  define pq where "pq = (case split_once target ''?'' of Some pq \<Rightarrow> pq | None \<Rightarrow> (target, []))"
  have "ascii (snd pq)"
    using t by (cases "split_once target ''?''") (auto simp: pq_def dest!: split_once_Some)
  from list_prefix_ascii [OF this] obtain x where "list_prefix (snd pq) = Some x" by blast
  then show ?thesis
    unfolding stub_answer_def Let_def pq_def [symmetric] case_prod_unfold by simp
qed

section \<open>One answer per request\<close>

definition reply :: "stub_config \<Rightarrow> http_request \<Rightarrow> string" where
  "reply cfg q = continue_answer (request_headers q) @ unwrap_or [] (stub_answer cfg (rq_verb q) (rq_target q) (request_headers q))"

lemma handle_conn_request:
  assumes "good_request q"
  shows "handle_conn cfg (render_request q @ rest) =
    (if keep_alive (request_headers q) then apsnd ((@) (reply cfg q)) (handle_conn cfg rest) else (ConnClosed, reply cfg q))"
proof -
  let ?line = "rq_verb q @ '' '' @ rq_target q @ '' HTTP/1.1''"
  let ?hs = "request_headers q"
  note t = assms [unfolded good_request_def]
  have td: "tidy ?line" by (rule tidy_request_line) (use t in simp_all)
  from request_words t obtain ws where ws: "split_whitespace ?line = rq_verb q # rq_target q # ws" by blast
  from stub_answer_total [OF token_ascii] t obtain a where a: "stub_answer cfg (rq_verb q) (rq_target q) ?hs = Some a" by blast
  have h: "read_headers (\<lambda>_. None) (render_headers (rq_headers q) @ CRLF @ r) = HeadersAt ?hs r" for r
    unfolding request_headers_def by (rule read_good_headers) (use t in simp)
  have "handle_conn cfg (?line @ CRLF @ render_headers (rq_headers q) @ CRLF @ render_body (rq_body q) @ rest) =
      (if keep_alive ?hs then apsnd ((@) (reply cfg q)) (handle_conn cfg rest) else (ConnClosed, reply cfg q))"
    using td ws a h [of "render_body (rq_body q) @ rest"] drain_framed [of ?hs "rq_body q" rest] t
      read_tidy_line [OF td, of "render_headers (rq_headers q) @ CRLF @ render_body (rq_body q) @ rest"] trim_end_crlf [OF td]
    by (subst handle_conn.simps) (simp add: reply_def case_prod_unfold apsnd_def map_prod_def)
  then show ?thesis by (simp add: render_request_def)
qed

lemma handle_conn_requests:
  assumes "list_all good_request qs" "list_all (\<lambda>q. keep_alive (request_headers q)) qs"
  shows "handle_conn cfg (concat (map render_request qs) @ rest) = apsnd ((@) (concat (map (reply cfg) qs))) (handle_conn cfg rest)"
  using assms by (induction qs) (simp_all add: handle_conn_request prod.expand apsnd_def map_prod_def case_prod_unfold)

text \<open>
  A range that lies within the object is answered with its length and as many bytes.
\<close>

lemma stub_range_within:
  assumes "a \<le> b" "b < n" "n \<le> u64_max"
  shows "stub_range (''bytes='' @ show_nat a @ ''-'' @ show_nat b) n = Some (a, b)"
proof -
  have "CHR ''-'' \<notin> set (show_nat a)" using show_nat_digits [of a] by (auto simp: list_all_iff is_digit_def byte_of_def)
  from split_once_single [OF this, of "show_nat b"] show ?thesis
    using assms show_nat_digits [of b] by (simp add: stub_range_def strip_prefix_def parse_show_unsigned)
qed

lemma object_answer_range:
  assumes "a \<le> b" "b < sg_object_size cfg" "sg_object_size cfg \<le> u64_max"
  shows "object_answer cfg (Some (''bytes='' @ show_nat a @ ''-'' @ show_nat b)) =
    ''HTTP/1.1 206 Partial Content'' @ CRLF @ length_line (b - a + 1)
      @ ''Content-Range: bytes '' @ show_nat a @ ''-'' @ show_nat b @ ''/'' @ show_nat (sg_object_size cfg) @ CRLF
      @ octets_line @ CRLF @ replicate (b - a + 1) (CHR ''x'')"
proof -
  have "u64_add (u64_sub b a) 1 = b - a + 1" using assms by (simp add: u64_sub_eq u64_add_eq)
  with assms stub_range_within [OF assms] show ?thesis
    by (simp add: object_answer_def Let_def stub_body_def min_absorb1)
qed

text \<open>A range past the end of the object is not refused: the announced length wraps around.\<close>

lemma range_past_end_wraps: "object_answer (\<lparr>sg_object_size = 4, sg_list_count = 0\<rparr>) (Some (''bytes='' @ show_nat 9 @ ''-'')) =
    ''HTTP/1.1 206 Partial Content'' @ CRLF @ length_line 18446744073709551611
      @ ''Content-Range: bytes '' @ show_nat 9 @ ''-'' @ show_nat 3 @ ''/'' @ show_nat 4 @ CRLF @ octets_line @ CRLF @ ''xxxx''"
proof -
  have "split_once (show_nat 9 @ ''-'') ''-'' = Some (show_nat 9, [])" by code_simp
  then have "stub_range (''bytes='' @ show_nat 9 @ ''-'') 4 = Some (9, 3)"
    by (simp add: stub_range_def strip_prefix_def parse_show_unsigned u64_sub_def)
  moreover have "replicate 4 (CHR ''x'') = ''xxxx''" by code_simp
  ultimately show ?thesis by (simp add: object_answer_def stub_body_def u64_sub_def u64_add_def)
qed

text \<open>
  C34. One answer for each request of a connection: when a client writes any number of well-formed
  keep-alive requests one behind the other, with no body, a body of announced length or a chunked
  body, the server answers each of them, in order, with the interim answer where it was asked
  for, and ends with the client. After a request that asks to close it answers that one and reads no
  further, whatever follows. None of the answers is a panic.
\<close>

theorem handle_conn_answers_each:
  assumes "list_all good_request (qs @ [q])" "list_all (\<lambda>r. keep_alive (request_headers r)) qs"
    and "\<not> keep_alive (request_headers q)"
  shows "handle_conn cfg (concat (map render_request qs)) = (ConnClosed, concat (map (reply cfg) qs))
    \<and> handle_conn cfg (concat (map render_request (qs @ [q])) @ rest) = (ConnClosed, concat (map (reply cfg) (qs @ [q])))
    \<and> list_all (\<lambda>r. stub_answer cfg (rq_verb r) (rq_target r) (request_headers r) \<noteq> None) (qs @ [q])"
proof -
  have "handle_conn cfg [] = (ConnClosed, [])" by (simp add: handle_conn.simps [of cfg "[]"])
  moreover have "stub_answer cfg (rq_verb r) (rq_target r) (request_headers r) \<noteq> None" if "good_request r" for r
    using that stub_answer_total token_ascii by (fastforce simp: good_request_def)
  ultimately show ?thesis
    using assms handle_conn_requests [of qs cfg "[]"] handle_conn_requests [of qs cfg "render_request q @ rest"]
      handle_conn_request [of q cfg rest]
    by (simp add: list_all_iff)
qed

definition sample_requests :: "http_request list" where
  "sample_requests =
     [\<lparr>rq_verb = ''GET'', rq_target = ''/b/k'', rq_headers = [(''Host'', ''h'')], rq_body = NoBody\<rparr>,
      \<lparr>rq_verb = ''PUT'', rq_target = ''/b/k'', rq_headers = [(''Content-Length'', ''2''), (''Expect'', ''100-continue'')], rq_body = Sized ''hi''\<rparr>,
      \<lparr>rq_verb = ''PUT'', rq_target = ''/b/k'', rq_headers = [(''Transfer-Encoding'', ''chunked'')], rq_body = Chunked [(''3'', ''abc'')]\<rparr>]"

definition last_request :: http_request where
  "last_request = \<lparr>rq_verb = ''DELETE'', rq_target = ''/b/k'', rq_headers = [(''Connection'', ''close'')], rq_body = NoBody\<rparr>"

lemma sample_chunk: "good_chunk (''3'', ''abc'')"
  by (simp add: good_chunk_def token_def visible_def byte_of_def parse_hex_def hex_digits_val_def hex_val_def strip_prefix_def)

lemma sample_headers:
  "list_all (\<lambda>r. token (rq_verb r) \<and> token (rq_target r) \<and> list_all good_header (rq_headers r)) (sample_requests @ [last_request])"
  "list_all (\<lambda>r. keep_alive (request_headers r)) sample_requests" "\<not> keep_alive (request_headers last_request)"
  by code_simp+

lemma sample_framed: "list_all (\<lambda>r. framed (request_headers r) (rq_body r)) (sample_requests @ [last_request])"
proof -
  have low: "map to_ascii_lowercase [''Host'', ''Content-Length'', ''Expect'', ''Transfer-Encoding'', ''Connection''] =
      [''host'', ''content-length'', ''expect'', ''transfer-encoding'', ''connection'']"
    by code_simp
  have "show_nat (length ''hi'') = ''2''" by code_simp
  moreover have "contains_str (to_ascii_lowercase ''chunked'') ''chunked''" by code_simp
  moreover have "map request_headers (sample_requests @ [last_request]) =
    [[''host'' \<mapsto> ''h''], [''content-length'' \<mapsto> ''2'', ''expect'' \<mapsto> ''100-continue''],
     [''transfer-encoding'' \<mapsto> ''chunked''], [''connection'' \<mapsto> ''close'']]"
    using low by (simp add: sample_requests_def last_request_def request_headers_def header_map_def)
  ultimately show ?thesis using sample_chunk by (simp add: sample_requests_def last_request_def)
qed

lemma sample_requests_good: "list_all good_request (sample_requests @ [last_request])"
  using sample_headers(1) sample_framed by (simp add: good_request_def list_all_iff)

theorem handle_conn_answers_each_witness:
  "list_all good_request (sample_requests @ [last_request])
    \<and> handle_conn (\<lparr>sg_object_size = 4, sg_list_count = 0\<rparr>) (concat (map render_request (sample_requests @ [last_request])) @ ''rest'') =
      (ConnClosed, concat (map (reply (\<lparr>sg_object_size = 4, sg_list_count = 0\<rparr>)) (sample_requests @ [last_request])))"
  using handle_conn_answers_each [OF sample_requests_good sample_headers(2,3), of "\<lparr>sg_object_size = 4, sg_list_count = 0\<rparr>" "''rest''"]
    sample_requests_good by simp

end
