(* ===== verification/Proxy.thy ===== *)
theory Proxy
  imports S3_Client
begin

text \<open>
  The HTTP client of the S3 back end where the default one does not do (\<^verbatim>\<open>src/storage/s3.rs\<close>): the proxy
  URL, certificate bundles, and tunnels through a SOCKS5 or HTTP proxy. The crates \<^verbatim>\<open>url\<close>, \<^verbatim>\<open>base64\<close>,
  \<^verbatim>\<open>rustls\<close>, \<^verbatim>\<open>tokio-socks\<close> and the sockets are parameters. A tunnel is opened exactly when the answer of
  the proxy has a head of bounded length with a good status line, and it starts right behind that head.
\<close>

section \<open>The proxy\<close>

text \<open>What \<^verbatim>\<open>url::Url\<close> gives of a URL; \<open>port\<close> is the one written or that of the scheme.\<close>

record parsed_url =
  pu_scheme :: string
  pu_host :: "string option"
  pu_port :: "nat option"
  pu_username :: string
  pu_password :: "string option"

record proxy_config =
  px_socks5 :: bool
  px_host :: string
  px_port :: nat
  px_auth :: "(string \<times> string) option"

definition proxy_scheme :: "(string \<Rightarrow> string) \<Rightarrow> string \<Rightarrow> (error, bool) result" where
  "proxy_scheme debug scheme =
     (if scheme \<in> {''socks5'', ''socks5h''} then Ok True
      else if scheme \<in> {''http'', ''https''} then Ok False
      else Err (Message (''unsupported proxy scheme '' @ debug scheme @ '' (use socks5/socks5h/http/https)'')))"

definition proxy_parse :: "(string \<Rightarrow> string) \<Rightarrow> (string \<Rightarrow> (string, parsed_url) result) \<Rightarrow> string \<Rightarrow> (error, proxy_config) result" where
  "proxy_parse debug parse_web_url s =
     (case parse_web_url s of
        Inl e \<Rightarrow> Err (Message (''invalid proxy URL '' @ debug s @ '': '' @ e))
      | Inr u \<Rightarrow>
          and_then (proxy_scheme debug (to_ascii_lowercase (pu_scheme u))) (\<lambda>socks5.
            (case pu_host u of
               None \<Rightarrow> Err (Message (''proxy URL '' @ debug s @ '' has no host''))
             | Some host \<Rightarrow>
                 (case pu_port u of
                    None \<Rightarrow> Err (Message (''proxy URL '' @ debug s @ '' has no port''))
                  | Some port \<Rightarrow>
                      Ok \<lparr>px_socks5 = socks5, px_host = host, px_port = port,
                          px_auth = (if pu_username u \<noteq> [] then Some (pu_username u, unwrap_or [] (pu_password u)) else None)\<rparr>))))"

definition proxy_addr :: "proxy_config \<Rightarrow> string" where
  "proxy_addr p = px_host p @ '':'' @ show_nat (px_port p)"

section \<open>Certificates\<close>

definition load_ca_bundle ::
  "(string \<Rightarrow> (string, string) result) \<Rightarrow> (string \<Rightarrow> (string, 'cert list) result) \<Rightarrow> string \<Rightarrow> (error, 'cert list) result" where
  "load_ca_bundle read_path pem_certs path =
     (case read_path path of
        Inl e \<Rightarrow> Err (Message (''ca-certs-file '' @ path @ '': '' @ e))
      | Inr pem \<Rightarrow>
          (case pem_certs pem of
             Inl e \<Rightarrow> Err (Message (''parsing ca-certs-file '' @ path @ '': '' @ e))
           | Inr certs \<Rightarrow>
               if certs = [] then Err (Message (''ca-certs-file '' @ path @ '' contained no certificates'')) else Ok certs))"

fun add_roots :: "('cert \<Rightarrow> (string, unit) result) \<Rightarrow> 'cert list \<Rightarrow> 'cert list \<Rightarrow> (error, 'cert list) result" where
  "add_roots add_root roots [] = Ok roots"
| "add_roots add_root roots (c # cs) =
     (case add_root c of
        Inl e \<Rightarrow> Err (Message (''adding ca-certs-file cert: '' @ e))
      | Inr _ \<Rightarrow> add_roots add_root (roots @ [c]) cs)"

text \<open>The client: which certificates a server may show, and through which proxy it is reached.\<close>

datatype 'cert tls_trust = TrustAny | TrustRoots "'cert list"

record 'cert sdk_http_client =
  hc_trust :: "'cert tls_trust"
  hc_proxy :: "proxy_config option"

record 'cert tls_env =
  te_read :: "string \<Rightarrow> (string, string) result"
  te_pem :: "string \<Rightarrow> (string, 'cert list) result"
  te_add :: "'cert \<Rightarrow> (string, unit) result"
  te_bundled :: "'cert list"

definition client_roots :: "'cert tls_env \<Rightarrow> string option \<Rightarrow> (error, 'cert list) result" where
  "client_roots T ca_certs =
     (case ca_certs of
        None \<Rightarrow> Ok (te_bundled T)
      | Some path \<Rightarrow> and_then (load_ca_bundle (te_read T) (te_pem T) path) (add_roots (te_add T) (te_bundled T)))"

definition build_sdk_http_client ::
  "'cert tls_env \<Rightarrow> bool \<Rightarrow> proxy_config option \<Rightarrow> string option \<Rightarrow> (error, 'cert sdk_http_client) result" where
  "build_sdk_http_client T no_verify proxy ca_certs =
     (if no_verify then Ok \<lparr>hc_trust = TrustAny, hc_proxy = proxy\<rparr>
      else and_then (client_roots T ca_certs) (\<lambda>roots. Ok \<lparr>hc_trust = TrustRoots roots, hc_proxy = proxy\<rparr>))"

section \<open>Tunnels\<close>

text \<open>
  Sockets, with an open connection of type \<open>'c\<close>: a read returns one byte or the end of the stream.
\<close>

record 'c tunnel_net =
  tn_lookup :: "string \<Rightarrow> (error, string list) result"
  tn_connect :: "string \<Rightarrow> (error, 'c) result"
  tn_socks5 :: "string \<Rightarrow> string \<Rightarrow> nat \<Rightarrow> (string \<times> string) option \<Rightarrow> (error, 'c) result"
  tn_write :: "'c \<Rightarrow> string \<Rightarrow> (error, 'c) result"
  tn_read :: "'c \<Rightarrow> (error, char option \<times> 'c) result"

definition connect_via_socks5 :: "'c tunnel_net \<Rightarrow> proxy_config \<Rightarrow> string \<Rightarrow> nat \<Rightarrow> (error, 'c) result" where
  "connect_via_socks5 N p host port =
     and_then (tn_lookup N (proxy_addr p)) (\<lambda>addrs.
       (case addrs of
          [] \<Rightarrow> Err (Message (''proxy '' @ proxy_addr p @ '' did not resolve''))
        | proxy_sa # _ \<Rightarrow> tn_socks5 N proxy_sa host port (px_auth p)))"

abbreviation crlf :: string where
  "crlf \<equiv> [CHR 0x0D, CHR 0x0A]"

definition connect_request :: "(string \<Rightarrow> string) \<Rightarrow> proxy_config \<Rightarrow> string \<Rightarrow> nat \<Rightarrow> string" where
  "connect_request base64 p host port =
     ''CONNECT '' @ host @ '':'' @ show_nat port @ '' HTTP/1.1'' @ crlf @ ''Host: '' @ host @ '':'' @ show_nat port @ crlf
       @ (case px_auth p of
            Some (u, pw) \<Rightarrow> ''Proxy-Authorization: Basic '' @ base64 (u @ '':'' @ pw) @ crlf
          | None \<Rightarrow> [])
       @ crlf"

abbreviation HEAD_MAX :: nat where
  "HEAD_MAX \<equiv> 8192"

function read_head :: "('c \<Rightarrow> (error, char option \<times> 'c) result) \<Rightarrow> string \<Rightarrow> 'c \<Rightarrow> (error, string \<times> 'c) result" where
  "read_head rd buf c =
     (case rd c of
        Inl e \<Rightarrow> Err e
      | Inr (None, _) \<Rightarrow> Err (Message ''proxy closed connection during CONNECT'')
      | Inr (Some b, c1) \<Rightarrow>
          if ends_with (buf @ [b]) (crlf @ crlf) then Ok (buf @ [b], c1)
          else if HEAD_MAX < length (buf @ [b]) then Err (Message ''proxy CONNECT response headers too large'')
          else read_head rd (buf @ [b]) c1)"
  by pat_completeness auto
termination
  by (relation "measure (\<lambda>(rd, buf, c). Suc HEAD_MAX - length buf)") auto

declare read_head.simps [simp del]

definition status_line :: "string \<Rightarrow> string" where
  "status_line buf = (case str_lines (utf8_lossy buf) of l # _ \<Rightarrow> l | [] \<Rightarrow> [])"

definition connect_via_http :: "'c tunnel_net \<Rightarrow> (string \<Rightarrow> string) \<Rightarrow> proxy_config \<Rightarrow> string \<Rightarrow> nat \<Rightarrow> (error, 'c) result" where
  "connect_via_http N base64 p host port =
     and_then (tn_connect N (proxy_addr p)) (\<lambda>c.
       and_then (tn_write N c (connect_request base64 p host port)) (\<lambda>c1.
         and_then (read_head (tn_read N) [] c1) (\<lambda>(buf, c2).
           if contains_str (status_line buf) '' 200'' then Ok c2
           else Err (Message (''proxy CONNECT failed: '' @ status_line buf)))))"

record target_uri =
  tu_scheme :: "string option"
  tu_host :: "string option"
  tu_port :: "nat option"

definition proxy_call :: "'c tunnel_net \<Rightarrow> (string \<Rightarrow> string) \<Rightarrow> proxy_config \<Rightarrow> target_uri \<Rightarrow> (error, 'c) result" where
  "proxy_call N base64 p dst =
     (case tu_host dst of
        None \<Rightarrow> Err (Message ''proxy: target URI has no host'')
      | Some host \<Rightarrow>
          let port = unwrap_or (if tu_scheme dst = Some ''https'' then 443 else 80) (tu_port dst) in
          if px_socks5 p then connect_via_socks5 N p host port else connect_via_http N base64 p host port)"

section \<open>Reading the head of the answer\<close>

text \<open>A head ends with the first empty line.\<close>

definition first_head :: "string \<Rightarrow> bool" where
  "first_head h \<longleftrightarrow> ends_with h (crlf @ crlf) \<and> (\<forall>k < length h. \<not> ends_with (take k h) (crlf @ crlf))"

definition open_head :: "string \<Rightarrow> bool" where
  "open_head b \<longleftrightarrow> length b \<le> HEAD_MAX \<and> (\<forall>k \<le> length b. \<not> ends_with (take k b) (crlf @ crlf))"

lemma open_head_Nil [simp]: "open_head []"
  by (simp add: open_head_def ends_with_def)

lemma open_head_snoc: "open_head b \<Longrightarrow> \<not> ends_with (b @ [x]) (crlf @ crlf) \<Longrightarrow> length b < HEAD_MAX \<Longrightarrow> open_head (b @ [x])"
  by (auto simp: open_head_def le_Suc_eq)

lemma first_head_snoc: "open_head b \<Longrightarrow> ends_with (b @ [x]) (crlf @ crlf) \<Longrightarrow> first_head (b @ [x]) \<and> length (b @ [x]) \<le> Suc HEAD_MAX"
  by (auto simp: open_head_def first_head_def less_Suc_eq_le)

text \<open>What the reader relies on in a socket: the bytes come in the order the other side sent them.\<close>

locale peer_stream =
  fixes rd :: "'c \<Rightarrow> (error, char option \<times> 'c) result"
    and pending :: "'c \<Rightarrow> string"
  assumes read_byte: "rd c = Inr (Some b, c') \<Longrightarrow> pending c = b # pending c'"
    and read_end: "rd c = Inr (None, c') \<Longrightarrow> pending c = []"
begin

lemma read_head_sound:
  "read_head rd buf c = Inr (h, c') \<Longrightarrow> open_head buf
     \<Longrightarrow> \<exists>t. h = buf @ t \<and> pending c = t @ pending c' \<and> first_head h \<and> length h \<le> Suc HEAD_MAX"
proof (induction "Suc HEAD_MAX - length buf" arbitrary: buf c rule: less_induct)
  case less
  from less.prems(1) obtain b c1 where r: "rd c = Inr (Some b, c1)"
    by (auto simp: read_head.simps [of rd buf c] split: sum.splits prod.splits option.splits)
  note step = less.prems(1) [unfolded read_head.simps [of rd buf c] r, simplified]
  show ?case
  proof (cases "ends_with (buf @ [b]) (crlf @ crlf)")
    case True
    with step first_head_snoc [OF less.prems(2) True] read_byte [OF r] show ?thesis by auto
  next
    case False
    with step have l: "length buf < HEAD_MAX" "read_head rd (buf @ [b]) c1 = Inr (h, c')" by (auto split: if_splits)
    have "Suc HEAD_MAX - length (buf @ [b]) < Suc HEAD_MAX - length buf" using l(1) by simp
    from less.hyps [OF this l(2) open_head_snoc [OF less.prems(2) False l(1)]] read_byte [OF r] show ?thesis by auto
  qed
qed

end

text \<open>A socket on which no read fails reads every head of admissible length.\<close>

locale healthy_peer = peer_stream +
  assumes read_ok: "rd c \<noteq> Inl e"
begin

lemma read_pending: "pending c = b # r \<Longrightarrow> \<exists>c'. rd c = Inr (Some b, c') \<and> pending c' = r"
  using read_ok [of c] read_end [of c] read_byte [of c]
  by (cases "rd c") (fastforce split: option.splits elim: option.exhaust)+

lemma read_head_complete:
  "pending c = t @ r \<Longrightarrow> t \<noteq> [] \<Longrightarrow> first_head (buf @ t) \<Longrightarrow> length (buf @ t) \<le> Suc HEAD_MAX
     \<Longrightarrow> \<exists>c'. read_head rd buf c = Inr (buf @ t, c') \<and> pending c' = r"
proof (induction t arbitrary: buf c)
  case (Cons b t)
  from Cons.prems(1) obtain c1 where c1: "rd c = Inr (Some b, c1)" "pending c1 = t @ r"
    using read_pending [of c b "t @ r"] by auto
  show ?case
  proof (cases "t = []")
    case True
    with Cons.prems c1 show ?thesis by (simp add: read_head.simps [of rd buf c] first_head_def)
  next
    case False
    then have "length (buf @ [b]) < length (buf @ b # t)" by simp
    with Cons.prems(3) have "\<not> ends_with (buf @ [b]) (crlf @ crlf)" unfolding first_head_def by fastforce
    moreover have "\<not> HEAD_MAX < length (buf @ [b])" using Cons.prems(4) False by (cases t) auto
    ultimately have "read_head rd buf c = read_head rd (buf @ [b]) c1" using c1(1) by (simp add: read_head.simps [of rd buf c])
    with Cons.IH [OF c1(2) False, of "buf @ [b]"] Cons.prems(3,4) show ?thesis by simp
  qed
qed simp

end

section \<open>Sockets in memory\<close>

text \<open>The listeners of a network answer what is written to them; nothing else arrives.\<close>

record mem_socket =
  ms_peer :: "string \<Rightarrow> string"
  ms_sent :: string
  ms_pending :: string

definition sock_read :: "mem_socket \<Rightarrow> (error, char option \<times> mem_socket) result" where
  "sock_read c = (case ms_pending c of [] \<Rightarrow> Ok (None, c) | b # r \<Rightarrow> Ok (Some b, c\<lparr>ms_pending := r\<rparr>))"

definition sock_write :: "mem_socket \<Rightarrow> string \<Rightarrow> (error, mem_socket) result" where
  "sock_write c s = Ok (c\<lparr>ms_sent := ms_sent c @ s, ms_pending := ms_pending c @ ms_peer c s\<rparr>)"

definition mem_tunnels :: "(string \<Rightarrow> (string \<Rightarrow> string) option) \<Rightarrow> mem_socket tunnel_net" where
  "mem_tunnels W =
     \<lparr>tn_lookup = (\<lambda>a. Ok [a]),
      tn_connect = (\<lambda>a. case W a of Some f \<Rightarrow> Ok \<lparr>ms_peer = f, ms_sent = [], ms_pending = []\<rparr> | None \<Rightarrow> Err (IoError ''refused'' None)),
      tn_socks5 = (\<lambda>a host port auth. Err (IoError ''refused'' None)),
      tn_write = sock_write, tn_read = sock_read\<rparr>"

interpretation sock: healthy_peer sock_read ms_pending
  by unfold_locales (auto simp: sock_read_def split: list.splits)

lemma sock_read_keeps: "sock_read c = Inr (b, c') \<Longrightarrow> ms_peer c' = ms_peer c \<and> ms_sent c' = ms_sent c"
  by (auto simp: sock_read_def split: list.splits)

lemma read_head_keeps: "read_head sock_read buf c = Inr (h, c') \<Longrightarrow> ms_peer c' = ms_peer c \<and> ms_sent c' = ms_sent c"
proof (induction "Suc HEAD_MAX - length buf" arbitrary: buf c rule: less_induct)
  case less
  from less.prems obtain b c1 where r: "sock_read c = Inr (Some b, c1)"
    by (auto simp: read_head.simps [of sock_read buf c] split: sum.splits prod.splits option.splits)
  note step = less.prems [unfolded read_head.simps [of sock_read buf c] r, simplified]
  show ?case
  proof (cases "ends_with (buf @ [b]) (crlf @ crlf)")
    case True
    with step sock_read_keeps [OF r] show ?thesis by auto
  next
    case False
    with step have l: "length buf < HEAD_MAX" "read_head sock_read (buf @ [b]) c1 = Inr (h, c')" by (auto split: if_splits)
    have "Suc HEAD_MAX - length (buf @ [b]) < Suc HEAD_MAX - length buf" using l(1) by simp
    from less.hyps [OF this l(2)] sock_read_keeps [OF r] show ?thesis by auto
  qed
qed

lemma read_head_sock:
  "read_head sock_read [] c = Inr (h, c') \<longleftrightarrow>
     (\<exists>r. ms_pending c = h @ r \<and> first_head h \<and> length h \<le> Suc HEAD_MAX \<and> c' = c\<lparr>ms_pending := r\<rparr>)"
proof
  assume a: "read_head sock_read [] c = Inr (h, c')"
  from sock.read_head_sound [OF a] read_head_keeps [OF a]
  show "\<exists>r. ms_pending c = h @ r \<and> first_head h \<and> length h \<le> Suc HEAD_MAX \<and> c' = c\<lparr>ms_pending := r\<rparr>"
    by (cases c, cases c') auto
next
  assume "\<exists>r. ms_pending c = h @ r \<and> first_head h \<and> length h \<le> Suc HEAD_MAX \<and> c' = c\<lparr>ms_pending := r\<rparr>"
  then obtain r where r: "ms_pending c = h @ r" "first_head h" "length h \<le> Suc HEAD_MAX" "c' = c\<lparr>ms_pending := r\<rparr>" by blast
  then have "h \<noteq> []" by (auto simp: first_head_def ends_with_def)
  with sock.read_head_complete [of c h r "[]"] r obtain c2 where c2: "read_head sock_read [] c = Inr (h, c2)" "ms_pending c2 = r" by auto
  with read_head_keeps [OF c2(1)] r(4) show "read_head sock_read [] c = Inr (h, c')" by (cases c, cases c2) auto
qed

text \<open>
  C32. A tunnel through an HTTP proxy is opened if and only if the proxy answers the request with a
  head, ended by its first empty line, of at most 8193 bytes whose status line contains the code;
  the tunnel then carries exactly what the proxy sent behind that head, and nothing but the request
  has been written.
\<close>

theorem connect_tunnel_exact:
  "connect_via_http (mem_tunnels W) base64 p host port = Inr c \<longleftrightarrow>
     (\<exists>f h r. W (proxy_addr p) = Some f \<and> f (connect_request base64 p host port) = h @ r
        \<and> first_head h \<and> length h \<le> Suc HEAD_MAX \<and> contains_str (status_line h) '' 200''
        \<and> c = \<lparr>ms_peer = f, ms_sent = connect_request base64 p host port, ms_pending = r\<rparr>)"
  by (cases "W (proxy_addr p)")
    (auto simp: connect_via_http_def mem_tunnels_def and_then_eq_Inr sock_write_def read_head_sock split: if_splits)

section \<open>The client of a connection to S3\<close>

text \<open>
  With the proxy URL parsed and the bundle loaded as above, creating the back end succeeds only if
  the client it needs can be built: one that trusts any certificate exactly under \<^verbatim>\<open>--no-verify-ssl\<close>,
  and otherwise the bundled roots and those of the file.
\<close>

definition ca_ok :: "'cert tls_env \<Rightarrow> string \<Rightarrow> (error, unit) result" where
  "ca_ok T path = and_then (client_roots T (Some path)) (\<lambda>_. Ok ())"

lemma add_roots_all: "add_roots add_root roots cs = Inr rs \<Longrightarrow> rs = roots @ cs"
  by (induction cs arbitrary: roots) (fastforce split: sum.splits)+

lemma client_roots_bundled: "client_roots T ca = Inr rs \<Longrightarrow> \<exists>cs. rs = te_bundled T @ cs"
  by (auto simp: client_roots_def and_then_eq_Inr split: option.splits dest: add_roots_all)

lemma s3_new_client:
  assumes "s3_new E shared_region (proxy_parse debug parse_web_url) (ca_ok T) opts = Inr (s, cfg)"
  shows "\<exists>proxy client. effective_proxy E (proxy_parse debug parse_web_url) opts = Inr proxy
    \<and> build_sdk_http_client T (op_no_verify_ssl opts) proxy (op_ca_certs_file opts) = Inr client
    \<and> hc_proxy client = proxy
    \<and> (if op_no_verify_ssl opts then hc_trust client = TrustAny else \<exists>cs. hc_trust client = TrustRoots (te_bundled T @ cs))"
proof -
  from assms obtain proxy u where p: "effective_proxy E (proxy_parse debug parse_web_url) opts = Inr proxy"
    and u: "(if (op_no_verify_ssl opts \<or> proxy \<noteq> None \<or> op_ca_certs_file opts \<noteq> None) \<and> \<not> op_no_verify_ssl opts
        then (case op_ca_certs_file opts of Some f \<Rightarrow> ca_ok T f | None \<Rightarrow> Ok ()) else Ok ()) = Inr u"
    unfolding s3_new_def Let_def and_then_eq_Inr by blast
  have ca: "ca_ok T f = Inr u" if "\<not> op_no_verify_ssl opts" "op_ca_certs_file opts = Some f" for f
    using u that by simp
  have "\<exists>rs. client_roots T (op_ca_certs_file opts) = Inr rs" if "\<not> op_no_verify_ssl opts"
    using ca [OF that] by (cases "op_ca_certs_file opts") (auto simp: ca_ok_def and_then_eq_Inr client_roots_def)
  then show ?thesis using p client_roots_bundled by (fastforce simp: build_sdk_http_client_def and_then_eq_Inr)
qed

end
