(* ===== verification/Spec2Isabelle.thy ===== *)
theory Spec2Isabelle
  imports Url_Paths Filters Mount Sync_Props Cp_Props Rm S3cfg Pipe Cat Ls Key_Tree Buckets Command Cli Fast_Server Stub Proxy
begin

text \<open>
  A verification of \<^verbatim>\<open>rs5cmd\<close>, a command line tool that copies, synchronises, lists and removes objects of
  S3 and files, mounts a bucket as a file system and runs batches of such commands.

  \<^bold>\<open>The program and its parts.\<close> \<^verbatim>\<open>src/main.rs\<close> parses the command line and calls the dispatcher
  (\<^verbatim>\<open>src/command/mod.rs\<close>), which completes the global flags from configuration files (\<^verbatim>\<open>src/s3cfg.rs\<close>) and runs
  one command of \<^verbatim>\<open>src/command\<close>. A command parses its operands into URLs (\<^verbatim>\<open>src/storage/url.rs\<close>, wildcards from
  \<^verbatim>\<open>src/strutil.rs\<close>), expands them by a listing, selects with include and exclude globs, and acts through one of
  two storage back ends, S3 (\<^verbatim>\<open>src/storage/s3.rs\<close>) or the local file system (\<^verbatim>\<open>src/storage/fs.rs\<close>), often with a
  bounded pool of workers and under a bandwidth cap (\<^verbatim>\<open>src/ratelimit.rs\<close>). The mount (\<^verbatim>\<open>src/mount\<close>) keeps an inode
  table, chunked readers and write-back cache files over the S3 back end and serves FUSE requests.
  With the feature \<^verbatim>\<open>fast\<close>, \<^verbatim>\<open>cp\<close> and \<^verbatim>\<open>mv\<close> have a second way to S3 (\<^verbatim>\<open>src/fastpath\<close>).

  \<^bold>\<open>The model.\<close> A Rust string is its UTF-8 bytes, a HOL string. Fallible code returns \<open>error + 'a\<close>; code
  with effects passes a world on, which holds the state of the S3 service, the local files and
  their modification times; listings and the mount add \<open>option\<close> for a listing that never
  ends. Integers are naturals or integers with the wrap-around of 64 bits written out where the
  code can reach it (\<open>u64_add\<close>, \<open>as_i64\<close>, \<open>i64_add\<close>), inode and handle numbers included. Code that is not in
  the repository is a parameter: the AWS SDK (\<open>sdk\<close>), the regex engine (\<open>regex_lib\<close>), what the operating
  system answers (\<open>env\<close>, \<open>local_view\<close>, \<open>tree_ops\<close>), the crates of the fast path (\<open>http_lib\<close>, \<open>transport\<close>), clap and
  others (\<open>app\<close>), clocks, the iteration order of hash maps and the order in which concurrent tasks
  finish. What the proofs need of them are the assumptions of locales or hypotheses that state
  documented behaviour.

  \<^bold>\<open>The theories.\<close>

  \<^item> \<open>Prelude\<close>, \<open>Text\<close>: results, string operations of Rust, UTF-8, 64-bit arithmetic, the fact collections
    \<open>str_simps\<close> and \<open>u64_simps\<close>, and the locale \<open>commuting_steps\<close> for operations that may be reordered.
  \<^item> \<open>Glob\<close>, \<open>Url\<close>, \<open>Url_Paths\<close>, \<open>Filters\<close>: wildcards over the locale \<open>regex_engine\<close>, which a reference engine
    interprets; URLs, their printing and matching; lexical paths; include and exclude globs. Matching
    is the glob relation, printing and parsing are inverse, \<open>clean_path\<close> gives a normal form, a join stays below
    its directory.
  \<^item> \<open>Ratelimit\<close>, \<open>Storage\<close>, \<open>Files\<close>: the token bucket and its throughput bound; errors, objects, options; the
    positioned reads and writes of a file.
  \<^item> \<open>S3_Client\<close>, \<open>S3_Transfer\<close>, \<open>S3_Service\<close>, \<open>S3_Memory\<close>, \<open>S3_Listing\<close>: the S3 back end. The locale \<open>s3_service\<close> states
    what S3 promises on objects and multipart uploads; over it, downloads, uploads and copies are
    exact in whatever order their parts complete. \<open>S3_Memory\<close> is a service in memory that interprets the
    locale. Listings are \<open>partial_function (option)\<close> loops over pages; the V1 listing is shown to end and to
    send each match once, and the two APIs agree.
  \<^item> \<open>Proxy\<close>: the HTTP client of the back end behind \<^verbatim>\<open>--proxy\<close>, \<^verbatim>\<open>--ca-certs-file\<close> and \<^verbatim>\<open>--no-verify-ssl\<close>. Over the locales
    \<open>peer_stream\<close> and \<open>healthy_peer\<close>, which sockets in memory interpret, a tunnel through an HTTP proxy starts
    right behind the head of the answer, which is read up to a bound.
  \<^item> \<open>Inode\<close>, \<open>Reader\<close>, \<open>Writer\<close>, \<open>Vfs\<close>, \<open>Vfs_Props\<close>, \<open>Vfs_Files\<close>, \<open>Vfs_Names\<close>, \<open>Fuse\<close>, \<open>Mount\<close>: the mount. Reachable states are
    inductive relations; the inode table is a bijection (interface \<open>inode_names\<close>), a reader over any
    \<open>ranged_object\<close> is exact within its memory budget, a written file reaches the bucket at release, a
    rename takes an open writer along, handles stay consistent over every sequence of requests, and
    a read-only mount changes nothing.
  \<^item> \<open>Local_Fs\<close>, \<open>Listed\<close>, \<open>Pool\<close>: the local back end and the choice of a back end; what a listing can contain
    (locale \<open>reading_service\<close>); the worker pool, any run of which is a sequential run of its tasks in some
    order.
  \<^item> \<open>Sync\<close>, \<open>Sync_Props\<close>, \<open>Cp\<close>, \<open>Cp_Props\<close>, \<open>Rm\<close>: the commands that change data. The partition loop of \<^verbatim>\<open>sync\<close> implements
    a declarative plan and its execution mirrors it; \<^verbatim>\<open>mv\<close> never loses bytes (locale \<open>framed_service\<close>), except
    onto itself; \<^verbatim>\<open>rm\<close> removes what was selected and nothing else (locale \<open>removing_service\<close>).
  \<^item> \<open>Console\<close>, \<open>Pipe\<close>, \<open>Cat\<close>, \<open>Ls\<close>, \<open>Key_Tree\<close>, \<open>Buckets\<close>: output, and the commands \<^verbatim>\<open>pipe\<close>, \<^verbatim>\<open>cat\<close>, \<^verbatim>\<open>select\<close>, \<^verbatim>\<open>du\<close>, \<^verbatim>\<open>ls\<close>, \<^verbatim>\<open>tree\<close>, \<^verbatim>\<open>mb\<close>, \<^verbatim>\<open>rb\<close>,
    \<^verbatim>\<open>bucket-version\<close>, \<^verbatim>\<open>head\<close>, \<^verbatim>\<open>presign\<close>, and the limit on open files: what they store, print and count.
  \<^item> \<open>S3cfg\<close>, \<open>Command\<close>, \<open>Cli\<close>: the configuration files and their import, the global flags and which setting wins,
    shell completion, the dispatcher over all commands, the \<^verbatim>\<open>run\<close> command and the exit code. The dotfile is
    read back as written; every line of a batch file is executed once.
  \<^item> \<open>Fast\<close>, \<open>Fast_Props\<close>, \<open>Fast_Server\<close>: the fast path, from signed requests to threads. Retries end, every transfer is
    performed once, a move deletes its source only after the bytes have arrived, and keys with a
    number sign reach another object. The locale \<open>object_server\<close> states what a server makes of the requests,
    an answer of which may be lost; a server in memory interprets it, and over it a run of the fast
    path refines the abstract transfers \<open>transfer_spec\<close> on files and objects.
  \<^item> \<open>Stub\<close>: the benchmark server \<^verbatim>\<open>src/bin/s3stub.rs\<close> on one connection. It ends on every input, and answers
    each well-formed request of a connection once, in order, whatever the framing of the bodies.

  \<^bold>\<open>Loops, fuel and bounds.\<close> Loops over data are structural or have a measure (workers and shards: the
  tasks left; retries: the attempts left; standard input: its bytes; path cleaning: the segments).
  No fuel is used: the page loops of a listing, which depend on the service, are partial functions
  whose value is \<open>None\<close> if they run forever, and a command that lists returns \<open>None\<close> then. Hypotheses such as
  \<open>length f < 2 ^ 63\<close> keep lengths within the machine integers of the code. Concurrent tasks take their effect
  when they finish, in an order that is a parameter; the interleaving of tasks at their single
  requests is not modelled.

  \<^bold>\<open>Not modelled.\<close> The adapters of \<^verbatim>\<open>src/storage/s3.rs\<close> that only forward to hyper and rustls,
  \<^verbatim>\<open>src/progress.rs\<close>, the FUSE session and signals, logging, the parsing of durations with floating-point numbers
  (\<^verbatim>\<open>parse_duration\<close> of \<^verbatim>\<open>presign\<close>, \<^verbatim>\<open>humantime_secs\<close> of \<^verbatim>\<open>mount\<close>), the formatting of times, the progress lines of \<^verbatim>\<open>cp\<close>, \<^verbatim>\<open>mv\<close>, \<^verbatim>\<open>rm\<close>, \<^verbatim>\<open>sync\<close>,
  \<^verbatim>\<open>pipe\<close> and \<^verbatim>\<open>import-s3cfg\<close>, \<^verbatim>\<open>capitalize_first_rune\<close> (Unicode case tables), and the listening socket and counters of \<^verbatim>\<open>src/bin/s3stub.rs\<close>.
\<close>

end
